(* ===== verification/Prelude.thy ===== *)
theory Prelude
  imports Complex_Main "HOL-Library.AList" "HOL-Library.Multiset" "HOL-Library.Sublist"
begin

text \<open>
  Shared vocabulary of the development: results (a thrown exception or a value), loops over
  results, the JavaScript \<open>Map\<close> and \<open>Array.prototype.sort\<close>, and the list facts the
  components use. Nothing here models a file of the repository; every theory builds on it.

  \<^item> A TypeScript function that may throw returns \<open>'e + 'a\<close>: \<open>Inl\<close> the exception, \<open>Inr\<close> the
    value. \<open>bind_res\<close> is sequencing, \<open>fold_res\<close> a \<open>for\<close> loop over a state whose body may throw.
  \<^item> A database transaction is a function from the store to \<open>'e + 'a \<times> store\<close>: a throw
    loses the new store, which is the rollback.
  \<^item> \<open>Prisma.Decimal\<close> and \<open>numeric(20,6)\<close> are \<open>rat\<close>, a \<open>bigint\<close> identifier is \<open>int\<close>.
\<close>

section \<open>Names of types\<close>

type_synonym id = int
type_synonym decimal = rat
type_synonym code = string

named_theorems res_simps \<open>equations that take a monadic result apart\<close>
named_theorems frame \<open>what an operation leaves unchanged\<close>
named_theorems preserves \<open>invariants an operation keeps\<close>

section \<open>Results\<close>

definition bind_res :: "'e + 'a \<Rightarrow> ('a \<Rightarrow> 'e + 'b) \<Rightarrow> 'e + 'b" where
  "bind_res m f = (case m of Inl e \<Rightarrow> Inl e | Inr x \<Rightarrow> f x)"

lemma bind_res_Inl [simp]: "bind_res (Inl e) f = Inl e"
  by (simp add: bind_res_def)

lemma bind_res_Inr [simp]: "bind_res (Inr x) f = f x"
  by (simp add: bind_res_def)

lemma bind_res_eq_Inr [res_simps]:
  "bind_res m f = Inr y \<longleftrightarrow> (\<exists>x. m = Inr x \<and> f x = Inr y)"
  by (cases m) auto

lemma bind_res_eq_Inl [res_simps]:
  "bind_res m f = Inl e \<longleftrightarrow> m = Inl e \<or> (\<exists>x. m = Inr x \<and> f x = Inl e)"
  by (cases m) auto

lemma bind_res_assoc: "bind_res (bind_res m f) g = bind_res m (\<lambda>x. bind_res (f x) g)"
  by (cases m) auto

text \<open>Reading the first returned row, or the row of a lookup.\<close>

lemma case_list_eq_Inr [res_simps]:
  "(case rows of [] \<Rightarrow> Inl e | r # rs \<Rightarrow> Inr (f r rs)) = Inr y \<longleftrightarrow>
     (\<exists>r rs. rows = r # rs \<and> f r rs = y)"
  by (cases rows) auto

lemma case_option_eq_Inr [res_simps]:
  "(case x of None \<Rightarrow> Inl e | Some v \<Rightarrow> Inr (g v)) = Inr y \<longleftrightarrow> (\<exists>v. x = Some v \<and> g v = y)"
  by (cases x) auto

lemma case_prod_eq_Inr [res_simps]:
  "(case p of (u, v) \<Rightarrow> h u v) = Inr y \<longleftrightarrow> (\<exists>u v. p = (u, v) \<and> h u v = Inr y)"
  by (cases p) auto

text \<open>A guard: \<open>if (!p) throw e\<close>.\<close>

definition guard_res :: "bool \<Rightarrow> 'e \<Rightarrow> 'e + unit" where
  "guard_res p e = (if p then Inr () else Inl e)"

lemma guard_res_simps [simp]:
  "guard_res True e = Inr ()" "guard_res False e = Inl e"
  by (simp_all add: guard_res_def)

lemma guard_res_eq [res_simps]:
  "guard_res p e = Inr u \<longleftrightarrow> p"
  "guard_res p e = Inl e' \<longleftrightarrow> \<not> p \<and> e' = e"
  by (auto simp: guard_res_def)

text \<open>A \<open>for\<close> loop whose body may throw.\<close>

fun fold_res :: "('a \<Rightarrow> 's \<Rightarrow> 'e + 's) \<Rightarrow> 'a list \<Rightarrow> 's \<Rightarrow> 'e + 's" where
  "fold_res f [] s = Inr s"
| "fold_res f (x # xs) s = bind_res (f x s) (fold_res f xs)"

text \<open>The loop invariant rule: what each successful iteration keeps, the loop keeps.\<close>

lemma fold_res_invariant:
  assumes "fold_res f xs s = Inr t" and "P s"
    and "\<And>x u v. x \<in> set xs \<Longrightarrow> f x u = Inr v \<Longrightarrow> P u \<Longrightarrow> P v"
  shows "P t"
  using assms
proof (induction xs arbitrary: s)
  case Nil
  then show ?case by simp
next
  case (Cons x xs)
  from Cons.prems(1) obtain u where u: "f x s = Inr u" "fold_res f xs u = Inr t"
    by (auto simp: res_simps)
  from u(1) Cons.prems(2,3) have "P u" by (auto intro: Cons.prems(3))
  with u(2) Cons.prems(3) show ?case by (intro Cons.IH) auto
qed

lemma fold_res_append:
  "fold_res f (xs @ ys) s = bind_res (fold_res f xs s) (fold_res f ys)"
proof (induction xs arbitrary: s)
  case Nil
  then show ?case by simp
next
  case (Cons x xs)
  then have "fold_res f (xs @ ys) = (\<lambda>u. bind_res (fold_res f xs u) (fold_res f ys))" by blast
  then show ?case by (simp add: bind_res_assoc)
qed

lemma fold_res_cong [fundef_cong]:
  "xs = ys \<Longrightarrow> s = t \<Longrightarrow> (\<And>x u. x \<in> set ys \<Longrightarrow> f x u = g x u) \<Longrightarrow>
   fold_res f xs s = fold_res g ys t"
proof (induction xs arbitrary: ys s t)
  case Nil
  then show ?case by simp
next
  case (Cons x xs)
  have "fold_res f xs u = fold_res g xs u" for u
    using Cons.prems by (intro Cons.IH) auto
  moreover have "f x s = g x s" using Cons.prems(1,3) by auto
  ultimately show ?case using Cons.prems(1,2) by (auto simp: bind_res_def split: sum.splits)
qed

text \<open>Every element has its iteration, with a run before and a run after it.\<close>

lemma fold_res_visits:
  assumes "fold_res f xs s = Inr t" and "x \<in> set xs"
  obtains u v pre post where "fold_res f pre s = Inr u" and "f x u = Inr v" and "fold_res f post v = Inr t"
    and "set pre \<subseteq> set xs" and "set post \<subseteq> set xs"
proof -
  from assms(2) obtain pre post where xs: "xs = pre @ x # post" by (auto simp: in_set_conv_decomp)
  with assms(1) show ?thesis using that by (auto simp: fold_res_append res_simps)
qed

text \<open>\<open>map\<close> over a function that may throw: the first exception wins.\<close>

fun map_res :: "('a \<Rightarrow> 'e + 'b) \<Rightarrow> 'a list \<Rightarrow> 'e + 'b list" where
  "map_res f [] = Inr []"
| "map_res f (x # xs) = bind_res (f x) (\<lambda>y. bind_res (map_res f xs) (\<lambda>ys. Inr (y # ys)))"

lemma map_res_Inr:
  "map_res f xs = Inr ys \<longleftrightarrow> list_all2 (\<lambda>x y. f x = Inr y) xs ys"
proof (induction xs arbitrary: ys)
  case Nil
  then show ?case by auto
next
  case (Cons x xs)
  then show ?case by (cases ys) (auto simp: res_simps)
qed

lemma map_res_length: "map_res f xs = Inr ys \<Longrightarrow> length ys = length xs"
  by (auto simp: map_res_Inr list_all2_lengthD)

text \<open>The row with a given key, where keys are unique.\<close>

lemma find_by_key: "distinct (map key xs) \<Longrightarrow> x \<in> set xs \<Longrightarrow> find (\<lambda>y. key y = key x) xs = Some x"
  by (induction xs) auto

lemma find_map_key: "(\<And>x. key (g x) = key x) \<Longrightarrow>
    find (\<lambda>x. key x = k) (map g xs) = map_option g (find (\<lambda>x. key x = k) xs)"
  by (induction xs) auto

lemma find_append: "find P (xs @ ys) = (case find P xs of None \<Rightarrow> find P ys | Some x \<Rightarrow> Some x)"
  by (induction xs) auto

lemma find_key: "find (\<lambda>x. key x = k) xs = Some x \<Longrightarrow> x \<in> set xs \<and> key x = k"
  by (induction xs) (auto split: if_splits)

section \<open>Identity columns\<close>

text \<open>The ids of a table's rows, in row order, and the next value of its sequence.\<close>

definition id_column :: "id \<Rightarrow> id list \<Rightarrow> bool" where
  "id_column next_id ids \<longleftrightarrow> sorted_wrt (<) ids \<and> list_all (\<lambda>i. i < next_id) ids"

lemma id_column_append [intro]: "id_column n ids \<Longrightarrow> id_column (n + 1) (ids @ [n])"
  by (auto simp: id_column_def sorted_wrt_append list_all_iff)

lemma id_column_fresh: "id_column n ids \<Longrightarrow> n \<notin> set ids"
  by (auto simp: id_column_def list_all_iff)

lemma id_column_distinct: "id_column n ids \<Longrightarrow> distinct ids"
  by (auto simp: id_column_def strict_sorted_iff)

end
