(* ===== verification/Api_Errors.thy ===== *)
theory Api_Errors
  imports Prelude
begin

text \<open>
  The exceptions of \<open>src/common/errors\<close> and the filter that turns them into a response.
  Messages (Korean prose for the screen) are not modelled; every code, status, scope, field and
  structured extra is. A thrown JavaScript \<open>Error\<close> is \<open>InternalError\<close>, an exception of the
  database driver is \<open>DbError\<close>.
\<close>

section \<open>Response bodies\<close>

text \<open>A JSON value. An object is its entries in order; \<open>spread\<close> is \<open>{ ...base, ...extra }\<close>, where a
  key of \<open>extra\<close> replaces the value of the same key of \<open>base\<close>.\<close>

datatype json =
    JNull
  | JBool bool
  | JNum decimal
  | JStr string
  | JArr "json list"
  | JObj "(string \<times> json) list"

definition spread :: "(string \<times> json) list \<Rightarrow> (string \<times> json) list \<Rightarrow> (string \<times> json) list" where
  "spread base extra = fold (\<lambda>(k, v) o'. AList.update k v o') extra base"

definition entry :: "string \<Rightarrow> ('a \<Rightarrow> json) \<Rightarrow> 'a option \<Rightarrow> (string \<times> json) list" where
  "entry key f v = (case v of None \<Rightarrow> [] | Some x \<Rightarrow> [(key, f x)])"

section \<open>Error items and exceptions\<close>

datatype error_scope = Field | Screen

record error_item =
  scope :: error_scope
  item_field :: "string option"
  item_code :: code
  uniqueScope :: "string list"

datatype ConflictCause = CauseUser | CauseErpSync | CauseWorkerLease

record ConflictExtra =
  extra_code :: "code option"
  currentVersion :: "string option"
  currentLotStatusCode :: "code option"
  conflictingLotId :: "id option"
  remainingQty :: "decimal option"
  remainingQtyUomId :: "id option"
  openSessions :: "json option"
  proposalChanges :: "json option"
  currentProposal :: "json option"

definition no_extra :: ConflictExtra where
  "no_extra = \<lparr>extra_code = None, currentVersion = None, currentLotStatusCode = None,
     conflictingLotId = None, remainingQty = None, remainingQtyUomId = None,
     openSessions = None, proposalChanges = None, currentProposal = None\<rparr>"

text \<open>The known errors of the driver: \<open>P2002\<close> with the columns of the violated index,
  \<open>P2003\<close> with the constraint and the model, \<open>P2025\<close>; and every other failure of a statement
  (a CHECK or trigger violation, any error of a raw query), which the filter does not know.\<close>

datatype prisma_error =
    P2002 "string list"
  | P2003 "string option" "string option"
  | P2025
  | OtherDriverError

datatype app_error =
    ContractException nat "error_item list" "(string \<times> json) list"
  | is_ConflictException: ConflictException ConflictCause ConflictExtra
  | HttpException nat
  | DbError prisma_error
  | InternalError

type_synonym 'a res = "app_error + 'a"

definition BAD_REQUEST :: nat where "BAD_REQUEST = 400"
definition FORBIDDEN :: nat where "FORBIDDEN = 403"
definition NOT_FOUND :: nat where "NOT_FOUND = 404"
definition CONFLICT :: nat where "CONFLICT = 409"
definition INTERNAL_SERVER_ERROR :: nat where "INTERNAL_SERVER_ERROR = 500"

definition screen_item :: "code \<Rightarrow> error_item" where
  "screen_item c = \<lparr>scope = Screen, item_field = None, item_code = c, uniqueScope = []\<rparr>"

definition field :: "string \<Rightarrow> code \<Rightarrow> error_item" where
  "field name c = \<lparr>scope = Field, item_field = Some name, item_code = c, uniqueScope = []\<rparr>"

definition one :: "error_item \<Rightarrow> app_error" where
  "one item = ContractException BAD_REQUEST [item] []"

definition badRequest :: "code \<Rightarrow> app_error" where
  "badRequest c = ContractException BAD_REQUEST [screen_item c] []"

text \<open>\<open>ERROR_CODE\<close> is the identity on its keys, so a code is its own name; the domain codes the
  models below use are written where they are thrown. \<open>error_codes\<close> is the table.\<close>

definition error_codes :: "code list" where
  "error_codes =
    [''REQUIRED'', ''RANGE'', ''INVALID'', ''PAIR'', ''UNIQUE_VIOLATION'', ''PERMISSION_DENIED'',
     ''STATE_LOCKED'', ''STALE_VERSION'', ''LAST_ADMIN'', ''LINE_REQUIRED'',
     ''CONFIRMED_VERSION_REQUIRED'', ''NOT_RETRYABLE'', ''NOT_YOUR_TURN'', ''ROUTE_NOT_FOUND'',
     ''ROUTE_AMBIGUOUS'', ''APPROVER_TYPE_NOT_SUPPORTED'', ''APPROVAL_IN_PROGRESS'',
     ''APPROVAL_REQUIRED'', ''SUCCESSOR_EXISTS'', ''QTY_EXCEEDS_ORDERED'',
     ''PLAN_QTY_EXCEEDS_ORDER'', ''BOM_NOT_DEFAULT'', ''NEGATIVE_BALANCE'', ''ALREADY_CANCELLED'',
     ''CANCEL_IN_PROGRESS'', ''TYPE_NOT_CANCELABLE'', ''ALREADY_CLOSED'', ''COUNT_REMAINING'',
     ''VARIANCE_UNADJUSTED'', ''OPEN_SESSION_EXISTS'', ''REMAINDER_DISPOSITION_REQUIRED'',
     ''REMAINDER_DISPOSITION_NOT_ALLOWED'', ''RECIPIENTS_NOT_ALLOWED'', ''RECIPIENT_LIMIT'',
     ''PLANT_MISMATCH'', ''LINE_DEPARTMENT_MISSING'', ''PRODUCTION_WAREHOUSE_MISSING'',
     ''PRODUCTION_FLOOR_LOCATION_MISSING'', ''PLANNED_STOCK_CONFLICT'', ''HOLIDAY_ACK_REQUIRED'']"

section \<open>From a driver error to a response\<close>

text \<open>\<open>camel\<close> is \<open>column.replace(/_([a-z0-9])/g, \<dots>)\<close>: an underscore before a lower-case letter
  or a digit disappears and the letter is capitalised; any other underscore stays.\<close>

definition is_lower_or_digit :: "char \<Rightarrow> bool" where
  "is_lower_or_digit c = (let n = of_char c :: nat in (97 \<le> n \<and> n \<le> 122) \<or> (48 \<le> n \<and> n \<le> 57))"

definition to_upper :: "char \<Rightarrow> char" where
  "to_upper c = (let n = of_char c :: nat in if 97 \<le> n \<and> n \<le> 122 then char_of (n - 32) else c)"

fun camel :: "string \<Rightarrow> string" where
  "camel [] = []"
| "camel [c] = [c]"
| "camel (c # d # cs) =
     (if c = CHR ''_'' \<and> is_lower_or_digit d then to_upper d # camel cs else c # camel (d # cs))"

definition strip_suffix :: "string \<Rightarrow> string \<Rightarrow> string" where
  "strip_suffix suf s = take (length s - length suf) s"

text \<open>\<open>constraint.slice(prefix.length, -suffix.length)\<close>.\<close>

definition fkField :: "string option \<Rightarrow> string option \<Rightarrow> string option" where
  "fkField constraint modelName =
     (case (constraint, modelName) of
        (Some c, Some m) \<Rightarrow>
          (let pre = m @ ''_''; suf = ''_fkey'' in
           if \<not> prefix pre c \<or> \<not> suffix suf c then None
           else let column = drop (length pre) (strip_suffix suf c)
                in if column = [] then None else Some (camel column))
      | _ \<Rightarrow> None)"

definition db_bad_request :: "string option \<Rightarrow> code \<Rightarrow> string list \<Rightarrow> nat \<times> error_item list" where
  "db_bad_request fld c us =
     (BAD_REQUEST,
      [case fld of
         None \<Rightarrow> \<lparr>scope = Screen, item_field = None, item_code = c, uniqueScope = us\<rparr>
       | Some f \<Rightarrow> \<lparr>scope = Field, item_field = Some f, item_code = c, uniqueScope = us\<rparr>])"

fun prismaErrorResponse :: "prisma_error \<Rightarrow> (nat \<times> error_item list) option" where
  "prismaErrorResponse (P2003 constraint modelName) =
     Some (db_bad_request (fkField constraint modelName) ''INVALID'' [])"
| "prismaErrorResponse (P2002 target) =
     (let us = map camel target in
      Some (db_bad_request (if length us = 1 then Some (us ! 0) else None) ''UNIQUE_VIOLATION'' us))"
| "prismaErrorResponse P2025 = Some (NOT_FOUND, [screen_item ''NOT_FOUND''])"
| "prismaErrorResponse OtherDriverError = None"

section \<open>The filter\<close>

text \<open>\<open>HttpStatus[status]\<close>, the reverse mapping of the enum, on the statuses the code uses.\<close>

definition http_status_name :: "nat \<Rightarrow> code" where
  "http_status_name s =
     (case map_of [(400, ''BAD_REQUEST''), (401, ''UNAUTHORIZED''), (403, ''FORBIDDEN''),
                   (404, ''NOT_FOUND''), (409, ''CONFLICT''), (413, ''PAYLOAD_TOO_LARGE''),
                   (422, ''UNPROCESSABLE_ENTITY''), (500, ''INTERNAL_SERVER_ERROR''),
                   (503, ''SERVICE_UNAVAILABLE'')] s of
        Some n \<Rightarrow> n | None \<Rightarrow> ''ERROR'')"

fun toErrorResponse :: "app_error \<Rightarrow> nat \<times> error_item list" where
  "toErrorResponse (ContractException s errs extra) = (s, errs)"
| "toErrorResponse (ConflictException c x) = (CONFLICT, [screen_item (http_status_name CONFLICT)])"
| "toErrorResponse (HttpException s) = (s, [screen_item (http_status_name s)])"
| "toErrorResponse (DbError p) =
     (case prismaErrorResponse p of
        Some r \<Rightarrow> r
      | None \<Rightarrow> (INTERNAL_SERVER_ERROR, [screen_item ''INTERNAL_ERROR'']))"
| "toErrorResponse InternalError = (INTERNAL_SERVER_ERROR, [screen_item ''INTERNAL_ERROR''])"

text \<open>The two envelopes: \<open>ConflictResponse\<close> and \<open>ErrorResponse\<close>, without the messages.\<close>

definition cause_name :: "ConflictCause \<Rightarrow> string" where
  "cause_name c = (case c of CauseUser \<Rightarrow> ''user'' | CauseErpSync \<Rightarrow> ''erpSync'' | CauseWorkerLease \<Rightarrow> ''workerLease'')"

definition conflict_entries :: "ConflictExtra \<Rightarrow> (string \<times> json) list" where
  "conflict_entries x =
     entry ''code'' JStr (extra_code x) @ entry ''currentVersion'' JStr (currentVersion x) @
     entry ''currentLotStatusCode'' JStr (currentLotStatusCode x) @
     entry ''conflictingLotId'' (\<lambda>i. JNum (of_int i)) (conflictingLotId x) @
     entry ''remainingQty'' JNum (remainingQty x) @
     entry ''remainingQtyUomId'' (\<lambda>i. JNum (of_int i)) (remainingQtyUomId x) @
     entry ''openSessions'' id (openSessions x) @ entry ''proposalChanges'' id (proposalChanges x) @
     entry ''currentProposal'' id (currentProposal x)"

definition item_json :: "error_item \<Rightarrow> json" where
  "item_json it =
     JObj ([(''scope'', JStr (case scope it of Field \<Rightarrow> ''field'' | Screen \<Rightarrow> ''screen''))] @
           entry ''field'' JStr (item_field it) @ [(''code'', JStr (item_code it))] @
           (if uniqueScope it = [] then [] else [(''uniqueScope'', JArr (map JStr (uniqueScope it)))]))"

definition exception_extra :: "app_error \<Rightarrow> (string \<times> json) list" where
  "exception_extra e = (case e of ContractException s errs extra \<Rightarrow> extra | _ \<Rightarrow> [])"

text \<open>\<open>ErrorResponseFilter.catch\<close>: the status and the body of the response.\<close>

fun error_filter :: "app_error \<Rightarrow> nat \<times> (string \<times> json) list" where
  "error_filter (ConflictException c x) =
     (CONFLICT, spread [(''conflictCause'', JStr (cause_name c))] (conflict_entries x))"
| "error_filter e =
     (let r = toErrorResponse e in
      (fst r, spread [(''errors'', JArr (map item_json (snd r)))] (exception_extra e)))"

section \<open>Lemmas\<close>

lemma map_of_spread:
  "map_of (spread base extra) k = (case map_of (rev extra) k of Some v \<Rightarrow> Some v | None \<Rightarrow> map_of base k)"
  unfolding spread_def
proof (induction extra arbitrary: base)
  case Nil
  then show ?case by simp
next
  case (Cons p extra)
  obtain a v where p: "p = (a, v)" by (cases p)
  show ?case by (auto simp: Cons.IH p update_conv map_add_def split: option.splits)
qed

lemma conflict_entries_keys:
  "map_of (rev (conflict_entries x)) ''errors'' = None"
  "map_of (rev (conflict_entries x)) ''conflictCause'' = None"
  by (auto simp: map_of_eq_None_iff conflict_entries_def entry_def split: option.splits)

section \<open>Properties\<close>

text \<open>Every failure leaves through one of two envelopes and never through both. A
  \<open>ConflictException\<close> is a 409 whose body has \<open>conflictCause\<close> and no \<open>errors\<close>; anything else has
  \<open>errors\<close> and no \<open>conflictCause\<close>, whatever extra entries the thrower attached under other names.\<close>
lemma two_envelopes:
  assumes "''errors'' \<notin> fst ` set (exception_extra e)"
    and "''conflictCause'' \<notin> fst ` set (exception_extra e)"
  shows "(is_ConflictException e \<longleftrightarrow> map_of (snd (error_filter e)) ''conflictCause'' \<noteq> None) \<and>
    (is_ConflictException e \<longleftrightarrow> map_of (snd (error_filter e)) ''errors'' = None)"
proof (cases "is_ConflictException e")
  case True
  then obtain c x where "e = ConflictException c x" by (cases e) simp_all
  then show ?thesis by (simp add: map_of_spread conflict_entries_keys)
next
  case False
  have "map_of (rev (exception_extra e)) ''errors'' = None"
    and "map_of (rev (exception_extra e)) ''conflictCause'' = None"
    using assms by (simp_all add: map_of_eq_None_iff)
  with False show ?thesis by (cases e) (simp_all add: map_of_spread Let_def)
qed

lemma two_envelopes_example:
  "map_of (snd (error_filter (ContractException 400 [] [(''plannedStockConflicts'', JArr [])]))) ''errors'' \<noteq> None"
  using two_envelopes [of "ContractException 400 [] [(''plannedStockConflicts'', JArr [])]"]
  by (simp add: exception_extra_def)

text \<open>A foreign key violation names the input: for a constraint with the driver's default name
  \<open>model_column_fkey\<close>, the response is a 400 whose only error is \<open>INVALID\<close> on the field \<open>camel column\<close>,
  also when the model's name ends, or the column begins, with an underscore.\<close>
lemma fk_violation_names_field:
  assumes "column \<noteq> []"
  shows "error_filter (DbError (P2003 (Some (m @ ''_'' @ column @ ''_fkey'')) (Some m))) =
    (BAD_REQUEST, [(''errors'', JArr [item_json (field (camel column) ''INVALID'')])])"
proof -
  have "suffix ''_fkey'' (m @ ''_'' @ column @ ''_fkey'')" by (simp add: suffix_def)
  moreover have "prefix (m @ ''_'') (m @ ''_'' @ column @ ''_fkey'')" by simp
  moreover have "drop (length (m @ ''_'')) (strip_suffix ''_fkey'' (m @ ''_'' @ column @ ''_fkey'')) = column"
    by (simp add: strip_suffix_def)
  ultimately have "fkField (Some (m @ ''_'' @ column @ ''_fkey'')) (Some m) = Some (camel column)"
    using assms by (simp add: fkField_def Let_def)
  then show ?thesis
    by (simp add: Let_def db_bad_request_def field_def spread_def exception_extra_def)
qed

lemma fk_violation_names_field_example:
  "error_filter (DbError (P2003 (Some ''mold_plant_id_fkey'') (Some ''mold''))) =
    (400, [(''errors'', JArr [item_json (field ''plantId'' ''INVALID'')])])"
proof -
  have "camel ''plant_id'' = ''plantId''" by code_simp
  then show ?thesis using fk_violation_names_field [of "''plant_id''" "''mold''"] by (simp add: BAD_REQUEST_def)
qed

end
