(* ===== verification/Transition_Tables.thy ===== *)
theory Transition_Tables
  imports Api_Errors
begin

text \<open>
  The transition tables of \<open>src/core/document-state/transitions.ts\<close>: for each status column
  (\<open>schema.table.column\<close>) its actions, and for each action the statuses it may start from, the
  status it leads to, the history code it writes and the contract operation that opens it. One
  definition per column, in the order of the source; \<open>TRANSITIONS\<close> is the registry.
\<close>

section \<open>Types\<close>

record Transition =
  tr_from :: "code list"
  tr_to :: code
  transitionCode :: "code option"
  sourceOperation :: string

type_synonym StateColumn = string
type_synonym ActionName = string
type_synonym actions = "(ActionName \<times> Transition) list"
type_synonym TransitionRegistry = "(StateColumn \<times> actions) list"

section \<open>The columns\<close>

definition DOCUMENT_CANCEL_ACTIONS :: actions where
  "DOCUMENT_CANCEL_ACTIONS =
    [(''document-request-cancel'',
       \<lparr>tr_from = [''REGISTERED'', ''POSTED''], tr_to = ''CANCEL_REQUESTED'',
        transitionCode = None,
        sourceOperation = ''POST /logistics/document-progress/{documentTypeCode}/{documentId}:request-cancel''\<rparr>),
     (''document-cancel'',
       \<lparr>tr_from = [''CANCEL_REQUESTED''], tr_to = ''CANCELLED'',
        transitionCode = None,
        sourceOperation = ''POST /logistics/document-progress/{documentTypeCode}/{documentId}:cancel''\<rparr>)]"

definition equipment_actions :: actions where
  "equipment_actions =
    [(''equipment-dispose'',
       \<lparr>tr_from = [''IN_SERVICE''], tr_to = ''DISPOSED'',
        transitionCode = None,
        sourceOperation = ''POST /mdm/equipments/{equipmentId}:dispose''\<rparr>)]"

definition mold_actions :: actions where
  "mold_actions =
    [(''mold-dispose'',
       \<lparr>tr_from = [''IN_SERVICE''], tr_to = ''DISPOSED'',
        transitionCode = None,
        sourceOperation = ''POST /mdm/molds/{moldId}:dispose''\<rparr>)]"

definition routing_actions :: actions where
  "routing_actions =
    [(''routing-confirm'',
       \<lparr>tr_from = [''DRAFT''], tr_to = ''CONFIRMED'',
        transitionCode = None,
        sourceOperation = ''POST /planning/routings/{routingId}:confirm''\<rparr>),
     (''routing-obsolete'',
       \<lparr>tr_from = [''CONFIRMED''], tr_to = ''OBSOLETE'',
        transitionCode = None,
        sourceOperation = ''POST /planning/routings/{routingId}:obsolete''\<rparr>)]"

definition production_plan_actions :: actions where
  "production_plan_actions =
    [(''plan-confirm'',
       \<lparr>tr_from = [''DRAFT''], tr_to = ''CONFIRMED'',
        transitionCode = None,
        sourceOperation = ''POST /planning/production-plans/{productionPlanId}:confirm''\<rparr>)]"

definition lot_lifecycle_actions :: actions where
  "lot_lifecycle_actions =
    [(''production-result-recorded'',
       \<lparr>tr_from = [''WAITING''], tr_to = ''ACTIVE'',
        transitionCode = Some ''L1'',
        sourceOperation = ''POST /production/production-results''\<rparr>),
     (''work-order-close'',
       \<lparr>tr_from = [''WAITING''], tr_to = ''VOIDED'',
        transitionCode = Some ''L2'',
        sourceOperation = ''POST /production/work-orders/{workOrderId}:close''\<rparr>),
     (''work-order-cancel'',
       \<lparr>tr_from = [''WAITING'', ''ACTIVE''], tr_to = ''VOIDED'',
        transitionCode = Some ''L3'',
        sourceOperation = ''POST /production/work-orders/{workOrderId}:cancel''\<rparr>)]"

definition inspection_result_actions :: actions where
  "inspection_result_actions =
    [(''inspection-confirm'',
       \<lparr>tr_from = [''DRAFT''], tr_to = ''CONFIRMED'',
        transitionCode = None,
        sourceOperation = ''POST /quality/inspection-results/{inspectionResultId}:confirm''\<rparr>)]"

definition lot_status_actions :: actions where
  "lot_status_actions =
    [(''inspection-accepted'',
       \<lparr>tr_from = [''NORMAL'', ''INSPECTION_PENDING''], tr_to = ''NORMAL'',
        transitionCode = Some ''C4'',
        sourceOperation = ''POST /quality/inspection-results/{inspectionResultId}:confirm''\<rparr>),
     (''inspection-held'',
       \<lparr>tr_from = [''NORMAL'', ''INSPECTION_PENDING''], tr_to = ''INSPECTION_PENDING'',
        transitionCode = Some ''C5'',
        sourceOperation = ''POST /quality/inspection-results/{inspectionResultId}:confirm''\<rparr>),
     (''inspection-rejected'',
       \<lparr>tr_from = [''NORMAL'', ''INSPECTION_PENDING''], tr_to = ''DEFECTIVE'',
        transitionCode = Some ''C6'',
        sourceOperation = ''POST /quality/inspection-results/{inspectionResultId}:confirm''\<rparr>),
     (''pqc-acceptance-exceeded'',
       \<lparr>tr_from = [''NORMAL'', ''INSPECTION_PENDING''], tr_to = ''INSPECTION_PENDING'',
        transitionCode = Some ''C14'',
        sourceOperation = ''POST /quality/inspection-results/{inspectionResultId}:confirm''\<rparr>),
     (''lot-hold-release-accepted'',
       \<lparr>tr_from = [''INSPECTION_PENDING''], tr_to = ''NORMAL'',
        transitionCode = Some ''C7'',
        sourceOperation = ''POST /quality/lot-holds/{lotHoldId}:release''\<rparr>),
     (''lot-hold-release-rejected'',
       \<lparr>tr_from = [''INSPECTION_PENDING''], tr_to = ''DEFECTIVE'',
        transitionCode = Some ''C8'',
        sourceOperation = ''POST /quality/lot-holds/{lotHoldId}:release''\<rparr>),
     (''lot-hold-claim'',
       \<lparr>tr_from = [''NORMAL''], tr_to = ''DEFECTIVE'',
        transitionCode = Some ''C9'',
        sourceOperation = ''POST /quality/lot-holds''\<rparr>),
     (''lot-hold-suspect'',
       \<lparr>tr_from = [''NORMAL'', ''INSPECTION_PENDING''], tr_to = ''INSPECTION_PENDING'',
        transitionCode = Some ''C10'',
        sourceOperation = ''POST /quality/lot-holds''\<rparr>),
     (''stock-reinstate'',
       \<lparr>tr_from = [''DEFECTIVE'', ''NORMAL'', ''INSPECTION_PENDING''], tr_to = ''NORMAL'',
        transitionCode = Some ''C20'',
        sourceOperation = ''POST /logistics/stock-reinstatements''\<rparr>),
     (''inspection-not-required'',
       \<lparr>tr_from = [''INSPECTION_PENDING''], tr_to = ''NORMAL'',
        transitionCode = Some ''C21'',
        sourceOperation = ''POST /production/production-results''\<rparr>),
     (''iqc-skipped'',
       \<lparr>tr_from = [''INSPECTION_PENDING''], tr_to = ''NORMAL'',
        transitionCode = Some ''C22'',
        sourceOperation = ''POST /trace/lots/{lotId}:skip-iqc''\<rparr>),
     (''pqc-skipped'',
       \<lparr>tr_from = [''INSPECTION_PENDING''], tr_to = ''NORMAL'',
        transitionCode = Some ''C26'',
        sourceOperation = ''POST /production/production-results''\<rparr>),
     (''oqc-skipped'',
       \<lparr>tr_from = [''NORMAL''], tr_to = ''NORMAL'',
        transitionCode = Some ''C27'',
        sourceOperation = ''POST /logistics/shipment-requests/{shipmentRequestId}:skip-oqc''\<rparr>),
     (''pqc-skip-approved'',
       \<lparr>tr_from = [''INSPECTION_PENDING''], tr_to = ''NORMAL'',
        transitionCode = Some ''C28'',
        sourceOperation = ''POST /production/work-orders/{workOrderId}:skip-pqc''\<rparr>),
     (''disposition-rework'',
       \<lparr>tr_from = [''NORMAL'', ''INSPECTION_PENDING'', ''DEFECTIVE''], tr_to = ''INSPECTION_PENDING'',
        transitionCode = Some ''C17'',
        sourceOperation = ''POST /quality/nonconformances/{nonconformanceId}/disposition-decisions''\<rparr>),
     (''disposition-scrap'',
       \<lparr>tr_from = [''NORMAL'', ''INSPECTION_PENDING'', ''DEFECTIVE''], tr_to = ''SCRAPPED'',
        transitionCode = Some ''C18'',
        sourceOperation = ''POST /quality/nonconformances/{nonconformanceId}/disposition-decisions''\<rparr>),
     (''disposition-normal'',
       \<lparr>tr_from = [''NORMAL'', ''INSPECTION_PENDING'', ''DEFECTIVE''], tr_to = ''NORMAL'',
        transitionCode = Some ''C19'',
        sourceOperation = ''POST /quality/nonconformances/{nonconformanceId}/disposition-decisions''\<rparr>),
     (''disposition-sort'',
       \<lparr>tr_from = [''NORMAL'', ''INSPECTION_PENDING'', ''DEFECTIVE''], tr_to = ''NORMAL'',
        transitionCode = Some ''C23'',
        sourceOperation = ''POST /quality/nonconformances/{nonconformanceId}/disposition-decisions''\<rparr>),
     (''disposition-sort-defect'',
       \<lparr>tr_from = [''NORMAL'', ''INSPECTION_PENDING'', ''DEFECTIVE''], tr_to = ''DEFECTIVE'',
        transitionCode = Some ''C24'',
        sourceOperation = ''POST /quality/nonconformances/{nonconformanceId}/disposition-decisions''\<rparr>),
     (''concession-apply'',
       \<lparr>tr_from = [''NORMAL'', ''INSPECTION_PENDING'', ''DEFECTIVE''], tr_to = ''NORMAL'',
        transitionCode = Some ''C25'',
        sourceOperation = ''POST /quality/concessions/{concessionId}:apply''\<rparr>)]"

definition nonconformance_actions :: actions where
  "nonconformance_actions =
    [(''nonconformance-request-disposition'',
       \<lparr>tr_from = [''NOT_REQUESTED''], tr_to = ''PENDING_DECISION'',
        transitionCode = None,
        sourceOperation = ''POST /quality/nonconformances/{nonconformanceId}:request-disposition''\<rparr>),
     (''nonconformance-decide'',
       \<lparr>tr_from = [''PENDING_DECISION''], tr_to = ''DECIDED'',
        transitionCode = None,
        sourceOperation = ''POST /quality/nonconformances/{nonconformanceId}/disposition-decisions''\<rparr>)]"

definition work_order_actions :: actions where
  "work_order_actions =
    [(''work-order-release'',
       \<lparr>tr_from = [''PLANNED'', ''CONFIRMED''], tr_to = ''RELEASED'',
        transitionCode = None,
        sourceOperation = ''POST /production/work-orders/{workOrderId}:release''\<rparr>),
     (''work-order-hold'',
       \<lparr>tr_from = [''RELEASED'', ''IN_PROGRESS''], tr_to = ''SUSPENDED'',
        transitionCode = None,
        sourceOperation = ''POST /production/work-orders/{workOrderId}:hold''\<rparr>),
     (''work-order-resume'',
       \<lparr>tr_from = [''SUSPENDED''], tr_to = ''IN_PROGRESS'',
        transitionCode = None,
        sourceOperation = ''POST /production/work-orders/{workOrderId}:resume''\<rparr>),
     (''work-order-close'',
       \<lparr>tr_from = [''COMPLETED'', ''IN_PROGRESS'', ''SUSPENDED''], tr_to = ''CLOSED'',
        transitionCode = None,
        sourceOperation = ''POST /production/work-orders/{workOrderId}:close''\<rparr>),
     (''work-order-cancel'',
       \<lparr>tr_from = [''PLANNED'', ''CONFIRMED'', ''RELEASED'', ''IN_PROGRESS'', ''SUSPENDED''], tr_to = ''CANCELLED'',
        transitionCode = None,
        sourceOperation = ''POST /production/work-orders/{workOrderId}:cancel''\<rparr>),
     (''work-session-start'',
       \<lparr>tr_from = [''RELEASED'', ''IN_PROGRESS''], tr_to = ''IN_PROGRESS'',
        transitionCode = None,
        sourceOperation = ''POST /production/work-sessions''\<rparr>)]"

definition work_session_actions :: actions where
  "work_session_actions =
    [(''work-session-stop'',
       \<lparr>tr_from = [''RUNNING''], tr_to = ''STOPPED'',
        transitionCode = None,
        sourceOperation = ''POST /production/work-sessions/{workSessionId}/events''\<rparr>),
     (''work-session-resume'',
       \<lparr>tr_from = [''STOPPED''], tr_to = ''RUNNING'',
        transitionCode = None,
        sourceOperation = ''POST /production/work-sessions/{workSessionId}/events''\<rparr>),
     (''work-session-end'',
       \<lparr>tr_from = [''RUNNING'', ''STOPPED''], tr_to = ''ENDED'',
        transitionCode = None,
        sourceOperation = ''POST /production/work-sessions/{workSessionId}:end''\<rparr>)]"

definition approval_request_actions :: actions where
  "approval_request_actions =
    [(''approval-approve'',
       \<lparr>tr_from = [''PENDING''], tr_to = ''APPROVED'',
        transitionCode = None,
        sourceOperation = ''POST /app/approval-requests/{approvalRequestId}:approve''\<rparr>),
     (''approval-reject'',
       \<lparr>tr_from = [''PENDING''], tr_to = ''REJECTED'',
        transitionCode = None,
        sourceOperation = ''POST /app/approval-requests/{approvalRequestId}:reject''\<rparr>)]"

definition goods_issue_actions :: actions where
  "goods_issue_actions =
    [(''document-post'',
       \<lparr>tr_from = [''REGISTERED''], tr_to = ''POSTED'',
        transitionCode = None,
        sourceOperation = ''POST /logistics/goods-issues/{goodsIssueId}:post''\<rparr>)] @ DOCUMENT_CANCEL_ACTIONS"

definition picking_order_actions :: actions where
  "picking_order_actions =
    [(''picking-cancel'',
       \<lparr>tr_from = [''REGISTERED''], tr_to = ''CANCELLED'',
        transitionCode = None,
        sourceOperation = ''POST /logistics/material-issue-requests/{materialIssueRequestId}:cancel''\<rparr>),
     (''picking-issue'',
       \<lparr>tr_from = [''REGISTERED''], tr_to = ''POSTED'',
        transitionCode = None,
        sourceOperation = ''POST /logistics/goods-issues''\<rparr>)]"

definition material_issue_request_actions :: actions where
  "material_issue_request_actions =
    [(''material-issue-request-release'',
       \<lparr>tr_from = [''WAITING''], tr_to = ''REGISTERED'',
        transitionCode = None,
        sourceOperation = ''POST /production/work-orders/{workOrderId}:release''\<rparr>),
     (''material-issue-request-postpone'',
       \<lparr>tr_from = [''REGISTERED''], tr_to = ''WAITING'',
        transitionCode = None,
        sourceOperation = ''PUT /logistics/material-issue-requests/{materialIssueRequestId}''\<rparr>),
     (''material-issue-request-cancel'',
       \<lparr>tr_from = [''WAITING'', ''REGISTERED''], tr_to = ''CANCELLED'',
        transitionCode = None,
        sourceOperation = ''POST /logistics/material-issue-requests/{materialIssueRequestId}:cancel''\<rparr>),
     (''material-issue-request-issue'',
       \<lparr>tr_from = [''REGISTERED''], tr_to = ''POSTED'',
        transitionCode = None,
        sourceOperation = ''POST /logistics/goods-issues''\<rparr>)]"

definition inbound_receipt_actions :: actions where
  "inbound_receipt_actions =
    DOCUMENT_CANCEL_ACTIONS"

definition goods_receipt_actions :: actions where
  "goods_receipt_actions =
    DOCUMENT_CANCEL_ACTIONS"

definition breakdown_actions :: actions where
  "breakdown_actions =
    [(''breakdown-start-handling'',
       \<lparr>tr_from = [''RECEIVED''], tr_to = ''HANDLING'',
        transitionCode = None,
        sourceOperation = ''POST /maintenance/breakdowns/{breakdownId}:start-handling''\<rparr>),
     (''breakdown-complete'',
       \<lparr>tr_from = [''RECEIVED'', ''HANDLING''], tr_to = ''DONE'',
        transitionCode = None,
        sourceOperation = ''POST /maintenance/breakdowns/{breakdownId}:complete''\<rparr>)]"

definition maintenance_order_actions :: actions where
  "maintenance_order_actions =
    [(''maintenance-order-cancel'',
       \<lparr>tr_from = [''ISSUED''], tr_to = ''CANCELLED'',
        transitionCode = None,
        sourceOperation = ''POST /maintenance/orders/{maintenanceOrderId}:cancel''\<rparr>)]"

definition stock_transfer_actions :: actions where
  "stock_transfer_actions =
    [(''transfer-arrive'',
       \<lparr>tr_from = [''REGISTERED''], tr_to = ''POSTED'',
        transitionCode = None,
        sourceOperation = ''POST /logistics/stock-transfers/{stockTransferId}:arrive''\<rparr>)]"

definition putaway_task_actions :: actions where
  "putaway_task_actions =
    [(''putaway-complete'',
       \<lparr>tr_from = [''PENDING''], tr_to = ''COMPLETED'',
        transitionCode = None,
        sourceOperation = ''POST /logistics/putaway-tasks/{putawayTaskId}:complete''\<rparr>),
     (''putaway-complete-temporary'',
       \<lparr>tr_from = [''PENDING''], tr_to = ''COMPLETED_TEMPORARY'',
        transitionCode = None,
        sourceOperation = ''POST /logistics/putaway-tasks/{putawayTaskId}:complete-temporary''\<rparr>)]"

definition inventory_adjustment_actions :: actions where
  "inventory_adjustment_actions =
    [(''document-post'',
       \<lparr>tr_from = [''REGISTERED''], tr_to = ''POSTED'',
        transitionCode = None,
        sourceOperation = ''POST /inventory/adjustments/{inventoryAdjustmentId}:post''\<rparr>)]"

definition shipment_actions :: actions where
  "shipment_actions =
    [(''shipment-confirm'',
       \<lparr>tr_from = [''UNCONFIRMED''], tr_to = ''CONFIRMED'',
        transitionCode = None,
        sourceOperation = ''POST /logistics/shipments/{shipmentId}:confirm''\<rparr>),
     (''shipment-cancel'',
       \<lparr>tr_from = [''UNCONFIRMED''], tr_to = ''CANCELLED'',
        transitionCode = None,
        sourceOperation = ''POST /logistics/shipments/{shipmentId}:cancel''\<rparr>)]"

section \<open>The registry\<close>

definition TRANSITIONS :: TransitionRegistry where
  "TRANSITIONS =
    [(''mdm.equipment.status_code'', equipment_actions),
     (''mdm.mold.status_code'', mold_actions),
     (''planning.routing.status_code'', routing_actions),
     (''planning.production_plan.status_code'', production_plan_actions),
     (''trace.lot.lifecycle_status_code'', lot_lifecycle_actions),
     (''quality.inspection_result.status_code'', inspection_result_actions),
     (''trace.lot.status_code'', lot_status_actions),
     (''quality.nonconformance.status_code'', nonconformance_actions),
     (''production.work_order.status_code'', work_order_actions),
     (''production.work_session.status_code'', work_session_actions),
     (''app.approval_request.status_code'', approval_request_actions),
     (''logistics.goods_issue.status_code'', goods_issue_actions),
     (''logistics.picking_order.status_code'', picking_order_actions),
     (''logistics.material_issue_request.status_code'', material_issue_request_actions),
     (''logistics.inbound_receipt.status_code'', inbound_receipt_actions),
     (''logistics.goods_receipt.status_code'', goods_receipt_actions),
     (''maintenance.breakdown.status_code'', breakdown_actions),
     (''maintenance.maintenance_order.status_code'', maintenance_order_actions),
     (''logistics.stock_transfer.status_code'', stock_transfer_actions),
     (''logistics.putaway_task.status_code'', putaway_task_actions),
     (''inventory.inventory_adjustment.status_code'', inventory_adjustment_actions),
     (''logistics.shipment.status_code'', shipment_actions)]"

text \<open>The tables unfolded: one bundle for the proofs that evaluate them.\<close>

lemmas transition_tables = TRANSITIONS_def DOCUMENT_CANCEL_ACTIONS_def
    equipment_actions_def
    mold_actions_def
    routing_actions_def
    production_plan_actions_def
    lot_lifecycle_actions_def
    inspection_result_actions_def
    lot_status_actions_def
    nonconformance_actions_def
    work_order_actions_def
    work_session_actions_def
    approval_request_actions_def
    goods_issue_actions_def
    picking_order_actions_def
    material_issue_request_actions_def
    inbound_receipt_actions_def
    goods_receipt_actions_def
    breakdown_actions_def
    maintenance_order_actions_def
    stock_transfer_actions_def
    putaway_task_actions_def
    inventory_adjustment_actions_def
    shipment_actions_def

end
