(* ===== verification/Document_State.thy ===== *)
theory Document_State
  imports Transition_Tables
begin

text \<open>
  \<open>DocumentStateService\<close> of \<open>src/core/document-state/document-state.service.ts\<close> and what its tables
  allow. \<open>assertTransition\<close> is the method, with each of its three outcomes; \<open>axis_step\<close> is the
  status graph of one column. The locale \<open>status_axis\<close> holds what is true of every column whose
  action names are distinct, \<open>ranked_axis\<close> of every column whose steps only go forward; both are
  interpreted on the columns of the registry.
\<close>

section \<open>The service\<close>

definition find_transition :: "TransitionRegistry \<Rightarrow> StateColumn \<Rightarrow> ActionName \<Rightarrow> Transition option" where
  "find_transition registry column action =
     (case map_of registry column of None \<Rightarrow> None | Some actions \<Rightarrow> map_of actions action)"

definition assertTransition ::
  "TransitionRegistry \<Rightarrow> StateColumn \<Rightarrow> ActionName \<Rightarrow> code \<Rightarrow> nat \<Rightarrow> Transition res" where
  "assertTransition registry column action currentStatus conflictStatus =
     (case find_transition registry column action of
        None \<Rightarrow> Inl InternalError
      | Some transition \<Rightarrow>
          if currentStatus \<notin> set (tr_from transition) then
            (if conflictStatus = CONFLICT then Inl (ConflictException CauseUser no_extra)
             else Inl (ContractException conflictStatus [screen_item ''STATE_LOCKED''] []))
          else Inr transition)"

definition registered :: "TransitionRegistry \<Rightarrow> (StateColumn \<times> ActionName \<times> Transition) list" where
  "registered registry =
     concat (map (\<lambda>(column, actions). map (\<lambda>(action, t). (column, action, t)) actions) registry)"

lemma assertTransition_Inr [res_simps]:
  "assertTransition reg col act cur st = Inr t \<longleftrightarrow>
     find_transition reg col act = Some t \<and> cur \<in> set (tr_from t)"
  by (auto simp: assertTransition_def split: option.splits)

lemma assertTransition_from:
  "assertTransition reg col act cur st = Inr t \<Longrightarrow> cur \<in> set (tr_from t)"
  by (simp add: res_simps)

lemma find_transition_registered:
  assumes "find_transition reg col act = Some t"
  shows "(col, act, t) \<in> set (registered reg)"
proof -
  from assms obtain acts where "(col, acts) \<in> set reg" and "(act, t) \<in> set acts"
    by (auto simp: find_transition_def split: option.splits dest: map_of_SomeD)
  then show ?thesis unfolding registered_def by force
qed

section \<open>The status graph of a column\<close>

inductive axis_step :: "actions \<Rightarrow> code \<Rightarrow> code \<Rightarrow> bool" for acts where
  fire: "map_of acts action = Some t \<Longrightarrow> s \<in> set (tr_from t) \<Longrightarrow> axis_step acts s (tr_to t)"

inductive_cases axis_stepE: "axis_step acts s s'"
inductive_simps axis_step_iff: "axis_step acts s s'"

definition successors :: "actions \<Rightarrow> code \<Rightarrow> code list" where
  "successors acts s = map (\<lambda>(a, t). tr_to t) (filter (\<lambda>(a, t). s \<in> set (tr_from t)) acts)"

definition closed_statuses :: "actions \<Rightarrow> code list \<Rightarrow> bool" where
  "closed_statuses acts S \<longleftrightarrow> list_all (\<lambda>s. list_all (\<lambda>s'. s' \<in> set S) (successors acts s)) S"

definition reaches :: "actions \<Rightarrow> code \<Rightarrow> code \<Rightarrow> bool" where
  "reaches acts = (axis_step acts)\<^sup>*\<^sup>*"

text \<open>A status no action starts from.\<close>

definition final_status :: "actions \<Rightarrow> code \<Rightarrow> bool" where
  "final_status acts s \<longleftrightarrow> list_all (\<lambda>(a, t). s \<notin> set (tr_from t)) acts"

lemma axis_step_successor: "axis_step acts s s' \<Longrightarrow> s' \<in> set (successors acts s)"
  by (force simp: successors_def elim!: axis_stepE dest: map_of_SomeD)

lemma reaches_closed:
  assumes "closed_statuses acts S" and "s \<in> set S" and "reaches acts s s'"
  shows "s' \<in> set S"
  using assms(3) unfolding reaches_def
proof (induction rule: rtranclp_induct)
  case base
  show ?case by (rule assms(2))
next
  case (step u v)
  with axis_step_successor assms(1) show ?case
    by (fastforce simp: closed_statuses_def list_all_iff)
qed

lemma final_no_step: "final_status acts s \<Longrightarrow> \<not> axis_step acts s s'"
  by (auto simp: final_status_def list_all_iff elim!: axis_stepE dest!: map_of_SomeD)

lemma final_reaches: "final_status acts s \<Longrightarrow> reaches acts s s' \<longleftrightarrow> s' = s"
  unfolding reaches_def by (metis converse_rtranclpE final_no_step rtranclp.rtrancl_refl)

lemma final_refused:
  assumes "map_of reg col = Some acts" and "final_status acts s"
  shows "\<exists>e. assertTransition reg col act s st = Inl e"
proof (cases "map_of acts act")
  case None
  with assms(1) show ?thesis by (simp add: assertTransition_def find_transition_def)
next
  case (Some t)
  with assms(2) have "s \<notin> set (tr_from t)"
    by (auto simp: final_status_def list_all_iff dest: map_of_SomeD)
  with Some assms(1) show ?thesis by (simp add: assertTransition_def find_transition_def)
qed

lemma assert_is_step:
  "map_of reg col = Some acts \<Longrightarrow> assertTransition reg col act s st = Inr t \<Longrightarrow>
   axis_step acts s (tr_to t)"
  by (auto simp: res_simps find_transition_def intro: axis_step.fire)

section \<open>What every column shares\<close>

locale status_axis =
  fixes acts :: actions
  assumes distinct_actions: "distinct (map fst acts)"
begin

lemma step_iff_successor: "axis_step acts s s' \<longleftrightarrow> s' \<in> set (successors acts s)"
proof
  assume "s' \<in> set (successors acts s)"
  then obtain a t where "(a, t) \<in> set acts" "s \<in> set (tr_from t)" "s' = tr_to t"
    by (auto simp: successors_def)
  with distinct_actions show "axis_step acts s s'"
    by (auto intro: axis_step.fire)
qed (rule axis_step_successor)

lemma final_iff: "final_status acts s \<longleftrightarrow> (\<forall>s'. \<not> axis_step acts s s')"
  by (auto simp: step_iff_successor successors_def final_status_def list_all_iff)

lemma reaches_step: "s' \<in> set (successors acts s) \<Longrightarrow> reaches acts s' s'' \<Longrightarrow> reaches acts s s''"
  unfolding reaches_def using step_iff_successor by (meson converse_rtranclp_into_rtranclp)

lemma reaches_refl: "reaches acts s s"
  by (simp add: reaches_def)

end

text \<open>A column whose every step raises a rank: no status is ever entered twice.\<close>

locale ranked_axis = status_axis +
  fixes rank :: "code \<Rightarrow> nat"
  assumes rank_step: "axis_step acts s s' \<Longrightarrow> rank s < rank s'"
begin

lemma rank_tranclp: "(axis_step acts)\<^sup>+\<^sup>+ s s' \<Longrightarrow> rank s < rank s'"
  by (induction rule: tranclp_induct) (auto dest: rank_step)

lemma no_return: "\<not> (axis_step acts)\<^sup>+\<^sup>+ s s"
  using rank_tranclp by blast

lemma reaches_antisym: "reaches acts s u \<Longrightarrow> reaches acts u s \<Longrightarrow> s = u"
  unfolding reaches_def using rank_tranclp
  by (metis less_asym rtranclpD)

end

section \<open>The columns of the registry\<close>

interpretation lot_status: status_axis lot_status_actions
  by unfold_locales (simp add: transition_tables)

interpretation work_order: status_axis work_order_actions
  by unfold_locales (simp add: transition_tables)

interpretation work_session: status_axis work_session_actions
  by unfold_locales (simp add: transition_tables)

interpretation material_issue: status_axis material_issue_request_actions
  by unfold_locales (simp add: transition_tables)

text \<open>One rank serves every forward-only column.\<close>

definition status_rank :: "code \<Rightarrow> nat" where
  "status_rank s =
     (if s \<in> set [''IN_SERVICE'', ''DRAFT'', ''WAITING'', ''NOT_REQUESTED'', ''PENDING'',
                  ''REGISTERED'', ''RECEIVED'', ''ISSUED'', ''UNCONFIRMED''] then 0
      else if s \<in> set [''DISPOSED'', ''CONFIRMED'', ''ACTIVE'', ''PENDING_DECISION'', ''POSTED'',
                       ''HANDLING''] then 1
      else if s = ''CANCEL_REQUESTED'' then 2 else 3)"

definition forward_actions :: "actions \<Rightarrow> bool" where
  "forward_actions acts \<longleftrightarrow>
     list_all (\<lambda>(a, t). list_all (\<lambda>s. status_rank s < status_rank (tr_to t)) (tr_from t)) acts"

lemma forward_actions_step: "forward_actions acts \<Longrightarrow> axis_step acts s s' \<Longrightarrow> status_rank s < status_rank s'"
  by (fastforce simp: forward_actions_def list_all_iff elim!: axis_stepE dest: map_of_SomeD)

lemma ranked_axisI: "distinct (map fst acts) \<Longrightarrow> forward_actions acts \<Longrightarrow> ranked_axis acts status_rank"
  by unfold_locales (auto intro: forward_actions_step)

lemmas forward_simps = transition_tables forward_actions_def status_rank_def

interpretation lifecycle: ranked_axis lot_lifecycle_actions status_rank
  by (rule ranked_axisI) (simp_all add: forward_simps)

interpretation goods_issue: ranked_axis goods_issue_actions status_rank
  by (rule ranked_axisI) (simp_all add: forward_simps)

interpretation approval_axis: ranked_axis approval_request_actions status_rank
  by (rule ranked_axisI) (simp_all add: forward_simps)

interpretation picking_axis: ranked_axis picking_order_actions status_rank
  by (rule ranked_axisI) (simp_all add: forward_simps)

interpretation shipment_axis: ranked_axis shipment_actions status_rank
  by (rule ranked_axisI) (simp_all add: forward_simps)

text \<open>The four columns with a way back, and the rest of the registry.\<close>

definition returning_columns :: "StateColumn list" where
  "returning_columns =
     [''trace.lot.status_code'', ''production.work_order.status_code'',
      ''production.work_session.status_code'', ''logistics.material_issue_request.status_code'']"

lemma registry_forward:
  "list_all (\<lambda>(col, acts). col \<in> set returning_columns \<or>
      (distinct (map fst acts) \<and> forward_actions acts)) TRANSITIONS"
  by (simp add: forward_simps returning_columns_def)

lemma forward_column:
  assumes "map_of TRANSITIONS col = Some acts" and "col \<notin> set returning_columns"
  shows "ranked_axis acts status_rank"
proof -
  from assms(1) have "(col, acts) \<in> set TRANSITIONS" by (rule map_of_SomeD)
  with assms(2) registry_forward have "distinct (map fst acts) \<and> forward_actions acts"
    unfolding list_all_iff by blast
  then show ?thesis by (simp add: ranked_axisI)
qed

section \<open>Properties\<close>

lemma lot_status_column: "map_of TRANSITIONS ''trace.lot.status_code'' = Some lot_status_actions"
  by (simp add: TRANSITIONS_def)

lemma work_order_column: "map_of TRANSITIONS ''production.work_order.status_code'' = Some work_order_actions"
  by (simp add: TRANSITIONS_def)

lemma scrapped_final: "final_status lot_status_actions ''SCRAPPED''"
  by (simp add: final_status_def lot_status_actions_def)

text \<open>C22. A scrapped LOT stays scrapped: every action on the quality axis is refused for it, with any
  conflict status, and no sequence of transitions leads away from \<open>SCRAPPED\<close>.\<close>
theorem scrapped_lot_is_final:
  "(\<exists>e. assertTransition TRANSITIONS ''trace.lot.status_code'' action ''SCRAPPED'' st = Inl e) \<and>
   (reaches lot_status_actions ''SCRAPPED'' s \<longleftrightarrow> s = ''SCRAPPED'')"
  using final_refused [OF lot_status_column scrapped_final] final_reaches [OF scrapped_final]
  by blast

lemma defective_actions:
  "map fst (filter (\<lambda>(a, t). ''DEFECTIVE'' \<in> set (tr_from t)) lot_status_actions) =
   [''stock-reinstate'', ''disposition-rework'', ''disposition-scrap'', ''disposition-normal'',
    ''disposition-sort'', ''disposition-sort-defect'', ''concession-apply'']"
  by (simp add: lot_status_actions_def)

text \<open>The ways out of \<open>DEFECTIVE\<close> are exactly seven actions: the stock reinstatement, the five
  disposition decisions and the application of a concession. Inspection and hold actions are
  refused for a defective LOT.\<close>
lemma defective_lot_actions:
  "(\<exists>t. assertTransition TRANSITIONS ''trace.lot.status_code'' action ''DEFECTIVE'' st = Inr t) \<longleftrightarrow>
   action \<in> set [''stock-reinstate'', ''disposition-rework'', ''disposition-scrap'',
     ''disposition-normal'', ''disposition-sort'', ''disposition-sort-defect'', ''concession-apply'']"
proof -
  have "(\<exists>t. map_of lot_status_actions action = Some t \<and> ''DEFECTIVE'' \<in> set (tr_from t)) \<longleftrightarrow>
      action \<in> fst ` set (filter (\<lambda>(a, t). ''DEFECTIVE'' \<in> set (tr_from t)) lot_status_actions)"
    using lot_status.distinct_actions by force
  also have "\<dots> \<longleftrightarrow> action \<in> set (map fst
      (filter (\<lambda>(a, t). ''DEFECTIVE'' \<in> set (tr_from t)) lot_status_actions))" by simp
  finally show ?thesis
    unfolding defective_actions by (simp add: res_simps find_transition_def lot_status_column)
qed

lemma work_order_closed_set:
  "closed_statuses work_order_actions
     [''PLANNED'', ''RELEASED'', ''SUSPENDED'', ''IN_PROGRESS'', ''CLOSED'', ''CANCELLED'']"
  by (simp add: closed_statuses_def successors_def work_order_actions_def)

lemma work_order_reached:
  "reaches work_order_actions ''PLANNED'' ''PLANNED''"
  "reaches work_order_actions ''PLANNED'' ''RELEASED''"
  "reaches work_order_actions ''PLANNED'' ''SUSPENDED''"
  "reaches work_order_actions ''PLANNED'' ''IN_PROGRESS''"
  "reaches work_order_actions ''PLANNED'' ''CLOSED''"
  "reaches work_order_actions ''PLANNED'' ''CANCELLED''"
proof -
  note step = work_order.reaches_step
  show "reaches work_order_actions ''PLANNED'' ''PLANNED''" by (rule work_order.reaches_refl)
  show "reaches work_order_actions ''PLANNED'' ''CANCELLED''"
    by (rule step [OF _ work_order.reaches_refl]) (simp add: successors_def work_order_actions_def)
  have rel: "''RELEASED'' \<in> set (successors work_order_actions ''PLANNED'')"
    and prog: "''IN_PROGRESS'' \<in> set (successors work_order_actions ''RELEASED'')"
    and susp: "''SUSPENDED'' \<in> set (successors work_order_actions ''RELEASED'')"
    and clo: "''CLOSED'' \<in> set (successors work_order_actions ''IN_PROGRESS'')"
    by (simp_all add: successors_def work_order_actions_def)
  show "reaches work_order_actions ''PLANNED'' ''RELEASED''"
    by (rule step [OF rel work_order.reaches_refl])
  show "reaches work_order_actions ''PLANNED'' ''SUSPENDED''"
    by (rule step [OF rel step [OF susp work_order.reaches_refl]])
  show "reaches work_order_actions ''PLANNED'' ''IN_PROGRESS''"
    by (rule step [OF rel step [OF prog work_order.reaches_refl]])
  show "reaches work_order_actions ''PLANNED'' ''CLOSED''"
    by (rule step [OF rel step [OF prog step [OF clo work_order.reaches_refl]]])
qed

lemma closed_work_order_final:
  "final_status work_order_actions ''CLOSED''" "final_status work_order_actions ''CANCELLED''"
  by (simp_all add: final_status_def work_order_actions_def)

text \<open>A work order born \<open>PLANNED\<close> reaches exactly six of its eight statuses through the table:
  \<open>CONFIRMED\<close> and \<open>COMPLETED\<close>, which the table accepts as starting points, are never entered; and
  once closed or cancelled it never moves again.\<close>
lemma work_order_reachable_statuses:
  "(reaches work_order_actions ''PLANNED'' s \<longleftrightarrow>
     s \<in> set [''PLANNED'', ''RELEASED'', ''SUSPENDED'', ''IN_PROGRESS'', ''CLOSED'', ''CANCELLED'']) \<and>
   (reaches work_order_actions ''CLOSED'' u \<longleftrightarrow> u = ''CLOSED'') \<and>
   (reaches work_order_actions ''CANCELLED'' v \<longleftrightarrow> v = ''CANCELLED'')"
proof (intro conjI)
  let ?S = "[''PLANNED'', ''RELEASED'', ''SUSPENDED'', ''IN_PROGRESS'', ''CLOSED'', ''CANCELLED'']"
  have "\<forall>s \<in> set ?S. reaches work_order_actions ''PLANNED'' s"
    unfolding list.set ball_simps using work_order_reached by blast
  moreover have "''PLANNED'' \<in> set ?S" unfolding list.set by blast
  ultimately show "reaches work_order_actions ''PLANNED'' s \<longleftrightarrow> s \<in> set ?S"
    using reaches_closed [OF work_order_closed_set] by blast
qed (rule final_reaches [OF closed_work_order_final(1)], rule final_reaches [OF closed_work_order_final(2)])

text \<open>C23. In every column but the LOT quality, work order, work session and material issue request
  columns, transitions only go forward: no status can be left and entered again.\<close>
theorem forward_columns_never_return:
  assumes "map_of TRANSITIONS column = Some acts" and "column \<notin> set returning_columns"
  shows "\<not> (axis_step acts)\<^sup>+\<^sup>+ s s"
  using forward_column [OF assms] by (rule ranked_axis.no_return)

theorem forward_columns_never_return_witness:
  "map_of TRANSITIONS ''logistics.goods_issue.status_code'' = Some goods_issue_actions \<and>
   \<not> (axis_step goods_issue_actions)\<^sup>+\<^sup>+ ''POSTED'' ''POSTED''"
proof -
  have h: "map_of TRANSITIONS ''logistics.goods_issue.status_code'' = Some goods_issue_actions"
    by (simp add: TRANSITIONS_def)
  have n: "''logistics.goods_issue.status_code'' \<notin> set returning_columns"
    by (simp add: returning_columns_def)
  show ?thesis using h forward_columns_never_return [OF h n] by blast
qed

lemma history_codes_distinct:
  "distinct (map (\<lambda>(c, a, t). transitionCode t)
     (filter (\<lambda>(c, a, t). transitionCode t \<noteq> None) (registered TRANSITIONS)))"
  by code_simp

lemma history_codes_columns:
  "list_all (\<lambda>(c, a, t). (transitionCode t \<noteq> None) =
     (c = ''trace.lot.lifecycle_status_code'' \<or> c = ''trace.lot.status_code'')) (registered TRANSITIONS)"
  by code_simp

text \<open>The history code of a transition identifies it: two accepted transitions that write the same
  code are the same action of the same column, and that column is one of the two LOT axes.\<close>
lemma history_code_identifies_transition:
  assumes "assertTransition TRANSITIONS c1 a1 s1 st1 = Inr t1"
    and "assertTransition TRANSITIONS c2 a2 s2 st2 = Inr t2"
    and "transitionCode t1 = Some k" and "transitionCode t2 = Some k"
  shows "c1 = c2 \<and> a1 = a2 \<and> t1 = t2 \<and>
    (c1 = ''trace.lot.lifecycle_status_code'' \<or> c1 = ''trace.lot.status_code'')"
proof -
  let ?coded = "filter (\<lambda>(c, a, t). transitionCode t \<noteq> None) (registered TRANSITIONS)"
  have r1: "(c1, a1, t1) \<in> set (registered TRANSITIONS)" and r2: "(c2, a2, t2) \<in> set (registered TRANSITIONS)"
    using assms(1,2) by (auto simp: res_simps intro: find_transition_registered)
  have inj: "inj_on (\<lambda>(c, a, t). transitionCode t) (set ?coded)"
    using history_codes_distinct by (simp add: distinct_map)
  have m1: "(c1, a1, t1) \<in> set ?coded" and m2: "(c2, a2, t2) \<in> set ?coded"
    using r1 r2 assms(3,4) by auto
  have "(c1, a1, t1) = (c2, a2, t2)"
    by (rule inj_onD [OF inj _ m1 m2]) (simp add: assms(3,4))
  moreover have "c1 = ''trace.lot.lifecycle_status_code'' \<or> c1 = ''trace.lot.status_code''"
    using history_codes_columns r1 assms(3) by (fastforce simp: list_all_iff)
  ultimately show ?thesis by simp
qed

lemma history_code_identifies_transition_example:
  "\<exists>t. assertTransition TRANSITIONS ''trace.lot.status_code'' ''lot-hold-claim'' ''NORMAL'' 409 = Inr t \<and>
     transitionCode t = Some ''C9'' \<and>
     (''trace.lot.status_code'' = ''trace.lot.lifecycle_status_code'' \<or>
      ''trace.lot.status_code'' = ''trace.lot.status_code'')"
proof -
  obtain t where t: "assertTransition TRANSITIONS ''trace.lot.status_code'' ''lot-hold-claim'' ''NORMAL'' 409 = Inr t"
    and k: "transitionCode t = Some ''C9''"
    by (simp add: assertTransition_def find_transition_def lot_status_column lot_status_actions_def)
  show ?thesis using t k history_code_identifies_transition [OF t t k k] by blast
qed

end
