(* ===== verification/Inventory_Balance.thy ===== *)
theory Inventory_Balance
  imports Api_Errors
begin

text \<open>
  The inventory store and the one statement that changes a balance, from
  \<open>src/core/inventory-posting\<close>: the types of \<open>posting.types.ts\<close>, the row locks of \<open>balance-lock.ts\<close>,
  the dimension predicate of \<open>reservation-qty.ts\<close> and \<open>move\<close>/\<open>orgAxis\<close>/\<open>balanceKeys\<close> of
  \<open>inventory-posting.service.ts\<close>. A table is the list of its rows in id order; an identity column
  is a counter of the store; a statement whose new rows violate the table's CHECK, domain or
  \<open>check_balance_qty\<close> trigger throws, and the throw rolls the transaction back.
\<close>

section \<open>Posting types\<close>

record PostingEndpoint =
  ep_warehouseId :: id
  ep_locationId :: id
  ep_qualityStatusCode :: code
  ep_inventoryStatusCode :: code

record PostingLine =
  pl_itemId :: id
  pl_lotId :: "id option"
  pl_qty :: decimal
  pl_uomId :: id
  pl_from :: "PostingEndpoint option"
  pl_to :: "PostingEndpoint option"
  pl_ownershipTypeCode :: code
  pl_ownerPartnerId :: "id option"
  pl_handlingUnitId :: "id option"

record PostingInput =
  pi_businessDate :: string
  pi_occurredAt :: int
  pi_transactionTypeCode :: code
  pi_transactionNo :: string
  pi_statusCode :: code
  pi_plantId :: id
  pi_sourceDocumentTypeCode :: code
  pi_sourceDocumentId :: id
  pi_idempotencyKey :: string
  pi_createdBy :: "id option"
  pi_lines :: "PostingLine list"

record PostingResult =
  pr_inventoryTransactionId :: id
  pr_businessDate :: string
  pr_alreadyPosted :: bool

record ReverseInput =
  ri_inventoryTransactionId :: id
  ri_businessDate :: string
  ri_occurredAt :: int
  ri_createdBy :: "id option"

record ReverseResult =
  rr_inventoryTransactionId :: id
  rr_transactionNo :: string
  rr_businessDate :: string
  rr_alreadyReversed :: bool

section \<open>The eleven columns of a balance\<close>

record BalanceDimension =
  legalEntityId :: id
  businessUnitId :: id
  plantId :: id
  warehouseId :: id
  locationId :: id
  itemId :: id
  lotId :: "id option"
  qualityStatusCode :: code
  inventoryStatusCode :: code
  ownershipTypeCode :: code
  ownerPartnerId :: "id option"

record balance_row =
  balance_id :: id
  dim :: BalanceDimension
  on_hand_qty :: decimal
  reserved_qty :: decimal
  picked_qty :: decimal
  blocked_qty :: decimal
  balance_uom_id :: id
  last_transaction_at :: "int option"
  balance_version_no :: int

definition coalesce0 :: "id option \<Rightarrow> id" where
  "coalesce0 x = (case x of None \<Rightarrow> 0 | Some i \<Rightarrow> i)"

text \<open>The generated column \<open>available_qty\<close>.\<close>

definition available_qty :: "balance_row \<Rightarrow> decimal" where
  "available_qty r = on_hand_qty r - reserved_qty r - picked_qty r - blocked_qty r"

definition dimensionWhere :: "BalanceDimension \<Rightarrow> balance_row \<Rightarrow> bool" where
  "dimensionWhere d r \<longleftrightarrow>
     legalEntityId (dim r) = legalEntityId d \<and>
     businessUnitId (dim r) = businessUnitId d \<and>
     plantId (dim r) = plantId d \<and>
     warehouseId (dim r) = warehouseId d \<and>
     locationId (dim r) = locationId d \<and>
     itemId (dim r) = itemId d \<and>
     coalesce0 (lotId (dim r)) = coalesce0 (lotId d) \<and>
     qualityStatusCode (dim r) = qualityStatusCode d \<and>
     inventoryStatusCode (dim r) = inventoryStatusCode d \<and>
     ownershipTypeCode (dim r) = ownershipTypeCode d \<and>
     coalesce0 (ownerPartnerId (dim r)) = coalesce0 (ownerPartnerId d)"

text \<open>The expression index \<open>uq_inventory_balance_dim\<close>: two rows with the same key are the same row.\<close>

definition dim_key :: "BalanceDimension \<Rightarrow> BalanceDimension" where
  "dim_key d = d\<lparr>lotId := Some (coalesce0 (lotId d)), ownerPartnerId := Some (coalesce0 (ownerPartnerId d))\<rparr>"

abbreviation row_key :: "balance_row \<Rightarrow> BalanceDimension" where
  "row_key r \<equiv> dim_key (dim r)"

lemma dimensionWhere_iff: "dimensionWhere d r \<longleftrightarrow> row_key r = dim_key d"
  by (cases d, cases "dim r") (auto simp: dimensionWhere_def dim_key_def)

lemma dim_key_idem [simp]: "dim_key (dim_key d) = dim_key d"
  by (simp add: dim_key_def coalesce0_def split: option.splits)

section \<open>The store\<close>

record OrgAxis =
  org_legalEntityId :: id
  org_businessUnitId :: id
  org_plantId :: id

record location_row =
  location_id :: id
  parent_location_id :: "id option"
  location_is_active :: bool

record endpoint_columns =
  ec_warehouse_id :: "id option"
  ec_location_id :: "id option"
  ec_quality_status_code :: "code option"
  ec_inventory_status_code :: "code option"

record transaction_row =
  inventory_transaction_id :: id
  business_date :: string
  transaction_no :: string
  transaction_type_code :: code
  transaction_plant_id :: id
  occurred_at :: int
  source_document_type_code :: code
  source_document_id :: id
  transaction_status_code :: code
  idempotency_key :: string
  reversal_of_transaction_id :: "id option"
  reversal_of_business_date :: "string option"
  transaction_created_by :: "id option"

record tline_row =
  tl_transaction_id :: id
  tl_business_date :: string
  tl_line_no :: int
  tl_item_id :: id
  tl_lot_id :: "id option"
  tl_qty :: decimal
  tl_uom_id :: id
  tl_from :: endpoint_columns
  tl_to :: endpoint_columns
  tl_ownership_type_code :: code
  tl_owner_partner_id :: "id option"
  tl_handling_unit_id :: "id option"
  from_qty_after_transaction :: "decimal option"
  to_qty_after_transaction :: "decimal option"
  tl_created_by :: "id option"

record reservation_row =
  inventory_reservation_id :: id
  reservation_no :: string
  reservation_type_code :: code
  rv_source_document_type_code :: code
  rv_source_document_id :: id
  rv_item_id :: id
  rv_lot_id :: "id option"
  rv_warehouse_id :: id
  rv_location_id :: id
  rv_reserved_qty :: decimal
  rv_released_qty :: decimal
  rv_consumed_qty :: decimal
  rv_uom_id :: id
  rv_status_code :: code
  rv_created_by :: "id option"
  rv_version_no :: int

record inv_db =
  warehouses :: "id \<Rightarrow> OrgAxis option"
  locations :: "location_row list"
  location_items :: "(id \<times> id) list"
  negative_stock_allowed :: "id \<Rightarrow> bool"
  balances :: "balance_row list"
  transactions :: "transaction_row list"
  tlines :: "tline_row list"
  reservations :: "reservation_row list"
  balance_seq :: id
  transaction_seq :: id
  reservation_seq :: id

section \<open>The checks of the database\<close>

text \<open>\<open>inventory.check_balance_qty()\<close>, the trigger before every insert and update.\<close>

definition check_balance_qty :: "(id \<Rightarrow> bool) \<Rightarrow> balance_row \<Rightarrow> bool" where
  "check_balance_qty neg r \<longleftrightarrow>
     (if on_hand_qty r \<ge> 0 then \<not> on_hand_qty r < reserved_qty r + picked_qty r + blocked_qty r
      else neg (itemId (dim r)) \<and> \<not> reserved_qty r + picked_qty r + blocked_qty r > 0)"

text \<open>With the domain \<open>app.qty_t\<close> of the three quantities and the CHECK on \<open>version_no\<close>.\<close>

definition balance_valid :: "(id \<Rightarrow> bool) \<Rightarrow> balance_row \<Rightarrow> bool" where
  "balance_valid neg r \<longleftrightarrow>
     0 \<le> reserved_qty r \<and> 0 \<le> picked_qty r \<and> 0 \<le> blocked_qty r \<and>
     0 < balance_version_no r \<and> check_balance_qty neg r"

text \<open>\<open>UPDATE inventory_balance SET f WHERE p RETURNING *\<close>.\<close>

definition update_balances ::
  "inv_db \<Rightarrow> (balance_row \<Rightarrow> bool) \<Rightarrow> (balance_row \<Rightarrow> balance_row) \<Rightarrow> (balance_row list \<times> inv_db) res" where
  "update_balances db p f =
     (let rows = map f (filter p (balances db)) in
      if list_all (balance_valid (negative_stock_allowed db)) rows
      then Inr (rows, db\<lparr>balances := map (\<lambda>r. if p r then f r else r) (balances db)\<rparr>)
      else Inl (DbError OtherDriverError))"

text \<open>\<open>INSERT \<dots> ON CONFLICT DO NOTHING\<close> of the zero row of a dimension.\<close>

definition insert_zero_balance :: "inv_db \<Rightarrow> BalanceDimension \<Rightarrow> id \<Rightarrow> inv_db" where
  "insert_zero_balance db d uom =
     (if list_ex (dimensionWhere d) (balances db) then db
      else db\<lparr>balances := balances db @
                [\<lparr>balance_id = balance_seq db, dim = d, on_hand_qty = 0, reserved_qty = 0,
                  picked_qty = 0, blocked_qty = 0, balance_uom_id = uom,
                  last_transaction_at = None, balance_version_no = 1\<rparr>],
              balance_seq := balance_seq db + 1\<rparr>)"

section \<open>Moving stock\<close>

definition orgAxis :: "inv_db \<Rightarrow> id \<Rightarrow> OrgAxis res" where
  "orgAxis db w = (case warehouses db w of None \<Rightarrow> Inl (DbError P2025) | Some org \<Rightarrow> Inr org)"

definition endpoint_dimension :: "OrgAxis \<Rightarrow> PostingLine \<Rightarrow> PostingEndpoint \<Rightarrow> BalanceDimension" where
  "endpoint_dimension org line ep =
     \<lparr>legalEntityId = org_legalEntityId org, businessUnitId = org_businessUnitId org,
      plantId = org_plantId org, warehouseId = ep_warehouseId ep, locationId = ep_locationId ep,
      itemId = pl_itemId line, lotId = pl_lotId line,
      qualityStatusCode = ep_qualityStatusCode ep, inventoryStatusCode = ep_inventoryStatusCode ep,
      ownershipTypeCode = pl_ownershipTypeCode line, ownerPartnerId = pl_ownerPartnerId line\<rparr>"

definition move :: "inv_db \<Rightarrow> int \<Rightarrow> PostingLine \<Rightarrow> PostingEndpoint \<Rightarrow> decimal \<Rightarrow> (decimal \<times> inv_db) res" where
  "move db occurredAt line ep delta =
     bind_res (orgAxis db (ep_warehouseId ep)) (\<lambda>org.
       let d = endpoint_dimension org line ep in
       bind_res
         (update_balances (insert_zero_balance db d (pl_uomId line)) (dimensionWhere d)
            (\<lambda>r. r\<lparr>on_hand_qty := on_hand_qty r + delta, last_transaction_at := Some occurredAt,
                  balance_version_no := balance_version_no r + 1\<rparr>))
         (\<lambda>(rows, db'). case rows of [] \<Rightarrow> Inl InternalError | r # _ \<Rightarrow> Inr (on_hand_qty r, db')))"

section \<open>Locks\<close>

record BalanceLockKey =
  lk_legalEntityId :: id
  lk_businessUnitId :: id
  lk_plantId :: id
  lk_warehouseId :: id
  lk_locationId :: id
  lk_itemId :: id
  lk_lotKey :: id

definition lock_key_of :: "balance_row \<Rightarrow> BalanceLockKey" where
  "lock_key_of r =
     \<lparr>lk_legalEntityId = legalEntityId (dim r), lk_businessUnitId = businessUnitId (dim r),
      lk_plantId = plantId (dim r), lk_warehouseId = warehouseId (dim r),
      lk_locationId = locationId (dim r), lk_itemId = itemId (dim r),
      lk_lotKey = coalesce0 (lotId (dim r))\<rparr>"

text \<open>One statement locks every row one of the keys names, in ascending id. A lock changes no value;
  the model keeps what the statement returns.\<close>

definition lockBalancesInOrder :: "inv_db \<Rightarrow> BalanceLockKey list \<Rightarrow> balance_row list" where
  "lockBalancesInOrder db keys =
     (if keys = [] then [] else filter (\<lambda>r. lock_key_of r \<in> set keys) (balances db))"

definition lockBalancesByItemLot :: "inv_db \<Rightarrow> id \<Rightarrow> id \<Rightarrow> balance_row list" where
  "lockBalancesByItemLot db item lot =
     filter (\<lambda>r. itemId (dim r) = item \<and> lotId (dim r) = Some lot) (balances db)"

definition withoutEmptyBalances :: "balance_row list \<Rightarrow> balance_row list" where
  "withoutEmptyBalances rows =
     (if length rows < 2 then rows
      else let held = filter (\<lambda>r. on_hand_qty r \<noteq> 0) rows in
           if held = [] then rows else held)"

fun endpoint_keys :: "inv_db \<Rightarrow> PostingLine \<Rightarrow> PostingEndpoint option list \<Rightarrow> BalanceLockKey list res" where
  "endpoint_keys db line [] = Inr []"
| "endpoint_keys db line (None # eps) = endpoint_keys db line eps"
| "endpoint_keys db line (Some ep # eps) =
     bind_res (orgAxis db (ep_warehouseId ep)) (\<lambda>org.
       bind_res (endpoint_keys db line eps) (\<lambda>ks.
         Inr (\<lparr>lk_legalEntityId = org_legalEntityId org, lk_businessUnitId = org_businessUnitId org,
               lk_plantId = org_plantId org, lk_warehouseId = ep_warehouseId ep,
               lk_locationId = ep_locationId ep, lk_itemId = pl_itemId line,
               lk_lotKey = coalesce0 (pl_lotId line)\<rparr> # ks)))"

definition balanceKeys :: "inv_db \<Rightarrow> PostingLine list \<Rightarrow> BalanceLockKey list res" where
  "balanceKeys db lines =
     bind_res (map_res (\<lambda>line. endpoint_keys db line [pl_from line, pl_to line]) lines)
       (\<lambda>kss. Inr (concat kss))"

end
