(* ===== verification/Balance_Facts.thy ===== *)
theory Balance_Facts
  imports Inventory_Balance
begin

text \<open>
  Lemmas on the balance table: the well-formedness that the unique index and the checks give it, the
  quantity on hand of a dimension as a function of the store, and what one \<open>update_balances\<close>, one
  \<open>insert_zero_balance\<close> and one \<open>move\<close> do to both. The posting components rest on these.
\<close>

section \<open>Well-formed tables and the abstract quantity on hand\<close>

definition wf_balances :: "inv_db \<Rightarrow> bool" where
  "wf_balances db \<longleftrightarrow>
     distinct (map row_key (balances db)) \<and>
     list_all (balance_valid (negative_stock_allowed db)) (balances db) \<and>
     id_column (balance_seq db) (map balance_id (balances db))"

definition on_hand_at :: "inv_db \<Rightarrow> BalanceDimension \<Rightarrow> decimal" where
  "on_hand_at db k = sum_list (map on_hand_qty (filter (\<lambda>r. row_key r = dim_key k) (balances db)))"

definition find_balance :: "inv_db \<Rightarrow> BalanceDimension \<Rightarrow> balance_row option" where
  "find_balance db k = find (\<lambda>r. row_key r = dim_key k) (balances db)"

text \<open>A change of a row that keeps its identity.\<close>

definition keeps_identity :: "(balance_row \<Rightarrow> balance_row) \<Rightarrow> bool" where
  "keeps_identity f \<longleftrightarrow> (\<forall>r. dim (f r) = dim r \<and> balance_id (f r) = balance_id r)"

lemma keeps_identityI:
  "(\<And>r. dim (f r) = dim r) \<Longrightarrow> (\<And>r. balance_id (f r) = balance_id r) \<Longrightarrow> keeps_identity f"
  by (simp add: keeps_identity_def)

lemma keeps_identityD:
  "keeps_identity f \<Longrightarrow> dim (f r) = dim r" "keeps_identity f \<Longrightarrow> balance_id (f r) = balance_id r"
  by (simp_all add: keeps_identity_def)

section \<open>An update\<close>

lemma update_balances_eq [res_simps]:
  "update_balances db p f = Inr (rows, db') \<longleftrightarrow>
     rows = map f (filter p (balances db)) \<and>
     db' = db\<lparr>balances := map (\<lambda>r. if p r then f r else r) (balances db)\<rparr> \<and>
     list_all (balance_valid (negative_stock_allowed db)) rows"
  by (auto simp: update_balances_def Let_def)

lemma update_balances_Inl [res_simps]:
  "update_balances db p f = Inl e \<longleftrightarrow>
     e = DbError OtherDriverError \<and>
     \<not> list_all (balance_valid (negative_stock_allowed db)) (map f (filter p (balances db)))"
  by (auto simp: update_balances_def Let_def)

lemma update_wf:
  assumes "wf_balances db" and "update_balances db p f = Inr (rows, db')" and "keeps_identity f"
  shows "wf_balances db'"
proof -
  have db': "db' = db\<lparr>balances := map (\<lambda>r. if p r then f r else r) (balances db)\<rparr>"
    and valid: "list_all (balance_valid (negative_stock_allowed db)) (map f (filter p (balances db)))"
    using assms(2) by (auto simp: res_simps)
  have keys: "map row_key (balances db') = map row_key (balances db)"
    and ids: "map balance_id (balances db') = map balance_id (balances db)"
    by (simp_all add: db' keeps_identityD [OF assms(3)])
  have "list_all (balance_valid (negative_stock_allowed db')) (balances db')"
    using assms(1) valid by (auto simp: db' wf_balances_def list_all_iff)
  with assms(1) keys ids show ?thesis
    unfolding wf_balances_def keys ids by (simp add: db')
qed

lemma distinct_filter_key:
  assumes "distinct (map row_key rs)"
  shows "filter (\<lambda>r. row_key r = k) rs = (case find (\<lambda>r. row_key r = k) rs of None \<Rightarrow> [] | Some r \<Rightarrow> [r])"
  using assms
proof (induction rs)
  case Nil
  then show ?case by simp
next
  case (Cons r rs)
  show ?case
  proof (cases "row_key r = k")
    case True
    with Cons.prems have "filter (\<lambda>r. row_key r = k) rs = []"
      by (force simp: filter_empty_conv image_iff)
    with True show ?thesis by simp
  next
    case False
    with Cons show ?thesis by simp
  qed
qed

lemma on_hand_at_find:
  "wf_balances db \<Longrightarrow>
   on_hand_at db k = (case find_balance db k of None \<Rightarrow> 0 | Some r \<Rightarrow> on_hand_qty r)"
  by (auto simp: on_hand_at_def find_balance_def wf_balances_def distinct_filter_key split: option.splits)

lemma find_balance_Some:
  "find_balance db k = Some r \<Longrightarrow> r \<in> set (balances db) \<and> row_key r = dim_key k"
  unfolding find_balance_def by (auto simp: find_Some_iff)

lemma find_balance_valid:
  "wf_balances db \<Longrightarrow> find_balance db k = Some r \<Longrightarrow> balance_valid (negative_stock_allowed db) r"
  by (auto dest!: find_balance_Some simp: wf_balances_def list_all_iff)

lemma find_balance_None:
  "find_balance db k = None \<longleftrightarrow> \<not> list_ex (dimensionWhere k) (balances db)"
  by (auto simp: find_balance_def find_None_iff list_ex_iff dimensionWhere_iff)

lemma filter_guarded_key:
  assumes "wf_balances db"
  shows "filter (\<lambda>r. dimensionWhere k r \<and> q r) (balances db) =
     (case find_balance db k of None \<Rightarrow> [] | Some r \<Rightarrow> if q r then [r] else [])"
proof -
  have "filter (\<lambda>r. dimensionWhere k r \<and> q r) (balances db) =
      filter q (filter (\<lambda>r. row_key r = dim_key k) (balances db))"
    by (simp add: dimensionWhere_iff conj_commute)
  also have "\<dots> = (case find_balance db k of None \<Rightarrow> [] | Some r \<Rightarrow> if q r then [r] else [])"
    using assms by (simp add: wf_balances_def distinct_filter_key find_balance_def split: option.splits)
  finally show ?thesis .
qed

text \<open>An update guarded by a dimension touches the one row of that dimension.\<close>

lemma find_balance_update:
  assumes "update_balances db (\<lambda>r. dimensionWhere k r \<and> q r) f = Inr (rows, db')"
    and "keeps_identity f"
  shows "find_balance db' j =
     map_option (\<lambda>r. if dim_key j = dim_key k \<and> q r then f r else r) (find_balance db j)"
proof -
  let ?g = "\<lambda>r. if dimensionWhere k r \<and> q r then f r else r"
  have "find_balance db' j = map_option ?g (find_balance db j)"
    using assms(1) by (auto simp: res_simps find_balance_def keeps_identityD [OF assms(2)] intro!: find_map_key)
  also have "\<dots> = map_option (\<lambda>r. if dim_key j = dim_key k \<and> q r then f r else r) (find_balance db j)"
    by (auto simp: dimensionWhere_iff dest: find_balance_Some split: option.splits intro!: option.map_cong)
  finally show ?thesis .
qed

lemma update_rows:
  assumes "wf_balances db" and "update_balances db (\<lambda>r. dimensionWhere k r \<and> q r) f = Inr (rows, db')"
  shows "rows = (case find_balance db k of None \<Rightarrow> [] | Some r \<Rightarrow> if q r then [f r] else [])"
  using assms by (simp add: res_simps filter_guarded_key split: option.splits)

section \<open>The zero row\<close>

lemma zero_row_valid [simp]:
  "balance_valid neg \<lparr>balance_id = i, dim = d, on_hand_qty = 0, reserved_qty = 0, picked_qty = 0,
     blocked_qty = 0, balance_uom_id = u, last_transaction_at = t, balance_version_no = 1\<rparr>"
  by (simp add: balance_valid_def check_balance_qty_def)

lemma insert_zero_wf:
  assumes "wf_balances db"
  shows "wf_balances (insert_zero_balance db d uom)"
proof (cases "list_ex (dimensionWhere d) (balances db)")
  case True
  with assms show ?thesis by (simp add: insert_zero_balance_def)
next
  case False
  then have "dim_key d \<notin> set (map row_key (balances db))"
    by (auto simp: list_ex_iff dimensionWhere_iff)
  with False assms show ?thesis
    by (auto simp: insert_zero_balance_def wf_balances_def list_all_iff)
qed

lemma insert_zero_frame [simp, frame]:
  "warehouses (insert_zero_balance db d uom) = warehouses db"
  "negative_stock_allowed (insert_zero_balance db d uom) = negative_stock_allowed db"
  "transactions (insert_zero_balance db d uom) = transactions db"
  "tlines (insert_zero_balance db d uom) = tlines db"
  "reservations (insert_zero_balance db d uom) = reservations db"
  "transaction_seq (insert_zero_balance db d uom) = transaction_seq db"
  "reservation_seq (insert_zero_balance db d uom) = reservation_seq db"
  "locations (insert_zero_balance db d uom) = locations db"
  "location_items (insert_zero_balance db d uom) = location_items db"
  by (simp_all add: insert_zero_balance_def)

lemma insert_zero_on_hand [simp]: "on_hand_at (insert_zero_balance db d uom) k = on_hand_at db k"
  by (simp add: on_hand_at_def insert_zero_balance_def)

lemma insert_zero_find:
  "find_balance (insert_zero_balance db d uom) k =
     (case find_balance db k of
        Some r \<Rightarrow> Some r
      | None \<Rightarrow> if dim_key k = dim_key d
                then Some \<lparr>balance_id = balance_seq db, dim = d, on_hand_qty = 0, reserved_qty = 0,
                  picked_qty = 0, blocked_qty = 0, balance_uom_id = uom, last_transaction_at = None,
                  balance_version_no = 1\<rparr>
                else None)"
proof -
  have app: "find P (xs @ [y]) = (case find P xs of Some x \<Rightarrow> Some x | None \<Rightarrow> if P y then Some y else None)"
    for P :: "balance_row \<Rightarrow> bool" and xs y
    by (induction xs) auto
  show ?thesis
  proof (cases "list_ex (dimensionWhere d) (balances db)")
    case True
    then have "find_balance db k \<noteq> None" if "dim_key k = dim_key d"
      using that by (simp add: find_balance_None list_ex_iff dimensionWhere_iff)
    with True show ?thesis by (auto simp: insert_zero_balance_def split: option.splits)
  next
    case False
    then show ?thesis
      by (auto simp: insert_zero_balance_def find_balance_def app split: option.splits)
  qed
qed

section \<open>A move\<close>

lemma balance_seq_update: "balance_seq (db\<lparr>balances := bs\<rparr>) = balance_seq db"
  by simp

definition move_change :: "int \<Rightarrow> decimal \<Rightarrow> balance_row \<Rightarrow> balance_row" where
  "move_change tm delta =
     (\<lambda>r. r\<lparr>on_hand_qty := on_hand_qty r + delta, last_transaction_at := Some tm,
            balance_version_no := balance_version_no r + 1\<rparr>)"

lemma move_change_identity [simp]: "keeps_identity (move_change tm delta)"
  by (rule keeps_identityI) (simp_all add: move_change_def)

lemma move_unfold:
  "move db tm line ep delta =
     bind_res (orgAxis db (ep_warehouseId ep)) (\<lambda>org.
       let d = endpoint_dimension org line ep in
       bind_res (update_balances (insert_zero_balance db d (pl_uomId line))
          (\<lambda>r. dimensionWhere d r \<and> True) (move_change tm delta))
         (\<lambda>(rows, db'). case rows of [] \<Rightarrow> Inl InternalError | r # _ \<Rightarrow> Inr (on_hand_qty r, db')))"
  unfolding move_def move_change_def simp_thms ..

text \<open>What a successful move does: the row of the dimension exists afterwards, its quantity is the
  returned one, the abstract quantity changes at that dimension by the delta, and nothing else does.\<close>

lemma move_result:
  assumes "wf_balances db" and "move db tm line ep delta = Inr (q, db')"
  obtains org where "warehouses db (ep_warehouseId ep) = Some org"
    and "wf_balances db'"
    and "q = on_hand_at db (endpoint_dimension org line ep) + delta"
    and "\<forall>k. on_hand_at db' k = on_hand_at db k +
           (if dim_key k = dim_key (endpoint_dimension org line ep) then delta else 0)"
    and "\<forall>k. find_balance db' k =
           map_option (\<lambda>r. if dim_key k = dim_key (endpoint_dimension org line ep)
                            then move_change tm delta r else r)
             (find_balance (insert_zero_balance db (endpoint_dimension org line ep) (pl_uomId line)) k)"
    and "db' = db\<lparr>balances := balances db', balance_seq := balance_seq db'\<rparr>"
proof -
  from assms(2) obtain org rows r rs where
    org: "warehouses db (ep_warehouseId ep) = Some org"
    and up: "update_balances (insert_zero_balance db (endpoint_dimension org line ep) (pl_uomId line))
        (\<lambda>r. dimensionWhere (endpoint_dimension org line ep) r \<and> True) (move_change tm delta) = Inr (rows, db')"
    and rows: "rows = r # rs" and q: "q = on_hand_qty r"
    unfolding move_unfold orgAxis_def Let_def bind_res_eq_Inr case_option_eq_Inr case_prod_eq_Inr
      case_list_eq_Inr by auto
  let ?d = "endpoint_dimension org line ep"
  let ?db0 = "insert_zero_balance db ?d (pl_uomId line)"
  have wf0: "wf_balances ?db0" using assms(1) by (rule insert_zero_wf)
  have wf': "wf_balances db'" using update_wf [OF wf0 up] by simp
  have find': "find_balance db' k = map_option (\<lambda>r. if dim_key k = dim_key ?d then move_change tm delta r else r)
      (find_balance ?db0 k)" for k
    using find_balance_update [OF up] by simp
  obtain r0 where r0: "find_balance ?db0 ?d = Some r0"
    by (cases "find_balance db ?d") (auto simp: insert_zero_find)
  have r: "r = move_change tm delta r0"
    using update_rows [OF wf0 up] rows r0 by simp
  have oh0: "on_hand_at db k = (case find_balance ?db0 k of None \<Rightarrow> 0 | Some r \<Rightarrow> on_hand_qty r)" for k
    using on_hand_at_find [OF wf0, of k] by simp
  have d0: "find_balance ?db0 k = Some r0" if "dim_key k = dim_key ?d" for k
    using r0 that by (simp add: find_balance_def)
  have "on_hand_at db' k = on_hand_at db k + (if dim_key k = dim_key ?d then delta else 0)" for k
    by (auto simp: on_hand_at_find [OF wf'] oh0 find' d0 move_change_def split: option.splits)
  moreover have "q = on_hand_at db ?d + delta"
    using oh0 [of ?d] r0 by (simp add: q r move_change_def)
  moreover have "db' = db\<lparr>balances := balances db', balance_seq := balance_seq db'\<rparr>"
    using up by (auto simp: res_simps insert_zero_balance_def)
  ultimately show ?thesis using that [OF org wf'] find' by blast
qed

end
