(* ===== verification/Reservation_Qty.thy ===== *)
theory Reservation_Qty
  imports Balance_Facts
begin

text \<open>
  \<open>src/core/inventory-posting/reservation-qty.ts\<close>: the only code that moves \<open>reserved_qty\<close> and
  \<open>picked_qty\<close> of a balance and \<open>consumed_qty\<close>/\<open>released_qty\<close> of a reservation. Each operation is one
  guarded \<open>UPDATE \<dots> RETURNING\<close>; no row returned is the 400 \<open>NEGATIVE_BALANCE\<close>. The locale
  \<open>guarded_update\<close> is the contract the four balance updates share: where the guard holds, the change
  cannot violate a check of the database.
\<close>

section \<open>Moves\<close>

record ReserveMove =
  rm_dimension :: BalanceDimension
  rm_qty :: decimal
  rm_reservationNo :: string
  rm_reservationTypeCode :: code
  rm_sourceDocumentTypeCode :: code
  rm_sourceDocumentId :: id
  rm_uomId :: id
  rm_statusCode :: code
  rm_createdBy :: "id option"
  rm_field :: string

record PickMove =
  pm_dimension :: BalanceDimension
  pm_delta :: decimal
  pm_inventoryReservationId :: "id option"
  pm_field :: string

record ConsumeMove =
  cm_dimension :: BalanceDimension
  cm_qty :: decimal
  cm_field :: string

definition negativeBalance :: "string \<Rightarrow> app_error" where
  "negativeBalance path = ContractException BAD_REQUEST [field path ''NEGATIVE_BALANCE''] []"

section \<open>The reservation table\<close>

definition reservation_valid :: "reservation_row \<Rightarrow> bool" where
  "reservation_valid v \<longleftrightarrow>
     0 < rv_reserved_qty v \<and> 0 \<le> rv_released_qty v \<and> 0 \<le> rv_consumed_qty v \<and>
     rv_released_qty v + rv_consumed_qty v \<le> rv_reserved_qty v \<and> 0 < rv_version_no v"

definition insert_reservation :: "inv_db \<Rightarrow> ReserveMove \<Rightarrow> (id \<times> inv_db) res" where
  "insert_reservation db m =
     (let row = \<lparr>inventory_reservation_id = reservation_seq db, reservation_no = rm_reservationNo m,
                 reservation_type_code = rm_reservationTypeCode m,
                 rv_source_document_type_code = rm_sourceDocumentTypeCode m,
                 rv_source_document_id = rm_sourceDocumentId m,
                 rv_item_id = itemId (rm_dimension m), rv_lot_id = lotId (rm_dimension m),
                 rv_warehouse_id = warehouseId (rm_dimension m),
                 rv_location_id = locationId (rm_dimension m), rv_reserved_qty = rm_qty m,
                 rv_released_qty = 0, rv_consumed_qty = 0, rv_uom_id = rm_uomId m,
                 rv_status_code = rm_statusCode m, rv_created_by = rm_createdBy m,
                 rv_version_no = 1\<rparr>
      in if reservation_valid row \<and> rm_reservationNo m \<notin> set (map reservation_no (reservations db))
         then Inr (reservation_seq db,
                   db\<lparr>reservations := reservations db @ [row], reservation_seq := reservation_seq db + 1\<rparr>)
         else Inl (DbError OtherDriverError))"

definition update_reservations ::
  "inv_db \<Rightarrow> (reservation_row \<Rightarrow> bool) \<Rightarrow> (reservation_row \<Rightarrow> reservation_row) \<Rightarrow>
   (reservation_row list \<times> inv_db) res" where
  "update_reservations db p f =
     (let rows = map f (filter p (reservations db)) in
      if list_all reservation_valid rows
      then Inr (rows, db\<lparr>reservations := map (\<lambda>v. if p v then f v else v) (reservations db)\<rparr>)
      else Inl (DbError OtherDriverError))"

section \<open>The operations\<close>

definition reserve_guard :: "decimal \<Rightarrow> balance_row \<Rightarrow> bool" where
  "reserve_guard qty r \<longleftrightarrow> available_qty r \<ge> qty"

definition reserve_change :: "decimal \<Rightarrow> balance_row \<Rightarrow> balance_row" where
  "reserve_change qty = (\<lambda>r. r\<lparr>reserved_qty := reserved_qty r + qty,
                               balance_version_no := balance_version_no r + 1\<rparr>)"

definition reserve_one :: "ReserveMove \<Rightarrow> id list \<times> inv_db \<Rightarrow> (id list \<times> inv_db) res" where
  "reserve_one m s =
     (if rm_qty m = 0 then Inr s
      else bind_res
        (update_balances (snd s) (\<lambda>r. dimensionWhere (rm_dimension m) r \<and> reserve_guard (rm_qty m) r)
           (reserve_change (rm_qty m)))
        (\<lambda>(balance, db). if balance = [] then Inl (negativeBalance (rm_field m))
           else bind_res (insert_reservation db m) (\<lambda>(rid, db'). Inr (fst s @ [rid], db'))))"

definition reserveBalances :: "inv_db \<Rightarrow> ReserveMove list \<Rightarrow> (id list \<times> inv_db) res" where
  "reserveBalances db moves = fold_res reserve_one moves ([], db)"

definition pick_guard :: "decimal \<times> bool \<Rightarrow> balance_row \<Rightarrow> bool" where
  "pick_guard q r \<longleftrightarrow>
     (if \<not> fst q > 0 then picked_qty r \<ge> - fst q
      else if snd q then reserved_qty r \<ge> fst q
      else available_qty r \<ge> fst q)"

definition pick_change :: "decimal \<times> bool \<Rightarrow> balance_row \<Rightarrow> balance_row" where
  "pick_change q = (\<lambda>r. r\<lparr>reserved_qty := (if snd q then reserved_qty r - fst q else reserved_qty r),
                          picked_qty := picked_qty r + fst q,
                          balance_version_no := balance_version_no r + 1\<rparr>)"

definition consumption_guard :: "decimal \<Rightarrow> reservation_row \<Rightarrow> bool" where
  "consumption_guard delta v \<longleftrightarrow>
     (if delta > 0 then rv_reserved_qty v - rv_released_qty v - rv_consumed_qty v \<ge> delta
      else rv_consumed_qty v \<ge> - delta)"

definition consumeReservation :: "inv_db \<Rightarrow> id \<Rightarrow> id \<Rightarrow> decimal \<Rightarrow> string \<Rightarrow> inv_db res" where
  "consumeReservation db reservationId item delta path =
     bind_res
       (update_reservations db
          (\<lambda>v. inventory_reservation_id v = reservationId \<and> rv_item_id v = item \<and> consumption_guard delta v)
          (\<lambda>v. v\<lparr>rv_consumed_qty := rv_consumed_qty v + delta, rv_version_no := rv_version_no v + 1\<rparr>))
       (\<lambda>(rows, db'). if rows = [] then Inl (negativeBalance path) else Inr db')"

definition pick_one :: "PickMove \<Rightarrow> inv_db \<Rightarrow> inv_db res" where
  "pick_one m db =
     (if pm_delta m = 0 then Inr db
      else let q = (pm_delta m, pm_inventoryReservationId m \<noteq> None) in
        bind_res
          (update_balances db (\<lambda>r. dimensionWhere (pm_dimension m) r \<and> pick_guard q r) (pick_change q))
          (\<lambda>(rows, db'). if rows = [] then Inl (negativeBalance (pm_field m))
             else case pm_inventoryReservationId m of
                    None \<Rightarrow> Inr db'
                  | Some rid \<Rightarrow>
                      consumeReservation db' rid (itemId (pm_dimension m)) (pm_delta m) (pm_field m)))"

definition pickBalances :: "inv_db \<Rightarrow> PickMove list \<Rightarrow> inv_db res" where
  "pickBalances db moves = fold_res pick_one moves db"

definition releaseReservation :: "inv_db \<Rightarrow> id \<Rightarrow> id \<Rightarrow> decimal \<Rightarrow> string \<Rightarrow> inv_db res" where
  "releaseReservation db reservationId item qty path =
     (if qty = 0 then Inr db
      else bind_res
        (update_reservations db
           (\<lambda>v. inventory_reservation_id v = reservationId \<and> rv_item_id v = item \<and> rv_consumed_qty v \<ge> qty)
           (\<lambda>v. v\<lparr>rv_consumed_qty := rv_consumed_qty v - qty, rv_released_qty := rv_released_qty v + qty,
                  rv_version_no := rv_version_no v + 1\<rparr>))
        (\<lambda>(rows, db'). if rows = [] then Inl (negativeBalance path) else Inr db'))"

definition consume_guard :: "decimal \<Rightarrow> balance_row \<Rightarrow> bool" where
  "consume_guard qty r \<longleftrightarrow> picked_qty r \<ge> qty"

definition consume_change :: "decimal \<Rightarrow> balance_row \<Rightarrow> balance_row" where
  "consume_change qty = (\<lambda>r. r\<lparr>picked_qty := picked_qty r - qty,
                               balance_version_no := balance_version_no r + 1\<rparr>)"

definition consume_one :: "ConsumeMove \<Rightarrow> inv_db \<Rightarrow> inv_db res" where
  "consume_one m db =
     (if cm_qty m = 0 then Inr db
      else bind_res
        (update_balances db (\<lambda>r. dimensionWhere (cm_dimension m) r \<and> consume_guard (cm_qty m) r)
           (consume_change (cm_qty m)))
        (\<lambda>(rows, db'). if rows = [] then Inl (negativeBalance (cm_field m)) else Inr db'))"

definition consumeBalances :: "inv_db \<Rightarrow> ConsumeMove list \<Rightarrow> inv_db res" where
  "consumeBalances db moves = fold_res consume_one moves db"

section \<open>Operations on quantities\<close>

text \<open>An operation on quantities: the ledger and the quantities on hand are as before.\<close>

definition quantities_only :: "inv_db \<Rightarrow> inv_db \<Rightarrow> bool" where
  "quantities_only db db' \<longleftrightarrow>
     db' = db\<lparr>balances := balances db', reservations := reservations db',
              reservation_seq := reservation_seq db'\<rparr> \<and>
     (\<forall>k. on_hand_at db' k = on_hand_at db k)"

lemma quantities_only_refl [simp]: "quantities_only db db"
  by (simp add: quantities_only_def)

lemma quantities_only_trans:
  assumes "quantities_only a b" and "quantities_only b c"
  shows "quantities_only a c"
proof -
  have "c = b\<lparr>balances := balances c, reservations := reservations c, reservation_seq := reservation_seq c\<rparr>"
    and "b = a\<lparr>balances := balances b, reservations := reservations b, reservation_seq := reservation_seq b\<rparr>"
    using assms by (simp_all add: quantities_only_def)
  then have "c = a\<lparr>balances := balances c, reservations := reservations c, reservation_seq := reservation_seq c\<rparr>"
    by (cases a, cases b, cases c) simp
  with assms show ?thesis by (simp add: quantities_only_def)
qed

lemma quantities_onlyI:
  assumes "db' = db\<lparr>balances := balances db'\<rparr>" and "\<And>k. on_hand_at db' k = on_hand_at db k"
  shows "quantities_only db db'"
  using assms by (cases db, cases db') (simp add: quantities_only_def)

section \<open>The contract of a guarded update\<close>

locale guarded_update =
  fixes ok :: "'q \<Rightarrow> bool"
    and p :: "'q \<Rightarrow> balance_row \<Rightarrow> bool"
    and f :: "'q \<Rightarrow> balance_row \<Rightarrow> balance_row"
  assumes identity: "keeps_identity (f q)"
    and on_hand: "on_hand_qty (f q r) = on_hand_qty r"
    and keeps_valid: "ok q \<Longrightarrow> balance_valid neg r \<Longrightarrow> p q r \<Longrightarrow> balance_valid neg (f q r)"
begin

lemma total:
  assumes "wf_balances db" and "ok q"
  shows "\<exists>rows db'. update_balances db (\<lambda>r. dimensionWhere d r \<and> p q r) (f q) = Inr (rows, db')"
  using assms by (auto simp: res_simps wf_balances_def list_all_iff intro: keeps_valid)

lemma never_fails:
  assumes "wf_balances db" and "ok q"
  shows "update_balances db (\<lambda>r. dimensionWhere d r \<and> p q r) (f q) \<noteq> Inl e"
  using total [OF assms, of d] by auto

lemma result:
  assumes "wf_balances db"
    and "update_balances db (\<lambda>r. dimensionWhere d r \<and> p q r) (f q) = Inr (rows, db')"
  shows "wf_balances db'" and "on_hand_at db' k = on_hand_at db k"
    and "rows \<noteq> [] \<longleftrightarrow> (\<exists>r. find_balance db d = Some r \<and> p q r)"
    and "find_balance db' j =
      map_option (\<lambda>r. if dim_key j = dim_key d \<and> p q r then f q r else r) (find_balance db j)"
    and "db' = db\<lparr>balances := balances db'\<rparr>"
    and "quantities_only db db'" and "reservations db' = reservations db"
    and "reservation_seq db' = reservation_seq db"
proof -
  show wf': "wf_balances db'" by (rule update_wf [OF assms identity])
  show find': "find_balance db' j =
      map_option (\<lambda>r. if dim_key j = dim_key d \<and> p q r then f q r else r) (find_balance db j)" for j
    by (rule find_balance_update [OF assms(2) identity])
  show same: "on_hand_at db' k = on_hand_at db k" for k
    by (auto simp: on_hand_at_find [OF wf'] on_hand_at_find [OF assms(1)] find' on_hand
        split: option.splits)
  show "rows \<noteq> [] \<longleftrightarrow> (\<exists>r. find_balance db d = Some r \<and> p q r)"
    using update_rows [OF assms] by (auto split: option.splits if_splits)
  show db': "db' = db\<lparr>balances := balances db'\<rparr>"
    using assms(2) by (auto simp: res_simps)
  show "quantities_only db db'" by (rule quantities_onlyI [OF db' same])
  show "reservations db' = reservations db" "reservation_seq db' = reservation_seq db"
    using assms(2) by (auto simp: res_simps)
qed

end

lemmas validity = balance_valid_def check_balance_qty_def available_qty_def

interpretation reserve: guarded_update "\<lambda>q. 0 < q" reserve_guard reserve_change
  by unfold_locales
    (auto simp: validity reserve_guard_def reserve_change_def intro!: keeps_identityI)

interpretation pick: guarded_update "\<lambda>q. True" pick_guard pick_change
  by unfold_locales
    (auto simp: validity pick_guard_def pick_change_def intro!: keeps_identityI split: if_splits)

interpretation consume: guarded_update "\<lambda>q. 0 \<le> q" consume_guard consume_change
  by unfold_locales
    (auto simp: validity consume_guard_def consume_change_def intro!: keeps_identityI)

section \<open>What the operations keep\<close>

definition wf_reservations :: "inv_db \<Rightarrow> bool" where
  "wf_reservations db \<longleftrightarrow>
     list_all reservation_valid (reservations db) \<and>
     id_column (reservation_seq db) (map inventory_reservation_id (reservations db))"

lemma reservations_frame [simp]:
  "on_hand_at (db\<lparr>reservations := vs\<rparr>) k = on_hand_at db k"
  "on_hand_at (db\<lparr>reservations := vs, reservation_seq := n\<rparr>) k = on_hand_at db k"
  "wf_balances (db\<lparr>reservations := vs\<rparr>) = wf_balances db"
  "wf_balances (db\<lparr>reservations := vs, reservation_seq := n\<rparr>) = wf_balances db"
  "find_balance (db\<lparr>reservations := vs\<rparr>) k = find_balance db k"
  "find_balance (db\<lparr>reservations := vs, reservation_seq := n\<rparr>) k = find_balance db k"
  by (simp_all add: on_hand_at_def wf_balances_def find_balance_def)

lemma update_reservations_eq [res_simps]:
  "update_reservations db p f = Inr (rows, db') \<longleftrightarrow>
     rows = map f (filter p (reservations db)) \<and>
     db' = db\<lparr>reservations := map (\<lambda>v. if p v then f v else v) (reservations db)\<rparr> \<and>
     list_all reservation_valid rows"
  by (auto simp: update_reservations_def Let_def)

lemma update_reservations_wf:
  assumes "wf_reservations db" and "update_reservations db p f = Inr (rows, db')"
    and "\<And>v. inventory_reservation_id (f v) = inventory_reservation_id v"
  shows "wf_reservations db'"
proof -
  have db': "db' = db\<lparr>reservations := map (\<lambda>v. if p v then f v else v) (reservations db)\<rparr>"
    and v: "list_all reservation_valid (map f (filter p (reservations db)))"
    using assms(2) by (auto simp: res_simps)
  have ids: "map inventory_reservation_id (reservations db') = map inventory_reservation_id (reservations db)"
    using assms(3) by (simp add: db')
  have "list_all reservation_valid (reservations db')"
    using assms(1) v by (auto simp: db' wf_reservations_def list_all_iff)
  with assms(1) ids show ?thesis unfolding wf_reservations_def ids by (simp add: db')
qed

lemma insert_reservation_Inr [res_simps]:
  "insert_reservation db m = Inr (rid, db') \<Longrightarrow>
     rid = reservation_seq db \<and> quantities_only db db' \<and> balances db' = balances db \<and>
     wf_balances db' = wf_balances db \<and> (wf_reservations db \<longrightarrow> wf_reservations db') \<and>
     0 < rm_qty m \<and>
     set (map reservation_no (reservations db')) =
       insert (rm_reservationNo m) (set (map reservation_no (reservations db)))"
  by (auto simp: insert_reservation_def Let_def quantities_only_def wf_reservations_def
      reservation_valid_def split: if_splits)

lemma reserve_one_result:
  assumes "reserve_one m (ids, db) = Inr (ids', db')" and "wf_balances db" and "rm_qty m \<noteq> 0"
  obtains db1 where "wf_balances db1" and "quantities_only db db1"
    and "db1 = db\<lparr>balances := balances db1\<rparr>"
    and "insert_reservation db1 m = Inr (reservation_seq db, db')"
    and "ids' = ids @ [reservation_seq db]"
    and "\<exists>r. find_balance db (rm_dimension m) = Some r \<and> reserve_guard (rm_qty m) r"
    and "\<forall>k. find_balance db1 k = map_option (\<lambda>r. if dim_key k = dim_key (rm_dimension m) \<and>
           reserve_guard (rm_qty m) r then reserve_change (rm_qty m) r else r) (find_balance db k)"
proof -
  from assms(1,3) obtain rows db1 rid where
    up: "update_balances db (\<lambda>r. dimensionWhere (rm_dimension m) r \<and> reserve_guard (rm_qty m) r)
        (reserve_change (rm_qty m)) = Inr (rows, db1)"
    and rows: "rows \<noteq> []" and ins: "insert_reservation db1 m = Inr (rid, db')"
    and ids: "ids' = ids @ [rid]"
    unfolding reserve_one_def bind_res_eq_Inr case_prod_eq_Inr
    by (auto simp: bind_res_eq_Inr split: if_splits)
  note r = reserve.result [OF assms(2) up]
  have rid: "rid = reservation_seq db" using insert_reservation_Inr [OF ins] r(8) by simp
  show ?thesis using that [of db1] r rows ins ids rid by blast
qed

lemma reserve_one_keeps:
  assumes "reserve_one m (ids, db) = Inr (ids', db')" and "wf_balances db"
  shows "wf_balances db' \<and> quantities_only db db' \<and> (wf_reservations db \<longrightarrow> wf_reservations db') \<and>
    set (map reservation_no (reservations db')) \<subseteq>
      insert (rm_reservationNo m) (set (map reservation_no (reservations db)))"
proof (cases "rm_qty m = 0")
  case True
  with assms show ?thesis by (auto simp: reserve_one_def)
next
  case False
  obtain db1 where db1: "wf_balances db1" "quantities_only db db1" "db1 = db\<lparr>balances := balances db1\<rparr>"
    and ins: "insert_reservation db1 m = Inr (reservation_seq db, db')"
    by (rule reserve_one_result [OF assms False])
  have same: "reservations db1 = reservations db" "wf_reservations db1 = wf_reservations db"
    using arg_cong [OF db1(3), of reservations] arg_cong [OF db1(3), of reservation_seq]
    by (simp_all add: wf_reservations_def)
  with insert_reservation_Inr [OF ins] db1 show ?thesis
    using quantities_only_trans [OF db1(2)] by auto
qed

lemma reserve_one_error:
  assumes "wf_balances db" and "0 \<le> rm_qty m"
    and "rm_reservationNo m \<notin> set (map reservation_no (reservations db))"
    and "reserve_one m (ids, db) = Inl e"
  shows "e = negativeBalance (rm_field m)"
proof -
  have pos: "0 < rm_qty m" using assms(2,4) by (cases "rm_qty m = 0") (auto simp: reserve_one_def)
  obtain rows db1 where up: "update_balances db (\<lambda>r. dimensionWhere (rm_dimension m) r \<and>
      reserve_guard (rm_qty m) r) (reserve_change (rm_qty m)) = Inr (rows, db1)"
    using reserve.total [OF assms(1) pos] by blast
  have "reservations db1 = reservations db" using reserve.result(7) [OF assms(1) up] .
  with assms(3) pos have "\<exists>x. insert_reservation db1 m = Inr x"
    by (simp add: insert_reservation_def reservation_valid_def)
  with assms(4) pos up show ?thesis
    by (auto simp: reserve_one_def split: if_splits)
qed

lemma fold_reserve_error:
  assumes "wf_balances db" and "list_all (\<lambda>m. 0 \<le> rm_qty m) moves"
    and "distinct (map rm_reservationNo moves)"
    and "set (map rm_reservationNo moves) \<inter> set (map reservation_no (reservations db)) = {}"
    and "fold_res reserve_one moves (ids, db) = Inl e"
  shows "\<exists>m \<in> set moves. e = negativeBalance (rm_field m)"
  using assms
proof (induction moves arbitrary: ids db)
  case Nil
  then show ?case by simp
next
  case (Cons m moves)
  show ?case
  proof (cases "reserve_one m (ids, db)")
    case (Inl e')
    with Cons.prems reserve_one_error [of db m ids] show ?thesis by auto
  next
    case (Inr s)
    then obtain ids' db' where s: "reserve_one m (ids, db) = Inr (ids', db')" by (cases s) auto
    have k: "wf_balances db'" "set (map reservation_no (reservations db')) \<subseteq>
        insert (rm_reservationNo m) (set (map reservation_no (reservations db)))"
      using reserve_one_keeps [OF s Cons.prems(1)] by auto
    have "\<exists>m \<in> set moves. e = negativeBalance (rm_field m)"
    proof (rule Cons.IH [OF k(1)])
      show "fold_res reserve_one moves (ids', db') = Inl e" using Cons.prems(5) s by simp
      show "set (map rm_reservationNo moves) \<inter> set (map reservation_no (reservations db')) = {}"
        using k(2) Cons.prems(3,4) unfolding list.map set_simps distinct.simps by blast
    qed (use Cons.prems in auto)
    then show ?thesis by simp
  qed
qed

section \<open>Picking, consuming and releasing\<close>

lemma update_reservations_total:
  assumes "wf_reservations db"
    and "\<And>v. reservation_valid v \<Longrightarrow> p v \<Longrightarrow> reservation_valid (f v)"
  shows "\<exists>rows db'. update_reservations db p f = Inr (rows, db')"
  using assms by (auto simp: res_simps wf_reservations_def list_all_iff)

definition consumption_change :: "decimal \<Rightarrow> reservation_row \<Rightarrow> reservation_row" where
  "consumption_change delta =
     (\<lambda>v. v\<lparr>rv_consumed_qty := rv_consumed_qty v + delta, rv_version_no := rv_version_no v + 1\<rparr>)"

definition release_change :: "decimal \<Rightarrow> reservation_row \<Rightarrow> reservation_row" where
  "release_change qty =
     (\<lambda>v. v\<lparr>rv_consumed_qty := rv_consumed_qty v - qty, rv_released_qty := rv_released_qty v + qty,
            rv_version_no := rv_version_no v + 1\<rparr>)"

lemma consumption_valid:
  "reservation_valid v \<Longrightarrow> consumption_guard delta v \<Longrightarrow> reservation_valid (consumption_change delta v)"
  by (auto simp: reservation_valid_def consumption_guard_def consumption_change_def split: if_splits)

lemma release_valid:
  "reservation_valid v \<Longrightarrow> 0 \<le> qty \<Longrightarrow> rv_consumed_qty v \<ge> qty \<Longrightarrow> reservation_valid (release_change qty v)"
  by (auto simp: reservation_valid_def release_change_def)

lemmas reservation_updates =
  consumeReservation_def [folded consumption_change_def] releaseReservation_def [folded release_change_def]

lemma update_reservations_keeps:
  assumes "update_reservations db p f = Inr (rows, db')"
    and "\<And>v. inventory_reservation_id (f v) = inventory_reservation_id v"
  shows "wf_balances db' = wf_balances db" and "wf_reservations db \<Longrightarrow> wf_reservations db'"
    and "quantities_only db db'" and "find_balance db' k = find_balance db k"
    and "balances db' = balances db"
  using assms(1) update_reservations_wf [OF _ assms]
  by (auto simp: res_simps quantities_only_def)

lemma consumeReservation_keeps:
  assumes "consumeReservation db rid item delta path = Inr db'"
  shows "wf_balances db' = wf_balances db" and "wf_reservations db \<Longrightarrow> wf_reservations db'"
    and "quantities_only db db'" and "find_balance db' k = find_balance db k"
    and "balances db' = balances db"
proof -
  obtain rows where up: "update_reservations db
      (\<lambda>v. inventory_reservation_id v = rid \<and> rv_item_id v = item \<and> consumption_guard delta v)
      (consumption_change delta) = Inr (rows, db')"
    using assms unfolding reservation_updates bind_res_eq_Inr case_prod_eq_Inr by (auto split: if_splits)
  have id: "inventory_reservation_id (consumption_change delta v) = inventory_reservation_id v" for v
    by (simp add: consumption_change_def)
  show "wf_balances db' = wf_balances db" "wf_reservations db \<Longrightarrow> wf_reservations db'"
    "quantities_only db db'" "find_balance db' k = find_balance db k" "balances db' = balances db"
    using update_reservations_keeps [OF up id] by auto
qed

lemma consumeReservation_error:
  assumes "wf_reservations db" and "consumeReservation db rid item delta path = Inl e"
  shows "e = negativeBalance path"
proof -
  obtain rows db' where "update_reservations db
      (\<lambda>v. inventory_reservation_id v = rid \<and> rv_item_id v = item \<and> consumption_guard delta v)
      (consumption_change delta) = Inr (rows, db')"
    using update_reservations_total [OF assms(1),
        of "\<lambda>v. inventory_reservation_id v = rid \<and> rv_item_id v = item \<and> consumption_guard delta v"
          "consumption_change delta"] consumption_valid by blast
  with assms(2) show ?thesis unfolding reservation_updates by (auto split: if_splits)
qed

lemma pick_one_result:
  assumes "pick_one m db = Inr db'" and "wf_balances db" and "pm_delta m \<noteq> 0"
  defines "q \<equiv> (pm_delta m, pm_inventoryReservationId m \<noteq> None)"
  shows "wf_balances db'" and "quantities_only db db'"
    and "wf_reservations db \<Longrightarrow> wf_reservations db'"
    and "\<exists>r. find_balance db (pm_dimension m) = Some r \<and> pick_guard q r"
    and "find_balance db' k = map_option (\<lambda>r. if dim_key k = dim_key (pm_dimension m) \<and>
           pick_guard q r then pick_change q r else r) (find_balance db k)"
proof -
  let ?after = "\<lambda>db1. case pm_inventoryReservationId m of None \<Rightarrow> Inr db1
    | Some rid \<Rightarrow> consumeReservation db1 rid (itemId (pm_dimension m)) (pm_delta m) (pm_field m)"
  obtain rows db1 where
    up: "update_balances db (\<lambda>r. dimensionWhere (pm_dimension m) r \<and> pick_guard q r) (pick_change q)
          = Inr (rows, db1)"
    and rows: "rows \<noteq> []" and after: "?after db1 = Inr db'"
    using assms(1,3) unfolding pick_one_def Let_def q_def
    by (auto simp: bind_res_eq_Inr case_prod_eq_Inr split: if_splits)
  note r = pick.result [OF assms(2) up]
  have seq: "wf_reservations db1 = wf_reservations db"
    using r(7,8) by (simp add: wf_reservations_def)
  have 1: "wf_balances db' \<and> (wf_reservations db1 \<longrightarrow> wf_reservations db') \<and> quantities_only db1 db' \<and>
    (\<forall>k. find_balance db' k = find_balance db1 k)"
  proof (cases "pm_inventoryReservationId m")
    case None
    with after r(1) show ?thesis by simp
  next
    case (Some rid)
    with after have "consumeReservation db1 rid (itemId (pm_dimension m)) (pm_delta m) (pm_field m) = Inr db'"
      by simp
    from consumeReservation_keeps [OF this] r(1) show ?thesis by simp
  qed
  show "wf_balances db'" using 1 by blast
  show "quantities_only db db'"
    using quantities_only_trans [OF r(6)] 1 by blast
  show "wf_reservations db \<Longrightarrow> wf_reservations db'" using 1 seq by simp
  show "\<exists>r. find_balance db (pm_dimension m) = Some r \<and> pick_guard q r" using r(3) rows by simp
  show "find_balance db' k = map_option (\<lambda>r. if dim_key k = dim_key (pm_dimension m) \<and>
           pick_guard q r then pick_change q r else r) (find_balance db k)"
    using 1 r(4) by simp
qed

lemma pick_one_keeps:
  assumes "pick_one m db = Inr db'" and "wf_balances db" and "wf_reservations db"
  shows "wf_balances db' \<and> wf_reservations db' \<and> quantities_only db db'"
proof (cases "pm_delta m = 0")
  case True
  with assms show ?thesis by (simp add: pick_one_def)
next
  case False
  from pick_one_result(1-3) [OF assms(1,2) False] assms(3) show ?thesis by blast
qed

lemma pick_one_error:
  assumes "wf_balances db" and "wf_reservations db" and "pick_one m db = Inl e"
  shows "e = negativeBalance (pm_field m)"
proof -
  let ?q = "(pm_delta m, pm_inventoryReservationId m \<noteq> None)"
  obtain rows db1 where
    up: "update_balances db (\<lambda>r. dimensionWhere (pm_dimension m) r \<and> pick_guard ?q r) (pick_change ?q)
          = Inr (rows, db1)"
    using pick.total [OF assms(1)] by blast
  have "wf_reservations db1"
    using pick.result(7,8) [OF assms(1) up] assms(2) by (simp add: wf_reservations_def)
  then show ?thesis
    using assms(3) up consumeReservation_error [of db1]
    by (auto simp: pick_one_def Let_def split: if_splits option.splits)
qed

lemma fold_pick_error:
  assumes "wf_balances db" and "wf_reservations db" and "fold_res pick_one moves db = Inl e"
  shows "\<exists>m \<in> set moves. e = negativeBalance (pm_field m)"
  using assms
proof (induction moves arbitrary: db)
  case Nil
  then show ?case by simp
next
  case (Cons m moves)
  show ?case
  proof (cases "pick_one m db")
    case (Inl e')
    with Cons.prems pick_one_error [of db m] show ?thesis by auto
  next
    case (Inr db')
    with Cons.prems pick_one_keeps [OF Inr] Cons.IH [of db'] show ?thesis by auto
  qed
qed

lemma consume_one_keeps:
  assumes "consume_one m db = Inr db'" and "wf_balances db"
  shows "wf_balances db'" and "quantities_only db db'"
    and "reservations db' = reservations db" and "reservation_seq db' = reservation_seq db"
    and "find_balance db' k = map_option (\<lambda>r. if dim_key k = dim_key (cm_dimension m) \<and> cm_qty m \<noteq> 0 \<and>
           consume_guard (cm_qty m) r then consume_change (cm_qty m) r else r) (find_balance db k)"
proof -
  have "wf_balances db' \<and> quantities_only db db' \<and> reservations db' = reservations db \<and>
    reservation_seq db' = reservation_seq db \<and>
    find_balance db' k = map_option (\<lambda>r. if dim_key k = dim_key (cm_dimension m) \<and> cm_qty m \<noteq> 0 \<and>
           consume_guard (cm_qty m) r then consume_change (cm_qty m) r else r) (find_balance db k)"
  proof (cases "cm_qty m = 0")
    case True
    with assms show ?thesis by (simp add: consume_one_def option.map_ident)
  next
    case False
    then obtain rows where up: "update_balances db (\<lambda>r. dimensionWhere (cm_dimension m) r \<and>
        consume_guard (cm_qty m) r) (consume_change (cm_qty m)) = Inr (rows, db')"
      using assms(1) unfolding consume_one_def
      by (auto simp: bind_res_eq_Inr case_prod_eq_Inr split: if_splits)
    note r = consume.result [OF assms(2) up]
    show ?thesis
      using r(1,4,6,7,8) False by simp
  qed
  then show "wf_balances db'" "quantities_only db db'" "reservations db' = reservations db"
    "reservation_seq db' = reservation_seq db"
    "find_balance db' k = map_option (\<lambda>r. if dim_key k = dim_key (cm_dimension m) \<and> cm_qty m \<noteq> 0 \<and>
           consume_guard (cm_qty m) r then consume_change (cm_qty m) r else r) (find_balance db k)"
    by auto
qed

section \<open>One reservation through its cycle\<close>

definition find_reservation :: "inv_db \<Rightarrow> id \<Rightarrow> reservation_row option" where
  "find_reservation db rid = find (\<lambda>v. inventory_reservation_id v = rid) (reservations db)"

lemma find_reservation_Some:
  "find_reservation db rid = Some v \<Longrightarrow> v \<in> set (reservations db) \<and> inventory_reservation_id v = rid"
  unfolding find_reservation_def by (auto simp: find_Some_iff)

lemma find_map_id:
  "(\<And>v. inventory_reservation_id (g v) = inventory_reservation_id v) \<Longrightarrow>
   find (\<lambda>v. inventory_reservation_id v = rid) (map g vs) =
     map_option g (find (\<lambda>v. inventory_reservation_id v = rid) vs)"
  by (induction vs) auto

lemma update_reservation_found:
  assumes "wf_reservations db" and "find_reservation db rid = Some v" and "rv_item_id v = item" and "g v"
    and id: "\<And>v. inventory_reservation_id (f v) = inventory_reservation_id v"
    and valid: "\<And>v. reservation_valid v \<Longrightarrow> g v \<Longrightarrow> reservation_valid (f v)"
  shows "\<exists>rows db'. update_reservations db
      (\<lambda>v. inventory_reservation_id v = rid \<and> rv_item_id v = item \<and> g v) f = Inr (rows, db') \<and>
    rows \<noteq> [] \<and> wf_reservations db' \<and> find_reservation db' rid = Some (f v) \<and>
    quantities_only db db' \<and> balances db' = balances db"
proof -
  let ?p = "\<lambda>v. inventory_reservation_id v = rid \<and> rv_item_id v = item \<and> g v"
  obtain rows db' where up: "update_reservations db ?p f = Inr (rows, db')"
    using update_reservations_total [OF assms(1), of ?p f] valid by blast
  have "v \<in> set (filter ?p (reservations db))"
    using find_reservation_Some [OF assms(2)] assms(3,4) by simp
  then have "rows \<noteq> []" using up unfolding update_reservations_eq by (cases "filter ?p (reservations db)") auto
  moreover have "find_reservation db' rid = Some (f v)"
    using up assms(2) find_reservation_Some [OF assms(2)] assms(3,4)
    by (simp add: update_reservations_eq find_reservation_def find_map_id id)
  ultimately show ?thesis
    using up update_reservations_keeps [OF up id] assms(1) by blast
qed

lemma consumeReservation_found:
  assumes "wf_reservations db" and "find_reservation db rid = Some v" and "consumption_guard delta v"
  shows "\<exists>db'. consumeReservation db rid (rv_item_id v) delta path = Inr db' \<and> wf_reservations db' \<and>
    find_reservation db' rid = Some (consumption_change delta v) \<and>
    quantities_only db db' \<and> balances db' = balances db"
  using update_reservation_found [of db rid v "rv_item_id v" "consumption_guard delta"
      "consumption_change delta", OF assms(1,2) refl assms(3) _ consumption_valid]
  by (fastforce simp: reservation_updates consumption_change_def)

lemma releaseReservation_found:
  assumes "wf_reservations db" and "find_reservation db rid = Some v"
    and "0 < qty" and "rv_consumed_qty v \<ge> qty"
  shows "\<exists>db'. releaseReservation db rid (rv_item_id v) qty path = Inr db' \<and> wf_reservations db' \<and>
    find_reservation db' rid = Some (release_change qty v) \<and>
    quantities_only db db' \<and> balances db' = balances db"
  using update_reservation_found [of db rid v "rv_item_id v" "\<lambda>v. rv_consumed_qty v \<ge> qty"
      "release_change qty", OF assms(1,2) refl assms(4) _ release_valid] assms(3)
  by (fastforce simp: reservation_updates release_change_def)

text \<open>A guarded update whose guard holds at the row of the dimension finds it.\<close>

lemma pick_found:
  assumes "wf_balances db" and "wf_reservations db" and "find_balance db d = Some r"
    and "find_reservation db rid = Some v" and "rv_item_id v = itemId d"
    and "pick_guard (delta, True) r" and "consumption_guard delta v" and "delta \<noteq> 0"
  shows "\<exists>db'. pickBalances db [\<lparr>pm_dimension = d, pm_delta = delta, pm_inventoryReservationId = Some rid,
      pm_field = path\<rparr>] = Inr db' \<and> wf_balances db' \<and> wf_reservations db' \<and>
    find_reservation db' rid = Some (consumption_change delta v) \<and> quantities_only db db' \<and>
    (\<forall>k. find_balance db' k = map_option (\<lambda>r. if dim_key k = dim_key d \<and> pick_guard (delta, True) r
           then pick_change (delta, True) r else r) (find_balance db k))"
proof -
  obtain rows db1 where up: "update_balances db (\<lambda>r. dimensionWhere d r \<and> pick_guard (delta, True) r)
      (pick_change (delta, True)) = Inr (rows, db1)"
    using pick.total [OF assms(1)] by blast
  note r = pick.result [OF assms(1) up]
  have rows: "rows \<noteq> []" using r(3) assms(3,6) by blast
  have wf: "wf_reservations db1" "find_reservation db1 rid = Some v"
    using assms(2,4) r(7,8) by (simp_all add: wf_reservations_def find_reservation_def)
  obtain db' where db': "consumeReservation db1 rid (itemId d) delta path = Inr db'"
      "wf_reservations db'" "find_reservation db' rid = Some (consumption_change delta v)"
      "quantities_only db1 db'" "balances db' = balances db1"
    using consumeReservation_found [OF wf assms(7), of path] assms(5) by metis
  have run: "pickBalances db [\<lparr>pm_dimension = d, pm_delta = delta, pm_inventoryReservationId = Some rid,
      pm_field = path\<rparr>] = Inr db'"
    using up rows db'(1) assms(8) by (simp add: pickBalances_def pick_one_def)
  have found: "find_balance db' k = find_balance db1 k" for k
    using db'(5) by (simp add: find_balance_def)
  have "wf_balances db'" using consumeReservation_keeps(1) [OF db'(1)] r(1) by simp
  then show ?thesis
    using run db'(2,3) quantities_only_trans [OF r(6) db'(4)] r(4) found by auto
qed

lemma consume_found:
  assumes "wf_balances db" and "find_balance db d = Some r" and "consume_guard qty r" and "0 < qty"
  shows "\<exists>db'. consumeBalances db [\<lparr>cm_dimension = d, cm_qty = qty, cm_field = path\<rparr>] = Inr db'"
proof -
  obtain rows db1 where up: "update_balances db (\<lambda>r. dimensionWhere d r \<and> consume_guard qty r)
      (consume_change qty) = Inr (rows, db1)"
    using consume.total [OF assms(1) less_imp_le [OF assms(4)]] by blast
  have "rows \<noteq> []" using consume.result(3) [OF assms(1) up] assms(2,3) by blast
  then show ?thesis using up assms(4) by (simp add: consumeBalances_def consume_one_def)
qed

lemma insert_reservation_found:
  assumes "insert_reservation db m = Inr (rid, db')" and "wf_reservations db"
  shows "\<exists>v. find_reservation db' rid = Some v \<and> rv_item_id v = itemId (rm_dimension m) \<and>
    rv_reserved_qty v = rm_qty m \<and> rv_released_qty v = 0 \<and> rv_consumed_qty v = 0"
proof -
  have "find (\<lambda>v. inventory_reservation_id v = reservation_seq db) (reservations db) = None"
    using assms(2) id_column_fresh [of "reservation_seq db"]
    by (force simp: wf_reservations_def find_None_iff)
  moreover have "find P (xs @ [y]) = (case find P xs of Some x \<Rightarrow> Some x | None \<Rightarrow> if P y then Some y else None)"
    for P :: "reservation_row \<Rightarrow> bool" and xs y by (induction xs) auto
  ultimately show ?thesis
    using assms(1) by (auto simp: insert_reservation_def Let_def find_reservation_def split: if_splits)
qed

lemma reserved_row:
  assumes "reserveBalances db [m] = Inr (ids, db1)" and "wf_balances db" and "wf_reservations db"
    and "0 < rm_qty m"
  obtains r v where "ids = [reservation_seq db]" and "wf_balances db1" and "wf_reservations db1"
    and "quantities_only db db1"
    and "find_balance db (rm_dimension m) = Some r" and "reserve_guard (rm_qty m) r"
    and "\<forall>k. find_balance db1 k = map_option (\<lambda>r. if dim_key k = dim_key (rm_dimension m) \<and>
           reserve_guard (rm_qty m) r then reserve_change (rm_qty m) r else r) (find_balance db k)"
    and "find_reservation db1 (reservation_seq db) = Some v" and "rv_item_id v = itemId (rm_dimension m)"
    and "rv_reserved_qty v = rm_qty m" and "rv_released_qty v = 0" and "rv_consumed_qty v = 0"
proof -
  have one: "reserve_one m ([], db) = Inr (ids, db1)"
    using assms(1) by (auto simp: reserveBalances_def bind_res_eq_Inr)
  note keeps = reserve_one_keeps [OF one assms(2)]
  obtain db' where d: "db' = db\<lparr>balances := balances db'\<rparr>"
    and ins: "insert_reservation db' m = Inr (reservation_seq db, db1)" and ids: "ids = [] @ [reservation_seq db]"
    and row: "\<exists>r. find_balance db (rm_dimension m) = Some r \<and> reserve_guard (rm_qty m) r"
    and found: "\<forall>k. find_balance db' k = map_option (\<lambda>r. if dim_key k = dim_key (rm_dimension m) \<and>
           reserve_guard (rm_qty m) r then reserve_change (rm_qty m) r else r) (find_balance db k)"
    by (rule reserve_one_result [OF one assms(2) less_imp_neq [OF assms(4), symmetric]])
  have "wf_reservations db'"
    using assms(3) arg_cong [OF d, of reservations] arg_cong [OF d, of reservation_seq]
    by (simp add: wf_reservations_def)
  from insert_reservation_found [OF ins this] obtain v where v: "find_reservation db1 (reservation_seq db) = Some v"
    "rv_item_id v = itemId (rm_dimension m)" "rv_reserved_qty v = rm_qty m" "rv_released_qty v = 0"
    "rv_consumed_qty v = 0" by blast
  have "find_balance db1 k = find_balance db' k" for k
    using insert_reservation_Inr [OF ins] by (simp add: find_balance_def)
  with found row ids keeps v assms(3) that show ?thesis by (metis append_Nil)
qed

text \<open>Picking all of a reservation and consuming what was picked.\<close>

definition quantities :: "balance_row \<Rightarrow> decimal \<times> decimal \<times> decimal \<times> decimal" where
  "quantities r = (on_hand_qty r, reserved_qty r, picked_qty r, blocked_qty r)"

lemma pick_then_consume:
  assumes "wf_balances db" and "wf_reservations db" and "find_balance db d = Some r" and "0 < q"
    and "q \<le> reserved_qty r" and "find_reservation db rid = Some v" and "rv_item_id v = itemId d"
    and "consumption_guard q v"
  shows "\<exists>db2 db3. pickBalances db [\<lparr>pm_dimension = d, pm_delta = q, pm_inventoryReservationId = Some rid,
      pm_field = path\<rparr>] = Inr db2 \<and>
    consumeBalances db2 [\<lparr>cm_dimension = d, cm_qty = q, cm_field = path\<rparr>] = Inr db3 \<and>
    wf_reservations db3 \<and> find_reservation db3 rid = Some (consumption_change q v) \<and>
    (\<forall>k. find_balance db3 k = map_option (\<lambda>r. if dim_key k = dim_key d
       then consume_change q (pick_change (q, True) r) else r) (find_balance db k))"
proof -
  have g: "pick_guard (q, True) r" using assms(4,5) by (simp add: pick_guard_def)
  obtain db2 where 2: "pickBalances db [\<lparr>pm_dimension = d, pm_delta = q,
        pm_inventoryReservationId = Some rid, pm_field = path\<rparr>] = Inr db2" "wf_balances db2"
      "wf_reservations db2" "find_reservation db2 rid = Some (consumption_change q v)"
      "\<forall>k. find_balance db2 k = map_option (\<lambda>r. if dim_key k = dim_key d \<and> pick_guard (q, True) r
           then pick_change (q, True) r else r) (find_balance db k)"
    using pick_found [OF assms(1,2,3,6,7) g assms(8) less_imp_neq [OF assms(4), symmetric], of path] by blast
  note found2 = 2(5) [rule_format]
  have r2: "find_balance db2 d = Some (pick_change (q, True) r)" using assms(3) g by (simp add: found2)
  have g3: "consume_guard q (pick_change (q, True) r)"
    using find_balance_valid [OF assms(1,3)] by (simp add: balance_valid_def consume_guard_def pick_change_def)
  obtain db3 where 3: "consumeBalances db2 [\<lparr>cm_dimension = d, cm_qty = q, cm_field = path\<rparr>] = Inr db3"
    using consume_found [OF 2(2) r2 g3 assms(4)] by blast
  then have one: "consume_one \<lparr>cm_dimension = d, cm_qty = q, cm_field = path\<rparr> db2 = Inr db3"
    by (auto simp: consumeBalances_def bind_res_eq_Inr)
  note k3 = consume_one_keeps [OF one 2(2)]
  have key: "find_balance db k = Some r" if "dim_key k = dim_key d" for k
    using assms(3) that by (simp add: find_balance_def)
  have "find_balance db3 k = map_option (\<lambda>r. if dim_key k = dim_key d
       then consume_change q (pick_change (q, True) r) else r) (find_balance db k)" for k
  proof (cases "dim_key k = dim_key d")
    case True
    with key [OF True] g g3 assms(4) show ?thesis by (simp add: k3(5) found2)
  next
    case False
    then show ?thesis by (cases "find_balance db k") (simp_all add: k3(5) found2)
  qed
  moreover have "wf_reservations db3" "find_reservation db3 rid = Some (consumption_change q v)"
    using 2(3,4) k3(3,4) by (simp_all add: wf_reservations_def find_reservation_def)
  ultimately show ?thesis using 2(1) 3 by blast
qed

section \<open>Properties\<close>


definition example_dim :: BalanceDimension where
  "example_dim = \<lparr>legalEntityId = 1, businessUnitId = 1, plantId = 1, warehouseId = 5, locationId = 7,
     itemId = 3, lotId = Some 9, qualityStatusCode = ''NORMAL'', inventoryStatusCode = ''AVAILABLE'',
     ownershipTypeCode = ''OWN'', ownerPartnerId = None\<rparr>"

definition example_db :: inv_db where
  "example_db = \<lparr>warehouses = (\<lambda>w. if w = 5 then Some \<lparr>org_legalEntityId = 1, org_businessUnitId = 1,
       org_plantId = 1\<rparr> else None),
     locations = [\<lparr>location_id = 7, parent_location_id = None, location_is_active = True\<rparr>],
     location_items = [], negative_stock_allowed = (\<lambda>_. False),
     balances = [\<lparr>balance_id = 1, dim = example_dim, on_hand_qty = 10, reserved_qty = 0,
       picked_qty = 0, blocked_qty = 0, balance_uom_id = 1, last_transaction_at = None,
       balance_version_no = 1\<rparr>],
     transactions = [], tlines = [], reservations = [], balance_seq = 2, transaction_seq = 1,
     reservation_seq = 1\<rparr>"

definition example_reserve :: "decimal \<Rightarrow> ReserveMove" where
  "example_reserve q = \<lparr>rm_dimension = example_dim, rm_qty = q, rm_reservationNo = ''RS-1'',
     rm_reservationTypeCode = ''PICK'', rm_sourceDocumentTypeCode = ''SHIPMENT_REQUEST'',
     rm_sourceDocumentId = 1, rm_uomId = 1, rm_statusCode = ''ACTIVE'', rm_createdBy = None,
     rm_field = ''pickedQty''\<rparr>"

lemmas example_simps = example_db_def example_dim_def example_reserve_def

lemma example_wf: "wf_balances example_db" "wf_reservations example_db"
  by (simp_all add: wf_balances_def wf_reservations_def id_column_def validity example_simps)


text \<open>Picking never dies inside the database either: on well-formed balances and reservations the
  only failure of \<open>pickBalances\<close>, forwards (delta positive) or backwards, with or without a
  reservation, is the 400 \<open>NEGATIVE_BALANCE\<close> on the field of one of its moves.\<close>
lemma pick_only_refuses_for_stock:
  assumes "wf_balances db" and "wf_reservations db" and "pickBalances db moves = Inl e"
  shows "\<exists>m \<in> set moves. e = negativeBalance (pm_field m)"
  using fold_pick_error [OF assms(1,2)] assms(3) unfolding pickBalances_def .

definition example_pick :: "decimal \<Rightarrow> id option \<Rightarrow> PickMove" where
  "example_pick q rid = \<lparr>pm_dimension = example_dim, pm_delta = q, pm_inventoryReservationId = rid,
     pm_field = ''pickedQty''\<rparr>"

lemmas operation_simps =
  reserveBalances_def reserve_one_def insert_reservation_def reservation_valid_def
  pickBalances_def pick_one_def consumeReservation_def consumption_guard_def
  consumeBalances_def consume_one_def releaseReservation_def
  update_balances_def update_reservations_def dimensionWhere_def validity
  reserve_guard_def reserve_change_def pick_guard_def pick_change_def consume_guard_def
  consume_change_def

lemma pick_only_refuses_for_stock_example:
  "pickBalances example_db [example_pick (- 1) None] = Inl (negativeBalance ''pickedQty'')"
proof -
  obtain e where e: "pickBalances example_db [example_pick (- 1) None] = Inl e"
    by (simp add: operation_simps example_simps example_pick_def)
  have "\<exists>m \<in> set [example_pick (- 1) None]. e = negativeBalance (pm_field m)"
    by (rule pick_only_refuses_for_stock [OF example_wf e])
  with e show ?thesis by (simp add: example_pick_def)
qed



end
