(* ===== verification/Inventory_Posting.thy ===== *)
theory Inventory_Posting
  imports Reservation_Qty
begin

text \<open>
  \<open>InventoryPostingService.post\<close> of \<open>src/core/inventory-posting/inventory-posting.service.ts\<close> with the
  two destination checks (\<open>leaf-location.ts\<close>, \<open>location-item.ts\<close>) and \<open>writeLine\<close>. The abstract
  quantity on hand is the sum of the ledger: \<open>ledger_ok\<close> states it, together with the snapshot each
  ledger line carries, and the lemmas show that \<open>writeLine\<close> and \<open>post\<close> keep it.
\<close>

section \<open>Where stock may go\<close>

definition incomingLines :: "PostingLine list \<Rightarrow> PostingLine list" where
  "incomingLines lines =
     filter (\<lambda>line. case pl_to line of
                None \<Rightarrow> False
              | Some t \<Rightarrow> map_option ep_locationId (pl_from line) \<noteq> Some (ep_locationId t)) lines"

definition to_location :: "PostingLine \<Rightarrow> id option" where
  "to_location line = map_option ep_locationId (pl_to line)"

definition assertLeafDestinations :: "inv_db \<Rightarrow> PostingLine list \<Rightarrow> unit res" where
  "assertLeafDestinations db lines =
     (let incoming = map to_location (incomingLines lines) in
      if incoming = [] then Inr ()
      else case find (\<lambda>l. parent_location_id l \<noteq> None \<and> parent_location_id l \<in> set incoming \<and>
                          location_is_active l) (locations db) of
             None \<Rightarrow> Inr ()
           | Some child \<Rightarrow> Inl (badRequest ''STATE_LOCKED''))"

definition assertAllowedItems :: "inv_db \<Rightarrow> PostingLine list \<Rightarrow> unit res" where
  "assertAllowedItems db lines =
     (let incoming = incomingLines lines in
      if incoming = [] then Inr ()
      else
        let rules = filter (\<lambda>rule. Some (fst rule) \<in> set (map to_location incoming)) (location_items db) in
        if rules = [] then Inr ()
        else
          let allowed = (\<lambda>loc. map snd (filter (\<lambda>rule. Some (fst rule) = loc) rules));
              blocked = list_ex (\<lambda>line. allowed (to_location line) \<noteq> [] \<and>
                                        pl_itemId line \<notin> set (allowed (to_location line))) incoming
          in if \<not> blocked then Inr () else Inl (badRequest ''STATE_LOCKED''))"

section \<open>Ledger rows\<close>

definition no_endpoint :: endpoint_columns where
  "no_endpoint = \<lparr>ec_warehouse_id = None, ec_location_id = None, ec_quality_status_code = None,
     ec_inventory_status_code = None\<rparr>"

definition endpointColumns :: "PostingEndpoint option \<Rightarrow> endpoint_columns" where
  "endpointColumns endpoint =
     (case endpoint of
        None \<Rightarrow> no_endpoint
      | Some e \<Rightarrow> \<lparr>ec_warehouse_id = Some (ep_warehouseId e), ec_location_id = Some (ep_locationId e),
                  ec_quality_status_code = Some (ep_qualityStatusCode e),
                  ec_inventory_status_code = Some (ep_inventoryStatusCode e)\<rparr>)"

text \<open>The CHECKs and the unique key of \<open>inventory_transaction_line\<close>.\<close>

definition insert_line :: "inv_db \<Rightarrow> tline_row \<Rightarrow> inv_db res" where
  "insert_line db row =
     (if tl_qty row > 0 \<and> tl_line_no row > 0 \<and>
         (ec_location_id (tl_from row) \<noteq> None \<or> ec_location_id (tl_to row) \<noteq> None)
      then if list_ex (\<lambda>r. tl_transaction_id r = tl_transaction_id row \<and>
                tl_business_date r = tl_business_date row \<and> tl_line_no r = tl_line_no row) (tlines db)
           then Inl (DbError (P2002 [''inventory_transaction_id'', ''business_date'', ''line_no'']))
           else Inr (db\<lparr>tlines := tlines db @ [row]\<rparr>)
      else Inl (DbError OtherDriverError))"

text \<open>The two unique keys of \<open>inventory_transaction\<close> and its foreign key on itself.\<close>

definition reversal_pair :: "transaction_row \<Rightarrow> (id \<times> string) list" where
  "reversal_pair t =
     (case (reversal_of_transaction_id t, reversal_of_business_date t) of
        (Some i, Some d) \<Rightarrow> [(i, d)] | _ \<Rightarrow> [])"

definition transaction_key :: "transaction_row \<Rightarrow> id \<times> string" where
  "transaction_key t = (inventory_transaction_id t, business_date t)"

definition insert_transaction :: "inv_db \<Rightarrow> transaction_row \<Rightarrow> (id \<times> inv_db) res" where
  "insert_transaction db row =
     (if list_ex (\<lambda>t. transaction_no t = transaction_no row \<and> business_date t = business_date row)
           (transactions db)
      then Inl (DbError (P2002 [''transaction_no'', ''business_date'']))
      else if list_ex (\<lambda>t. idempotency_key t = idempotency_key row \<and> business_date t = business_date row)
           (transactions db)
      then Inl (DbError (P2002 [''idempotency_key'', ''business_date'']))
      else if \<not> list_all (\<lambda>p. p \<in> set (map transaction_key (transactions db))) (reversal_pair row)
      then Inl (DbError (P2003 (Some ''fk_inventory_transaction_reversal'') (Some ''inventory_transaction'')))
      else Inr (transaction_seq db,
                db\<lparr>transactions := transactions db @ [row\<lparr>inventory_transaction_id := transaction_seq db\<rparr>],
                   transaction_seq := transaction_seq db + 1\<rparr>))"

section \<open>Writing one line\<close>

definition move_end ::
  "inv_db \<Rightarrow> int \<Rightarrow> PostingLine \<Rightarrow> PostingEndpoint option \<Rightarrow> decimal \<Rightarrow> (decimal option \<times> inv_db) res" where
  "move_end db tm line endpoint delta =
     (case endpoint of
        None \<Rightarrow> Inr (None, db)
      | Some e \<Rightarrow> bind_res (move db tm line e delta) (\<lambda>(after, db'). Inr (Some after, db')))"

definition writeLine ::
  "inv_db \<Rightarrow> id \<Rightarrow> string \<Rightarrow> int \<Rightarrow> id option \<Rightarrow> PostingLine \<Rightarrow> int \<Rightarrow> inv_db res" where
  "writeLine db headerId businessDate occurredAt createdBy line lineNo =
     bind_res (move_end db occurredAt line (pl_from line) (- pl_qty line)) (\<lambda>(fromAfter, db1).
     bind_res (move_end db1 occurredAt line (pl_to line) (pl_qty line)) (\<lambda>(toAfter, db2).
       insert_line db2
         \<lparr>tl_transaction_id = headerId, tl_business_date = businessDate, tl_line_no = lineNo,
          tl_item_id = pl_itemId line, tl_lot_id = pl_lotId line, tl_qty = pl_qty line,
          tl_uom_id = pl_uomId line, tl_from = endpointColumns (pl_from line),
          tl_to = endpointColumns (pl_to line), tl_ownership_type_code = pl_ownershipTypeCode line,
          tl_owner_partner_id = pl_ownerPartnerId line, tl_handling_unit_id = pl_handlingUnitId line,
          from_qty_after_transaction = fromAfter, to_qty_after_transaction = toAfter,
          tl_created_by = createdBy\<rparr>))"

text \<open>The loop over \<open>lines.entries()\<close>: a line with the line number it is written under.\<close>

definition writeLines ::
  "id \<Rightarrow> string \<Rightarrow> int \<Rightarrow> id option \<Rightarrow> (int \<times> PostingLine) list \<Rightarrow> inv_db \<Rightarrow> inv_db res" where
  "writeLines headerId businessDate occurredAt createdBy =
     fold_res (\<lambda>(lineNo, line) db. writeLine db headerId businessDate occurredAt createdBy line lineNo)"

definition numbered :: "PostingLine list \<Rightarrow> (int \<times> PostingLine) list" where
  "numbered lines = zip (map (\<lambda>i. int i + 1) [0..<length lines]) lines"

section \<open>Posting\<close>

definition find_posted :: "inv_db \<Rightarrow> string \<Rightarrow> string \<Rightarrow> transaction_row option" where
  "find_posted db key date =
     find (\<lambda>t. idempotency_key t = key \<and> business_date t = date) (transactions db)"

definition post :: "inv_db \<Rightarrow> PostingInput \<Rightarrow> (PostingResult \<times> inv_db) res" where
  "post db input =
     (case find_posted db (pi_idempotencyKey input) (pi_businessDate input) of
        Some existing \<Rightarrow>
          Inr (\<lparr>pr_inventoryTransactionId = inventory_transaction_id existing,
                pr_businessDate = pi_businessDate input, pr_alreadyPosted = True\<rparr>, db)
      | None \<Rightarrow>
          bind_res (assertLeafDestinations db (pi_lines input)) (\<lambda>_.
          bind_res (assertAllowedItems db (pi_lines input)) (\<lambda>_.
          bind_res (balanceKeys db (pi_lines input)) (\<lambda>keys.
          let locked = lockBalancesInOrder db keys in
          bind_res (insert_transaction db
            \<lparr>inventory_transaction_id = 0, business_date = pi_businessDate input,
             transaction_no = pi_transactionNo input,
             transaction_type_code = pi_transactionTypeCode input,
             transaction_plant_id = pi_plantId input, occurred_at = pi_occurredAt input,
             source_document_type_code = pi_sourceDocumentTypeCode input,
             source_document_id = pi_sourceDocumentId input,
             transaction_status_code = pi_statusCode input,
             idempotency_key = pi_idempotencyKey input,
             reversal_of_transaction_id = None, reversal_of_business_date = None,
             transaction_created_by = pi_createdBy input\<rparr>) (\<lambda>(headerId, db1).
          bind_res (writeLines headerId (pi_businessDate input) (pi_occurredAt input) (pi_createdBy input)
              (numbered (pi_lines input)) db1) (\<lambda>db2.
            Inr (\<lparr>pr_inventoryTransactionId = headerId, pr_businessDate = pi_businessDate input,
                  pr_alreadyPosted = False\<rparr>, db2)))))))"

section \<open>The ledger as a sum\<close>

text \<open>\<open>endpointOf\<close> and \<open>reversedLine\<close> of \<open>reversal.ts\<close>: a ledger row read back, its two ends exchanged.\<close>

definition endpointOf :: "endpoint_columns \<Rightarrow> PostingEndpoint option" where
  "endpointOf c =
     (case (ec_warehouse_id c, ec_location_id c, ec_quality_status_code c, ec_inventory_status_code c) of
        (Some w, Some l, Some q, Some i) \<Rightarrow>
          Some \<lparr>ep_warehouseId = w, ep_locationId = l, ep_qualityStatusCode = q, ep_inventoryStatusCode = i\<rparr>
      | _ \<Rightarrow> None)"

definition reversedLine :: "tline_row \<Rightarrow> PostingLine" where
  "reversedLine row =
     (let wasFrom = endpointOf (tl_from row); wasTo = endpointOf (tl_to row) in
      \<lparr>pl_itemId = tl_item_id row, pl_lotId = tl_lot_id row, pl_qty = tl_qty row,
       pl_uomId = tl_uom_id row, pl_from = wasTo, pl_to = wasFrom,
       pl_ownershipTypeCode = tl_ownership_type_code row,
       pl_ownerPartnerId = tl_owner_partner_id row, pl_handlingUnitId = tl_handling_unit_id row\<rparr>)"

definition swap_ends :: "PostingLine \<Rightarrow> PostingLine" where
  "swap_ends line = line\<lparr>pl_from := pl_to line, pl_to := pl_from line\<rparr>"

text \<open>The line a ledger row was written from.\<close>

definition posted_line :: "tline_row \<Rightarrow> PostingLine" where
  "posted_line row = swap_ends (reversedLine row)"

text \<open>Whether an end of a line is the dimension \<open>k\<close>, and the net effect of a line on \<open>k\<close>.\<close>

definition touches :: "(id \<Rightarrow> OrgAxis option) \<Rightarrow> PostingLine \<Rightarrow> PostingEndpoint option \<Rightarrow> BalanceDimension \<Rightarrow> bool" where
  "touches ws line endpoint k \<longleftrightarrow>
     (case endpoint of None \<Rightarrow> False
      | Some e \<Rightarrow> (case ws (ep_warehouseId e) of None \<Rightarrow> False
                  | Some org \<Rightarrow> dim_key (endpoint_dimension org line e) = dim_key k))"

definition line_delta :: "(id \<Rightarrow> OrgAxis option) \<Rightarrow> PostingLine \<Rightarrow> BalanceDimension \<Rightarrow> decimal" where
  "line_delta ws line k =
     (if touches ws line (pl_to line) k then pl_qty line else 0) -
     (if touches ws line (pl_from line) k then pl_qty line else 0)"

definition net :: "(id \<Rightarrow> OrgAxis option) \<Rightarrow> PostingLine list \<Rightarrow> BalanceDimension \<Rightarrow> decimal" where
  "net ws lines k = sum_list (map (\<lambda>line. line_delta ws line k) lines)"

definition ledger :: "inv_db \<Rightarrow> PostingLine list" where
  "ledger db = map posted_line (tlines db)"

section \<open>What a line does\<close>

lemma posted_line_simps [simp]:
  "posted_line \<lparr>tl_transaction_id = t, tl_business_date = b, tl_line_no = n, tl_item_id = pl_itemId line,
     tl_lot_id = pl_lotId line, tl_qty = pl_qty line, tl_uom_id = pl_uomId line,
     tl_from = endpointColumns (pl_from line), tl_to = endpointColumns (pl_to line),
     tl_ownership_type_code = pl_ownershipTypeCode line, tl_owner_partner_id = pl_ownerPartnerId line,
     tl_handling_unit_id = pl_handlingUnitId line, from_qty_after_transaction = fa,
     to_qty_after_transaction = ta, tl_created_by = c\<rparr> = line"
proof -
  have "endpointOf (endpointColumns e) = e" for e
    by (cases e) (simp_all add: endpointOf_def endpointColumns_def no_endpoint_def)
  then show ?thesis by (simp add: posted_line_def swap_ends_def reversedLine_def Let_def)
qed

lemma touches_None [simp]: "\<not> touches ws line None k"
  by (simp add: touches_def)

lemma touches_Some:
  "ws (ep_warehouseId e) = Some org \<Longrightarrow>
   touches ws line (Some e) k \<longleftrightarrow> dim_key k = dim_key (endpoint_dimension org line e)"
  by (auto simp: touches_def)

lemma touches_key: "dim_key k = dim_key j \<Longrightarrow> touches ws line endpoint k = touches ws line endpoint j"
  by (simp add: touches_def split: option.splits)

lemma on_hand_at_key: "dim_key k = dim_key j \<Longrightarrow> on_hand_at db k = on_hand_at db j"
  by (simp add: on_hand_at_def)

definition end_ok :: "(id \<Rightarrow> OrgAxis option) \<Rightarrow> PostingEndpoint option \<Rightarrow> bool" where
  "end_ok ws endpoint \<longleftrightarrow> (case endpoint of None \<Rightarrow> True | Some e \<Rightarrow> ws (ep_warehouseId e) \<noteq> None)"

definition line_ok :: "(id \<Rightarrow> OrgAxis option) \<Rightarrow> PostingLine \<Rightarrow> bool" where
  "line_ok ws line \<longleftrightarrow> 0 < pl_qty line \<and> (pl_from line \<noteq> None \<or> pl_to line \<noteq> None) \<and>
     end_ok ws (pl_from line) \<and> end_ok ws (pl_to line)"

definition balances_only :: "inv_db \<Rightarrow> inv_db \<Rightarrow> bool" where
  "balances_only db db' \<longleftrightarrow> db' = db\<lparr>balances := balances db', balance_seq := balance_seq db'\<rparr>"

lemma balances_only_refl [simp]: "balances_only db db"
  by (simp add: balances_only_def)

lemma balances_only_trans: "balances_only a b \<Longrightarrow> balances_only b c \<Longrightarrow> balances_only a c"
  unfolding balances_only_def by (cases a; cases b; cases c) simp

lemma balances_only_frame:
  assumes "balances_only db db'"
  shows "warehouses db' = warehouses db" and "tlines db' = tlines db"
    and "transactions db' = transactions db" and "transaction_seq db' = transaction_seq db"
    and "negative_stock_allowed db' = negative_stock_allowed db"
    and "reservations db' = reservations db" and "reservation_seq db' = reservation_seq db"
    and "locations db' = locations db" and "location_items db' = location_items db"
  using assms unfolding balances_only_def by (cases db; cases db'; simp)+

lemma move_end_result:
  assumes "move_end db tm line endpoint delta = Inr (after, db')" and "wf_balances db"
  shows "wf_balances db'" and "balances_only db db'" and "end_ok (warehouses db) endpoint"
    and "on_hand_at db' k = on_hand_at db k + (if touches (warehouses db) line endpoint k then delta else 0)"
    and "touches (warehouses db) line endpoint k \<Longrightarrow> after = Some (on_hand_at db k + delta)"
    and "after = None \<longleftrightarrow> endpoint = None"
proof -
  have "wf_balances db' \<and> balances_only db db' \<and> end_ok (warehouses db) endpoint \<and>
    on_hand_at db' k = on_hand_at db k + (if touches (warehouses db) line endpoint k then delta else 0) \<and>
    (touches (warehouses db) line endpoint k \<longrightarrow> after = Some (on_hand_at db k + delta)) \<and>
    (after = None \<longleftrightarrow> endpoint = None)"
  proof (cases endpoint)
    case None
    with assms show ?thesis by (simp add: move_end_def end_ok_def)
  next
    case (Some e)
    with assms(1) obtain q where m: "move db tm line e delta = Inr (q, db')" and after: "after = Some q"
      unfolding move_end_def by (auto simp: bind_res_eq_Inr case_prod_eq_Inr)
    obtain org where org: "warehouses db (ep_warehouseId e) = Some org" "wf_balances db'"
      "q = on_hand_at db (endpoint_dimension org line e) + delta"
      "\<forall>k. on_hand_at db' k = on_hand_at db k +
           (if dim_key k = dim_key (endpoint_dimension org line e) then delta else 0)"
      "balances_only db db'"
      unfolding balances_only_def by (rule move_result [OF assms(2) m])
    have "touches (warehouses db) line endpoint k \<longleftrightarrow> dim_key k = dim_key (endpoint_dimension org line e)"
      using org(1) by (auto simp: Some touches_def)
    then show ?thesis
      using org after Some on_hand_at_key [of k "endpoint_dimension org line e" db]
      by (auto simp: end_ok_def)
  qed
  then show "wf_balances db'" "balances_only db db'" "end_ok (warehouses db) endpoint"
    "on_hand_at db' k = on_hand_at db k + (if touches (warehouses db) line endpoint k then delta else 0)"
    "touches (warehouses db) line endpoint k \<Longrightarrow> after = Some (on_hand_at db k + delta)"
    "after = None \<longleftrightarrow> endpoint = None" by auto
qed

definition snapshot_ok :: "(id \<Rightarrow> OrgAxis option) \<Rightarrow> PostingLine list \<Rightarrow> tline_row \<Rightarrow> bool" where
  "snapshot_ok ws before row \<longleftrightarrow>
     (\<forall>k. (touches ws (posted_line row) (pl_from (posted_line row)) k \<longrightarrow>
            from_qty_after_transaction row = Some (net ws before k - pl_qty (posted_line row))) \<and>
          (touches ws (posted_line row) (pl_to (posted_line row)) k \<longrightarrow>
            to_qty_after_transaction row = Some (net ws (before @ [posted_line row]) k)))"

fun snapshots :: "(id \<Rightarrow> OrgAxis option) \<Rightarrow> PostingLine list \<Rightarrow> tline_row list \<Rightarrow> bool" where
  "snapshots ws before [] = True"
| "snapshots ws before (r # rs) \<longleftrightarrow> snapshot_ok ws before r \<and> snapshots ws (before @ [posted_line r]) rs"

lemma snapshots_append:
  "snapshots ws before (rs @ [r]) \<longleftrightarrow>
     snapshots ws before rs \<and> snapshot_ok ws (before @ map posted_line rs) r"
  by (induction rs arbitrary: before) auto

definition ledger_ok :: "inv_db \<Rightarrow> bool" where
  "ledger_ok db \<longleftrightarrow>
     wf_balances db \<and> (\<forall>k. on_hand_at db k = net (warehouses db) (ledger db) k) \<and>
     list_all (line_ok (warehouses db)) (ledger db) \<and>
     snapshots (warehouses db) [] (tlines db)"

lemma net_append: "net ws (xs @ ys) k = net ws xs k + net ws ys k"
  by (simp add: net_def)

lemma net_single [simp]: "net ws [line] k = line_delta ws line k" "net ws [] k = 0"
  by (simp_all add: net_def)

text \<open>\<open>tlines\<close> grows, balances move, everything else stays.\<close>

definition ledger_only :: "inv_db \<Rightarrow> inv_db \<Rightarrow> bool" where
  "ledger_only db db' \<longleftrightarrow>
     warehouses db' = warehouses db \<and> transactions db' = transactions db \<and>
     transaction_seq db' = transaction_seq db \<and>
     negative_stock_allowed db' = negative_stock_allowed db \<and>
     reservations db' = reservations db \<and> reservation_seq db' = reservation_seq db \<and>
     locations db' = locations db \<and> location_items db' = location_items db"

lemma ledger_only_refl [simp]: "ledger_only db db"
  by (simp add: ledger_only_def)

definition line_key :: "tline_row \<Rightarrow> id \<times> string \<times> int" where
  "line_key r = (tl_transaction_id r, tl_business_date r, tl_line_no r)"

lemma writeLine_result:
  assumes "writeLine db headerId date tm by line n = Inr db'" and "wf_balances db"
  obtains row where "tlines db' = tlines db @ [row]" and "posted_line row = line"
    and "line_key row = (headerId, date, n)" and "0 < n"
    and "(headerId, date, n) \<notin> set (map line_key (tlines db))"
    and "wf_balances db'" and "ledger_only db db'" and "line_ok (warehouses db) line"
    and "\<forall>k. on_hand_at db' k = on_hand_at db k + line_delta (warehouses db) line k"
    and "\<forall>k. touches (warehouses db) line (pl_from line) k \<longrightarrow>
           from_qty_after_transaction row = Some (on_hand_at db k - pl_qty line)"
    and "\<forall>k. touches (warehouses db) line (pl_to line) k \<longrightarrow>
           to_qty_after_transaction row = Some (on_hand_at db' k)"
proof -
  from assms(1) obtain fa db1 ta db2 where
    f: "move_end db tm line (pl_from line) (- pl_qty line) = Inr (fa, db1)" and
    t: "move_end db1 tm line (pl_to line) (pl_qty line) = Inr (ta, db2)" and
    i: "insert_line db2 \<lparr>tl_transaction_id = headerId, tl_business_date = date, tl_line_no = n,
          tl_item_id = pl_itemId line, tl_lot_id = pl_lotId line, tl_qty = pl_qty line,
          tl_uom_id = pl_uomId line, tl_from = endpointColumns (pl_from line),
          tl_to = endpointColumns (pl_to line), tl_ownership_type_code = pl_ownershipTypeCode line,
          tl_owner_partner_id = pl_ownerPartnerId line, tl_handling_unit_id = pl_handlingUnitId line,
          from_qty_after_transaction = fa, to_qty_after_transaction = ta, tl_created_by = by\<rparr> = Inr db'"
      (is "insert_line db2 ?row = _")
    unfolding writeLine_def bind_res_eq_Inr case_prod_eq_Inr by blast
  note f' = move_end_result [OF f assms(2)]
  note t' = move_end_result [OF t f'(1)]
  note fr1 = balances_only_frame [OF f'(2)]
  note fr2 = balances_only_frame [OF t'(2)]
  have ins: "db' = db2\<lparr>tlines := tlines db2 @ [?row]\<rparr>" "0 < pl_qty line"
    "pl_from line \<noteq> None \<or> pl_to line \<noteq> None"
    using i unfolding insert_line_def
    by (auto simp: endpointColumns_def no_endpoint_def split: if_splits option.splits)
  have key: "0 < n" "(headerId, date, n) \<notin> set (map line_key (tlines db))"
    using i unfolding insert_line_def
    by (auto simp: line_key_def list_ex_iff fr1 fr2 split: if_splits)
  have same: "on_hand_at db' k = on_hand_at db2 k" "wf_balances db' = wf_balances db2" for k
    by (simp_all add: ins(1) on_hand_at_def wf_balances_def)
  have ok: "line_ok (warehouses db) line"
    using ins(2,3) f'(3) t'(3) fr1(1) by (simp add: line_ok_def)
  have oh: "\<forall>k. on_hand_at db' k = on_hand_at db k + line_delta (warehouses db) line k"
    by (simp add: same f'(4) t'(4) fr1(1) line_delta_def)
  have fa: "\<forall>k. touches (warehouses db) line (pl_from line) k \<longrightarrow> fa = Some (on_hand_at db k - pl_qty line)"
    using f'(5) by auto
  have ta: "\<forall>k. touches (warehouses db) line (pl_to line) k \<longrightarrow> ta = Some (on_hand_at db' k)"
    using t'(4,5) fr1(1) by (auto simp: same)
  show ?thesis
  proof (rule that [of ?row])
    show "tlines db' = tlines db @ [?row]" by (simp add: ins(1) fr1 fr2)
    show "ledger_only db db'" by (simp add: ledger_only_def ins(1) fr1 fr2)
  qed (use ok oh fa ta same t'(1) key in \<open>simp_all add: line_key_def\<close>)
qed

lemma writeLine_keeps:
  assumes "writeLine db headerId date tm by line n = Inr db'" and "ledger_ok db"
  shows "ledger_ok db'" and "ledger_only db db'" and "ledger db' = ledger db @ [line]"
proof -
  have wf: "wf_balances db" using assms(2) by (simp add: ledger_ok_def)
  obtain row where r: "tlines db' = tlines db @ [row]" "posted_line row = line"
    "wf_balances db'" "ledger_only db db'" "line_ok (warehouses db) line"
    "\<forall>k. on_hand_at db' k = on_hand_at db k + line_delta (warehouses db) line k"
    "\<forall>k. touches (warehouses db) line (pl_from line) k \<longrightarrow>
           from_qty_after_transaction row = Some (on_hand_at db k - pl_qty line)"
    "\<forall>k. touches (warehouses db) line (pl_to line) k \<longrightarrow>
           to_qty_after_transaction row = Some (on_hand_at db' k)"
    by (rule writeLine_result [OF assms(1) wf])
  show led: "ledger db' = ledger db @ [line]" by (simp add: ledger_def r(1,2))
  show "ledger_only db db'" by (rule r(4))
  have ws: "warehouses db' = warehouses db" using r(4) by (simp add: ledger_only_def)
  have net: "\<forall>k. on_hand_at db k = net (warehouses db) (map posted_line (tlines db)) k"
    using assms(2) by (simp add: ledger_ok_def ledger_def)
  have "snapshot_ok (warehouses db) (map posted_line (tlines db)) row"
    using r(2,6,7,8) net by (simp add: snapshot_ok_def net_append)
  then show "ledger_ok db'"
    using assms(2) r(3,5,6) by (simp add: ledger_ok_def ws led net_append r(1) snapshots_append)
qed

lemma writeLines_keeps:
  assumes "writeLines headerId date tm by lines db = Inr db'" and "ledger_ok db"
  shows "ledger_ok db' \<and> ledger_only db db' \<and> ledger db' = ledger db @ map snd lines"
  using assms
proof (induction lines arbitrary: db)
  case Nil
  then show ?case by (simp add: writeLines_def)
next
  case (Cons p lines)
  obtain n line where p: "p = (n, line)" by (cases p)
  with Cons.prems(1) obtain db1 where one: "writeLine db headerId date tm by line n = Inr db1"
    and rest: "writeLines headerId date tm by lines db1 = Inr db'"
    by (auto simp: writeLines_def bind_res_eq_Inr)
  from Cons.IH [OF rest] writeLine_keeps [OF one Cons.prems(2)] show ?case
    by (auto simp: p ledger_only_def)
qed

text \<open>The rows a run of \<open>writeLines\<close> appends.\<close>

lemma writeLines_rows:
  assumes "writeLines headerId date tm by lines db = Inr db'" and "wf_balances db"
  shows "\<exists>rows. tlines db' = tlines db @ rows \<and> map posted_line rows = map snd lines \<and>
    map line_key rows = map (\<lambda>p. (headerId, date, fst p)) lines \<and>
    list_all (\<lambda>p. 0 < fst p) lines \<and>
    (distinct (map line_key (tlines db)) \<longrightarrow> distinct (map line_key (tlines db')))"
  using assms
proof (induction lines arbitrary: db)
  case Nil
  then show ?case by (simp add: writeLines_def)
next
  case (Cons p lines)
  obtain n line where p: "p = (n, line)" by (cases p)
  with Cons.prems(1) obtain db1 where one: "writeLine db headerId date tm by line n = Inr db1"
    and rest: "writeLines headerId date tm by lines db1 = Inr db'"
    by (auto simp: writeLines_def bind_res_eq_Inr)
  obtain row where r: "tlines db1 = tlines db @ [row]" "posted_line row = line"
    "line_key row = (headerId, date, n)" "0 < n"
    "(headerId, date, n) \<notin> set (map line_key (tlines db))" "wf_balances db1"
    by (rule writeLine_result [OF one Cons.prems(2)])
  from Cons.IH [OF rest r(6)] obtain rows where rows: "tlines db' = tlines db1 @ rows"
    "map posted_line rows = map snd lines" "map line_key rows = map (\<lambda>p. (headerId, date, fst p)) lines"
    "list_all (\<lambda>p. 0 < fst p) lines"
    "distinct (map line_key (tlines db1)) \<longrightarrow> distinct (map line_key (tlines db'))" by blast
  show ?case
    by (rule exI [of _ "row # rows"]) (use r rows p in auto)
qed

lemma snd_numbered [simp]: "map snd (numbered lines) = lines"
  by (simp add: numbered_def)

section \<open>Headers\<close>

definition reversal_pairs :: "inv_db \<Rightarrow> (id \<times> string) list" where
  "reversal_pairs db = concat (map reversal_pair (transactions db))"

definition headers_ok :: "inv_db \<Rightarrow> bool" where
  "headers_ok db \<longleftrightarrow>
     id_column (transaction_seq db) (map inventory_transaction_id (transactions db)) \<and>
     list_all (\<lambda>r. tl_transaction_id r < transaction_seq db \<and> 0 < tl_line_no r) (tlines db) \<and>
     distinct (map line_key (tlines db)) \<and> distinct (reversal_pairs db) \<and>
     set (reversal_pairs db) \<subseteq> set (map transaction_key (transactions db))"

definition inv_ok :: "inv_db \<Rightarrow> bool" where
  "inv_ok db \<longleftrightarrow> ledger_ok db \<and> headers_ok db \<and> wf_reservations db"

lemma inv_ok_wf [simp]: "inv_ok db \<Longrightarrow> wf_balances db"
  by (simp add: inv_ok_def ledger_ok_def)

lemma insert_transaction_Inr:
  assumes "insert_transaction db row = Inr (tid, db')"
  shows "tid = transaction_seq db"
    and "db' = db\<lparr>transactions := transactions db @ [row\<lparr>inventory_transaction_id := transaction_seq db\<rparr>],
               transaction_seq := transaction_seq db + 1\<rparr>"
    and "set (reversal_pair row) \<subseteq> set (map transaction_key (transactions db))"
  using assms by (auto simp: insert_transaction_def list_all_iff split: if_splits)

lemma transactions_frame [simp]:
  "ledger_ok (db\<lparr>transactions := ts, transaction_seq := n\<rparr>) = ledger_ok db"
  "wf_balances (db\<lparr>transactions := ts, transaction_seq := n\<rparr>) = wf_balances db"
  "on_hand_at (db\<lparr>transactions := ts, transaction_seq := n\<rparr>) k = on_hand_at db k"
  "find_balance (db\<lparr>transactions := ts, transaction_seq := n\<rparr>) k = find_balance db k"
  by (simp_all add: ledger_ok_def wf_balances_def on_hand_at_def ledger_def find_balance_def)

text \<open>A new header and its lines: what \<open>post\<close> and \<open>reverse\<close> share.\<close>

lemma header_with_lines:
  assumes "insert_transaction db row = Inr (tid, db1)"
    and "writeLines tid date tm by lines db1 = Inr db2" and "inv_ok db"
    and "set (reversal_pair row) \<inter> set (reversal_pairs db) = {}"
  shows "inv_ok db2" and "ledger db2 = ledger db @ map snd lines"
    and "transactions db2 = transactions db @ [row\<lparr>inventory_transaction_id := tid\<rparr>]"
    and "tid = transaction_seq db" and "warehouses db2 = warehouses db"
    and "negative_stock_allowed db2 = negative_stock_allowed db"
    and "\<exists>rows. tlines db2 = tlines db @ rows \<and> map posted_line rows = map snd lines \<and>
           map line_key rows = map (\<lambda>p. (tid, date, fst p)) lines"
proof -
  note ins = insert_transaction_Inr [OF assms(1)]
  have led1: "ledger_ok db1" using assms(3) by (simp add: ins(2) inv_ok_def)
  note keeps = writeLines_keeps [OF assms(2) led1]
  obtain rows where rows: "tlines db2 = tlines db1 @ rows" "map posted_line rows = map snd lines"
    "map line_key rows = map (\<lambda>p. (tid, date, fst p)) lines" "list_all (\<lambda>p. 0 < fst p) lines"
    "distinct (map line_key (tlines db1)) \<longrightarrow> distinct (map line_key (tlines db2))"
    using writeLines_rows [OF assms(2)] led1 by (auto simp: ledger_ok_def)
  have tl: "tlines db1 = tlines db" by (simp add: ins(2))
  show "tid = transaction_seq db" by (rule ins(1))
  show trans: "transactions db2 = transactions db @ [row\<lparr>inventory_transaction_id := tid\<rparr>]"
    and "warehouses db2 = warehouses db" and "negative_stock_allowed db2 = negative_stock_allowed db"
    using keeps by (simp_all add: ledger_only_def ins)
  have seq: "transaction_seq db2 = transaction_seq db + 1" using keeps by (simp add: ledger_only_def ins)
  show "ledger db2 = ledger db @ map snd lines" using keeps by (simp add: ledger_def tl)
  show "\<exists>rows. tlines db2 = tlines db @ rows \<and> map posted_line rows = map snd lines \<and>
           map line_key rows = map (\<lambda>p. (tid, date, fst p)) lines" using rows tl by auto
  have ids: "id_column (transaction_seq db2) (map inventory_transaction_id (transactions db2))"
    using assms(3) by (auto simp: trans seq ins(1) inv_ok_def headers_ok_def)
  have new: "r \<in> set rows \<Longrightarrow> tl_transaction_id r = tid \<and> 0 < tl_line_no r" for r
  proof -
    assume "r \<in> set rows"
    then have "line_key r \<in> set (map (\<lambda>p. (tid, date, fst p)) lines)" by (metis rows(3) image_eqI set_map)
    with rows(4) show ?thesis by (auto simp: line_key_def list_all_iff)
  qed
  have "list_all (\<lambda>r. tl_transaction_id r < transaction_seq db2 \<and> 0 < tl_line_no r) (tlines db2)"
    using assms(3) new by (auto simp: rows(1) tl seq ins(1) inv_ok_def headers_ok_def list_all_iff)
  moreover have "distinct (reversal_pairs db2) \<and>
      set (reversal_pairs db2) \<subseteq> set (map transaction_key (transactions db2))"
  proof -
    have "reversal_pair (row\<lparr>inventory_transaction_id := tid\<rparr>) = reversal_pair row"
      by (simp add: reversal_pair_def)
    then have "reversal_pairs db2 = reversal_pairs db @ reversal_pair row"
      by (simp add: reversal_pairs_def trans)
    moreover have "distinct (reversal_pair row)" by (simp add: reversal_pair_def split: option.splits)
    moreover have "set (map transaction_key (transactions db)) \<subseteq> set (map transaction_key (transactions db2))"
      by (auto simp: trans)
    ultimately show ?thesis using assms(3,4) ins(3) by (auto simp: inv_ok_def headers_ok_def)
  qed
  moreover have "wf_reservations db2"
    using keeps assms(3) by (simp add: ledger_only_def ins inv_ok_def wf_reservations_def)
  ultimately show "inv_ok db2"
    using ids keeps rows(5) assms(3) tl by (simp add: inv_ok_def headers_ok_def)
qed

section \<open>What post does\<close>

definition posting_header :: "PostingInput \<Rightarrow> transaction_row" where
  "posting_header input =
     \<lparr>inventory_transaction_id = 0, business_date = pi_businessDate input,
      transaction_no = pi_transactionNo input, transaction_type_code = pi_transactionTypeCode input,
      transaction_plant_id = pi_plantId input, occurred_at = pi_occurredAt input,
      source_document_type_code = pi_sourceDocumentTypeCode input,
      source_document_id = pi_sourceDocumentId input, transaction_status_code = pi_statusCode input,
      idempotency_key = pi_idempotencyKey input, reversal_of_transaction_id = None,
      reversal_of_business_date = None, transaction_created_by = pi_createdBy input\<rparr>"

lemma post_cases:
  assumes "post db input = Inr (res, db')"
  obtains (again) existing where "find_posted db (pi_idempotencyKey input) (pi_businessDate input) = Some existing"
      and "res = \<lparr>pr_inventoryTransactionId = inventory_transaction_id existing,
                 pr_businessDate = pi_businessDate input, pr_alreadyPosted = True\<rparr>"
      and "db' = db"
  | (fresh) tid db1 where "find_posted db (pi_idempotencyKey input) (pi_businessDate input) = None"
      and "assertLeafDestinations db (pi_lines input) = Inr ()"
      and "assertAllowedItems db (pi_lines input) = Inr ()"
      and "insert_transaction db (posting_header input) = Inr (tid, db1)"
      and "writeLines tid (pi_businessDate input) (pi_occurredAt input) (pi_createdBy input)
             (numbered (pi_lines input)) db1 = Inr db'"
      and "res = \<lparr>pr_inventoryTransactionId = tid, pr_businessDate = pi_businessDate input,
                 pr_alreadyPosted = False\<rparr>"
proof (cases "find_posted db (pi_idempotencyKey input) (pi_businessDate input)")
  case None
  with assms have "bind_res (assertLeafDestinations db (pi_lines input)) (\<lambda>_.
      bind_res (assertAllowedItems db (pi_lines input)) (\<lambda>_.
      bind_res (balanceKeys db (pi_lines input)) (\<lambda>keys.
      bind_res (insert_transaction db (posting_header input)) (\<lambda>(headerId, db1).
      bind_res (writeLines headerId (pi_businessDate input) (pi_occurredAt input) (pi_createdBy input)
          (numbered (pi_lines input)) db1) (\<lambda>db2.
        Inr (\<lparr>pr_inventoryTransactionId = headerId, pr_businessDate = pi_businessDate input,
              pr_alreadyPosted = False\<rparr>, db2)))))) = Inr (res, db')"
    by (simp add: post_def posting_header_def Let_def)
  then obtain u v keys tid db1 where run: "assertLeafDestinations db (pi_lines input) = Inr u"
    "assertAllowedItems db (pi_lines input) = Inr v" "balanceKeys db (pi_lines input) = Inr keys"
    "insert_transaction db (posting_header input) = Inr (tid, db1)"
    "writeLines tid (pi_businessDate input) (pi_occurredAt input) (pi_createdBy input)
      (numbered (pi_lines input)) db1 = Inr db'"
    "res = \<lparr>pr_inventoryTransactionId = tid, pr_businessDate = pi_businessDate input,
      pr_alreadyPosted = False\<rparr>"
    unfolding bind_res_eq_Inr case_prod_eq_Inr by blast
  have u: "u = ()" "v = ()" by simp_all
  show ?thesis by (rule fresh [OF None run(1,2) [unfolded u] run(4,5,6)])
next
  case (Some existing)
  with assms have "res = \<lparr>pr_inventoryTransactionId = inventory_transaction_id existing,
      pr_businessDate = pi_businessDate input, pr_alreadyPosted = True\<rparr>" "db' = db"
    by (simp_all add: post_def)
  then show ?thesis by (rule again [OF Some])
qed

lemma header_pair [simp]: "reversal_pair (posting_header input) = []"
  by (simp add: reversal_pair_def posting_header_def)

lemma post_fresh_result:
  assumes "post db input = Inr (res, db')" and "\<not> pr_alreadyPosted res" and "inv_ok db"
  shows "inv_ok db'" and "ledger db' = ledger db @ pi_lines input"
    and "transactions db' = transactions db @
          [(posting_header input)\<lparr>inventory_transaction_id := pr_inventoryTransactionId res\<rparr>]"
    and "pr_inventoryTransactionId res = transaction_seq db" and "warehouses db' = warehouses db"
    and "\<exists>rows. tlines db' = tlines db @ rows \<and> map posted_line rows = pi_lines input \<and>
          map line_key rows = map (\<lambda>p. (pr_inventoryTransactionId res, pi_businessDate input, fst p))
            (numbered (pi_lines input))"
    and "find_posted db (pi_idempotencyKey input) (pi_businessDate input) = None"
proof -
  from assms(1) have "inv_ok db' \<and> ledger db' = ledger db @ pi_lines input \<and>
    transactions db' = transactions db @
          [(posting_header input)\<lparr>inventory_transaction_id := pr_inventoryTransactionId res\<rparr>] \<and>
    pr_inventoryTransactionId res = transaction_seq db \<and> warehouses db' = warehouses db \<and>
    (\<exists>rows. tlines db' = tlines db @ rows \<and> map posted_line rows = pi_lines input \<and>
          map line_key rows = map (\<lambda>p. (pr_inventoryTransactionId res, pi_businessDate input, fst p))
            (numbered (pi_lines input))) \<and>
    find_posted db (pi_idempotencyKey input) (pi_businessDate input) = None"
  proof (cases rule: post_cases)
    case (again existing)
    with assms(2) show ?thesis by simp
  next
    case (fresh tid db1)
    from header_with_lines [OF fresh(4,5) assms(3)] fresh(1,6) show ?thesis by simp
  qed
  then show "inv_ok db'" "ledger db' = ledger db @ pi_lines input"
    "transactions db' = transactions db @
          [(posting_header input)\<lparr>inventory_transaction_id := pr_inventoryTransactionId res\<rparr>]"
    "pr_inventoryTransactionId res = transaction_seq db" "warehouses db' = warehouses db"
    "\<exists>rows. tlines db' = tlines db @ rows \<and> map posted_line rows = pi_lines input \<and>
          map line_key rows = map (\<lambda>p. (pr_inventoryTransactionId res, pi_businessDate input, fst p))
            (numbered (pi_lines input))"
    "find_posted db (pi_idempotencyKey input) (pi_businessDate input) = None"
    by - (elim conjE, assumption)+
qed

lemma post_keeps [preserves]:
  assumes "post db input = Inr (res, db')" and "inv_ok db"
  shows "inv_ok db'"
  using assms(1)
proof (cases rule: post_cases)
  case again
  with assms(2) show ?thesis by simp
next
  case fresh
  then show ?thesis using post_fresh_result(1) [OF assms(1) _ assms(2)] by simp
qed

end
