(* ===== verification/Inventory_Reversal.thy ===== *)
theory Inventory_Reversal
  imports Inventory_Posting
begin

text \<open>
  \<open>InventoryPostingService.reverse\<close> and \<open>src/core/inventory-posting/reversal.ts\<close>. The service reads the
  original before it waits for the row locks and reads the reversal again after it has them, so the
  model takes two stores: \<open>seen\<close>, what the reads before the locks saw, and \<open>db\<close>, the store once the
  locks are granted. \<open>reverse\<close> is the undisturbed run, where both are the same.
\<close>

section \<open>The pieces of reversal.ts\<close>

definition REVERSAL_NO_SUFFIX :: string where "REVERSAL_NO_SUFFIX = ''-R''"
definition REVERSAL_KEY_PREFIX :: string where "REVERSAL_KEY_PREFIX = ''REVERSAL:''"

text \<open>\<open>dimensionKey\<close>: the eight columns joined with colons; the model keeps them apart.\<close>

record reversal_key =
  rk_warehouseId :: id
  rk_locationId :: id
  rk_itemId :: id
  rk_lotKey :: id
  rk_qualityStatusCode :: code
  rk_inventoryStatusCode :: code
  rk_ownershipTypeCode :: code
  rk_ownerKey :: id

definition row_reversal_key :: "balance_row \<Rightarrow> reversal_key" where
  "row_reversal_key r =
     (let d = dim r in
      \<lparr>rk_warehouseId = warehouseId d, rk_locationId = locationId d, rk_itemId = itemId d,
       rk_lotKey = coalesce0 (lotId d), rk_qualityStatusCode = qualityStatusCode d,
       rk_inventoryStatusCode = inventoryStatusCode d, rk_ownershipTypeCode = ownershipTypeCode d,
       rk_ownerKey = coalesce0 (ownerPartnerId d)\<rparr>)"

definition line_reversal_key :: "PostingLine \<Rightarrow> PostingEndpoint \<Rightarrow> reversal_key" where
  "line_reversal_key line e =
     \<lparr>rk_warehouseId = ep_warehouseId e, rk_locationId = ep_locationId e, rk_itemId = pl_itemId line,
      rk_lotKey = coalesce0 (pl_lotId line), rk_qualityStatusCode = ep_qualityStatusCode e,
      rk_inventoryStatusCode = ep_inventoryStatusCode e, rk_ownershipTypeCode = pl_ownershipTypeCode line,
      rk_ownerKey = coalesce0 (pl_ownerPartnerId line)\<rparr>"

definition reversal_negativeBalance :: app_error where
  "reversal_negativeBalance = badRequest ''NEGATIVE_BALANCE''"

fun reversal_demand ::
  "(reversal_key \<times> decimal) list \<Rightarrow> PostingLine list \<Rightarrow> (reversal_key \<times> decimal) list" where
  "reversal_demand demand [] = demand"
| "reversal_demand demand (line # lines) =
     (case pl_from line of
        None \<Rightarrow> reversal_demand demand lines
      | Some e \<Rightarrow>
          let key = line_reversal_key line e;
              so_far = (case map_of demand key of None \<Rightarrow> 0 | Some q \<Rightarrow> q)
          in reversal_demand (AList.update key (so_far + pl_qty line) demand) lines)"

definition assertReversible :: "PostingLine list \<Rightarrow> balance_row list \<Rightarrow> unit res" where
  "assertReversible lines locked =
     (let rows = map_of (rev (map (\<lambda>r. (row_reversal_key r, r)) locked)) in
      bind_res (map_res (\<lambda>(key, qty). case rows key of
                  None \<Rightarrow> Inl reversal_negativeBalance
                | Some row \<Rightarrow> if available_qty row < qty then Inl reversal_negativeBalance else Inr ())
               (reversal_demand [] lines))
        (\<lambda>_. Inr ()))"

definition findReversal :: "inv_db \<Rightarrow> id \<Rightarrow> string \<Rightarrow> ReverseResult option" where
  "findReversal db originalId originalDate =
     map_option
       (\<lambda>row. \<lparr>rr_inventoryTransactionId = inventory_transaction_id row,
               rr_transactionNo = transaction_no row, rr_businessDate = business_date row,
               rr_alreadyReversed = True\<rparr>)
       (find (\<lambda>t. reversal_of_transaction_id t = Some originalId \<and>
                  reversal_of_business_date t = Some originalDate) (transactions db))"

text \<open>The decimal text of an id in \<open>`${REVERSAL_KEY_PREFIX}${id}`\<close>.\<close>

fun nat_text :: "nat \<Rightarrow> string" where
  "nat_text n = (if n < 10 then [char_of (48 + n)] else nat_text (n div 10) @ [char_of (48 + n mod 10)])"

declare nat_text.simps [simp del]

definition id_text :: "id \<Rightarrow> string" where
  "id_text i = (if i < 0 then CHR ''-'' # nat_text (nat (- i)) else nat_text (nat i))"

definition insertReversalHeader ::
  "inv_db \<Rightarrow> ReverseInput \<Rightarrow> transaction_row \<Rightarrow> string \<Rightarrow> (id \<times> inv_db) res" where
  "insertReversalHeader db input original transactionNo =
     insert_transaction db
       \<lparr>inventory_transaction_id = 0, business_date = ri_businessDate input,
        transaction_no = transactionNo, transaction_type_code = transaction_type_code original,
        transaction_plant_id = transaction_plant_id original, occurred_at = ri_occurredAt input,
        source_document_type_code = source_document_type_code original,
        source_document_id = source_document_id original,
        transaction_status_code = transaction_status_code original,
        idempotency_key = REVERSAL_KEY_PREFIX @ id_text (ri_inventoryTransactionId input),
        reversal_of_transaction_id = Some (ri_inventoryTransactionId input),
        reversal_of_business_date = Some (ri_businessDate input),
        transaction_created_by = ri_createdBy input\<rparr>"

section \<open>Reversing\<close>

definition find_original :: "inv_db \<Rightarrow> id \<Rightarrow> string \<Rightarrow> transaction_row option" where
  "find_original db tid date =
     find (\<lambda>t. inventory_transaction_id t = tid \<and> business_date t = date) (transactions db)"

definition original_lines :: "inv_db \<Rightarrow> id \<Rightarrow> string \<Rightarrow> tline_row list" where
  "original_lines db tid date =
     sort_key tl_line_no (filter (\<lambda>r. tl_transaction_id r = tid \<and> tl_business_date r = date) (tlines db))"

definition reverse_between :: "inv_db \<Rightarrow> inv_db \<Rightarrow> ReverseInput \<Rightarrow> (ReverseResult \<times> inv_db) res" where
  "reverse_between seen db input =
     (let tid = ri_inventoryTransactionId input; date = ri_businessDate input in
      case findReversal seen tid date of
        Some already \<Rightarrow> Inr (already, db)
      | None \<Rightarrow>
          (case find_original seen tid date of
             None \<Rightarrow> Inl (DbError P2025)
           | Some original \<Rightarrow>
               let rows = original_lines seen tid date;
                   lines = map reversedLine rows;
                   transactionNo = transaction_no original @ REVERSAL_NO_SUFFIX
               in
               bind_res (balanceKeys seen lines) (\<lambda>keys.
               let locked = lockBalancesInOrder db keys in
               case findReversal db tid date of
                 Some won \<Rightarrow> Inr (won, db)
               | None \<Rightarrow>
                   bind_res (assertReversible lines locked) (\<lambda>_.
                   bind_res (insertReversalHeader db input original transactionNo) (\<lambda>(headerId, db1).
                   bind_res (writeLines headerId date (ri_occurredAt input) (ri_createdBy input)
                       (zip (map tl_line_no rows) lines) db1) (\<lambda>db2.
                     Inr (\<lparr>rr_inventoryTransactionId = headerId, rr_transactionNo = transactionNo,
                           rr_businessDate = date, rr_alreadyReversed = False\<rparr>, db2)))))))"

definition reverse :: "inv_db \<Rightarrow> ReverseInput \<Rightarrow> (ReverseResult \<times> inv_db) res" where
  "reverse db input = reverse_between db db input"

section \<open>The demand of a list of lines\<close>

definition demand_at :: "PostingLine list \<Rightarrow> reversal_key \<Rightarrow> decimal" where
  "demand_at lines key =
     sum_list (map (\<lambda>line. case pl_from line of None \<Rightarrow> 0
        | Some e \<Rightarrow> if line_reversal_key line e = key then pl_qty line else 0) lines)"

definition demanded :: "PostingLine list \<Rightarrow> reversal_key \<Rightarrow> bool" where
  "demanded lines key \<longleftrightarrow> (\<exists>line \<in> set lines. \<exists>e. pl_from line = Some e \<and> line_reversal_key line e = key)"

lemma map_of_reversal_demand:
  "map_of (reversal_demand acc lines) key =
     (if map_of acc key \<noteq> None \<or> demanded lines key
      then Some ((case map_of acc key of None \<Rightarrow> 0 | Some q \<Rightarrow> q) + demand_at lines key) else None)"
proof (induction lines arbitrary: acc)
  case Nil
  then show ?case by (auto simp: demanded_def demand_at_def)
next
  case (Cons line lines)
  show ?case
  proof (cases "pl_from line")
    case None
    then show ?thesis by (simp add: Cons.IH demanded_def demand_at_def)
  next
    case (Some e)
    then show ?thesis
      by (auto simp: Cons.IH update_conv Let_def demanded_def demand_at_def split: option.splits)
  qed
qed

lemma distinct_reversal_demand:
  "distinct (map fst acc) \<Longrightarrow> distinct (map fst (reversal_demand acc lines))"
  by (induction acc lines rule: reversal_demand.induct)
    (auto simp: Let_def distinct_update split: option.splits)

lemma set_reversal_demand:
  "(key, qty) \<in> set (reversal_demand [] lines) \<longleftrightarrow> demanded lines key \<and> qty = demand_at lines key"
proof -
  have "(key, qty) \<in> set (reversal_demand [] lines) \<longleftrightarrow> map_of (reversal_demand [] lines) key = Some qty"
    using distinct_reversal_demand [of "[]" lines] by (simp add: map_of_eq_Some_iff)
  then show ?thesis by (auto simp: map_of_reversal_demand)
qed

lemma map_res_unit_Inr:
  "(\<exists>ys. map_res f xs = Inr ys) \<longleftrightarrow> (\<forall>x \<in> set xs. \<exists>y. f x = Inr y)"
proof (induction xs)
  case Nil
  then show ?case by simp
next
  case (Cons x xs)
  then show ?case by (auto simp: bind_res_eq_Inr)
qed

text \<open>\<open>assertReversible\<close> decided by sums: every key that leaves has a locked row whose available
  quantity covers the whole of what leaves it.\<close>

lemma assertReversible_iff:
  "assertReversible lines locked = Inr () \<longleftrightarrow>
     (\<forall>key. demanded lines key \<longrightarrow>
        (\<exists>row. map_of (rev (map (\<lambda>r. (row_reversal_key r, r)) locked)) key = Some row \<and>
               demand_at lines key \<le> available_qty row))"
proof -
  let ?rows = "map_of (rev (map (\<lambda>r. (row_reversal_key r, r)) locked))"
  let ?f = "\<lambda>(key, qty). case ?rows key of None \<Rightarrow> Inl reversal_negativeBalance
      | Some row \<Rightarrow> if available_qty row < qty then Inl reversal_negativeBalance else Inr ()"
  have "assertReversible lines locked = Inr () \<longleftrightarrow> (\<exists>ys. map_res ?f (reversal_demand [] lines) = Inr ys)"
    by (auto simp: assertReversible_def Let_def bind_res_eq_Inr)
  also have "\<dots> \<longleftrightarrow> (\<forall>x \<in> set (reversal_demand [] lines). \<exists>y. ?f x = Inr y)"
    by (rule map_res_unit_Inr)
  also have "\<dots> \<longleftrightarrow> (\<forall>key qty. (key, qty) \<in> set (reversal_demand [] lines) \<longrightarrow>
      (\<exists>row. ?rows key = Some row \<and> qty \<le> available_qty row))"
    by (force simp: not_less split: option.splits if_splits)
  also have "\<dots> \<longleftrightarrow> (\<forall>key. demanded lines key \<longrightarrow> (\<exists>row. ?rows key = Some row \<and>
       demand_at lines key \<le> available_qty row))"
    by (simp add: set_reversal_demand)
  finally show ?thesis .
qed

lemma map_res_error: "map_res f xs = Inl e \<Longrightarrow> \<exists>x \<in> set xs. f x = Inl e"
  by (induction xs) (auto simp: bind_res_eq_Inl)

lemma assertReversible_error: "assertReversible lines locked = Inl e \<Longrightarrow> e = reversal_negativeBalance"
  by (auto simp: assertReversible_def Let_def bind_res_eq_Inl dest!: map_res_error
      split: option.splits if_splits prod.splits)

section \<open>The locked rows\<close>

lemma endpoint_keys_Inr:
  assumes "endpoint_keys db line eps = Inr ks"
  shows "set ks = {\<lparr>lk_legalEntityId = org_legalEntityId org, lk_businessUnitId = org_businessUnitId org,
      lk_plantId = org_plantId org, lk_warehouseId = ep_warehouseId e, lk_locationId = ep_locationId e,
      lk_itemId = pl_itemId line, lk_lotKey = coalesce0 (pl_lotId line)\<rparr> | e org.
      Some e \<in> set eps \<and> warehouses db (ep_warehouseId e) = Some org}"
    and "\<And>e. Some e \<in> set eps \<Longrightarrow> warehouses db (ep_warehouseId e) \<noteq> None"
  using assms
proof (induction db line eps arbitrary: ks rule: endpoint_keys.induct)
  case (3 db line ep eps)
  {
    case 1
    then obtain org ks' where o: "warehouses db (ep_warehouseId ep) = Some org"
      and ks': "endpoint_keys db line eps = Inr ks'" and ks: "ks = \<lparr>lk_legalEntityId = org_legalEntityId org,
        lk_businessUnitId = org_businessUnitId org, lk_plantId = org_plantId org,
        lk_warehouseId = ep_warehouseId ep, lk_locationId = ep_locationId ep,
        lk_itemId = pl_itemId line, lk_lotKey = coalesce0 (pl_lotId line)\<rparr> # ks'"
      by (auto simp: bind_res_eq_Inr orgAxis_def split: option.splits)
    have "orgAxis db (ep_warehouseId ep) = Inr org" using o by (simp add: orgAxis_def)
    from 3(1) [OF ks'] o show ?case by (auto simp: ks)
  next
    case 2
    then obtain org ks' where o: "warehouses db (ep_warehouseId ep) = Some org"
      and ks': "endpoint_keys db line eps = Inr ks'"
      by (auto simp: bind_res_eq_Inr orgAxis_def split: option.splits)
    from 3(2) [OF _ ks'] o 2(1) show ?case by auto
  }
qed auto

lemma endpoint_keys_total:
  "(\<And>e. Some e \<in> set eps \<Longrightarrow> warehouses db (ep_warehouseId e) \<noteq> None) \<Longrightarrow>
   \<exists>ks. endpoint_keys db line eps = Inr ks"
proof (induction db line eps rule: endpoint_keys.induct)
  case (3 db line ep eps)
  then obtain org where "warehouses db (ep_warehouseId ep) = Some org" by auto
  moreover obtain ks where "endpoint_keys db line eps = Inr ks" using 3 by auto
  ultimately show ?case by (simp add: orgAxis_def)
qed auto

lemma end_okD: "end_ok ws (Some e) \<Longrightarrow> ws (ep_warehouseId e) \<noteq> None"
  by (simp add: end_ok_def)

lemma balanceKeys_total:
  assumes "list_all (line_ok (warehouses db)) lines"
  shows "\<exists>ks. balanceKeys db lines = Inr ks"
proof -
  have "\<exists>ks. endpoint_keys db line [pl_from line, pl_to line] = Inr ks" if "line \<in> set lines" for line
  proof (rule endpoint_keys_total)
    fix e
    assume e: "Some e \<in> set [pl_from line, pl_to line]"
    have "end_ok (warehouses db) (pl_from line)" "end_ok (warehouses db) (pl_to line)"
      using assms that by (simp_all add: list_all_iff line_ok_def)
    with e show "warehouses db (ep_warehouseId e) \<noteq> None" by (auto simp: end_ok_def split: option.splits)
  qed
  then have "\<exists>kss. map_res (\<lambda>line. endpoint_keys db line [pl_from line, pl_to line]) lines = Inr kss"
    by (simp add: map_res_unit_Inr)
  then show ?thesis by (auto simp: balanceKeys_def)
qed

lemma map_res_elem:
  assumes "map_res f xs = Inr ys"
  shows "set ys = {y. \<exists>x \<in> set xs. f x = Inr y}" and "x \<in> set xs \<Longrightarrow> \<exists>y. f x = Inr y"
  using assms by (induction xs arbitrary: ys) (auto simp: bind_res_eq_Inr)

lemma balanceKeys_set:
  assumes "balanceKeys db lines = Inr keys"
  shows "k \<in> set keys \<longleftrightarrow> (\<exists>line \<in> set lines. \<exists>e org. Some e \<in> {pl_from line, pl_to line} \<and>
    warehouses db (ep_warehouseId e) = Some org \<and>
    k = \<lparr>lk_legalEntityId = org_legalEntityId org, lk_businessUnitId = org_businessUnitId org,
      lk_plantId = org_plantId org, lk_warehouseId = ep_warehouseId e, lk_locationId = ep_locationId e,
      lk_itemId = pl_itemId line, lk_lotKey = coalesce0 (pl_lotId line)\<rparr>)"
proof -
  from assms obtain kss where kss: "map_res (\<lambda>line. endpoint_keys db line [pl_from line, pl_to line]) lines = Inr kss"
    and keys: "keys = concat kss" by (auto simp: balanceKeys_def bind_res_eq_Inr)
  have "k \<in> set keys \<longleftrightarrow> (\<exists>line \<in> set lines. \<exists>ks. endpoint_keys db line [pl_from line, pl_to line] = Inr ks \<and> k \<in> set ks)"
    by (auto simp: keys map_res_elem(1) [OF kss])
  also have "\<dots> \<longleftrightarrow> (\<exists>line \<in> set lines. k \<in> {\<lparr>lk_legalEntityId = org_legalEntityId org,
      lk_businessUnitId = org_businessUnitId org, lk_plantId = org_plantId org,
      lk_warehouseId = ep_warehouseId e, lk_locationId = ep_locationId e,
      lk_itemId = pl_itemId line, lk_lotKey = coalesce0 (pl_lotId line)\<rparr> | e org.
      Some e \<in> set [pl_from line, pl_to line] \<and> warehouses db (ep_warehouseId e) = Some org})"
  proof (rule bex_cong [OF refl])
    fix line
    assume "line \<in> set lines"
    then obtain ks where ks: "endpoint_keys db line [pl_from line, pl_to line] = Inr ks"
      using map_res_elem(2) [OF kss] by blast
    show "(\<exists>ks. endpoint_keys db line [pl_from line, pl_to line] = Inr ks \<and> k \<in> set ks) \<longleftrightarrow>
        k \<in> {\<lparr>lk_legalEntityId = org_legalEntityId org,
      lk_businessUnitId = org_businessUnitId org, lk_plantId = org_plantId org,
      lk_warehouseId = ep_warehouseId e, lk_locationId = ep_locationId e,
      lk_itemId = pl_itemId line, lk_lotKey = coalesce0 (pl_lotId line)\<rparr> | e org.
      Some e \<in> set [pl_from line, pl_to line] \<and> warehouses db (ep_warehouseId e) = Some org}"
      unfolding endpoint_keys_Inr(1) [OF ks, symmetric] using ks by simp
  qed
  finally show ?thesis by auto
qed

text \<open>Among the rows locked for a list of lines, the eight columns of the reversal key name the same
  row as the eleven columns of the dimension: the warehouse decides the other three.\<close>

lemma locked_row_iff:
  assumes "balanceKeys ws_db lines = Inr keys" and "warehouses ws_db = warehouses db"
    and "line \<in> set lines" and "pl_from line = Some e"
    and "warehouses db (ep_warehouseId e) = Some org"
  shows "r \<in> set (lockBalancesInOrder db keys) \<and> row_reversal_key r = line_reversal_key line e \<longleftrightarrow>
    r \<in> set (balances db) \<and> row_key r = dim_key (endpoint_dimension org line e)"
proof -
  let ?k = "\<lparr>lk_legalEntityId = org_legalEntityId org, lk_businessUnitId = org_businessUnitId org,
      lk_plantId = org_plantId org, lk_warehouseId = ep_warehouseId e, lk_locationId = ep_locationId e,
      lk_itemId = pl_itemId line, lk_lotKey = coalesce0 (pl_lotId line)\<rparr>"
  have k: "?k \<in> set keys"
    unfolding balanceKeys_set [OF assms(1)]
    by (rule bexI [OF _ assms(3)], rule exI [of _ e], rule exI [of _ org]) (simp add: assms)
  have eq: "row_reversal_key r = line_reversal_key line e \<and> lock_key_of r = ?k \<longleftrightarrow>
      row_key r = dim_key (endpoint_dimension org line e)"
    by (cases "dim r") (simp add: row_reversal_key_def line_reversal_key_def lock_key_of_def
        dim_key_def endpoint_dimension_def Let_def; blast)
  have org: "lock_key_of r = ?k"
    if "lock_key_of r \<in> set keys" and "row_reversal_key r = line_reversal_key line e"
  proof -
    from that(1) obtain line' :: PostingLine and e' :: PostingEndpoint and org' :: OrgAxis where "warehouses db (ep_warehouseId e') = Some org'"
      and "lock_key_of r = \<lparr>lk_legalEntityId = org_legalEntityId org', lk_businessUnitId = org_businessUnitId org',
      lk_plantId = org_plantId org', lk_warehouseId = ep_warehouseId e', lk_locationId = ep_locationId e',
      lk_itemId = pl_itemId line', lk_lotKey = coalesce0 (pl_lotId line')\<rparr>"
      unfolding balanceKeys_set [OF assms(1)] assms(2) by blast
    moreover from this(2) that(2) have "ep_warehouseId e' = ep_warehouseId e"
      by (simp add: lock_key_of_def row_reversal_key_def line_reversal_key_def Let_def)
    ultimately show ?thesis using assms(5) that(2)
      by (simp add: lock_key_of_def row_reversal_key_def line_reversal_key_def Let_def)
  qed
  show ?thesis
    using k eq org by (auto simp: lockBalancesInOrder_def)
qed

lemma map_of_rev_key:
  assumes "\<And>r. r \<in> set rows \<Longrightarrow> f r = key \<Longrightarrow> r = r0"
  shows "map_of (rev (map (\<lambda>r. (f r, r)) rows)) key = Some row \<longleftrightarrow> row \<in> set rows \<and> f row = key"
  using assms
proof -
  have "map_of (rev (map (\<lambda>r. (f r, r)) rows)) key = Some row \<longleftrightarrow> row \<in> set rows \<and> f row = key"
    if "\<forall>r \<in> set rows. f r = key \<longrightarrow> r = r0" for rows
    using that
  proof (induction rows)
    case Nil
    then show ?case by simp
  next
    case (Cons r rows)
    then have IH: "map_of (rev (map (\<lambda>r. (f r, r)) rows)) key = Some row \<longleftrightarrow> row \<in> set rows \<and> f row = key"
      by simp
    have "map_of (rev (map (\<lambda>r. (f r, r)) rows)) key = None \<longleftrightarrow> key \<notin> f ` set rows"
      by (force simp: map_of_eq_None_iff)
    with IH Cons.prems show ?case
      by (cases "map_of (rev (map (\<lambda>r. (f r, r)) rows)) key") (auto simp: map_add_def)
  qed
  with assms show ?thesis by blast
qed

section \<open>Lines that the stock covers can be written\<close>

lemma move_succeeds:
  assumes "wf_balances db" and "warehouses db (ep_warehouseId e) = Some org"
    and "0 \<le> delta \<or> (\<exists>r. find_balance db (endpoint_dimension org line e) = Some r \<and> - delta \<le> available_qty r)"
  shows "\<exists>q db'. move db tm line e delta = Inr (q, db')"
proof -
  let ?d = "endpoint_dimension org line e"
  let ?db0 = "insert_zero_balance db ?d (pl_uomId line)"
  have wf0: "wf_balances ?db0" by (rule insert_zero_wf [OF assms(1)])
  obtain r where r: "find_balance ?db0 ?d = Some r" "0 \<le> delta \<or> - delta \<le> available_qty r"
    using assms(3) by (cases "find_balance db ?d") (auto simp: insert_zero_find)
  have "balance_valid (negative_stock_allowed ?db0) r" by (rule find_balance_valid [OF wf0 r(1)])
  with r(2) have v: "balance_valid (negative_stock_allowed ?db0) (move_change tm delta r)"
    by (auto simp: validity move_change_def split: if_splits)
  have f: "filter (\<lambda>r. dimensionWhere ?d r \<and> True) (balances ?db0) = [r]"
    unfolding filter_guarded_key [OF wf0] using r(1) by simp
  obtain db' where "update_balances ?db0 (\<lambda>r. dimensionWhere ?d r \<and> True) (move_change tm delta) =
      Inr ([move_change tm delta r], db')"
    using v unfolding update_balances_def Let_def f by simp
  then show ?thesis using assms(2) by (simp add: move_unfold orgAxis_def Let_def)
qed

lemma move_end_available:
  assumes "move_end db tm line endpoint delta = Inr (after, db')" and "wf_balances db"
    and "find_balance db k = Some r"
  shows "\<exists>r'. find_balance db' k = Some r' \<and>
    available_qty r' = available_qty r + (if touches (warehouses db) line endpoint k then delta else 0)"
proof (cases endpoint)
  case None
  with assms show ?thesis by (simp add: move_end_def)
next
  case (Some e)
  with assms(1) obtain q where m: "move db tm line e delta = Inr (q, db')"
    unfolding move_end_def by (auto simp: bind_res_eq_Inr case_prod_eq_Inr)
  obtain org where org: "warehouses db (ep_warehouseId e) = Some org"
      and found: "\<forall>k. find_balance db' k =
           map_option (\<lambda>r. if dim_key k = dim_key (endpoint_dimension org line e)
                            then move_change tm delta r else r)
             (find_balance (insert_zero_balance db (endpoint_dimension org line e) (pl_uomId line)) k)"
    by (rule move_result [OF assms(2) m])
  have "touches (warehouses db) line endpoint k \<longleftrightarrow> dim_key k = dim_key (endpoint_dimension org line e)"
    using org by (auto simp: Some touches_def)
  moreover have "find_balance (insert_zero_balance db (endpoint_dimension org line e) (pl_uomId line)) k = Some r"
    using assms(3) by (simp add: insert_zero_find)
  ultimately show ?thesis by (simp add: found move_change_def available_qty_def)
qed

definition out_at :: "(id \<Rightarrow> OrgAxis option) \<Rightarrow> PostingLine list \<Rightarrow> BalanceDimension \<Rightarrow> decimal" where
  "out_at ws lines k =
     sum_list (map (\<lambda>line. if touches ws line (pl_from line) k then pl_qty line else 0) lines)"

definition covered :: "inv_db \<Rightarrow> PostingLine list \<Rightarrow> bool" where
  "covered db lines \<longleftrightarrow>
     (\<forall>k. (\<exists>line \<in> set lines. touches (warehouses db) line (pl_from line) k) \<longrightarrow>
        (\<exists>r. find_balance db k = Some r \<and> out_at (warehouses db) lines k \<le> available_qty r))"

lemma out_at_nonneg: "list_all (line_ok ws) lines \<Longrightarrow> 0 \<le> out_at ws lines k"
  unfolding out_at_def
  by (intro sum_list_nonneg) (auto simp: list_all_iff line_ok_def)

lemma move_end_succeeds:
  assumes "wf_balances db" and "end_ok (warehouses db) endpoint"
    and "0 \<le> delta \<or> (\<forall>k. touches (warehouses db) line endpoint k \<longrightarrow>
           (\<exists>r. find_balance db k = Some r \<and> - delta \<le> available_qty r))"
  shows "\<exists>after db'. move_end db tm line endpoint delta = Inr (after, db')"
proof (cases endpoint)
  case None
  then show ?thesis by (simp add: move_end_def)
next
  case (Some e)
  then obtain org where org: "warehouses db (ep_warehouseId e) = Some org"
    using assms(2) by (auto simp: end_ok_def)
  have "touches (warehouses db) line endpoint (endpoint_dimension org line e)"
    using org by (simp add: Some touches_def)
  with assms(3) obtain q db' where "move db tm line e delta = Inr (q, db')"
    using move_succeeds [OF assms(1) org, of delta line tm] by blast
  then show ?thesis by (simp add: Some move_end_def)
qed

lemma writeLine_succeeds:
  assumes "wf_balances db" and "list_all (line_ok (warehouses db)) (line # lines)"
    and "covered db (line # lines)" and "0 < n"
    and "(headerId, date, n) \<notin> set (map line_key (tlines db))"
  shows "\<exists>db'. writeLine db headerId date tm by line n = Inr db' \<and> covered db' lines"
proof -
  let ?ws = "warehouses db"
  have ok: "0 < pl_qty line" "pl_from line \<noteq> None \<or> pl_to line \<noteq> None"
    "end_ok ?ws (pl_from line)" "end_ok ?ws (pl_to line)"
    using assms(2) by (auto simp: line_ok_def)
  have rest: "0 \<le> out_at ?ws lines k" for k using assms(2) by (intro out_at_nonneg) simp
  have out: "out_at ?ws (line # lines) k =
      (if touches ?ws line (pl_from line) k then pl_qty line else 0) + out_at ?ws lines k" for k
    by (simp add: out_at_def)
  have first: "\<exists>r. find_balance db k = Some r \<and> - (- pl_qty line) \<le> available_qty r"
    if "touches ?ws line (pl_from line) k" for k
    using assms(3) that rest [of k] out [of k] unfolding covered_def by force
  obtain fa db1 where f: "move_end db tm line (pl_from line) (- pl_qty line) = Inr (fa, db1)"
    using move_end_succeeds [OF assms(1) ok(3)] first by blast
  note f' = move_end_result [OF f assms(1)]
  note fr1 = balances_only_frame [OF f'(2)]
  have "end_ok (warehouses db1) (pl_to line)" using ok(4) fr1(1) by simp
  then obtain ta db2 where t: "move_end db1 tm line (pl_to line) (pl_qty line) = Inr (ta, db2)"
    using move_end_succeeds [OF f'(1)] ok(1) by (metis less_imp_le)
  note t' = move_end_result [OF t f'(1)]
  note fr2 = balances_only_frame [OF t'(2)]
  have dir: "ec_location_id (endpointColumns (pl_from line)) \<noteq> None \<or>
      ec_location_id (endpointColumns (pl_to line)) \<noteq> None"
    using ok(2) by (auto simp: endpointColumns_def)
  obtain row where w: "writeLine db headerId date tm by line n = Inr (db2\<lparr>tlines := tlines db2 @ [row]\<rparr>)"
    using f t assms(4,5) ok(1) dir
    by (force simp: writeLine_def insert_line_def line_key_def list_ex_iff fr1 fr2)
  have "covered (db2\<lparr>tlines := tlines db2 @ [row]\<rparr>) lines"
    unfolding covered_def
  proof (intro allI impI)
    fix k
    assume "\<exists>line\<in>set lines. touches (warehouses (db2\<lparr>tlines := tlines db2 @ [row]\<rparr>)) line (pl_from line) k"
    then have "\<exists>line' \<in> set (line # lines). touches ?ws line' (pl_from line') k" using fr1(1) fr2(1) by auto
    with assms(3) obtain r where r: "find_balance db k = Some r"
      "out_at ?ws (line # lines) k \<le> available_qty r" unfolding covered_def by blast
    obtain r1 where r1: "find_balance db1 k = Some r1" "available_qty r1 = available_qty r +
        (if touches ?ws line (pl_from line) k then - pl_qty line else 0)"
      using move_end_available [OF f assms(1) r(1)] by blast
    obtain r2 where r2: "find_balance db2 k = Some r2" "available_qty r2 = available_qty r1 +
        (if touches (warehouses db1) line (pl_to line) k then pl_qty line else 0)"
      using move_end_available [OF t f'(1) r1(1)] by blast
    have "out_at ?ws lines k \<le> available_qty r2"
      using r(2) r1(2) r2(2) out [of k] ok(1) by (auto split: if_splits)
    then show "\<exists>r. find_balance (db2\<lparr>tlines := tlines db2 @ [row]\<rparr>) k = Some r \<and>
        out_at (warehouses (db2\<lparr>tlines := tlines db2 @ [row]\<rparr>)) lines k \<le> available_qty r"
      using r2(1) fr1(1) fr2(1) by (simp add: find_balance_def)
  qed
  with w show ?thesis by blast
qed

lemma writeLines_succeed:
  assumes "wf_balances db" and "list_all (line_ok (warehouses db)) (map snd lines)"
    and "covered db (map snd lines)" and "list_all (\<lambda>p. 0 < fst p) lines"
    and "distinct (map fst lines)"
    and "\<forall>p \<in> set lines. (headerId, date, fst p) \<notin> set (map line_key (tlines db))"
  shows "\<exists>db'. writeLines headerId date tm by lines db = Inr db'"
  using assms
proof (induction lines arbitrary: db)
  case Nil
  then show ?case by (simp add: writeLines_def)
next
  case (Cons p lines)
  obtain n line where p: "p = (n, line)" by (cases p)
  obtain db1 where one: "writeLine db headerId date tm by line n = Inr db1"
    and cov: "covered db1 (map snd lines)"
    using writeLine_succeeds [OF Cons.prems(1), of line "map snd lines" n headerId date tm "by"]
      Cons.prems(2-6) p by auto
  obtain row where r: "tlines db1 = tlines db @ [row]" "line_key row = (headerId, date, n)"
    "wf_balances db1" "ledger_only db db1"
    by (rule writeLine_result [OF one Cons.prems(1)])
  have "\<exists>db'. writeLines headerId date tm by lines db1 = Inr db'"
  proof (rule Cons.IH [OF r(3) _ cov])
    show "list_all (line_ok (warehouses db1)) (map snd lines)"
      using Cons.prems(2) r(4) by (simp add: ledger_only_def)
    show "\<forall>p \<in> set lines. (headerId, date, fst p) \<notin> set (map line_key (tlines db1))"
      using Cons.prems(5,6) p by (force simp: r(1,2))
  qed (use Cons.prems in simp_all)
  with one p show ?case by (auto simp: writeLines_def)
qed

section \<open>assertReversible is enough\<close>

lemma same_dimension_iff:
  assumes "ws (ep_warehouseId e) = Some org" and "ws (ep_warehouseId e') = Some org'"
  shows "line_reversal_key line' e' = line_reversal_key line e \<longleftrightarrow>
    dim_key (endpoint_dimension org' line' e') = dim_key (endpoint_dimension org line e)"
  using assms
  by (auto simp: line_reversal_key_def dim_key_def endpoint_dimension_def)

lemma demand_is_out:
  assumes "list_all (line_ok ws) lines" and "ws (ep_warehouseId e) = Some org"
  shows "demand_at lines (line_reversal_key line e) = out_at ws lines (endpoint_dimension org line e)"
  unfolding demand_at_def out_at_def
proof (rule arg_cong [where f = sum_list], rule map_cong [OF refl])
  fix line'
  assume "line' \<in> set lines"
  with assms(1) have ok: "end_ok ws (pl_from line')" by (simp add: list_all_iff line_ok_def)
  show "(case pl_from line' of None \<Rightarrow> 0
          | Some e' \<Rightarrow> if line_reversal_key line' e' = line_reversal_key line e then pl_qty line' else 0) =
        (if touches ws line' (pl_from line') (endpoint_dimension org line e) then pl_qty line' else 0)"
  proof (cases "pl_from line'")
    case None
    then show ?thesis by simp
  next
    case (Some e')
    with ok obtain org' where org': "ws (ep_warehouseId e') = Some org'" by (auto simp: end_ok_def)
    show ?thesis
      using same_dimension_iff [of ws e org e' org' line' line, OF assms(2) org']
      by (simp add: Some touches_def org')
  qed
qed

lemma reversible_covered:
  assumes "balanceKeys seen lines = Inr keys" and "warehouses seen = warehouses db"
    and "wf_balances db" and "list_all (line_ok (warehouses db)) lines"
    and "assertReversible lines (lockBalancesInOrder db keys) = Inr ()"
  shows "covered db lines"
  unfolding covered_def
proof (intro allI impI)
  fix k
  let ?ws = "warehouses db" and ?locked = "lockBalancesInOrder db keys"
  assume "\<exists>line\<in>set lines. touches ?ws line (pl_from line) k"
  then obtain line e org where line: "line \<in> set lines" "pl_from line = Some e"
    "?ws (ep_warehouseId e) = Some org" "dim_key (endpoint_dimension org line e) = dim_key k"
    by (auto simp: touches_def split: option.splits)
  let ?d = "endpoint_dimension org line e" and ?key = "line_reversal_key line e"
  note locked = locked_row_iff [OF assms(1,2) line(1-3)]
  have inj: "distinct (map row_key (balances db))" using assms(3) by (simp add: wf_balances_def)
  have "demanded lines ?key" using line(1,2) by (auto simp: demanded_def)
  then obtain row where row: "map_of (rev (map (\<lambda>r. (row_reversal_key r, r)) ?locked)) ?key = Some row"
    "demand_at lines ?key \<le> available_qty row"
    using assms(5) unfolding assertReversible_iff by blast
  from map_of_SomeD [OF row(1)] have "row \<in> set ?locked" "row_reversal_key row = ?key" by auto
  with locked have r: "row \<in> set (balances db)" "row_key row = dim_key ?d" by auto
  have "find_balance db k \<noteq> None"
    using r line(4) by (auto simp: find_balance_def find_None_iff)
  then obtain r' where r': "find_balance db k = Some r'" by blast
  then have "r' \<in> set (balances db)" "row_key r' = dim_key k" using find_balance_Some by auto
  with r line(4) inj have "r' = row" by (auto simp: distinct_map inj_on_def)
  moreover have "out_at ?ws lines k = out_at ?ws lines ?d"
    using touches_key [OF line(4), of ?ws] by (simp add: out_at_def)
  ultimately show "\<exists>r. find_balance db k = Some r \<and> out_at ?ws lines k \<le> available_qty r"
    using r' row(2) demand_is_out [of ?ws lines e org line, OF assms(4) line(3)] by simp
qed

section \<open>What reverse does\<close>

definition reversal_header :: "ReverseInput \<Rightarrow> transaction_row \<Rightarrow> transaction_row" where
  "reversal_header input original =
     \<lparr>inventory_transaction_id = 0, business_date = ri_businessDate input,
      transaction_no = transaction_no original @ REVERSAL_NO_SUFFIX,
      transaction_type_code = transaction_type_code original,
      transaction_plant_id = transaction_plant_id original, occurred_at = ri_occurredAt input,
      source_document_type_code = source_document_type_code original,
      source_document_id = source_document_id original,
      transaction_status_code = transaction_status_code original,
      idempotency_key = REVERSAL_KEY_PREFIX @ id_text (ri_inventoryTransactionId input),
      reversal_of_transaction_id = Some (ri_inventoryTransactionId input),
      reversal_of_business_date = Some (ri_businessDate input),
      transaction_created_by = ri_createdBy input\<rparr>"

abbreviation original_rows :: "inv_db \<Rightarrow> ReverseInput \<Rightarrow> tline_row list" where
  "original_rows seen input \<equiv> original_lines seen (ri_inventoryTransactionId input) (ri_businessDate input)"

lemma reverse_cases:
  assumes "reverse_between seen db input = Inr (res, db')"
  obtains (seen) "findReversal seen (ri_inventoryTransactionId input) (ri_businessDate input) = Some res"
      and "db' = db"
  | (won) "findReversal seen (ri_inventoryTransactionId input) (ri_businessDate input) = None"
      and "findReversal db (ri_inventoryTransactionId input) (ri_businessDate input) = Some res"
      and "db' = db"
  | (fresh) original keys tid db1
    where "findReversal seen (ri_inventoryTransactionId input) (ri_businessDate input) = None"
      and "findReversal db (ri_inventoryTransactionId input) (ri_businessDate input) = None"
      and "find_original seen (ri_inventoryTransactionId input) (ri_businessDate input) = Some original"
      and "balanceKeys seen (map reversedLine (original_rows seen input)) = Inr keys"
      and "assertReversible (map reversedLine (original_rows seen input)) (lockBalancesInOrder db keys) = Inr ()"
      and "insert_transaction db (reversal_header input original) = Inr (tid, db1)"
      and "writeLines tid (ri_businessDate input) (ri_occurredAt input) (ri_createdBy input)
             (zip (map tl_line_no (original_rows seen input)) (map reversedLine (original_rows seen input))) db1
             = Inr db'"
      and "res = \<lparr>rr_inventoryTransactionId = tid,
             rr_transactionNo = transaction_no original @ REVERSAL_NO_SUFFIX,
             rr_businessDate = ri_businessDate input, rr_alreadyReversed = False\<rparr>"
proof (cases "findReversal seen (ri_inventoryTransactionId input) (ri_businessDate input)")
  case (Some already)
  with assms have "already = res" "db' = db" by (simp_all add: reverse_between_def Let_def)
  with Some show ?thesis using seen by blast
next
  case None
  let ?rows = "original_rows seen input"
  obtain original where o: "find_original seen (ri_inventoryTransactionId input) (ri_businessDate input) = Some original"
    using assms None by (cases "find_original seen (ri_inventoryTransactionId input) (ri_businessDate input)")
      (simp_all add: reverse_between_def Let_def)
  obtain keys where k: "balanceKeys seen (map reversedLine ?rows) = Inr keys"
    using assms None o by (auto simp: reverse_between_def Let_def bind_res_eq_Inr)
  show ?thesis
  proof (cases "findReversal db (ri_inventoryTransactionId input) (ri_businessDate input)")
    case (Some w)
    with assms None o k have "w = res" "db' = db" by (simp_all add: reverse_between_def Let_def)
    with Some None show ?thesis using won by blast
  next
    case None2: None
    from assms None None2 o k have
      "bind_res (assertReversible (map reversedLine ?rows) (lockBalancesInOrder db keys)) (\<lambda>_.
       bind_res (insert_transaction db (reversal_header input original)) (\<lambda>(headerId, db1).
       bind_res (writeLines headerId (ri_businessDate input) (ri_occurredAt input) (ri_createdBy input)
             (zip (map tl_line_no ?rows) (map reversedLine ?rows)) db1) (\<lambda>db2.
         Inr (\<lparr>rr_inventoryTransactionId = headerId,
               rr_transactionNo = transaction_no original @ REVERSAL_NO_SUFFIX,
               rr_businessDate = ri_businessDate input, rr_alreadyReversed = False\<rparr>, db2))))
       = Inr (res, db')"
      by (simp add: reverse_between_def Let_def insertReversalHeader_def reversal_header_def)
    then obtain u tid db1 where run:
      "assertReversible (map reversedLine ?rows) (lockBalancesInOrder db keys) = Inr u"
      "insert_transaction db (reversal_header input original) = Inr (tid, db1)"
      "writeLines tid (ri_businessDate input) (ri_occurredAt input) (ri_createdBy input)
             (zip (map tl_line_no ?rows) (map reversedLine ?rows)) db1 = Inr db'"
      "res = \<lparr>rr_inventoryTransactionId = tid,
             rr_transactionNo = transaction_no original @ REVERSAL_NO_SUFFIX,
             rr_businessDate = ri_businessDate input, rr_alreadyReversed = False\<rparr>"
      unfolding bind_res_eq_Inr case_prod_eq_Inr by blast
    have u: "u = ()" by simp
    show ?thesis by (rule fresh [OF None None2 o k run(1) [unfolded u] run(2-4)])
  qed
qed

lemma findReversal_None:
  "findReversal db tid date = None \<longleftrightarrow> (tid, date) \<notin> set (reversal_pairs db)"
proof -
  have "(tid, date) \<in> set (reversal_pair t) \<longleftrightarrow>
      reversal_of_transaction_id t = Some tid \<and> reversal_of_business_date t = Some date" for t
    by (auto simp: reversal_pair_def split: option.splits)
  then show ?thesis by (auto simp: findReversal_def find_None_iff reversal_pairs_def)
qed

lemma reversal_header_pair [simp]:
  "reversal_pair (reversal_header input original) =
     [(ri_inventoryTransactionId input, ri_businessDate input)]"
  by (simp add: reversal_pair_def reversal_header_def)

lemma posted_of_reversed: "swap_ends (reversedLine r) = posted_line r"
  by (simp add: posted_line_def)

lemma swap_swap [simp]: "swap_ends (swap_ends line) = line"
  by (simp add: swap_ends_def)

lemma reversed_is_swap: "reversedLine r = swap_ends (posted_line r)"
  by (simp add: posted_line_def)

lemma line_delta_swap [simp]: "line_delta ws (swap_ends line) k = - line_delta ws line k"
proof -
  have "touches ws (swap_ends line) e k = touches ws line e k" for e
    by (simp add: touches_def swap_ends_def endpoint_dimension_def split: option.splits)
  then show ?thesis by (simp add: line_delta_def) (simp add: swap_ends_def)
qed

lemma net_swap: "net ws (map swap_ends lines) k = - net ws lines k"
  by (induction lines) (simp_all add: net_def)

lemma line_ok_swap [simp]: "line_ok ws (swap_ends line) = line_ok ws line"
  by (auto simp: line_ok_def swap_ends_def)

text \<open>A fresh reversal appends the original's lines with their ends exchanged.\<close>

lemma reverse_fresh_result:
  assumes "reverse_between seen db input = Inr (res, db')" and "\<not> rr_alreadyReversed res"
    and "inv_ok db"
  shows "inv_ok db'" and "ledger db' = ledger db @ map reversedLine (original_rows seen input)"
    and "warehouses db' = warehouses db"
    and "rr_inventoryTransactionId res = transaction_seq db"
    and "\<exists>original. find_original seen (ri_inventoryTransactionId input) (ri_businessDate input) = Some original \<and>
      transactions db' = transactions db @
        [(reversal_header input original)\<lparr>inventory_transaction_id := rr_inventoryTransactionId res\<rparr>] \<and>
      res = \<lparr>rr_inventoryTransactionId = transaction_seq db,
             rr_transactionNo = transaction_no original @ REVERSAL_NO_SUFFIX,
             rr_businessDate = ri_businessDate input, rr_alreadyReversed = False\<rparr>"
    and "findReversal db (ri_inventoryTransactionId input) (ri_businessDate input) = None"
proof -
  from assms(1) have "inv_ok db' \<and> ledger db' = ledger db @ map reversedLine (original_rows seen input) \<and>
    warehouses db' = warehouses db \<and> rr_inventoryTransactionId res = transaction_seq db \<and>
    (\<exists>original. find_original seen (ri_inventoryTransactionId input) (ri_businessDate input) = Some original \<and>
      transactions db' = transactions db @
        [(reversal_header input original)\<lparr>inventory_transaction_id := rr_inventoryTransactionId res\<rparr>] \<and>
      res = \<lparr>rr_inventoryTransactionId = transaction_seq db,
             rr_transactionNo = transaction_no original @ REVERSAL_NO_SUFFIX,
             rr_businessDate = ri_businessDate input, rr_alreadyReversed = False\<rparr>) \<and>
    findReversal db (ri_inventoryTransactionId input) (ri_businessDate input) = None"
  proof (cases rule: reverse_cases)
    case seen
    with assms(2) show ?thesis by (auto simp: findReversal_def)
  next
    case won
    with assms(2) show ?thesis by (auto simp: findReversal_def)
  next
    case (fresh original keys tid db1)
    have "set (reversal_pair (reversal_header input original)) \<inter> set (reversal_pairs db) = {}"
      using fresh(2) by (simp add: findReversal_None)
    from header_with_lines [OF fresh(6,7) assms(3) this] fresh(2,3,8) show ?thesis by simp
  qed
  then show "inv_ok db'" "ledger db' = ledger db @ map reversedLine (original_rows seen input)"
    "warehouses db' = warehouses db" "rr_inventoryTransactionId res = transaction_seq db"
    "\<exists>original. find_original seen (ri_inventoryTransactionId input) (ri_businessDate input) = Some original \<and>
      transactions db' = transactions db @
        [(reversal_header input original)\<lparr>inventory_transaction_id := rr_inventoryTransactionId res\<rparr>] \<and>
      res = \<lparr>rr_inventoryTransactionId = transaction_seq db,
             rr_transactionNo = transaction_no original @ REVERSAL_NO_SUFFIX,
             rr_businessDate = ri_businessDate input, rr_alreadyReversed = False\<rparr>"
    "findReversal db (ri_inventoryTransactionId input) (ri_businessDate input) = None"
    by - (elim conjE, assumption)+
qed

lemma reverse_keeps [preserves]:
  assumes "reverse_between seen db input = Inr (res, db')" and "inv_ok db"
  shows "inv_ok db'"
  using assms(1)
proof (cases rule: reverse_cases)
  case fresh
  then show ?thesis using reverse_fresh_result(1) [OF assms(1) _ assms(2)] by simp
qed (use assms(2) in simp_all)

text \<open>The only failures: the original is not there, the stock is not there, or the header's
  number or key is taken.\<close>

lemma original_lines_ok:
  assumes "inv_ok seen"
  shows "list_all (line_ok (warehouses seen)) (map reversedLine (original_lines seen tid date))"
    and "distinct (map tl_line_no (original_lines seen tid date))"
    and "list_all (\<lambda>n. 0 < n) (map tl_line_no (original_lines seen tid date))"
proof -
  let ?p = "\<lambda>r. tl_transaction_id r = tid \<and> tl_business_date r = date"
  have "list_all (line_ok (warehouses seen)) (ledger seen)"
    using assms by (simp add: inv_ok_def ledger_ok_def)
  then show "list_all (line_ok (warehouses seen)) (map reversedLine (original_lines seen tid date))"
    by (auto simp: list_all_iff ledger_def original_lines_def reversed_is_swap)
  have "distinct (map line_key (filter ?p (tlines seen)))"
    using assms by (simp add: inv_ok_def headers_ok_def distinct_map_filter)
  then have "inj_on tl_line_no (set (filter ?p (tlines seen)))" "distinct (filter ?p (tlines seen))"
    by (auto simp: distinct_map inj_on_def line_key_def)
  then show "distinct (map tl_line_no (original_lines seen tid date))"
    by (simp add: original_lines_def distinct_map)
  show "list_all (\<lambda>n. 0 < n) (map tl_line_no (original_lines seen tid date))"
    using assms by (auto simp: inv_ok_def headers_ok_def list_all_iff original_lines_def)
qed

lemma insert_transaction_Inl:
  "insert_transaction db row = Inl e \<Longrightarrow>
   set (reversal_pair row) \<subseteq> set (map transaction_key (transactions db)) \<Longrightarrow>
   \<exists>cols. e = DbError (P2002 cols)"
  by (auto simp: insert_transaction_def list_all_iff split: if_splits)

lemma find_original_key:
  "find_original db tid date = Some original \<Longrightarrow> (tid, date) \<in> set (map transaction_key (transactions db))"
  by (force simp: find_original_def find_Some_iff transaction_key_def in_set_conv_nth)

lemma reversed_lines_written:
  assumes "inv_ok seen" and "inv_ok db" and "warehouses seen = warehouses db"
    and "balanceKeys seen (map reversedLine (original_lines seen tid0 date)) = Inr keys"
    and "assertReversible (map reversedLine (original_lines seen tid0 date)) (lockBalancesInOrder db keys) = Inr ()"
    and "insert_transaction db row = Inr (tid, db1)"
  shows "\<exists>db2. writeLines tid date tm by
    (zip (map tl_line_no (original_lines seen tid0 date)) (map reversedLine (original_lines seen tid0 date))) db1
    = Inr db2"
proof -
  let ?rows = "original_lines seen tid0 date"
  note rows = original_lines_ok [OF assms(1)]
  note ins = insert_transaction_Inr [OF assms(6)]
  have wf: "wf_balances db" using assms(2) by simp
  have cov: "covered db (map reversedLine ?rows)"
    using reversible_covered [OF assms(4,3) wf _ assms(5)] rows(1) assms(3) by simp
  have "covered db1 (map reversedLine ?rows)" using cov by (simp add: covered_def ins(2) find_balance_def)
  moreover have "(tid, date, n) \<notin> set (map line_key (tlines db1))" for n
    using assms(2) by (auto simp: ins inv_ok_def headers_ok_def list_all_iff line_key_def)
  moreover have "list_all (\<lambda>p. 0 < fst p) (zip (map tl_line_no ?rows) (map reversedLine ?rows))"
    using rows(3) by (auto simp: list_all_iff dest!: set_zip_leftD)
  ultimately show ?thesis
    using rows wf assms(3) by (intro writeLines_succeed) (simp_all add: ins)
qed

lemma reverse_error:
  assumes "reverse_between seen db input = Inl e" and "inv_ok seen" and "inv_ok db"
    and "warehouses seen = warehouses db" and "set (transactions seen) \<subseteq> set (transactions db)"
  shows "(e = DbError P2025 \<and>
            find_original seen (ri_inventoryTransactionId input) (ri_businessDate input) = None) \<or>
    e = reversal_negativeBalance \<or> (\<exists>cols. e = DbError (P2002 cols))"
proof -
  let ?tid = "ri_inventoryTransactionId input" and ?date = "ri_businessDate input"
  let ?rows = "original_rows seen input"
  have new: "findReversal seen ?tid ?date = None" using assms(1)
    by (cases "findReversal seen ?tid ?date") (simp_all add: reverse_between_def Let_def)
  show ?thesis
  proof (cases "find_original seen ?tid ?date")
    case None
    with assms(1) new show ?thesis by (simp add: reverse_between_def Let_def)
  next
    case (Some original)
    obtain keys where k: "balanceKeys seen (map reversedLine ?rows) = Inr keys"
      using balanceKeys_total [OF original_lines_ok(1) [OF assms(2)]] by blast
    have "findReversal db ?tid ?date = None" using assms(1) new Some k
      by (cases "findReversal db ?tid ?date") (simp_all add: reverse_between_def Let_def)
    with assms(1) new Some k have run:
      "bind_res (assertReversible (map reversedLine ?rows) (lockBalancesInOrder db keys)) (\<lambda>_.
       bind_res (insert_transaction db (reversal_header input original)) (\<lambda>(headerId, db1).
       bind_res (writeLines headerId ?date (ri_occurredAt input) (ri_createdBy input)
             (zip (map tl_line_no ?rows) (map reversedLine ?rows)) db1) (\<lambda>db2.
         Inr (\<lparr>rr_inventoryTransactionId = headerId,
               rr_transactionNo = transaction_no original @ REVERSAL_NO_SUFFIX,
               rr_businessDate = ?date, rr_alreadyReversed = False\<rparr>, db2)))) = Inl e"
      by (simp add: reverse_between_def Let_def insertReversalHeader_def reversal_header_def)
    show ?thesis
    proof (cases "assertReversible (map reversedLine ?rows) (lockBalancesInOrder db keys)")
      case (Inl e')
      with run assertReversible_error show ?thesis by auto
    next
      case (Inr u)
      then have ok: "assertReversible (map reversedLine ?rows) (lockBalancesInOrder db keys) = Inr ()" by simp
      show ?thesis
      proof (cases "insert_transaction db (reversal_header input original)")
        case (Inl e')
        have "(?tid, ?date) \<in> set (map transaction_key (transactions db))"
          using find_original_key [OF Some] assms(5) by auto
        with run ok insert_transaction_Inl [OF Inl] Inl show ?thesis by simp
      next
        case (Inr p)
        then obtain tid db1 where h: "insert_transaction db (reversal_header input original) = Inr (tid, db1)"
          by (cases p) auto
        obtain db2 where "writeLines tid ?date (ri_occurredAt input) (ri_createdBy input)
            (zip (map tl_line_no ?rows) (map reversedLine ?rows)) db1 = Inr db2"
          using reversed_lines_written [OF assms(2-4) k ok h] by blast
        with run ok h show ?thesis by simp
      qed
    qed
  qed
qed

end
