(* ===== verification/Inventory_Operations.thy ===== *)
theory Inventory_Operations
  imports Inventory_Reversal
begin

text \<open>
  The inventory store as a whole: the six operations of \<open>InventoryPostingService\<close> share one contract,
  the locale \<open>inventory_operation\<close>, and a store reachable by any sequence of them satisfies it. The
  properties of posting and reversal across operations stand here.
\<close>

section \<open>The contract of an operation\<close>

text \<open>The store an operation leaves, its result dropped.\<close>

definition next_store :: "('r \<times> inv_db) res \<Rightarrow> inv_db res" where
  "next_store m = bind_res m (\<lambda>(r, db). Inr db)"

lemma next_store_Inr: "next_store m = Inr db \<longleftrightarrow> (\<exists>r. m = Inr (r, db))"
  by (cases m) (auto simp: next_store_def)

locale inventory_operation =
  fixes operation :: "'i \<Rightarrow> inv_db \<Rightarrow> ('r \<times> inv_db) res"
  assumes keeps: "operation i db = Inr (r, db') \<Longrightarrow> inv_ok db \<Longrightarrow> inv_ok db'"
    and master: "operation i db = Inr (r, db') \<Longrightarrow> inv_ok db \<Longrightarrow> warehouses db' = warehouses db"
    and history: "operation i db = Inr (r, db') \<Longrightarrow> inv_ok db \<Longrightarrow>
      prefix (ledger db) (ledger db') \<and> prefix (transactions db) (transactions db')"
begin

text \<open>A caller that runs the operation once per element of a list, in one transaction.\<close>

lemma sequence:
  assumes "fold_res (\<lambda>i s. next_store (operation i s)) is db = Inr db'" and "inv_ok db"
  shows "inv_ok db' \<and> warehouses db' = warehouses db \<and> prefix (ledger db) (ledger db') \<and>
    prefix (transactions db) (transactions db')"
  using assms
proof (induction "is" arbitrary: db)
  case Nil
  then show ?case by simp
next
  case (Cons i "is")
  then obtain r db1 where one: "operation i db = Inr (r, db1)"
    and rest: "fold_res (\<lambda>i s. next_store (operation i s)) is db1 = Inr db'"
    by (auto simp: bind_res_eq_Inr next_store_Inr)
  from Cons.IH [OF rest keeps [OF one Cons.prems(2)]] master [OF one Cons.prems(2)]
    history [OF one Cons.prems(2)]
  show ?case by (auto intro: prefix_order.trans)
qed

end

definition unit_result :: "inv_db res \<Rightarrow> (unit \<times> inv_db) res" where
  "unit_result m = bind_res m (\<lambda>db. Inr ((), db))"

lemma unit_result_Inr [simp]: "unit_result m = Inr (u, db) \<longleftrightarrow> m = Inr db"
  by (cases m) (auto simp: unit_result_def)

lemma quantities_keep:
  assumes "quantities_only db db'" and "wf_balances db'" and "wf_reservations db'" and "inv_ok db"
  shows "inv_ok db'" and "warehouses db' = warehouses db" and "ledger db' = ledger db"
    and "transactions db' = transactions db"
proof -
  from assms(1) have eq: "db' = db\<lparr>balances := balances db', reservations := reservations db',
      reservation_seq := reservation_seq db'\<rparr>" and oh: "\<forall>k. on_hand_at db' k = on_hand_at db k"
    by (simp_all add: quantities_only_def)
  show ws: "warehouses db' = warehouses db" by (subst eq) simp
  have tl: "tlines db' = tlines db" by (subst eq) simp
  show tr: "transactions db' = transactions db" by (subst eq) simp
  have sq: "transaction_seq db' = transaction_seq db" by (subst eq) simp
  show led: "ledger db' = ledger db" by (simp add: ledger_def tl)
  show "inv_ok db'"
    using assms oh by (simp add: inv_ok_def ledger_ok_def headers_ok_def reversal_pairs_def ws tl tr sq led)
qed

interpretation posting: inventory_operation "\<lambda>input db. post db input"
proof unfold_locales
  fix input db r db'
  assume p: "post db input = Inr (r, db')" and ok: "inv_ok db"
  show "inv_ok db'" by (rule post_keeps [OF p ok])
  from p have "warehouses db' = warehouses db \<and> prefix (ledger db) (ledger db') \<and>
    prefix (transactions db) (transactions db')"
  proof (cases rule: post_cases)
    case fresh
    then show ?thesis using post_fresh_result(2,3,5) [OF p _ ok] by simp
  qed simp
  then show "warehouses db' = warehouses db"
    "prefix (ledger db) (ledger db') \<and> prefix (transactions db) (transactions db')" by simp_all
qed

interpretation reversing: inventory_operation "\<lambda>(seen, input) db. reverse_between seen db input"
proof unfold_locales
  fix i db r db'
  assume "(case i of (seen, input) \<Rightarrow> \<lambda>db. reverse_between seen db input) db = Inr (r, db')" and ok: "inv_ok db"
  then obtain seen input where p: "reverse_between seen db input = Inr (r, db')" by (cases i) auto
  show "inv_ok db'" by (rule reverse_keeps [OF p ok])
  from p have "warehouses db' = warehouses db \<and> prefix (ledger db) (ledger db') \<and>
    prefix (transactions db) (transactions db')"
  proof (cases rule: reverse_cases)
    case fresh
    then show ?thesis using reverse_fresh_result(2,3,5) [OF p _ ok] by auto
  qed simp_all
  then show "warehouses db' = warehouses db"
    "prefix (ledger db) (ledger db') \<and> prefix (transactions db) (transactions db')" by simp_all
qed

lemma reserve_all_keeps:
  assumes "fold_res reserve_one moves (ids, db) = Inr (ids', db')" and "inv_ok db"
  shows "inv_ok db' \<and> warehouses db' = warehouses db \<and> ledger db' = ledger db \<and>
    transactions db' = transactions db"
proof -
  have "inv_ok (snd (ids', db')) \<and> warehouses (snd (ids', db')) = warehouses db \<and>
      ledger (snd (ids', db')) = ledger db \<and> transactions (snd (ids', db')) = transactions db"
  proof (rule fold_res_invariant [OF assms(1)])
    show "inv_ok (snd (ids, db)) \<and> warehouses (snd (ids, db)) = warehouses db \<and> ledger (snd (ids, db)) = ledger db \<and>
      transactions (snd (ids, db)) = transactions db"
      using assms(2) by simp
  next
    fix m u v
    assume one: "reserve_one m u = Inr v"
      and I: "inv_ok (snd u) \<and> warehouses (snd u) = warehouses db \<and> ledger (snd u) = ledger db \<and>
      transactions (snd u) = transactions db"
    obtain i a j b where u: "u = (i, a)" and v: "v = (j, b)" by (cases u; cases v)
    have k: "wf_balances b \<and> quantities_only a b \<and> (wf_reservations a \<longrightarrow> wf_reservations b)"
      using reserve_one_keeps [of m i a j b] one I by (simp add: u v)
    have r: "wf_reservations a" using I by (simp add: u inv_ok_def)
    show "inv_ok (snd v) \<and> warehouses (snd v) = warehouses db \<and> ledger (snd v) = ledger db \<and>
      transactions (snd v) = transactions db"
      using quantities_keep [of a b] k r I by (simp add: u v)
  qed
  then show ?thesis by simp
qed

lemma pick_all_keeps:
  assumes "fold_res pick_one moves db = Inr db'" and "inv_ok db"
  shows "inv_ok db' \<and> warehouses db' = warehouses db \<and> ledger db' = ledger db \<and>
    transactions db' = transactions db"
proof (rule fold_res_invariant [OF assms(1)])
  show "inv_ok db \<and> warehouses db = warehouses db \<and> ledger db = ledger db \<and>
    transactions db = transactions db" using assms(2) by simp
next
  fix m u v
  assume one: "pick_one m u = Inr v"
    and I: "inv_ok u \<and> warehouses u = warehouses db \<and> ledger u = ledger db \<and> transactions u = transactions db"
  have "wf_reservations u" using I by (simp add: inv_ok_def)
  then have "wf_balances v \<and> wf_reservations v \<and> quantities_only u v"
    using pick_one_keeps [OF one] I by simp
  then show "inv_ok v \<and> warehouses v = warehouses db \<and> ledger v = ledger db \<and> transactions v = transactions db"
    using quantities_keep [of u v] I by simp
qed

lemma consume_all_keeps:
  assumes "fold_res consume_one moves db = Inr db'" and "inv_ok db"
  shows "inv_ok db' \<and> warehouses db' = warehouses db \<and> ledger db' = ledger db \<and>
    transactions db' = transactions db"
proof (rule fold_res_invariant [OF assms(1)])
  show "inv_ok db \<and> warehouses db = warehouses db \<and> ledger db = ledger db \<and>
    transactions db = transactions db" using assms(2) by simp
next
  fix m u v
  assume one: "consume_one m u = Inr v"
    and I: "inv_ok u \<and> warehouses u = warehouses db \<and> ledger u = ledger db \<and> transactions u = transactions db"
  then have "wf_balances u" by simp
  note k = consume_one_keeps [OF one this]
  have "wf_reservations v" using k(3,4) I by (simp add: wf_reservations_def inv_ok_def)
  then show "inv_ok v \<and> warehouses v = warehouses db \<and> ledger v = ledger db \<and> transactions v = transactions db"
    using quantities_keep [OF k(2,1)] I by simp
qed

lemma release_keeps:
  assumes "releaseReservation db rid item qty path = Inr db'" and "inv_ok db"
  shows "inv_ok db' \<and> warehouses db' = warehouses db \<and> ledger db' = ledger db \<and>
    transactions db' = transactions db"
proof (cases "qty = 0")
  case True
  with assms show ?thesis by (simp add: releaseReservation_def)
next
  case False
  then obtain rows where up: "update_reservations db
      (\<lambda>v. inventory_reservation_id v = rid \<and> rv_item_id v = item \<and> rv_consumed_qty v \<ge> qty)
      (release_change qty) = Inr (rows, db')"
    using assms(1) unfolding reservation_updates
    by (auto simp: bind_res_eq_Inr case_prod_eq_Inr split: if_splits)
  have id: "inventory_reservation_id (release_change qty v) = inventory_reservation_id v" for v
    by (simp add: release_change_def)
  have wf: "wf_balances db" "wf_reservations db" using assms(2) by (simp_all add: inv_ok_def ledger_ok_def)
  note k = update_reservations_keeps [OF up id]
  have "wf_balances db'" using k(1) wf(1) by blast
  then show ?thesis using quantities_keep [OF k(3) _ k(2) [OF wf(2)] assms(2)] by blast
qed

interpretation reserving: inventory_operation "\<lambda>moves db. reserveBalances db moves"
  by unfold_locales (auto simp: reserveBalances_def dest!: reserve_all_keeps)

interpretation picking: inventory_operation "\<lambda>moves db. unit_result (pickBalances db moves)"
  by unfold_locales (auto simp: pickBalances_def dest!: pick_all_keeps)

interpretation consuming: inventory_operation "\<lambda>moves db. unit_result (consumeBalances db moves)"
  by unfold_locales (auto simp: consumeBalances_def dest!: consume_all_keeps)

interpretation releasing:
  inventory_operation "\<lambda>(rid, item, qty, path) db. unit_result (releaseReservation db rid item qty path)"
  by unfold_locales (auto dest!: release_keeps)

section \<open>Reachable stores\<close>

text \<open>One committed transaction of the service. A reversal may have read an older store, \<open>seen\<close>,
  before it got its locks.\<close>

inductive inv_step :: "inv_db \<Rightarrow> inv_db \<Rightarrow> bool" where
  posted: "post db input = Inr (r, db') \<Longrightarrow> inv_step db db'"
| reversed: "reverse_between seen db input = Inr (r, db') \<Longrightarrow> inv_step db db'"
| reserved: "reserveBalances db moves = Inr (ids, db') \<Longrightarrow> inv_step db db'"
| picked: "pickBalances db moves = Inr db' \<Longrightarrow> inv_step db db'"
| consumed: "consumeBalances db moves = Inr db' \<Longrightarrow> inv_step db db'"
| released: "releaseReservation db rid item qty path = Inr db' \<Longrightarrow> inv_step db db'"

inductive_cases inv_stepE: "inv_step db db'"

lemma inv_step_keeps:
  assumes "inv_step db db'" and "inv_ok db"
  shows "inv_ok db' \<and> warehouses db' = warehouses db \<and> prefix (ledger db) (ledger db') \<and>
    prefix (transactions db) (transactions db')"
  using assms
proof (cases rule: inv_step.cases)
  case (posted input r)
  with assms(2) posting.keeps posting.master posting.history show ?thesis by blast
next
  case (reversed seen input r)
  then have "(\<lambda>(seen, input) db. reverse_between seen db input) (seen, input) db = Inr (r, db')" by simp
  with assms(2) reversing.keeps reversing.master reversing.history show ?thesis by blast
next
  case (reserved moves ids)
  with assms(2) reserving.keeps reserving.master reserving.history show ?thesis by blast
next
  case (picked moves)
  then have "unit_result (pickBalances db moves) = Inr ((), db')" by simp
  with assms(2) picking.keeps picking.master picking.history show ?thesis by blast
next
  case (consumed moves)
  then have "unit_result (consumeBalances db moves) = Inr ((), db')" by simp
  with assms(2) consuming.keeps consuming.master consuming.history show ?thesis by blast
next
  case (released rid item qty path)
  then have "(\<lambda>(rid, item, qty, path) db. unit_result (releaseReservation db rid item qty path))
      (rid, item, qty, path) db = Inr ((), db')" by simp
  with assms(2) releasing.keeps releasing.master releasing.history show ?thesis by blast
qed

lemma reachable_keeps:
  assumes "inv_step\<^sup>*\<^sup>* db0 db" and "inv_ok db0"
  shows "inv_ok db \<and> warehouses db = warehouses db0 \<and> prefix (ledger db0) (ledger db) \<and>
    prefix (transactions db0) (transactions db)"
  using assms(1)
proof (induction rule: rtranclp_induct)
  case base
  with assms(2) show ?case by simp
next
  case (step db db')
  with inv_step_keeps [OF step(2)] show ?case by (auto intro: prefix_order.trans)
qed

definition empty_store :: "(id \<Rightarrow> OrgAxis option) \<Rightarrow> location_row list \<Rightarrow> (id \<times> id) list \<Rightarrow> (id \<Rightarrow> bool) \<Rightarrow> inv_db" where
  "empty_store ws locs rules neg =
     \<lparr>warehouses = ws, locations = locs, location_items = rules, negative_stock_allowed = neg,
      balances = [], transactions = [], tlines = [], reservations = [], balance_seq = 1,
      transaction_seq = 1, reservation_seq = 1\<rparr>"

lemma empty_store_ok: "inv_ok (empty_store ws locs rules neg)"
  by (simp add: inv_ok_def ledger_ok_def headers_ok_def wf_balances_def wf_reservations_def
      id_column_def on_hand_at_def ledger_def reversal_pairs_def empty_store_def)

section \<open>The lines of a posted transaction\<close>

lemma numbered_fst: "map fst (numbered lines) = map (\<lambda>i. int i + 1) [0..<length lines]"
  by (simp add: numbered_def)

lemma sorted_numbered: "sorted (map fst (numbered lines))"
  by (simp add: numbered_fst sorted_iff_nth_mono)

lemma original_lines_of_post:
  assumes "post db input = Inr (p, db1)" and "\<not> pr_alreadyPosted p" and "inv_ok db"
  shows "map posted_line (original_lines db1 (pr_inventoryTransactionId p) (pi_businessDate input)) =
    pi_lines input"
proof -
  note r = post_fresh_result [OF assms]
  obtain rows where rows: "tlines db1 = tlines db @ rows" "map posted_line rows = pi_lines input"
    "map line_key rows = map (\<lambda>p'. (pr_inventoryTransactionId p, pi_businessDate input, fst p'))
       (numbered (pi_lines input))" using r(6) by blast
  let ?tid = "pr_inventoryTransactionId p" and ?date = "pi_businessDate input"
  have old: "filter (\<lambda>r. tl_transaction_id r = ?tid \<and> tl_business_date r = ?date) (tlines db) = []"
    using assms(3) by (auto simp: r(4) filter_empty_conv inv_ok_def headers_ok_def list_all_iff)
  have "tl_transaction_id r = ?tid \<and> tl_business_date r = ?date" if "r \<in> set rows" for r
  proof -
    have "line_key r \<in> set (map (\<lambda>p'. (?tid, ?date, fst p')) (numbered (pi_lines input)))"
      using that by (metis rows(3) image_eqI set_map)
    then show ?thesis by (auto simp: line_key_def)
  qed
  then have new: "filter (\<lambda>r. tl_transaction_id r = ?tid \<and> tl_business_date r = ?date) rows = rows"
    by (simp add: filter_id_conv)
  have "map tl_line_no rows = map (\<lambda>k. snd (snd k)) (map line_key rows)"
    by (simp add: line_key_def)
  then have "sorted (map tl_line_no rows)"
    unfolding rows(3) using sorted_numbered [of "pi_lines input"] by (simp add: comp_def)
  then have "sort_key tl_line_no rows = rows" by (simp add: sort_key_id_if_sorted)
  then show ?thesis by (simp add: original_lines_def rows(1) old new rows(2))
qed

lemma post_on_hand:
  assumes "post db input = Inr (p, db1)" and "\<not> pr_alreadyPosted p" and "inv_ok db"
  shows "on_hand_at db1 k = on_hand_at db k + net (warehouses db) (pi_lines input) k"
  using post_fresh_result [OF assms] assms(3) by (simp add: inv_ok_def ledger_ok_def net_append)

lemma reverse_on_hand:
  assumes "reverse_between seen db input = Inr (r, db1)" and "\<not> rr_alreadyReversed r" and "inv_ok db"
  shows "on_hand_at db1 k = on_hand_at db k - net (warehouses db) (map posted_line (original_rows seen input)) k"
proof -
  have "net (warehouses db) (map reversedLine rs) k = - net (warehouses db) (map posted_line rs) k" for rs
    using net_swap [of "warehouses db" "map posted_line rs" k]
    by (simp add: comp_def reversed_is_swap [symmetric])
  then show ?thesis
    using reverse_fresh_result [OF assms] assms(3) by (simp add: inv_ok_def ledger_ok_def net_append)
qed

section \<open>Totals\<close>

definition total_on_hand :: "inv_db \<Rightarrow> id \<Rightarrow> id \<Rightarrow> decimal" where
  "total_on_hand db item lot =
     sum_list (map on_hand_qty
       (filter (\<lambda>r. itemId (dim r) = item \<and> coalesce0 (lotId (dim r)) = lot) (balances db)))"

definition counts_for :: "id \<Rightarrow> id \<Rightarrow> BalanceDimension \<Rightarrow> bool" where
  "counts_for item lot k \<longleftrightarrow> itemId k = item \<and> coalesce0 (lotId k) = lot"

lemma counts_for_key [simp]: "counts_for item lot (dim_key d) = counts_for item lot d"
  by (simp add: counts_for_def dim_key_def coalesce0_def)

lemma total_as_sum:
  assumes "wf_balances db" and "finite K" and "row_key ` set (balances db) \<subseteq> K"
    and "\<forall>k \<in> K. dim_key k = k"
  shows "total_on_hand db item lot = (\<Sum>k\<in>K. if counts_for item lot k then on_hand_at db k else 0)"
proof -
  have inj: "inj_on row_key (set (balances db))" and dist: "distinct (balances db)"
    using assms(1) by (auto simp: wf_balances_def distinct_map)
  let ?g = "\<lambda>k. if counts_for item lot k then on_hand_at db k else 0"
  have "on_hand_at db k = 0" if "k \<in> K - row_key ` set (balances db)" for k
  proof -
    have "filter (\<lambda>r. row_key r = dim_key k) (balances db) = []"
      using that assms(4) by (auto simp: filter_empty_conv)
    then show ?thesis by (simp add: on_hand_at_def)
  qed
  then have "sum ?g K = sum ?g (row_key ` set (balances db))"
    using assms(2,3) by (intro sum.mono_neutral_right) auto
  also have "\<dots> = (\<Sum>r\<in>set (balances db). ?g (row_key r))"
    using inj by (simp add: sum.reindex)
  also have "\<dots> = (\<Sum>r\<in>set (balances db). if counts_for item lot (dim r) then on_hand_qty r else 0)"
  proof (rule sum.cong [OF refl])
    fix r
    assume r: "r \<in> set (balances db)"
    then have "find_balance db (dim r) \<noteq> None" by (auto simp: find_balance_def find_None_iff)
    then obtain r' where r': "find_balance db (dim r) = Some r'" by blast
    with find_balance_Some [OF r'] r inj have "r' = r" by (auto simp: inj_on_def)
    with r' have "on_hand_at db (row_key r) = on_hand_qty r"
      using on_hand_at_find [OF assms(1), of "dim r"] on_hand_at_key [of "row_key r" "dim r" db] by simp
    then show "?g (row_key r) = (if counts_for item lot (dim r) then on_hand_qty r else 0)" by simp
  qed
  also have "\<dots> = sum_list (map (\<lambda>r. if counts_for item lot (dim r) then on_hand_qty r else 0) (balances db))"
    using dist by (simp add: sum_list_distinct_conv_sum_set)
  also have "\<dots> = total_on_hand db item lot"
    by (simp add: total_on_hand_def counts_for_def sum_list_map_filter')
  finally show ?thesis ..
qed

definition end_keys :: "(id \<Rightarrow> OrgAxis option) \<Rightarrow> PostingLine \<Rightarrow> BalanceDimension set" where
  "end_keys ws line = {dim_key k | k. touches ws line (pl_from line) k \<or> touches ws line (pl_to line) k}"

lemma touches_dim:
  assumes "touches ws line endpoint k"
  obtains d where "\<forall>j. touches ws line endpoint j \<longleftrightarrow> dim_key j = d" and "dim_key d = d"
    and "counts_for item lot d \<longleftrightarrow> pl_itemId line = item \<and> coalesce0 (pl_lotId line) = lot"
proof -
  from assms obtain e org where e: "endpoint = Some e" "ws (ep_warehouseId e) = Some org"
    by (auto simp: touches_def split: option.splits)
  show ?thesis
    by (rule that [of "dim_key (endpoint_dimension org line e)"])
      (auto simp: touches_def e, auto simp: counts_for_def endpoint_dimension_def)
qed

lemma end_ok_touches: "end_ok ws (Some e) \<Longrightarrow> \<exists>k. touches ws line (Some e) k"
  by (auto simp: end_ok_def touches_def)

lemma finite_end_keys: "finite (end_keys ws line)"
proof -
  have "finite {dim_key k | k. touches ws line endpoint k}" for endpoint
  proof (cases "\<exists>k. touches ws line endpoint k")
    case True
    then obtain k where "touches ws line endpoint k" ..
    then obtain d where "\<forall>j. touches ws line endpoint j \<longleftrightarrow> dim_key j = d" by (rule touches_dim)
    then have "{dim_key k | k. touches ws line endpoint k} \<subseteq> {d}" by auto
    then show ?thesis by (rule finite_subset) simp
  qed simp
  then have "finite ({dim_key k | k. touches ws line (pl_from line) k} \<union> {dim_key k | k. touches ws line (pl_to line) k})"
    by simp
  moreover have "end_keys ws line =
      {dim_key k | k. touches ws line (pl_from line) k} \<union> {dim_key k | k. touches ws line (pl_to line) k}"
    by (auto simp: end_keys_def)
  ultimately show ?thesis by simp
qed

lemma end_sum:
  assumes "finite K" and "\<forall>k \<in> K. dim_key k = k"
    and "{dim_key k | k. touches ws line endpoint k} \<subseteq> K" and "endpoint = Some e" and "end_ok ws endpoint"
  shows "(\<Sum>k\<in>K. if counts_for item lot k \<and> touches ws line endpoint k then q else 0) =
    (if pl_itemId line = item \<and> coalesce0 (pl_lotId line) = lot then q else (0 :: decimal))"
proof -
  obtain k0 where "touches ws line endpoint k0" using assms(4,5) end_ok_touches by blast
  then obtain d where d: "\<forall>j. touches ws line endpoint j \<longleftrightarrow> dim_key j = d" "dim_key d = d"
    "counts_for item lot d \<longleftrightarrow> pl_itemId line = item \<and> coalesce0 (pl_lotId line) = lot"
    by (rule touches_dim)
  have "touches ws line endpoint d" using d(1,2) by simp
  then have "dim_key d \<in> {dim_key k | k. touches ws line endpoint k}" by blast
  with assms(3) d(2) have "d \<in> K" by auto
  have "(\<Sum>k\<in>K. if counts_for item lot k \<and> touches ws line endpoint k then q else 0) =
      (\<Sum>k\<in>K. if k = d then (if counts_for item lot d then q else 0) else 0)"
    by (rule sum.cong [OF refl]) (use assms(2) d(1) in auto)
  with \<open>d \<in> K\<close> assms(1) d(3) show ?thesis by simp
qed

text \<open>A line with both ends moves nothing in or out.\<close>

lemma transfer_sum:
  assumes "finite K" and "\<forall>k \<in> K. dim_key k = k" and "end_keys ws line \<subseteq> K"
    and "line_ok ws line" and "pl_from line \<noteq> None" and "pl_to line \<noteq> None"
  shows "(\<Sum>k\<in>K. if counts_for item lot k then line_delta ws line k else 0) = 0"
proof -
  let ?sum = "\<lambda>endpoint. \<Sum>k\<in>K. if counts_for item lot k \<and> touches ws line endpoint k then pl_qty line else 0"
  have "(\<Sum>k\<in>K. if counts_for item lot k then line_delta ws line k else 0) =
      (\<Sum>k\<in>K. (if counts_for item lot k \<and> touches ws line (pl_to line) k then pl_qty line else 0) -
               (if counts_for item lot k \<and> touches ws line (pl_from line) k then pl_qty line else 0))"
    by (rule sum.cong [OF refl]) (simp add: line_delta_def)
  also have "\<dots> = ?sum (pl_to line) - ?sum (pl_from line)" by (simp add: sum_subtractf)
  also have "?sum (pl_to line) = ?sum (pl_from line)"
  proof -
    obtain e e' where e: "pl_to line = Some e" "pl_from line = Some e'" using assms(5,6) by blast
    have ok: "end_ok ws (pl_to line)" "end_ok ws (pl_from line)" using assms(4) by (simp_all add: line_ok_def)
    have K: "{dim_key k | k. touches ws line (pl_to line) k} \<subseteq> K"
      "{dim_key k | k. touches ws line (pl_from line) k} \<subseteq> K"
      using assms(3) by (auto simp: end_keys_def)
    show ?thesis
      by (rule trans [OF end_sum [OF assms(1,2) K(1) e(1) ok(1)]
            end_sum [OF assms(1,2) K(2) e(2) ok(2), symmetric]])
  qed
  finally show ?thesis by simp
qed

lemma net_sum:
  "(\<Sum>k\<in>K. if counts_for item lot k then net ws lines k else 0) =
   sum_list (map (\<lambda>line. \<Sum>k\<in>K. if counts_for item lot k then line_delta ws line k else 0) lines)"
proof (induction lines)
  case Nil
  then show ?case by (simp cong: if_cong)
next
  case (Cons line lines)
  have "(\<Sum>k\<in>K. if counts_for item lot k then net ws (line # lines) k else 0) =
      (\<Sum>k\<in>K. (if counts_for item lot k then line_delta ws line k else 0) +
               (if counts_for item lot k then net ws lines k else 0))"
    by (rule sum.cong [OF refl]) (simp add: net_def)
  with Cons.IH show ?case by (simp add: sum.distrib)
qed

section \<open>Properties\<close>


definition example_warehouses :: "id \<Rightarrow> OrgAxis option" where
  "example_warehouses w = (if w = 5 \<or> w = 6 then Some \<lparr>org_legalEntityId = 1, org_businessUnitId = 1,
     org_plantId = 1\<rparr> else None)"

definition example_store :: inv_db where
  "example_store = empty_store example_warehouses [] [] (\<lambda>_. False)"

definition example_end :: "id \<Rightarrow> PostingEndpoint" where
  "example_end loc = \<lparr>ep_warehouseId = 5, ep_locationId = loc, ep_qualityStatusCode = ''NORMAL'',
     ep_inventoryStatusCode = ''AVAILABLE''\<rparr>"

definition example_line :: "PostingEndpoint option \<Rightarrow> PostingEndpoint option \<Rightarrow> decimal \<Rightarrow> PostingLine" where
  "example_line src dst q = \<lparr>pl_itemId = 3, pl_lotId = Some 9, pl_qty = q, pl_uomId = 1, pl_from = src,
     pl_to = dst, pl_ownershipTypeCode = ''OWN'', pl_ownerPartnerId = None, pl_handlingUnitId = None\<rparr>"

definition example_input :: "string \<Rightarrow> PostingLine list \<Rightarrow> PostingInput" where
  "example_input key lines = \<lparr>pi_businessDate = ''2026-10-29'', pi_occurredAt = 100,
     pi_transactionTypeCode = ''RECEIPT'', pi_transactionNo = key, pi_statusCode = ''POSTED'',
     pi_plantId = 1, pi_sourceDocumentTypeCode = ''GOODS_RECEIPT'', pi_sourceDocumentId = 1,
     pi_idempotencyKey = key, pi_createdBy = None, pi_lines = lines\<rparr>"

definition example_receipt :: PostingInput where
  "example_receipt = example_input ''R1'' [example_line None (Some (example_end 7)) 10]"

definition example_transfer :: PostingInput where
  "example_transfer = example_input ''T1'' [example_line (Some (example_end 7)) (Some (example_end 8)) 4]"

definition posted_store :: "inv_db \<Rightarrow> PostingInput \<Rightarrow> inv_db" where
  "posted_store db input = (case post db input of Inr (p, db') \<Rightarrow> db' | Inl e \<Rightarrow> db)"

definition example_undo :: "id \<Rightarrow> ReverseInput" where
  "example_undo tid = \<lparr>ri_inventoryTransactionId = tid, ri_businessDate = ''2026-10-29'',
     ri_occurredAt = 200, ri_createdBy = None\<rparr>"

lemma posted_storeI: "map_sum id fst (post db input) = Inr p \<Longrightarrow> post db input = Inr (p, posted_store db input)"
  by (cases "post db input") (auto simp: posted_store_def)

definition fresh_result :: "id \<Rightarrow> PostingResult" where
  "fresh_result tid = \<lparr>pr_inventoryTransactionId = tid, pr_businessDate = ''2026-10-29'', pr_alreadyPosted = False\<rparr>"

abbreviation example_received :: inv_db where
  "example_received \<equiv> posted_store example_store example_receipt"

abbreviation example_moved :: inv_db where
  "example_moved \<equiv> posted_store example_received example_transfer"

lemma example_posts:
  "post example_store example_receipt = Inr (fresh_result 1, example_received)"
  "post example_received example_transfer = Inr (fresh_result 2, example_moved)"
  by (rule posted_storeI, code_simp)+

lemma example_ok: "inv_ok example_store" "inv_ok example_received" "inv_ok example_moved"
proof -
  show 1: "inv_ok example_store" by (simp add: example_store_def empty_store_ok)
  show 2: "inv_ok example_received" by (rule post_keeps [OF example_posts(1) 1])
  show "inv_ok example_moved" by (rule post_keeps [OF example_posts(2) 2])
qed


text \<open>C5. Posting is idempotent. Once a posting with an idempotency key and a business date has
  committed, any later posting with the same key and date, whatever its lines, changes nothing and
  returns the same transaction, marked \<open>alreadyPosted\<close>.\<close>
theorem post_idempotent:
  assumes "inv_ok db" and "post db input = Inr (p, db1)" and "inv_step\<^sup>*\<^sup>* db1 db2"
    and "pi_idempotencyKey again = pi_idempotencyKey input"
    and "pi_businessDate again = pi_businessDate input"
  shows "post db2 again = Inr (p\<lparr>pr_alreadyPosted := True\<rparr>, db2)"
proof -
  let ?key = "pi_idempotencyKey input" and ?date = "pi_businessDate input"
  have pre: "prefix (transactions db1) (transactions db2)"
    using reachable_keeps [OF assms(3) post_keeps [OF assms(2,1)]] by simp
  from assms(2) have "\<exists>t. find_posted db1 ?key ?date = Some t \<and>
      p\<lparr>pr_alreadyPosted := True\<rparr> = \<lparr>pr_inventoryTransactionId = inventory_transaction_id t,
        pr_businessDate = ?date, pr_alreadyPosted = True\<rparr>"
  proof (cases rule: post_cases)
    case (fresh tid db')
    then have new: "\<not> pr_alreadyPosted p" by simp
    note r = post_fresh_result [OF assms(2) new assms(1)]
    from r(7) fresh(6) show ?thesis
      by (simp add: find_posted_def r(3) find_append posting_header_def)
  qed simp
  with pre show ?thesis
    by (auto simp: post_def assms(4,5) find_posted_def find_append elim!: prefixE)
qed

theorem post_idempotent_witness:
  "post example_moved (example_input ''R1'' []) = Inr ((fresh_result 1)\<lparr>pr_alreadyPosted := True\<rparr>, example_moved)"
proof (rule post_idempotent [OF example_ok(1) example_posts(1)])
  show "inv_step\<^sup>*\<^sup>* example_received example_moved"
    by (rule r_into_rtranclp) (rule inv_step.posted [OF example_posts(2)])
qed (simp_all add: example_receipt_def example_input_def)


definition reversed_store :: "inv_db \<Rightarrow> ReverseInput \<Rightarrow> inv_db" where
  "reversed_store db input = (case reverse db input of Inr (r, db') \<Rightarrow> db' | Inl e \<Rightarrow> db)"

lemma reversed_storeI:
  "map_sum id fst (reverse db input) = Inr r \<Longrightarrow> reverse db input = Inr (r, reversed_store db input)"
  by (cases "reverse db input") (auto simp: reversed_store_def)

definition example_reversal :: ReverseResult where
  "example_reversal = \<lparr>rr_inventoryTransactionId = 3, rr_transactionNo = ''T1-R'',
     rr_businessDate = ''2026-10-29'', rr_alreadyReversed = False\<rparr>"

lemma example_reverse:
  "reverse example_moved (example_undo 2) = Inr (example_reversal, reversed_store example_moved (example_undo 2))"
  by (rule reversed_storeI) code_simp


text \<open>C2. Reversing never dies on the stock: \<open>assertReversible\<close>, which adds up everything that leaves
  a dimension, is enough for every statement after it. Even when other transactions committed between
  the first read and the locks, a reversal fails only because the original does not exist, because the
  stock is not available (the 400 \<open>NEGATIVE_BALANCE\<close>), or because the number or the key of the new
  header is taken; no check, trigger or key of a line or a balance can fire.\<close>
theorem reverse_fails_only_for:
  assumes "inv_ok seen" and "inv_step\<^sup>*\<^sup>* seen db" and "reverse_between seen db input = Inl e"
  shows "(e = DbError P2025 \<and>
            find_original seen (ri_inventoryTransactionId input) (ri_businessDate input) = None) \<or>
    e = reversal_negativeBalance \<or> (\<exists>cols. e = DbError (P2002 cols))"
proof (rule reverse_error [OF assms(3,1)])
  show "inv_ok db" "warehouses seen = warehouses db" "set (transactions seen) \<subseteq> set (transactions db)"
    using reachable_keeps [OF assms(2,1)] by (auto dest: set_mono_prefix)
qed

theorem reverse_fails_only_for_witness:
  "reverse_between example_received example_moved (example_undo 1) = Inl reversal_negativeBalance"
proof -
  have "map_sum id fst (reverse_between example_received example_moved (example_undo 1)) =
      Inl reversal_negativeBalance" by code_simp
  then obtain e where e: "reverse_between example_received example_moved (example_undo 1) = Inl e"
    and eq: "e = reversal_negativeBalance"
    by (cases "reverse_between example_received example_moved (example_undo 1)") simp_all
  have "inv_step\<^sup>*\<^sup>* example_received example_moved"
    by (rule r_into_rtranclp) (rule inv_step.posted [OF example_posts(2)])
  from reverse_fails_only_for [OF example_ok(2) this e] e eq show ?thesis by simp
qed

text \<open>C4. A transaction is reversed once. After one reversal of a transaction committed, every other
  reversal of it, including one that had read the original before the first one committed and only
  then got its locks, returns the same reversal, marked \<open>alreadyReversed\<close>, and writes nothing.\<close>
theorem reversed_once:
  assumes "inv_ok db" and "reverse db input = Inr (r, db1)" and "inv_step\<^sup>*\<^sup>* db1 db2"
    and "inv_ok seen" and "inv_step\<^sup>*\<^sup>* seen db2"
    and "find_original seen (ri_inventoryTransactionId input) (ri_businessDate input) \<noteq> None"
    and "ri_inventoryTransactionId again = ri_inventoryTransactionId input"
    and "ri_businessDate again = ri_businessDate input"
  shows "reverse_between seen db2 again = Inr (r\<lparr>rr_alreadyReversed := True\<rparr>, db2)"
proof -
  let ?tid = "ri_inventoryTransactionId input" and ?date = "ri_businessDate input"
  have rev: "reverse_between db db input = Inr (r, db1)" using assms(2) by (simp add: reverse_def)
  have ok1: "inv_ok db1" by (rule reverse_keeps [OF rev assms(1)])
  have first: "findReversal db1 ?tid ?date = Some (r\<lparr>rr_alreadyReversed := True\<rparr>)"
    using rev
  proof (cases rule: reverse_cases)
    case (fresh original keys tid db')
    then have new: "\<not> rr_alreadyReversed r" by simp
    from reverse_fresh_result(5,6) [OF rev new assms(1)] show ?thesis
      by (auto simp: findReversal_def find_append reversal_header_def)
  qed (auto simp: findReversal_def)
  have later: "findReversal b ?tid ?date = Some x"
    if "prefix (transactions a) (transactions b)" and "findReversal a ?tid ?date = Some x" for a b x
    using that by (auto simp: findReversal_def find_append elim!: prefixE)
  have db2: "findReversal db2 ?tid ?date = Some (r\<lparr>rr_alreadyReversed := True\<rparr>)"
    using later [OF _ first] reachable_keeps [OF assms(3) ok1] by simp
  note seen = reachable_keeps [OF assms(5,4)]
  show ?thesis
  proof (cases "findReversal seen ?tid ?date")
    case (Some x)
    with later [of seen db2] seen db2 have "x = r\<lparr>rr_alreadyReversed := True\<rparr>" by simp
    with Some show ?thesis by (simp add: reverse_between_def Let_def assms(7,8))
  next
    case None
    obtain keys where "balanceKeys seen (map reversedLine (original_lines seen ?tid ?date)) = Inr keys"
      using balanceKeys_total [OF original_lines_ok(1) [OF assms(4)]] by blast
    with None assms(6) db2 show ?thesis
      by (auto simp: reverse_between_def Let_def assms(7,8))
  qed
qed

theorem reversed_once_witness:
  "reverse_between example_moved (reversed_store example_moved (example_undo 2)) (example_undo 2) =
   Inr (example_reversal\<lparr>rr_alreadyReversed := True\<rparr>, reversed_store example_moved (example_undo 2))"
proof (rule reversed_once [OF example_ok(3) example_reverse _ example_ok(3)])
  have "reverse_between example_moved example_moved (example_undo 2) =
      Inr (example_reversal, reversed_store example_moved (example_undo 2))"
    using example_reverse by (simp add: reverse_def)
  then show "inv_step\<^sup>*\<^sup>* example_moved (reversed_store example_moved (example_undo 2))"
    by (intro r_into_rtranclp inv_step.reversed)
  show "find_original example_moved (ri_inventoryTransactionId (example_undo 2))
      (ri_businessDate (example_undo 2)) \<noteq> None" by code_simp
qed simp_all



end
