(* ===== verification/Js_Containers.thy ===== *)
theory Js_Containers
  imports Prelude
begin

text \<open>
  What the components use of the JavaScript library: \<open>Array.prototype.sort\<close> with a comparator
  (\<open>js_sort\<close>, which is stable; the locale \<open>comparison\<close> is what a comparator must satisfy for the
  result to be independent of the algorithm), \<open>Map\<close> as an association list in insertion order
  (\<open>map_of\<close> is \<open>get\<close>, \<open>AList.update\<close> is \<open>set\<close>), and \<open>[...new Set(xs)]\<close> (\<open>js_set\<close>).
\<close>

section \<open>Sorting\<close>

fun insort_by :: "('a \<Rightarrow> 'a \<Rightarrow> bool) \<Rightarrow> 'a \<Rightarrow> 'a list \<Rightarrow> 'a list" where
  "insort_by le x [] = [x]"
| "insort_by le x (y # ys) = (if le x y then x # y # ys else y # insort_by le x ys)"

definition js_sort :: "('a \<Rightarrow> 'a \<Rightarrow> bool) \<Rightarrow> 'a list \<Rightarrow> 'a list" where
  "js_sort le xs = foldr (insort_by le) xs []"

lemma mset_insort_by [simp]: "mset (insort_by le x ys) = add_mset x (mset ys)"
  by (induction ys) auto

lemma mset_js_sort [simp]: "mset (js_sort le xs) = mset xs"
  unfolding js_sort_def by (induction xs) auto

lemma set_js_sort [simp]: "set (js_sort le xs) = set xs"
  using mset_js_sort by (metis set_mset_mset)

lemma length_js_sort [simp]: "length (js_sort le xs) = length xs"
  using mset_js_sort by (metis size_mset)

lemma distinct_js_sort [simp]: "distinct (js_sort le xs) = distinct xs"
  using mset_js_sort by (metis distinct_count_atmost_1 set_mset_mset)

lemma js_sort_simps [simp]: "js_sort le [] = []" "js_sort le (x # xs) = insort_by le x (js_sort le xs)"
  by (simp_all add: js_sort_def)

locale comparison =
  fixes le :: "'a \<Rightarrow> 'a \<Rightarrow> bool"
  assumes total: "le x y \<or> le y x"
    and transitive: "le x y \<Longrightarrow> le y z \<Longrightarrow> le x z"
begin

lemma reflexive: "le x x"
  using total by blast

lemma sorted_insort: "sorted_wrt le ys \<Longrightarrow> sorted_wrt le (insort_by le x ys)"
proof (induction ys)
  case Nil
  then show ?case by simp
next
  case (Cons y ys)
  show ?case
  proof (cases "le x y")
    case True
    with Cons.prems show ?thesis by (auto intro: transitive)
  next
    case False
    then have "le y x" using total by blast
    moreover have "set (insort_by le x ys) = insert x (set ys)"
      by (metis mset_insort_by set_mset_add_mset_insert set_mset_mset)
    ultimately show ?thesis using Cons False by auto
  qed
qed

lemma sorted_js_sort: "sorted_wrt le (js_sort le xs)"
  by (induction xs) (auto intro: sorted_insort)

text \<open>Stability: elements that compare equal to each other keep their order.\<close>

lemma stable_insort:
  assumes "\<And>x y. P x \<Longrightarrow> P y \<Longrightarrow> le x y"
  shows "filter P (insort_by le x ys) = filter P (x # ys)"
  by (induction ys) (use assms in auto)

lemma stable_js_sort:
  assumes "\<And>x y. P x \<Longrightarrow> P y \<Longrightarrow> le x y"
  shows "filter P (js_sort le xs) = filter P xs"
  by (induction xs) (simp_all add: stable_insort [OF assms])

lemma head_is_least: "js_sort le xs = y # ys \<Longrightarrow> x \<in> set xs \<Longrightarrow> le y x"
proof -
  assume s: "js_sort le xs = y # ys" and "x \<in> set xs"
  then have "x \<in> insert y (set ys)" using set_js_sort [of le xs] by simp
  moreover have "\<forall>z \<in> set ys. le y z" using sorted_js_sort [of xs] s by simp
  ultimately show "le y x" using reflexive by blast
qed

end

text \<open>A comparator function returns a number; it orders by "not positive".\<close>

definition by_number :: "('a \<Rightarrow> 'a \<Rightarrow> int) \<Rightarrow> 'a \<Rightarrow> 'a \<Rightarrow> bool" where
  "by_number cmp a b \<longleftrightarrow> cmp a b \<le> 0"

text \<open>\<open>a || b\<close> on numbers: the first that is not zero.\<close>

definition or_else :: "int \<Rightarrow> int \<Rightarrow> int" where
  "or_else a b = (if a \<noteq> 0 then a else b)"

text \<open>A lexicographic chain of comparators is a comparator.\<close>

locale number_comparison =
  fixes cmp :: "'a \<Rightarrow> 'a \<Rightarrow> int"
  assumes antisymmetric: "sgn (cmp b a) = - sgn (cmp a b)"
    and trans_le: "cmp a b \<le> 0 \<Longrightarrow> cmp b c \<le> 0 \<Longrightarrow> cmp a c \<le> 0"
begin

lemma flip: "cmp a b \<le> 0 \<longleftrightarrow> 0 \<le> cmp b a" "cmp a b < 0 \<longleftrightarrow> 0 < cmp b a" "cmp a b = 0 \<longleftrightarrow> cmp b a = 0"
proof -
  have "sgn (cmp a b) = - sgn (cmp b a)" by (rule antisymmetric)
  then show "cmp a b \<le> 0 \<longleftrightarrow> 0 \<le> cmp b a" "cmp a b < 0 \<longleftrightarrow> 0 < cmp b a" "cmp a b = 0 \<longleftrightarrow> cmp b a = 0"
    by (auto simp: sgn_if split: if_splits)
qed

lemma trans_less1: "cmp a b < 0 \<Longrightarrow> cmp b c \<le> 0 \<Longrightarrow> cmp a c < 0"
  using trans_le [of b c a] flip by (metis less_imp_le not_less)

lemma trans_less2: "cmp a b \<le> 0 \<Longrightarrow> cmp b c < 0 \<Longrightarrow> cmp a c < 0"
  using trans_le [of c a b] flip by (metis less_imp_le not_less)

lemma by_number_comparison: "comparison (by_number cmp)"
proof
  fix x y z
  show "by_number cmp x y \<or> by_number cmp y x" using flip(1) [of x y] by (auto simp: by_number_def)
  show "by_number cmp x y \<Longrightarrow> by_number cmp y z \<Longrightarrow> by_number cmp x z"
    unfolding by_number_def by (rule trans_le)
qed

end

lemma or_else_comparison:
  assumes "number_comparison f" and "number_comparison g"
  shows "number_comparison (\<lambda>a b. or_else (f a b) (g a b))"
proof -
  note f = number_comparison.flip [OF assms(1)] number_comparison.trans_le [OF assms(1)]
    number_comparison.trans_less1 [OF assms(1)] number_comparison.trans_less2 [OF assms(1)]
  show ?thesis
  proof
    fix a b
    show "sgn (or_else (f b a) (g b a)) = - sgn (or_else (f a b) (g a b))"
      using number_comparison.antisymmetric [OF assms(1), of b a]
        number_comparison.antisymmetric [OF assms(2), of b a] f(3) [of a b]
      by (auto simp: or_else_def)
  next
    fix a b c
    assume 1: "or_else (f a b) (g a b) \<le> 0" and 2: "or_else (f b c) (g b c) \<le> 0"
    then have "f a b \<le> 0" "f b c \<le> 0" by (auto simp: or_else_def split: if_splits)
    then have le: "f a c \<le> 0" by (rule f(4))
    show "or_else (f a c) (g a c) \<le> 0"
    proof (cases "f a c = 0")
      case True
      then have "\<not> f a b < 0" "\<not> f b c < 0"
        using f(5) [of a b c] f(6) [of a b c] \<open>f a b \<le> 0\<close> \<open>f b c \<le> 0\<close> by (metis less_irrefl)+
      with \<open>f a b \<le> 0\<close> \<open>f b c \<le> 0\<close> have "f a b = 0" "f b c = 0" by linarith+
      with 1 2 True show ?thesis
        using number_comparison.trans_le [OF assms(2), of a b c] by (simp add: or_else_def)
    next
      case False
      with le show ?thesis by (simp add: or_else_def)
    qed
  qed
qed

lemma difference_comparison: "number_comparison (\<lambda>a b. key a - key b :: int)"
  by unfold_locales (auto simp: sgn_if)

section \<open>Sets\<close>

definition js_set :: "'a list \<Rightarrow> 'a list" where
  "js_set xs = rev (remdups (rev xs))"

lemma set_js_set [simp]: "set (js_set xs) = set xs" and distinct_js_set [simp]: "distinct (js_set xs)"
  by (simp_all add: js_set_def)

section \<open>Maps of lists\<close>

text \<open>\<open>const xs = m.get(k) ?? []; xs.push(x); m.set(k, xs)\<close>.\<close>

definition push :: "'k \<Rightarrow> 'a \<Rightarrow> ('k \<times> 'a list) list \<Rightarrow> ('k \<times> 'a list) list" where
  "push k x m = AList.update k ((case map_of m k of None \<Rightarrow> [] | Some xs \<Rightarrow> xs) @ [x]) m"

text \<open>The sum of a weight over every element of such a map.\<close>

definition weight :: "('k \<Rightarrow> 'a \<Rightarrow> decimal) \<Rightarrow> ('k \<times> 'a list) list \<Rightarrow> decimal" where
  "weight f m = sum_list (map (\<lambda>(k, xs). sum_list (map (f k) xs)) m)"

lemma weight_push: "weight f (push k x m) = weight f m + f k x"
proof -
  have "weight f (AList.update k ((case map_of m k of None \<Rightarrow> [] | Some xs \<Rightarrow> xs) @ [x]) m) = weight f m + f k x"
    by (induction m) (auto simp: weight_def)
  then show ?thesis by (simp add: push_def)
qed

lemma weight_mset: "mset m = mset m' \<Longrightarrow> weight f m = weight f m'"
proof -
  let ?g = "\<lambda>(k, xs). sum_list (map (f k) xs)"
  have w: "weight f n = sum_mset (image_mset ?g (mset n))" for n
    unfolding weight_def by (simp only: mset_map [symmetric] sum_mset_sum_list)
  show "mset m = mset m' \<Longrightarrow> weight f m = weight f m'" by (simp add: w)
qed

text \<open>\<open>m.set(k, (m.get(k) ?? 0).plus(q))\<close>.\<close>

definition add_to :: "'k \<Rightarrow> decimal \<Rightarrow> ('k \<times> decimal) list \<Rightarrow> ('k \<times> decimal) list" where
  "add_to k q m = AList.update k ((case map_of m k of None \<Rightarrow> 0 | Some s \<Rightarrow> s) + q) m"

lemma map_of_add_to:
  "map_of (add_to k q m) j =
     (if j = k then Some ((case map_of m k of None \<Rightarrow> 0 | Some s \<Rightarrow> s) + q) else map_of m j)"
  by (simp add: add_to_def update_conv)

lemma distinct_add_to: "distinct (map fst m) \<Longrightarrow> distinct (map fst (add_to k q m))"
  by (simp add: add_to_def distinct_update)

text \<open>\<open>m.get(k) ?? 0\<close>.\<close>

definition get_or_zero :: "('k \<times> decimal) list \<Rightarrow> 'k \<Rightarrow> decimal" where
  "get_or_zero m k = (case map_of m k of None \<Rightarrow> 0 | Some q \<Rightarrow> q)"

lemma get_add_to: "get_or_zero (add_to k q m) j = get_or_zero m j + (if j = k then q else 0)"
  by (simp add: get_or_zero_def map_of_add_to)

text \<open>A loop that sums by key.\<close>

lemma get_sum_by:
  "get_or_zero (fold (\<lambda>x. add_to (key x) (val x)) xs m) k =
     get_or_zero m k + sum_list (map val (filter (\<lambda>x. key x = k) xs))"
  by (induction xs arbitrary: m) (auto simp: get_add_to)

lemma keys_add_to: "fst ` set (add_to k q m) = insert k (fst ` set m)"
  by (simp add: add_to_def dom_update)

lemma keys_sum_by: "fst ` set (fold (\<lambda>x. add_to (key x) (val x)) xs m) = key ` set xs \<union> fst ` set m"
  by (induction xs arbitrary: m) (auto simp: keys_add_to)

lemma distinct_sum_by:
  "distinct (map fst m) \<Longrightarrow> distinct (map fst (fold (\<lambda>x. add_to (key x) (val x)) xs m))"
  by (induction xs arbitrary: m) (auto simp: distinct_add_to)

lemma sum_list_map_mset: "mset xs = mset ys \<Longrightarrow> sum_list (map f xs) = (sum_list (map f ys) :: decimal)"
  by (metis mset_map sum_mset_sum_list)

end
