(* ===== verification/Picking_Allocation.thy ===== *)
theory Picking_Allocation
  imports Js_Containers Inventory_Balance
begin

text \<open>
  \<open>src/core/picking\<close>: \<open>allocatePicking\<close> of \<open>allocation.ts\<close>, which turns the demands of a material
  issue request into picking orders, and the reads around it from \<open>picking-generation.ts\<close>. The slots of
  the source are objects shared between the pool and its sorted copy; here a slot is an index into the
  candidates and the remaining quantities are a list updated at that index.
\<close>

section \<open>Types\<close>

record PickingDemand =
  pd_lineNo :: int
  pd_itemId :: id
  pd_uomId :: id
  pd_qty :: decimal

record LotKey =
  lot_expiryDate :: "int option"
  lot_createdAt :: int
  lot_lotId :: id
  lot_locationId :: id

record StockCandidate = LotKey +
  sc_warehouseId :: id
  sc_itemId :: id
  sc_uomId :: id
  sc_availableQty :: decimal

record PickingLineDraft =
  dr_lineNo :: int
  dr_itemId :: id
  dr_lotId :: id
  dr_locationId :: id
  dr_uomId :: id
  dr_plannedQty :: decimal
  dr_requestLineNo :: int

record PickingOrderDraft =
  od_warehouseId :: id
  od_lines :: "PickingLineDraft list"

record PickingShortage =
  sh_requestLineNo :: int
  sh_itemId :: id
  sh_shortQty :: decimal

record PickingAllocation =
  al_orders :: "PickingOrderDraft list"
  al_shortages :: "PickingShortage list"

section \<open>The order of LOTs\<close>

definition compareIds :: "id \<Rightarrow> id \<Rightarrow> int" where
  "compareIds a b = (if a < b then - 1 else if a > b then 1 else 0)"

definition compareExpiry :: "int option \<Rightarrow> int option \<Rightarrow> int" where
  "compareExpiry a b =
     (case (a, b) of
        (None, None) \<Rightarrow> 0
      | (None, Some _) \<Rightarrow> 1
      | (Some _, None) \<Rightarrow> - 1
      | (Some x, Some y) \<Rightarrow> x - y)"

definition lotOrder :: "'a LotKey_scheme \<Rightarrow> 'b LotKey_scheme \<Rightarrow> bool \<Rightarrow> int" where
  "lotOrder a b fefo =
     (let byExpiry = compareExpiry (lot_expiryDate a) (lot_expiryDate b) in
      if fefo \<and> byExpiry \<noteq> 0 then byExpiry
      else or_else (lot_createdAt a - lot_createdAt b)
             (or_else (compareIds (lot_lotId a) (lot_lotId b))
                (compareIds (lot_locationId a) (lot_locationId b))))"

section \<open>The source warehouse\<close>

text \<open>The sums of what is left, per warehouse, in the order the pool meets them.\<close>

fun warehouse_sums :: "(id \<times> decimal) list \<Rightarrow> (id \<times> decimal) list \<Rightarrow> (id \<times> decimal) list" where
  "warehouse_sums acc [] = acc"
| "warehouse_sums acc ((w, left) # pool) =
     warehouse_sums (if left \<le> 0 then acc else add_to w left acc) pool"

fun best_entry :: "(id \<times> decimal) option \<Rightarrow> (id \<times> decimal) list \<Rightarrow> (id \<times> decimal) option" where
  "best_entry best [] = best"
| "best_entry best (e # entries) =
     best_entry
       (case best of
          None \<Rightarrow> Some e
        | Some b \<Rightarrow> if snd e > snd b \<or> (snd e = snd b \<and> fst e < fst b) then Some e else Some b) entries"

definition sourceWarehouse :: "(id \<times> decimal) list \<Rightarrow> id option" where
  "sourceWarehouse pool = map_option fst (best_entry None (warehouse_sums [] pool))"

section \<open>Allocation\<close>

type_synonym lines_by_warehouse = "(id \<times> PickingLineDraft list) list"

text \<open>The inner loop: what is still needed, what is left in each slot, the lines written so far.\<close>

fun take_slots ::
  "StockCandidate list \<Rightarrow> PickingDemand \<Rightarrow> id \<Rightarrow> nat list \<Rightarrow> decimal \<times> decimal list \<times> lines_by_warehouse \<Rightarrow>
   decimal \<times> decimal list \<times> lines_by_warehouse" where
  "take_slots cands demand w [] s = s"
| "take_slots cands demand w (slot # slots) (need, left, lines) =
     (if need \<le> 0 then (need, left, lines)
      else
        let qty = min need (left ! slot) in
        if qty \<le> 0 then take_slots cands demand w slots (need, left, lines)
        else take_slots cands demand w slots
               (need - qty, left[slot := left ! slot - qty],
                push w \<lparr>dr_lineNo = 0, dr_itemId = pd_itemId demand, dr_lotId = lot_lotId (cands ! slot),
                        dr_locationId = lot_locationId (cands ! slot), dr_uomId = pd_uomId demand,
                        dr_plannedQty = qty, dr_requestLineNo = pd_lineNo demand\<rparr> lines))"

definition demand_pool :: "StockCandidate list \<Rightarrow> PickingDemand \<Rightarrow> nat list" where
  "demand_pool cands demand =
     filter (\<lambda>i. sc_itemId (cands ! i) = pd_itemId demand \<and> sc_uomId (cands ! i) = pd_uomId demand)
       [0..<length cands]"

definition demand_order :: "StockCandidate list \<Rightarrow> id set \<Rightarrow> PickingDemand \<Rightarrow> id \<Rightarrow> nat list" where
  "demand_order cands fefo demand w =
     js_sort (by_number (\<lambda>i j. lotOrder (cands ! i) (cands ! j) (pd_itemId demand \<in> fefo)))
       (filter (\<lambda>i. sc_warehouseId (cands ! i) = w) (demand_pool cands demand))"

definition demand_source :: "StockCandidate list \<Rightarrow> PickingDemand \<Rightarrow> decimal list \<Rightarrow> id option" where
  "demand_source cands demand left =
     sourceWarehouse (map (\<lambda>i. (sc_warehouseId (cands ! i), left ! i)) (demand_pool cands demand))"

definition allocate_demand ::
  "StockCandidate list \<Rightarrow> id set \<Rightarrow> PickingDemand \<Rightarrow>
   decimal list \<times> lines_by_warehouse \<times> PickingShortage list \<Rightarrow>
   decimal list \<times> lines_by_warehouse \<times> PickingShortage list" where
  "allocate_demand cands fefo demand s =
     (case s of (left, lines, shortages) \<Rightarrow>
        (case (case demand_source cands demand left of
                 None \<Rightarrow> (pd_qty demand, left, lines)
               | Some w \<Rightarrow> take_slots cands demand w (demand_order cands fefo demand w)
                            (pd_qty demand, left, lines)) of
           (need, left', lines') \<Rightarrow>
             (left', lines',
              if need > 0
              then shortages @ [\<lparr>sh_requestLineNo = pd_lineNo demand, sh_itemId = pd_itemId demand,
                                 sh_shortQty = need\<rparr>]
              else shortages)))"

definition number_lines :: "PickingLineDraft list \<Rightarrow> PickingLineDraft list" where
  "number_lines lines = map (\<lambda>(i, line). line\<lparr>dr_lineNo := int i + 1\<rparr>) (zip [0..<length lines] lines)"

definition allocatePicking ::
  "PickingDemand list \<Rightarrow> StockCandidate list \<Rightarrow> id set \<Rightarrow> PickingAllocation" where
  "allocatePicking demands cands fefo =
     (case fold (allocate_demand cands fefo) demands (map sc_availableQty cands, [], []) of
        (left, lines, shortages) \<Rightarrow>
          \<lparr>al_orders =
             map (\<lambda>(w, ls). \<lparr>od_warehouseId = w, od_lines = number_lines ls\<rparr>)
               (js_sort (by_number (\<lambda>a b. compareIds (fst a) (fst b))) lines),
           al_shortages = shortages\<rparr>)"

section \<open>The comparators\<close>

lemma compareIds_comparison: "number_comparison (\<lambda>a b. compareIds (f a) (f b))"
  by unfold_locales (auto simp: compareIds_def split: if_splits)

lemma compareExpiry_comparison: "number_comparison (\<lambda>a b. compareExpiry (f a) (f b))"
  by unfold_locales (auto simp: compareExpiry_def sgn_if split: option.splits)

lemma lotOrder_or_else:
  "lotOrder a b fefo =
     or_else (if fefo then compareExpiry (lot_expiryDate a) (lot_expiryDate b) else 0)
       (or_else (lot_createdAt a - lot_createdAt b)
         (or_else (compareIds (lot_lotId a) (lot_lotId b))
            (compareIds (lot_locationId a) (lot_locationId b))))"
  by (simp add: lotOrder_def or_else_def Let_def)

lemma lotOrder_comparison: "number_comparison (\<lambda>i j. lotOrder (f i) (f j) fefo)"
proof -
  have "number_comparison (\<lambda>i j. if fefo then compareExpiry (lot_expiryDate (f i)) (lot_expiryDate (f j)) else 0)"
  proof (cases fefo)
    case True
    then show ?thesis by (simp add: compareExpiry_comparison)
  next
    case False
    then show ?thesis by unfold_locales simp_all
  qed
  then show ?thesis
    unfolding lotOrder_or_else
    by (rule or_else_comparison [OF _ or_else_comparison [OF difference_comparison
          or_else_comparison [OF compareIds_comparison compareIds_comparison]]])
qed

interpretation lot_order: comparison "by_number (\<lambda>i j. lotOrder (f i) (f j) fefo)" for f :: "'i \<Rightarrow> 'a LotKey_scheme" and fefo
  by (rule number_comparison.by_number_comparison [OF lotOrder_comparison])

section \<open>The best warehouse\<close>

lemma map_of_warehouse_sums:
  "map_of (warehouse_sums acc pool) w =
     (if map_of acc w \<noteq> None \<or> (\<exists>q. (w, q) \<in> set pool \<and> 0 < q)
      then Some ((case map_of acc w of None \<Rightarrow> 0 | Some q \<Rightarrow> q) +
                 sum_list (map snd (filter (\<lambda>p. fst p = w \<and> 0 < snd p) pool)))
      else None)"
proof (induction acc pool rule: warehouse_sums.induct)
  case (1 acc)
  then show ?case by auto
next
  case (2 acc v left pool)
  show ?case
    by (auto simp: 2 map_of_add_to not_le split: option.splits)
qed

lemma distinct_warehouse_sums:
  "distinct (map fst acc) \<Longrightarrow> distinct (map fst (warehouse_sums acc pool))"
  by (induction acc pool rule: warehouse_sums.induct) (auto simp: distinct_add_to)

definition better :: "id \<times> decimal \<Rightarrow> id \<times> decimal \<Rightarrow> bool" where
  "better e b \<longleftrightarrow> snd b < snd e \<or> (snd e = snd b \<and> fst e \<le> fst b)"

lemma best_entry_best:
  "best_entry best entries = Some e \<Longrightarrow>
     (best = Some e \<or> e \<in> set entries) \<and>
     (\<forall>b \<in> set entries \<union> set_option best. better e b)"
proof (induction best entries rule: best_entry.induct)
  case (1 best)
  then show ?case by (auto simp: better_def)
next
  case (2 best e' entries)
  then show ?case by (auto simp: better_def split: option.splits if_splits)
qed

lemma best_entry_None: "best_entry best entries = None \<longleftrightarrow> best = None \<and> entries = []"
  by (induction best entries rule: best_entry.induct) (auto split: option.splits)

definition positive_left :: "(id \<times> decimal) list \<Rightarrow> id \<Rightarrow> decimal" where
  "positive_left pool w = sum_list (map snd (filter (\<lambda>p. fst p = w \<and> 0 < snd p) pool))"

lemma map_of_sums:
  "map_of (warehouse_sums [] pool) w =
     (if \<exists>q. (w, q) \<in> set pool \<and> 0 < q then Some (positive_left pool w) else None)"
  unfolding map_of_warehouse_sums positive_left_def by simp

section \<open>What the loops keep\<close>

record stock_key =
  key_warehouseId :: id
  key_itemId :: id
  key_uomId :: id
  key_lotId :: id
  key_locationId :: id

definition candidate_key :: "StockCandidate \<Rightarrow> stock_key" where
  "candidate_key c = \<lparr>key_warehouseId = sc_warehouseId c, key_itemId = sc_itemId c, key_uomId = sc_uomId c,
     key_lotId = lot_lotId c, key_locationId = lot_locationId c\<rparr>"

definition line_stock_key :: "id \<Rightarrow> PickingLineDraft \<Rightarrow> stock_key" where
  "line_stock_key w d = \<lparr>key_warehouseId = w, key_itemId = dr_itemId d, key_uomId = dr_uomId d,
     key_lotId = dr_lotId d, key_locationId = dr_locationId d\<rparr>"

definition planned_from :: "stock_key \<Rightarrow> id \<Rightarrow> PickingLineDraft \<Rightarrow> decimal" where
  "planned_from K w d = (if line_stock_key w d = K then dr_plannedQty d else 0)"

definition planned_for :: "int \<Rightarrow> id \<Rightarrow> PickingLineDraft \<Rightarrow> decimal" where
  "planned_for n w d = (if dr_requestLineNo d = n then dr_plannedQty d else 0)"

definition left_at :: "StockCandidate list \<Rightarrow> decimal list \<Rightarrow> stock_key \<Rightarrow> decimal" where
  "left_at cands left K = (\<Sum>i<length cands. if candidate_key (cands ! i) = K then left ! i else 0)"

lemma left_at_update:
  assumes "i < length cands" and "length left = length cands"
  shows "left_at cands (left[i := left ! i - q]) K =
    left_at cands left K - (if candidate_key (cands ! i) = K then q else 0)"
proof -
  have "left_at cands (left[i := left ! i - q]) K =
      (\<Sum>j<length cands. (if candidate_key (cands ! j) = K then left ! j else 0) -
         (if j = i then (if candidate_key (cands ! i) = K then q else 0) else 0))"
    unfolding left_at_def using assms by (intro sum.cong) (auto simp: nth_list_update)
  also have "\<dots> = left_at cands left K - (if candidate_key (cands ! i) = K then q else 0)"
    using assms(1) by (simp add: sum_subtractf left_at_def)
  finally show ?thesis .
qed

definition fits :: "StockCandidate list \<Rightarrow> PickingDemand \<Rightarrow> id \<Rightarrow> nat \<Rightarrow> bool" where
  "fits cands demand w i \<longleftrightarrow> i < length cands \<and> sc_warehouseId (cands ! i) = w \<and>
     sc_itemId (cands ! i) = pd_itemId demand \<and> sc_uomId (cands ! i) = pd_uomId demand"

lemma demand_order_fits: "list_all (fits cands demand w) (demand_order cands fefo demand w)"
  by (auto simp: list_all_iff demand_order_def demand_pool_def fits_def)

lemma demand_order_distinct: "distinct (demand_order cands fefo demand w)"
  by (simp add: demand_order_def demand_pool_def)

definition draft :: "StockCandidate list \<Rightarrow> PickingDemand \<Rightarrow> nat \<Rightarrow> decimal \<Rightarrow> PickingLineDraft" where
  "draft cands demand slot qty = \<lparr>dr_lineNo = 0, dr_itemId = pd_itemId demand,
     dr_lotId = lot_lotId (cands ! slot), dr_locationId = lot_locationId (cands ! slot),
     dr_uomId = pd_uomId demand, dr_plannedQty = qty, dr_requestLineNo = pd_lineNo demand\<rparr>"

lemma take_slots_step:
  "need \<le> 0 \<Longrightarrow> take_slots cands demand w (slot # slots) (need, left, lines) = (need, left, lines)"
  "0 < need \<Longrightarrow> left ! slot \<le> 0 \<Longrightarrow>
     take_slots cands demand w (slot # slots) (need, left, lines) = take_slots cands demand w slots (need, left, lines)"
  "0 < need \<Longrightarrow> 0 < left ! slot \<Longrightarrow>
     take_slots cands demand w (slot # slots) (need, left, lines) =
     take_slots cands demand w slots (need - min need (left ! slot),
       left[slot := left ! slot - min need (left ! slot)],
       push w (draft cands demand slot (min need (left ! slot))) lines)"
  by (simp_all add: Let_def draft_def del: min_less_iff_conj) (simp_all add: min_def)

declare take_slots.simps(2) [simp del]

lemma take_slots_keeps:
  assumes "take_slots cands demand w slots (need, left, lines) = (need', left', lines')"
    and "list_all (fits cands demand w) slots" and "length left = length cands"
  shows "length left' = length cands \<and>
    left_at cands left' K + weight (planned_from K) lines' = left_at cands left K + weight (planned_from K) lines \<and>
    weight (planned_for n) lines' + (if pd_lineNo demand = n then need' else 0) =
      weight (planned_for n) lines + (if pd_lineNo demand = n then need else 0) \<and>
    (0 \<le> need \<longrightarrow> 0 \<le> need') \<and> (\<forall>i < length left. left' ! i \<le> left ! i \<and> (0 \<le> left ! i \<longrightarrow> 0 \<le> left' ! i))"
  using assms
proof (induction slots arbitrary: need left lines)
  case Nil
  then show ?case by simp
next
  case (Cons slot slots)
  let ?qty = "min need (left ! slot)"
  have slot: "fits cands demand w slot" using Cons.prems(2) by simp
  show ?case
  proof (cases "need \<le> 0 \<or> left ! slot \<le> 0")
    case True
    then show ?thesis using Cons.IH [of need left lines] Cons.prems
      by (cases "need \<le> 0") (simp_all add: take_slots_step)
  next
    case False
    define d where "d = draft cands demand slot ?qty"
    from False Cons.prems(1) have run: "take_slots cands demand w slots
        (need - ?qty, left[slot := left ! slot - ?qty], push w d lines) = (need', left', lines')"
      by (simp add: take_slots_step d_def)
    have key: "line_stock_key w d = candidate_key (cands ! slot)"
      using slot by (simp add: line_stock_key_def candidate_key_def d_def draft_def fits_def)
    have w1: "planned_from K w d = (if candidate_key (cands ! slot) = K then ?qty else 0)"
      by (simp add: planned_from_def key) (simp add: d_def draft_def)
    have w2: "planned_for n w d = (if pd_lineNo demand = n then ?qty else 0)"
      by (simp add: planned_for_def d_def draft_def)
    have len: "slot < length cands" using slot by (simp add: fits_def)
    from Cons.IH [OF run] Cons.prems(2,3) have IH: "length left' = length cands"
      "left_at cands left' K + weight (planned_from K) lines' =
        left_at cands (left[slot := left ! slot - ?qty]) K + weight (planned_from K) (push w d lines)"
      "weight (planned_for n) lines' + (if pd_lineNo demand = n then need' else 0) =
        weight (planned_for n) (push w d lines) + (if pd_lineNo demand = n then need - ?qty else 0)"
      "0 \<le> need - ?qty \<longrightarrow> 0 \<le> need'"
      "\<forall>i < length left. left' ! i \<le> left[slot := left ! slot - ?qty] ! i \<and>
         (0 \<le> left[slot := left ! slot - ?qty] ! i \<longrightarrow> 0 \<le> left' ! i)"
      by simp_all
    have "left' ! i \<le> left ! i \<and> (0 \<le> left ! i \<longrightarrow> 0 \<le> left' ! i)" if "i < length left" for i
    proof (cases "i = slot")
      case True
      have q: "0 < ?qty" "?qty \<le> left ! slot" using \<open>\<not> (need \<le> 0 \<or> left ! slot \<le> 0)\<close> by auto
      have "left' ! slot \<le> left ! slot - ?qty \<and> (0 \<le> left ! slot - ?qty \<longrightarrow> 0 \<le> left' ! slot)"
        using IH(5) [rule_format, OF that] that True by simp
      with q True show ?thesis by auto
    next
      case False
      then show ?thesis using IH(5) [rule_format, OF that] by simp
    qed
    moreover have "left_at cands left' K + weight (planned_from K) lines' =
        left_at cands left K + weight (planned_from K) lines"
      using IH(2) left_at_update [OF len Cons.prems(3)] by (simp add: weight_push w1)
    moreover have "weight (planned_for n) lines' + (if pd_lineNo demand = n then need' else 0) =
        weight (planned_for n) lines + (if pd_lineNo demand = n then need else 0)"
      using IH(3) by (auto simp: weight_push w2)
    moreover have "0 \<le> need \<longrightarrow> 0 \<le> need'" using IH(4) by (auto simp: min_def)
    ultimately show ?thesis using IH(1) by blast
  qed
qed

text \<open>A slot is used only when every slot before it is used up, and something stays short only when
  every slot is.\<close>

lemma take_slots_untouched:
  assumes "take_slots cands demand w slots (need, left, lines) = (need', left', lines')" and "i \<notin> set slots"
  shows "left' ! i = left ! i"
  using assms
proof (induction slots arbitrary: need left lines)
  case Nil
  then show ?case by simp
next
  case (Cons slot slots)
  consider "need \<le> 0" | "0 < need" "left ! slot \<le> 0" | "0 < need" "0 < left ! slot" by linarith
  then show ?case
  proof cases
    case 1
    then show ?thesis using Cons.prems(1) by (simp add: take_slots_step)
  next
    case 2
    then show ?thesis using Cons by (simp add: take_slots_step)
  next
    case 3
    then have "take_slots cands demand w slots (need - min need (left ! slot),
       left[slot := left ! slot - min need (left ! slot)],
       push w (draft cands demand slot (min need (left ! slot))) lines) = (need', left', lines')"
      using Cons.prems(1) by (simp add: take_slots_step)
    from Cons.IH [OF this] Cons.prems(2) show ?thesis by simp
  qed
qed

lemma take_slots_greedy:
  assumes "take_slots cands demand w slots (need, left, lines) = (need', left', lines')"
    and "distinct slots" and "list_all (\<lambda>i. i < length left) slots"
  shows "sorted_wrt (\<lambda>i j. left' ! j < left ! j \<longrightarrow> left' ! i \<le> 0) slots \<and>
    (0 < need' \<longrightarrow> list_all (\<lambda>i. left' ! i \<le> 0) slots)"
  using assms
proof (induction slots arbitrary: need left lines)
  case Nil
  then show ?case by simp
next
  case (Cons slot slots)
  let ?qty = "min need (left ! slot)"
  show ?case
  proof (cases "need \<le> 0")
    case True
    with Cons.prems(1) have "left' = left" "need' = need" by (simp_all add: take_slots_step)
    with True show ?thesis by (simp add: sorted_wrt_iff_nth_less)
  next
    case pos: False
    show ?thesis
    proof (cases "left ! slot \<le> 0")
      case True
      with pos Cons.prems(1) have run: "take_slots cands demand w slots (need, left, lines) = (need', left', lines')"
        by (simp add: take_slots_step)
      have "left' ! slot = left ! slot" using take_slots_untouched [OF run] Cons.prems(2) by simp
      with True have "left' ! slot \<le> 0" by simp
      with Cons.IH [OF run] Cons.prems(2,3) show ?thesis by auto
    next
      case False
      let ?left = "left[slot := left ! slot - ?qty]"
      from False pos Cons.prems(1) obtain l where run:
        "take_slots cands demand w slots (need - ?qty, ?left, l) = (need', left', lines')"
        by (simp add: take_slots_step)
      have "slot < length left" using Cons.prems(3) by simp
      then have head: "left' ! slot = left ! slot - ?qty"
        using take_slots_untouched [OF run] Cons.prems(2) by simp
      have IH: "sorted_wrt (\<lambda>i j. left' ! j < ?left ! j \<longrightarrow> left' ! i \<le> 0) slots \<and>
          (0 < need' \<longrightarrow> list_all (\<lambda>i. left' ! i \<le> 0) slots)"
        using Cons.IH [OF run] Cons.prems(2,3) by (simp add: list_all_iff)
      have same: "?left ! j = left ! j" if "j \<in> set slots" for j
        using that Cons.prems(2) by (intro nth_list_update_neq) auto
      show ?thesis
      proof (cases "left ! slot \<le> need")
        case True
        then have "left' ! slot \<le> 0" using head by (simp add: min_def)
        moreover have "sorted_wrt (\<lambda>i j. left' ! j < left ! j \<longrightarrow> left' ! i \<le> 0) slots"
          using IH same by (auto intro: sorted_wrt_mono_rel [rotated])
        ultimately show ?thesis using IH by simp
      next
        case False
        then have "need - ?qty = 0" by (simp add: min_def)
        with run have full: "need' = 0" "left' = ?left" by (cases slots; simp add: take_slots_step)+
        have "left' ! j = left ! j" if "j \<in> set slots" for j using full same that by simp
        then show ?thesis using full(1) by (simp add: sorted_wrt_iff_nth_less)
      qed
    qed
  qed
qed

section \<open>Properties\<close>

text \<open>The source warehouse of a demand is the one whose remaining stock of the item is largest, the
  smallest id among equals, and there is none only when nothing is left anywhere.\<close>
lemma source_warehouse_is_best:
  "case sourceWarehouse pool of
     None \<Rightarrow> list_all (\<lambda>(w, q). q \<le> 0) pool
   | Some w \<Rightarrow> 0 < positive_left pool w \<and>
       list_all (\<lambda>(v, q). positive_left pool v < positive_left pool w \<or>
          (positive_left pool v = positive_left pool w \<and> w \<le> v) \<or> positive_left pool v = 0) pool"
proof (cases "best_entry None (warehouse_sums [] pool)")
  case None
  then have "warehouse_sums [] pool = []" by (simp add: best_entry_None)
  then have none: "map_of (warehouse_sums [] pool) w = None" for w by simp
  have "\<forall>w q. (w, q) \<in> set pool \<longrightarrow> \<not> 0 < q"
  proof (intro allI impI)
    fix w q
    assume "(w, q) \<in> set pool"
    with none [of w] show "\<not> 0 < q" unfolding map_of_sums by (auto split: if_splits)
  qed
  with None show ?thesis by (auto simp: sourceWarehouse_def list_all_iff not_less)
next
  case (Some e)
  obtain w s where e: "e = (w, s)" by (cases e)
  have dist: "distinct (map fst (warehouse_sums [] pool))" by (rule distinct_warehouse_sums) simp
  have entry: "(v, q) \<in> set (warehouse_sums [] pool) \<longleftrightarrow>
      (\<exists>x. (v, x) \<in> set pool \<and> 0 < x) \<and> q = positive_left pool v" for v q
    using map_of_eq_Some_iff [OF dist, of v q] unfolding map_of_sums by (auto split: if_splits)
  from best_entry_best [OF Some] have best: "e \<in> set (warehouse_sums [] pool)"
    "\<forall>b \<in> set (warehouse_sums [] pool). better e b" by auto
  from best(1) obtain x where w: "(w, x) \<in> set pool" "0 < x" "s = positive_left pool w"
    by (auto simp: e entry)
  have nonneg: "0 \<le> sum_list (map snd (filter (\<lambda>p. fst p = w \<and> 0 < snd p) ps))" for ps :: "(id \<times> decimal) list"
    by (intro sum_list_nonneg) auto
  obtain us vs where split: "pool = us @ (w, x) # vs" using w(1) by (meson split_list)
  have "0 < positive_left pool w"
    unfolding positive_left_def split using w(2) nonneg [of us] nonneg [of vs] by simp
  moreover have "positive_left pool v < positive_left pool w \<or>
      (positive_left pool v = positive_left pool w \<and> w \<le> v) \<or> positive_left pool v = 0"
    if "(v, q) \<in> set pool" for v q
  proof (cases "\<exists>x. (v, x) \<in> set pool \<and> 0 < x")
    case True
    then have "(v, positive_left pool v) \<in> set (warehouse_sums [] pool)" by (simp add: entry)
    with best(2) w(3) show ?thesis by (auto simp: e better_def)
  next
    case False
    then have "filter (\<lambda>p. fst p = v \<and> 0 < snd p) pool = []" by (auto simp: filter_empty_conv)
    then show ?thesis by (simp add: positive_left_def)
  qed
  ultimately show ?thesis using Some by (auto simp: sourceWarehouse_def e list_all_iff)
qed

text \<open>The sums over a whole allocation.\<close>

definition order_weight :: "(id \<Rightarrow> PickingLineDraft \<Rightarrow> decimal) \<Rightarrow> PickingAllocation \<Rightarrow> decimal" where
  "order_weight f a = weight f (map (\<lambda>o'. (od_warehouseId o', od_lines o')) (al_orders a))"

definition short_for :: "int \<Rightarrow> PickingShortage list \<Rightarrow> decimal" where
  "short_for n shortages = sum_list (map sh_shortQty (filter (\<lambda>s. sh_requestLineNo s = n) shortages))"

definition stock_of :: "StockCandidate list \<Rightarrow> stock_key \<Rightarrow> decimal" where
  "stock_of cands K = sum_list (map sc_availableQty (filter (\<lambda>c. candidate_key c = K) cands))"

definition demand_of :: "int \<Rightarrow> PickingDemand list \<Rightarrow> decimal" where
  "demand_of n demands = sum_list (map pd_qty (filter (\<lambda>d. pd_lineNo d = n) demands))"

lemma weight_number_lines:
  assumes "\<And>w d m. f w (d\<lparr>dr_lineNo := m\<rparr>) = f w d"
  shows "sum_list (map (f w) (number_lines ls)) = sum_list (map (f w) ls)"
proof -
  have "map (f w) (number_lines ls) = map (f w) ls"
    by (rule nth_equalityI) (simp_all add: number_lines_def assms split_def)
  then show ?thesis by simp
qed

lemma order_weight_allocation:
  assumes "fold (allocate_demand cands fefo) demands (map sc_availableQty cands, [], []) = (left, lines, shortages)"
    and "\<And>w d m. f w (d\<lparr>dr_lineNo := m\<rparr>) = f w d"
  shows "order_weight f (allocatePicking demands cands fefo) = weight f lines"
proof -
  let ?sorted = "js_sort (by_number (\<lambda>a b. compareIds (fst a) (fst b))) lines"
  have "order_weight f (allocatePicking demands cands fefo) = weight f ?sorted"
    by (simp add: order_weight_def allocatePicking_def assms(1) weight_def split_def comp_def
        weight_number_lines [where f = f, OF assms(2)])
  also have "\<dots> = weight f lines" by (rule weight_mset) simp
  finally show ?thesis .
qed

lemma allocate_demand_keeps:
  assumes "allocate_demand cands fefo demand (left, lines, shortages) = (left', lines', shortages')"
    and "length left = length cands"
  shows "length left' = length cands \<and>
    left_at cands left' K + weight (planned_from K) lines' = left_at cands left K + weight (planned_from K) lines \<and>
    (0 \<le> pd_qty demand \<longrightarrow> weight (planned_for n) lines' + short_for n shortages' =
      weight (planned_for n) lines + short_for n shortages + (if pd_lineNo demand = n then pd_qty demand else 0)) \<and>
    (\<forall>i < length left. left' ! i \<le> left ! i \<and> (0 \<le> left ! i \<longrightarrow> 0 \<le> left' ! i))"
proof (cases "demand_source cands demand left")
  case None
  with assms show ?thesis by (auto simp: allocate_demand_def short_for_def split: if_splits)
next
  case (Some w)
  obtain need where take: "take_slots cands demand w (demand_order cands fefo demand w)
      (pd_qty demand, left, lines) = (need, left', lines')"
    and sh: "shortages' = (if need > 0
              then shortages @ [\<lparr>sh_requestLineNo = pd_lineNo demand, sh_itemId = pd_itemId demand,
                                 sh_shortQty = need\<rparr>] else shortages)"
    using assms(1) Some by (auto simp: allocate_demand_def split: prod.splits)
  note keeps = take_slots_keeps [OF take demand_order_fits assms(2), of K n]
  have "0 \<le> pd_qty demand \<longrightarrow> weight (planned_for n) lines' + short_for n shortages' =
      weight (planned_for n) lines + short_for n shortages + (if pd_lineNo demand = n then pd_qty demand else 0)"
    using keeps by (auto simp: sh short_for_def)
  with keeps show ?thesis by blast
qed

lemma allocate_all_keeps:
  assumes "fold (allocate_demand cands fefo) demands (left, lines, shortages) = (left', lines', shortages')"
    and "length left = length cands"
  shows "length left' = length cands \<and>
    left_at cands left' K + weight (planned_from K) lines' = left_at cands left K + weight (planned_from K) lines \<and>
    (list_all (\<lambda>d. 0 \<le> pd_qty d) demands \<longrightarrow> weight (planned_for n) lines' + short_for n shortages' =
      weight (planned_for n) lines + short_for n shortages + demand_of n demands) \<and>
    (\<forall>i < length left. 0 \<le> left ! i \<longrightarrow> 0 \<le> left' ! i)"
  using assms
proof (induction demands arbitrary: left lines shortages)
  case Nil
  then show ?case by (simp add: demand_of_def)
next
  case (Cons demand demands)
  obtain left1 lines1 shortages1 where
    one: "allocate_demand cands fefo demand (left, lines, shortages) = (left1, lines1, shortages1)"
    by (cases "allocate_demand cands fefo demand (left, lines, shortages)")
  with Cons.prems(1) have rest: "fold (allocate_demand cands fefo) demands (left1, lines1, shortages1) =
      (left', lines', shortages')" by simp
  note k = allocate_demand_keeps [OF one Cons.prems(2), of K n]
  then have "length left1 = length cands" by blast
  from Cons.IH [OF rest this] k Cons.prems(2) show ?case by (auto simp: demand_of_def)
qed

lemma left_at_start: "left_at cands (map sc_availableQty cands) K = stock_of cands K"
proof -
  have "left_at cands (map sc_availableQty cands) K =
      sum_list (map (\<lambda>c. if candidate_key c = K then sc_availableQty c else 0) cands)"
    by (simp add: left_at_def sum_list_sum_nth atLeast0LessThan cong: if_cong)
  also have "\<dots> = stock_of cands K"
    by (induction cands) (simp_all add: stock_of_def)
  finally show ?thesis .
qed

text \<open>Two LOTs of item 3 in warehouse 5, the second older, and a demand of 7.\<close>

definition example_candidate :: "id \<Rightarrow> int \<Rightarrow> decimal \<Rightarrow> StockCandidate" where
  "example_candidate lot created qty = \<lparr>lot_expiryDate = None, lot_createdAt = created, lot_lotId = lot,
     lot_locationId = 7, sc_warehouseId = 5, sc_itemId = 3, sc_uomId = 1, sc_availableQty = qty\<rparr>"

definition example_candidates :: "StockCandidate list" where
  "example_candidates = [example_candidate 21 200 4, example_candidate 22 100 5]"

definition example_demand :: PickingDemand where
  "example_demand = \<lparr>pd_lineNo = 1, pd_itemId = 3, pd_uomId = 1, pd_qty = 7\<rparr>"

text \<open>C24. Picking orders never promise stock that is not there: for every warehouse, item, unit, LOT
  and location, the planned quantities of all lines drawn from it, over all demands together, stay
  within the available quantity of the candidates.\<close>
theorem picking_within_stock:
  assumes "list_all (\<lambda>c. 0 \<le> sc_availableQty c) cands"
  shows "order_weight (planned_from K) (allocatePicking demands cands fefo) \<le> stock_of cands K"
proof -
  obtain left lines shortages where run:
    "fold (allocate_demand cands fefo) demands (map sc_availableQty cands, [], []) = (left, lines, shortages)"
    by (cases "fold (allocate_demand cands fefo) demands (map sc_availableQty cands, [], [])")
  from allocate_all_keeps [OF run, of K undefined] have k: "left_at cands left K + weight (planned_from K) lines =
      stock_of cands K + weight (planned_from K) []" "length left = length cands"
    "\<forall>i < length cands. 0 \<le> left ! i"
    using assms by (auto simp: left_at_start list_all_length)
  have "0 \<le> left_at cands left K" unfolding left_at_def using k(3) by (intro sum_nonneg) simp
  moreover have "order_weight (planned_from K) (allocatePicking demands cands fefo) = weight (planned_from K) lines"
    by (rule order_weight_allocation [OF run]) (simp add: planned_from_def line_stock_key_def)
  ultimately show ?thesis using k(1) by (simp add: weight_def)
qed

theorem picking_within_stock_witness:
  "order_weight (planned_from (candidate_key (example_candidate 21 200 4)))
     (allocatePicking [example_demand] example_candidates {}) \<le> 4 \<and>
   map od_warehouseId (al_orders (allocatePicking [example_demand] example_candidates {})) = [5]"
proof -
  have "stock_of example_candidates (candidate_key (example_candidate 21 200 4)) = 4" by code_simp
  moreover have "list_all (\<lambda>c. 0 \<le> sc_availableQty c) example_candidates" by code_simp
  moreover have "map od_warehouseId (al_orders (allocatePicking [example_demand] example_candidates {})) = [5]"
    by code_simp
  ultimately show ?thesis
    using picking_within_stock [of example_candidates "candidate_key (example_candidate 21 200 4)"
        "[example_demand]" "{}"] by simp
qed

text \<open>C25. Nothing asked for disappears: for every request line, what its picking lines plan and what is
  reported short add up to what was demanded.\<close>
theorem picking_accounts_for_demand:
  assumes "list_all (\<lambda>d. 0 \<le> pd_qty d) demands"
  shows "order_weight (planned_for n) (allocatePicking demands cands fefo) +
    short_for n (al_shortages (allocatePicking demands cands fefo)) = demand_of n demands"
proof -
  obtain left lines shortages where run:
    "fold (allocate_demand cands fefo) demands (map sc_availableQty cands, [], []) = (left, lines, shortages)"
    by (cases "fold (allocate_demand cands fefo) demands (map sc_availableQty cands, [], [])")
  have "order_weight (planned_for n) (allocatePicking demands cands fefo) = weight (planned_for n) lines"
    by (rule order_weight_allocation [OF run]) (simp add: planned_for_def)
  moreover have "al_shortages (allocatePicking demands cands fefo) = shortages"
    by (simp add: allocatePicking_def run)
  ultimately show ?thesis
    using allocate_all_keeps [OF run, of undefined n] assms by (simp add: weight_def short_for_def)
qed

theorem picking_accounts_for_demand_witness:
  "order_weight (planned_for 1) (allocatePicking [example_demand] example_candidates {}) +
     short_for 1 (al_shortages (allocatePicking [example_demand] example_candidates {})) = 7"
proof -
  have "demand_of 1 [example_demand] = 7" by code_simp
  moreover have "list_all (\<lambda>d. 0 \<le> pd_qty d) [example_demand]" by code_simp
  ultimately show ?thesis
    using picking_accounts_for_demand [of "[example_demand]" 1 example_candidates "{}"] by simp
qed

text \<open>First expired (or first received), first out, from one warehouse: one demand takes only from
  the slots of its source warehouse that match its item and unit; the slots are visited in \<open>lotOrder\<close>;
  a slot loses stock only when every earlier one is used up, and a shortage is reported only when all
  are.\<close>
lemma earlier_lots_first:
  assumes "length left = length cands"
    and "allocate_demand cands fefo demand (left, lines, []) = (left', lines', shortages')"
    and "demand_source cands demand left = Some w"
  shows "sorted_wrt (\<lambda>i j. lotOrder (cands ! i) (cands ! j) (pd_itemId demand \<in> fefo) \<le> 0)
      (demand_order cands fefo demand w) \<and>
    sorted_wrt (\<lambda>i j. left' ! j < left ! j \<longrightarrow> left' ! i \<le> 0) (demand_order cands fefo demand w) \<and>
    (shortages' \<noteq> [] \<longrightarrow> list_all (\<lambda>i. left' ! i \<le> 0) (demand_order cands fefo demand w)) \<and>
    (\<forall>i < length cands. left' ! i \<noteq> left ! i \<longrightarrow> fits cands demand w i)"
proof -
  obtain need where take: "take_slots cands demand w (demand_order cands fefo demand w)
      (pd_qty demand, left, lines) = (need, left', lines')"
    and sh: "shortages' \<noteq> [] \<longleftrightarrow> need > 0"
    using assms(2,3) by (auto simp: allocate_demand_def split: prod.splits if_splits)
  have "list_all (\<lambda>i. i < length left) (demand_order cands fefo demand w)"
    using demand_order_fits [of cands demand w fefo] assms(1) by (auto simp: list_all_iff fits_def)
  note greedy = take_slots_greedy [OF take demand_order_distinct this]
  have "sorted_wrt (by_number (\<lambda>i j. lotOrder (cands ! i) (cands ! j) (pd_itemId demand \<in> fefo)))
      (demand_order cands fefo demand w)"
    unfolding demand_order_def by (rule lot_order.sorted_js_sort)
  then have "sorted_wrt (\<lambda>i j. lotOrder (cands ! i) (cands ! j) (pd_itemId demand \<in> fefo) \<le> 0)
      (demand_order cands fefo demand w)" unfolding by_number_def [abs_def] .
  moreover have "fits cands demand w i" if "i < length cands" "left' ! i \<noteq> left ! i" for i
    using take_slots_untouched [OF take, of i] that demand_order_fits [of cands demand w fefo]
    by (auto simp: list_all_iff)
  ultimately show ?thesis using greedy sh by blast
qed

lemma earlier_lots_first_example:
  "demand_order example_candidates {} example_demand 5 = [1, 0] \<and>
   fst (allocate_demand example_candidates {} example_demand ([4, 5], [], [])) = [2, 0] \<and>
   sorted_wrt (\<lambda>i j. [2, 0 :: decimal] ! j < [4, 5] ! j \<longrightarrow> [2, 0 :: decimal] ! i \<le> 0)
     (demand_order example_candidates {} example_demand 5)"
proof -
  have o: "demand_order example_candidates {} example_demand 5 = [1, 0]" by code_simp
  have f: "fst (allocate_demand example_candidates {} example_demand ([4, 5], [], [])) = [2, 0]" by code_simp
  obtain lines' shortages' where run:
    "allocate_demand example_candidates {} example_demand ([4, 5], [], []) = ([2, 0], lines', shortages')"
    using f by (cases "allocate_demand example_candidates {} example_demand ([4, 5], [], [])") auto
  have "demand_source example_candidates example_demand [4, 5] = Some 5" by code_simp
  moreover have "length [4, 5 :: decimal] = length example_candidates" by code_simp
  ultimately show ?thesis using earlier_lots_first [OF _ run, of 5] o f by blast
qed

end
