(* ===== verification/Picking_Generation.thy ===== *)
theory Picking_Generation
  imports Picking_Allocation
begin

text \<open>
  \<open>src/core/picking/picking-generation.ts\<close>: which balances may be picked, the reads that feed
  \<open>allocatePicking\<close>, and the statements that write the picking orders. The store is shared with
  \<open>src/core/material-issue\<close>: stock, master data, material issue requests, picking orders, audit events.
\<close>

section \<open>The store\<close>

record warehouse_facts =
  wh_plant_id :: id
  wh_type_code :: code
  wh_is_active :: bool
  wh_code :: code
  wh_name :: string

record location_row =
  loc_id :: id
  loc_warehouse_id :: id
  loc_is_active :: bool
  loc_system_role_code :: "code option"

record line_facts =
  ln_department_id :: "id option"
  ln_default_wip_location_id :: "id option"

record work_order_facts =
  wo_plant_id :: "id option"
  wo_department_id :: "id option"
  wo_worker_id :: "id option"

record lot_facts =
  lf_expiry_date :: "int option"
  lf_created_at :: int

record picking_order_row =
  po_id :: id
  po_no :: string
  po_type_code :: code
  po_source_document_type_code :: code
  po_source_document_id :: id
  po_warehouse_id :: id
  po_status_code :: code
  po_assigned_worker_id :: "id option"
  po_created_by :: "id option"
  po_updated_by :: "id option"
  po_version_no :: int

record picking_line_row =
  pkl_id :: id
  pkl_picking_order_id :: id
  pkl_line_no :: int
  pkl_item_id :: id
  pkl_lot_id :: id
  pkl_location_id :: id
  pkl_planned_qty :: decimal
  pkl_picked_qty :: decimal
  pkl_uom_id :: id
  pkl_status_code :: code
  pkl_request_line_id :: "id option"
  pkl_created_by :: "id option"

record request_row =
  rq_id :: id
  rq_no :: string
  rq_type_code :: code
  rq_status_code :: code
  rq_work_order_id :: "id option"
  rq_source_warehouse_id :: "id option"
  rq_destination_location_id :: id
  rq_issue_work_date :: "int option"
  rq_closed_at :: "int option"
  rq_close_reason_code :: "code option"
  rq_close_reason_detail_code :: "code option"
  rq_close_remark :: "string option"
  rq_closed_by :: "id option"
  rq_cancelled_at :: "int option"
  rq_cancelled_by :: "id option"
  rq_released_at :: "int option"
  rq_release_attempted_at :: "int option"
  rq_release_error_text :: "string option"
  rq_origin_code :: "code option"
  rq_run_id :: "id option"
  rq_requested_by :: "id option"
  rq_remarks :: "string option"
  rq_created_by :: "id option"
  rq_updated_at :: int
  rq_updated_by :: "id option"
  rq_version_no :: int

record request_line_row =
  rl_id :: id
  rl_request_id :: id
  rl_line_no :: int
  rl_item_id :: id
  rl_uom_id :: id
  rl_requested_qty :: decimal
  rl_issued_qty :: decimal
  rl_shortage_qty :: decimal
  rl_created_by :: "id option"

record audit_row =
  au_occurred_at :: int
  au_target_id :: id
  au_event_type_code :: code
  au_performed_by :: "id option"
  au_event_code :: code
  au_reason :: "string option"
  au_after :: "string option"

record log_db =
  stock :: "balance_row list"
  lots :: "id \<Rightarrow> lot_facts option"
  open_holds :: "id list"
  warehouse_of :: "id \<Rightarrow> warehouse_facts option"
  locations :: "location_row list"
  department_warehouses :: "(id \<times> id) list"
  line_of :: "id \<Rightarrow> line_facts option"
  work_order_of :: "id \<Rightarrow> work_order_facts option"
  fefo_item :: "id \<Rightarrow> bool"
  requests :: "request_row list"
  request_lines :: "request_line_row list"
  picking_orders :: "picking_order_row list"
  picking_lines :: "picking_line_row list"
  audit_events :: "audit_row list"
  picking_order_seq :: id
  picking_line_seq :: id
  request_seq :: id
  request_line_seq :: id

section \<open>What may be picked\<close>

definition PICKABLE_BALANCE :: "log_db \<Rightarrow> balance_row \<Rightarrow> bool" where
  "PICKABLE_BALANCE db r \<longleftrightarrow>
     qualityStatusCode (dim r) = ''NORMAL'' \<and> inventoryStatusCode (dim r) = ''AVAILABLE'' \<and>
     available_qty r > 0 \<and>
     (case lotId (dim r) of None \<Rightarrow> False | Some lot \<Rightarrow> lots db lot \<noteq> None \<and> lot \<notin> set (open_holds db))"

definition source_filter :: "log_db \<Rightarrow> id \<Rightarrow> id option \<Rightarrow> id \<Rightarrow> bool" where
  "source_filter db plant warehouse w \<longleftrightarrow>
     (case warehouse_of db w of
        None \<Rightarrow> False
      | Some facts \<Rightarrow> wh_plant_id facts = plant \<and> wh_is_active facts \<and>
          (case warehouse of None \<Rightarrow> wh_type_code facts = ''MATERIAL'' | Some v \<Rightarrow> w = v))"

definition stock_candidate :: "log_db \<Rightarrow> balance_row \<Rightarrow> StockCandidate list" where
  "stock_candidate db r =
     (case lotId (dim r) of
        None \<Rightarrow> []
      | Some lot \<Rightarrow>
          (case lots db lot of
             None \<Rightarrow> []
           | Some facts \<Rightarrow>
               [\<lparr>lot_expiryDate = lf_expiry_date facts, lot_createdAt = lf_created_at facts,
                 lot_lotId = lot, lot_locationId = locationId (dim r),
                 sc_warehouseId = warehouseId (dim r), sc_itemId = itemId (dim r),
                 sc_uomId = balance_uom_id r, sc_availableQty = available_qty r\<rparr>]))"

definition allocateStock :: "log_db \<Rightarrow> id \<Rightarrow> id option \<Rightarrow> PickingDemand list \<Rightarrow> PickingAllocation" where
  "allocateStock db plant warehouse demands =
     (let itemIds = js_set (map pd_itemId demands);
          balances' = filter (\<lambda>r. PICKABLE_BALANCE db r \<and> itemId (dim r) \<in> set itemIds \<and>
                                  source_filter db plant warehouse (warehouseId (dim r))) (stock db);
          fefoItems = filter (fefo_item db) itemIds
      in allocatePicking demands (concat (map (stock_candidate db) balances')) (set fefoItems))"

text \<open>\<open>planPicking\<close> asks for one number per order; \<open>nextMany\<close> of the numbering service is a parameter.\<close>

record PickingPlan = PickingAllocation +
  pp_orderNos :: "string list"
  pp_assignedWorkerId :: "id option"

definition planPicking ::
  "(nat \<Rightarrow> string list res) \<Rightarrow> log_db \<Rightarrow> id \<Rightarrow> id option \<Rightarrow> PickingDemand list \<Rightarrow> id option \<Rightarrow> PickingPlan res" where
  "planPicking nextMany db plant warehouse demands assignedWorkerId =
     (let allocation = allocateStock db plant warehouse demands in
      bind_res (if al_orders allocation = [] then Inr [] else nextMany (length (al_orders allocation)))
        (\<lambda>orderNos.
          Inr \<lparr>al_orders = al_orders allocation, al_shortages = al_shortages allocation,
               pp_orderNos = orderNos, pp_assignedWorkerId = assignedWorkerId\<rparr>))"

section \<open>Writing picking orders\<close>

record WrittenPicking =
  wp_pickingOrderId :: id
  wp_warehouseId :: id
  wp_lineCount :: nat

record PickingSource =
  ps_materialIssueRequestId :: id
  ps_issueRequestNo :: string
  ps_requestLineIds :: "(int \<times> id) list"

definition insert_picking_order :: "log_db \<Rightarrow> picking_order_row \<Rightarrow> (id \<times> log_db) res" where
  "insert_picking_order db row =
     (if list_ex (\<lambda>o'. po_no o' = po_no row) (picking_orders db)
      then Inl (DbError (P2002 [''picking_order_no'']))
      else Inr (picking_order_seq db,
                db\<lparr>picking_orders := picking_orders db @ [row\<lparr>po_id := picking_order_seq db\<rparr>],
                   picking_order_seq := picking_order_seq db + 1\<rparr>))"

definition draft_row :: "PickingSource \<Rightarrow> id option \<Rightarrow> id \<Rightarrow> id \<Rightarrow> PickingLineDraft \<Rightarrow> picking_line_row" where
  "draft_row source appUserId orderId lineId line =
     \<lparr>pkl_id = lineId, pkl_picking_order_id = orderId, pkl_line_no = dr_lineNo line,
      pkl_item_id = dr_itemId line, pkl_lot_id = dr_lotId line, pkl_location_id = dr_locationId line,
      pkl_planned_qty = dr_plannedQty line, pkl_picked_qty = 0, pkl_uom_id = dr_uomId line,
      pkl_status_code = ''REGISTERED'',
      pkl_request_line_id = map_of (ps_requestLineIds source) (dr_requestLineNo line),
      pkl_created_by = appUserId\<rparr>"

definition insert_picking_lines :: "log_db \<Rightarrow> picking_line_row list \<Rightarrow> log_db res" where
  "insert_picking_lines db rows =
     (if list_all (\<lambda>r. pkl_planned_qty r > 0 \<and> pkl_line_no r > 0) rows \<and>
         distinct (map (\<lambda>r. (pkl_picking_order_id r, pkl_line_no r)) (picking_lines db @ rows))
      then Inr (db\<lparr>picking_lines := picking_lines db @ rows,
                   picking_line_seq := picking_line_seq db + int (length rows)\<rparr>)
      else Inl (DbError OtherDriverError))"

definition write_order ::
  "PickingSource \<Rightarrow> id option \<Rightarrow> id option \<Rightarrow> string list \<Rightarrow> nat \<times> PickingOrderDraft \<Rightarrow>
   WrittenPicking list \<times> log_db \<Rightarrow> (WrittenPicking list \<times> log_db) res" where
  "write_order source assigned appUserId orderNos io s =
     (case (io, s) of ((index, order), (written, db)) \<Rightarrow>
        if \<not> index < length orderNos then Inl InternalError
        else bind_res
          (insert_picking_order db
            \<lparr>po_id = 0, po_no = orderNos ! index, po_type_code = ''MATERIAL'',
             po_source_document_type_code = ''MATERIAL_ISSUE_REQUEST'',
             po_source_document_id = ps_materialIssueRequestId source,
             po_warehouse_id = od_warehouseId order, po_status_code = ''REGISTERED'',
             po_assigned_worker_id = assigned, po_created_by = appUserId, po_updated_by = None,
             po_version_no = 1\<rparr>)
          (\<lambda>(orderId, db1).
            let rows = map (\<lambda>(i, line). draft_row source appUserId orderId (picking_line_seq db1 + int i) line)
                         (zip [0..<length (od_lines order)] (od_lines order)) in
            bind_res (insert_picking_lines db1 rows) (\<lambda>db2.
              Inr (written @ [\<lparr>wp_pickingOrderId = orderId, wp_warehouseId = od_warehouseId order,
                                wp_lineCount = length (od_lines order)\<rparr>], db2))))"

definition writePicking ::
  "log_db \<Rightarrow> PickingAllocation \<Rightarrow> string list \<Rightarrow> id option \<Rightarrow> PickingSource \<Rightarrow> id option \<Rightarrow>
   (WrittenPicking list \<times> log_db) res" where
  "writePicking db allocation orderNos assigned source appUserId =
     fold_res (write_order source assigned appUserId orderNos)
       (zip [0..<length (al_orders allocation)] (al_orders allocation)) ([], db)"

section \<open>Every line is drawn from a candidate\<close>

definition drawn :: "StockCandidate list \<Rightarrow> id \<Rightarrow> PickingLineDraft \<Rightarrow> bool" where
  "drawn cands w d \<longleftrightarrow> 0 < dr_plannedQty d \<and>
     (\<exists>c \<in> set cands. candidate_key c = line_stock_key w d)"

definition all_drawn :: "StockCandidate list \<Rightarrow> lines_by_warehouse \<Rightarrow> bool" where
  "all_drawn cands lines \<longleftrightarrow> (\<forall>(w, ls) \<in> set lines. \<forall>d \<in> set ls. drawn cands w d)"

lemma push_entries:
  "(w, ls) \<in> set (push k x m) \<Longrightarrow> d \<in> set ls \<Longrightarrow>
   (w = k \<and> d = x) \<or> (\<exists>ls'. (w, ls') \<in> set m \<and> d \<in> set ls')"
proof -
  have "(w, ls) \<in> set (AList.update k (xs @ [x]) m) \<Longrightarrow> d \<in> set ls \<Longrightarrow>
      xs = (case map_of m k of None \<Rightarrow> [] | Some ys \<Rightarrow> ys) \<Longrightarrow>
      (w = k \<and> d = x) \<or> (\<exists>ls'. (w, ls') \<in> set m \<and> d \<in> set ls')" for xs
    by (induction m) (auto split: if_splits)
  then show "(w, ls) \<in> set (push k x m) \<Longrightarrow> d \<in> set ls \<Longrightarrow>
      (w = k \<and> d = x) \<or> (\<exists>ls'. (w, ls') \<in> set m \<and> d \<in> set ls')" by (simp add: push_def)
qed

lemma take_slots_drawn:
  assumes "take_slots cands demand w slots (need, left, lines) = (need', left', lines')"
    and "list_all (fits cands demand w) slots" and "all_drawn cands lines"
  shows "all_drawn cands lines'"
  using assms
proof (induction slots arbitrary: need left lines)
  case Nil
  then show ?case by simp
next
  case (Cons slot slots)
  consider "need \<le> 0" | "0 < need" "left ! slot \<le> 0" | "0 < need" "0 < left ! slot" by linarith
  then show ?case
  proof cases
    case 1
    then show ?thesis using Cons.prems by (simp add: take_slots_step)
  next
    case 2
    then show ?thesis using Cons by (simp add: take_slots_step)
  next
    case 3
    let ?d = "draft cands demand slot (min need (left ! slot))"
    have run: "take_slots cands demand w slots (need - min need (left ! slot),
       left[slot := left ! slot - min need (left ! slot)], push w ?d lines) = (need', left', lines')"
      using Cons.prems(1) 3 by (simp add: take_slots_step)
    have "drawn cands w ?d"
      using Cons.prems(2) 3 unfolding drawn_def
      by (auto simp: fits_def draft_def candidate_key_def line_stock_key_def intro!: bexI [of _ "cands ! slot"])
    then have "all_drawn cands (push w ?d lines)"
      using Cons.prems(3) push_entries by (fastforce simp: all_drawn_def)
    with Cons.IH [OF run] Cons.prems(2) show ?thesis by simp
  qed
qed

lemma allocate_all_drawn:
  assumes "fold (allocate_demand cands fefo) demands (left, lines, shortages) = (left', lines', shortages')"
    and "all_drawn cands lines"
  shows "all_drawn cands lines'"
  using assms
proof (induction demands arbitrary: left lines shortages)
  case Nil
  then show ?case by simp
next
  case (Cons demand demands)
  obtain left1 lines1 shortages1 where
    one: "allocate_demand cands fefo demand (left, lines, shortages) = (left1, lines1, shortages1)"
    by (cases "allocate_demand cands fefo demand (left, lines, shortages)")
  with Cons.prems(1) have rest: "fold (allocate_demand cands fefo) demands (left1, lines1, shortages1) =
      (left', lines', shortages')" by simp
  have "all_drawn cands lines1"
  proof (cases "demand_source cands demand left")
    case None
    with one Cons.prems(2) show ?thesis by (auto simp: allocate_demand_def)
  next
    case (Some w)
    then obtain need where "take_slots cands demand w (demand_order cands fefo demand w)
        (pd_qty demand, left, lines) = (need, left1, lines1)"
      using one by (auto simp: allocate_demand_def split: prod.splits)
    from take_slots_drawn [OF this demand_order_fits Cons.prems(2)] show ?thesis .
  qed
  with Cons.IH [OF rest] show ?case by simp
qed

lemma number_lines_drawn: "d \<in> set (number_lines ls) \<Longrightarrow> \<exists>d' \<in> set ls. \<exists>n. d = d'\<lparr>dr_lineNo := n\<rparr>"
  by (auto simp: number_lines_def dest!: set_zip_rightD)

lemma allocation_drawn:
  assumes "o' \<in> set (al_orders (allocatePicking demands cands fefo))" and "d \<in> set (od_lines o')"
  shows "drawn cands (od_warehouseId o') d"
proof -
  obtain left lines shortages where run:
    "fold (allocate_demand cands fefo) demands (map sc_availableQty cands, [], []) = (left, lines, shortages)"
    by (cases "fold (allocate_demand cands fefo) demands (map sc_availableQty cands, [], [])")
  have "all_drawn cands lines" by (rule allocate_all_drawn [OF run]) (simp add: all_drawn_def)
  with assms number_lines_drawn show ?thesis
    by (fastforce simp: allocatePicking_def run all_drawn_def drawn_def line_stock_key_def)
qed

section \<open>Properties\<close>

text \<open>A picking line always names stock that can be picked: whatever the demands, each line of an
  allocation is for the LOT, location, item and unit of a balance that is of normal quality, available
  and positive, whose LOT is not on hold, in an active warehouse of the plant (the given one, or one of
  the material type).\<close>
lemma allocated_lines_pickable:
  assumes "o' \<in> set (al_orders (allocateStock db plant warehouse demands))" and "d \<in> set (od_lines o')"
  shows "0 < dr_plannedQty d \<and> source_filter db plant warehouse (od_warehouseId o') \<and>
    (\<exists>r \<in> set (stock db). PICKABLE_BALANCE db r \<and> warehouseId (dim r) = od_warehouseId o' \<and>
       lotId (dim r) = Some (dr_lotId d) \<and> locationId (dim r) = dr_locationId d \<and>
       itemId (dim r) = dr_itemId d \<and> balance_uom_id r = dr_uomId d)"
proof -
  from allocation_drawn [OF assms [unfolded allocateStock_def Let_def]]
  obtain r c where pos: "0 < dr_plannedQty d" and r: "r \<in> set (stock db)" "PICKABLE_BALANCE db r"
      "source_filter db plant warehouse (warehouseId (dim r))"
    and c: "c \<in> set (stock_candidate db r)" "candidate_key c = line_stock_key (od_warehouseId o') d"
    by (auto simp: drawn_def)
  from c have "warehouseId (dim r) = od_warehouseId o' \<and> lotId (dim r) = Some (dr_lotId d) \<and>
      locationId (dim r) = dr_locationId d \<and> itemId (dim r) = dr_itemId d \<and> balance_uom_id r = dr_uomId d"
    by (auto simp: stock_candidate_def candidate_key_def line_stock_key_def split: option.splits)
  with pos r show ?thesis by auto
qed

definition example_log :: log_db where
  "example_log =
     \<lparr>stock = [\<lparr>balance_id = 1,
         dim = \<lparr>legalEntityId = 1, businessUnitId = 1, plantId = 1, warehouseId = 5, locationId = 7,
           itemId = 3, lotId = Some 9, qualityStatusCode = ''NORMAL'', inventoryStatusCode = ''AVAILABLE'',
           ownershipTypeCode = ''OWN'', ownerPartnerId = None\<rparr>,
         on_hand_qty = 10, reserved_qty = 0, picked_qty = 0, blocked_qty = 0, balance_uom_id = 1,
         last_transaction_at = None, balance_version_no = 1\<rparr>],
      lots = (\<lambda>l. if l = 9 then Some \<lparr>lf_expiry_date = None, lf_created_at = 50\<rparr> else None),
      open_holds = [],
      warehouse_of = (\<lambda>w. if w = 5 then Some \<lparr>wh_plant_id = 1, wh_type_code = ''MATERIAL'',
         wh_is_active = True, wh_code = ''W5'', wh_name = ''W5''\<rparr> else None),
      locations = [\<lparr>loc_id = 7, loc_warehouse_id = 5, loc_is_active = True, loc_system_role_code = None\<rparr>],
      department_warehouses = [(4, 5)],
      line_of = (\<lambda>l. if l = 2 then Some \<lparr>ln_department_id = Some 4, ln_default_wip_location_id = Some 7\<rparr> else None),
      work_order_of = (\<lambda>w. if w = 8 then Some \<lparr>wo_plant_id = Some 1, wo_department_id = Some 4,
         wo_worker_id = None\<rparr> else None),
      fefo_item = (\<lambda>i. False),
      requests = [\<lparr>rq_id = 1, rq_no = ''MI-1'', rq_type_code = ''WORK_ORDER'', rq_status_code = ''WAITING'',
         rq_work_order_id = Some 8, rq_source_warehouse_id = Some 5, rq_destination_location_id = 7,
         rq_issue_work_date = Some 20, rq_closed_at = None, rq_close_reason_code = None,
         rq_close_reason_detail_code = None, rq_close_remark = None, rq_closed_by = None,
         rq_cancelled_at = None, rq_cancelled_by = None, rq_released_at = None,
         rq_release_attempted_at = None, rq_release_error_text = None, rq_origin_code = None,
         rq_run_id = None, rq_requested_by = None, rq_remarks = None, rq_created_by = None, rq_updated_at = 0,
         rq_updated_by = None, rq_version_no = 1\<rparr>],
      request_lines = [\<lparr>rl_id = 11, rl_request_id = 1, rl_line_no = 1, rl_item_id = 3, rl_uom_id = 1,
         rl_requested_qty = 4, rl_issued_qty = 0, rl_shortage_qty = 0, rl_created_by = None\<rparr>],
      picking_orders = [], picking_lines = [], audit_events = [],
      picking_order_seq = 1, picking_line_seq = 1, request_seq = 2, request_line_seq = 12\<rparr>"

definition example_log_demand :: PickingDemand where
  "example_log_demand = \<lparr>pd_lineNo = 1, pd_itemId = 3, pd_uomId = 1, pd_qty = 4\<rparr>"

lemma allocated_lines_pickable_example:
  "\<exists>o' \<in> set (al_orders (allocateStock example_log 1 None [example_log_demand])).
     \<exists>d \<in> set (od_lines o'). 0 < dr_plannedQty d \<and> source_filter example_log 1 None (od_warehouseId o')"
proof -
  have "map (\<lambda>o'. map dr_lotId (od_lines o')) (al_orders (allocateStock example_log 1 None [example_log_demand]))
      = [[9]]" by code_simp
  then obtain o' d where "o' \<in> set (al_orders (allocateStock example_log 1 None [example_log_demand]))"
    and "d \<in> set (od_lines o')" by (auto simp: map_eq_Cons_conv)
  with allocated_lines_pickable [OF this] show ?thesis by blast
qed

end
