(* ===== verification/Request_Lifecycle.thy ===== *)
theory Request_Lifecycle
  imports Document_State Picking_Generation
begin

text \<open>
  \<open>src/core/material-issue/request-lifecycle.ts\<close>: the progress of a material issue request, closing
  its picking orders, closing what remains of it, and what a cancelled or closed work order does to its
  requests. Every status change goes through \<open>assertTransition\<close> on the registry.
\<close>

section \<open>Progress\<close>

record RequestProgress =
  pg_picked :: "(id \<times> decimal) list"
  pg_issued :: "(id \<times> decimal) list"
  pg_started :: bool
  pg_inFlight :: bool

definition order_status :: "log_db \<Rightarrow> id \<Rightarrow> code option" where
  "order_status db oid = map_option po_status_code (find (\<lambda>o'. po_id o' = oid) (picking_orders db))"

text \<open>The picking lines of a request line whose order is not cancelled.\<close>

definition live_lines :: "log_db \<Rightarrow> id \<Rightarrow> picking_line_row list" where
  "live_lines db rl =
     filter (\<lambda>p. pkl_request_line_id p = Some rl \<and> order_status db (pkl_picking_order_id p) \<noteq> None \<and>
                 order_status db (pkl_picking_order_id p) \<noteq> Some ''CANCELLED'') (picking_lines db)"

definition picked_sum :: "log_db \<Rightarrow> id \<Rightarrow> decimal" where
  "picked_sum db rl = sum_list (map pkl_picked_qty (live_lines db rl))"

definition lines_of_request :: "log_db \<Rightarrow> id \<Rightarrow> request_line_row list" where
  "lines_of_request db requestId = filter (\<lambda>l. rl_request_id l = requestId) (request_lines db)"

definition requestProgress :: "log_db \<Rightarrow> id \<Rightarrow> RequestProgress" where
  "requestProgress db requestId =
     (let ls = lines_of_request db requestId in
      \<lparr>pg_picked = map (\<lambda>l. (rl_id l, picked_sum db (rl_id l))) ls,
       pg_issued = map (\<lambda>l. (rl_id l, rl_issued_qty l)) ls,
       pg_started = list_ex (\<lambda>l. picked_sum db (rl_id l) > 0 \<or> rl_issued_qty l > 0) ls,
       pg_inFlight = list_ex (\<lambda>l. picked_sum db (rl_id l) > rl_issued_qty l) ls\<rparr>)"

section \<open>Closing the picking orders of a request\<close>

definition open_orders :: "log_db \<Rightarrow> id \<Rightarrow> picking_order_row list" where
  "open_orders db requestId =
     filter (\<lambda>o'. po_source_document_type_code o' = ''MATERIAL_ISSUE_REQUEST'' \<and>
                  po_source_document_id o' = requestId \<and> po_status_code o' = ''REGISTERED'')
       (picking_orders db)"

definition order_lines :: "log_db \<Rightarrow> id \<Rightarrow> picking_line_row list" where
  "order_lines db oid = filter (\<lambda>p. pkl_picking_order_id p = oid) (picking_lines db)"

definition set_order_status :: "log_db \<Rightarrow> id \<Rightarrow> code \<Rightarrow> id option \<Rightarrow> log_db" where
  "set_order_status db oid status appUserId =
     db\<lparr>picking_orders := map (\<lambda>o'. if po_id o' = oid
          then o'\<lparr>po_status_code := status, po_updated_by := appUserId, po_version_no := po_version_no o' + 1\<rparr>
          else o') (picking_orders db)\<rparr>"

abbreviation PICKING_STATUS :: string where
  "PICKING_STATUS \<equiv> ''logistics.picking_order.status_code''"

abbreviation REQUEST_STATUS :: string where
  "REQUEST_STATUS \<equiv> ''logistics.material_issue_request.status_code''"

text \<open>\<open>close_order\<close> is the loop body; \<open>lines\<close> are the order's lines as the query before the loop read
  them. The second loop writes \<open>planned_qty\<close> line by line; the rows are distinct, so the model writes
  them together.\<close>

definition close_order ::
  "TransitionRegistry \<Rightarrow> id option \<Rightarrow> picking_order_row \<times> picking_line_row list \<Rightarrow> log_db \<Rightarrow> log_db res" where
  "close_order registry appUserId ol db =
     (case ol of (order, lines) \<Rightarrow>
        if list_all (\<lambda>l. pkl_picked_qty l \<le> 0) lines then
          bind_res (assertTransition registry PICKING_STATUS ''picking-cancel'' (po_status_code order) CONFLICT)
            (\<lambda>transition. Inr (set_order_status db (po_id order) (tr_to transition) appUserId))
        else
          let untouched = map pkl_id (filter (\<lambda>l. pkl_picked_qty l \<le> 0) lines);
              kept = map (\<lambda>l. (pkl_id l, pkl_picked_qty l)) (filter (\<lambda>l. pkl_picked_qty l > 0) lines)
          in Inr (db\<lparr>picking_lines :=
               map (\<lambda>p. case map_of kept (pkl_id p) of None \<Rightarrow> p | Some q \<Rightarrow> p\<lparr>pkl_planned_qty := q\<rparr>)
                 (filter (\<lambda>p. pkl_id p \<notin> set untouched) (picking_lines db))\<rparr>))"

definition closePickings :: "TransitionRegistry \<Rightarrow> log_db \<Rightarrow> id \<Rightarrow> id option \<Rightarrow> log_db res" where
  "closePickings registry db requestId appUserId =
     fold_res (close_order registry appUserId)
       (map (\<lambda>o'. (o', order_lines db (po_id o'))) (open_orders db requestId)) db"

definition finish_order ::
  "TransitionRegistry \<Rightarrow> id option \<Rightarrow> picking_order_row \<Rightarrow> log_db \<Rightarrow> log_db res" where
  "finish_order registry appUserId order db =
     bind_res (assertTransition registry PICKING_STATUS ''picking-issue'' (po_status_code order) CONFLICT)
       (\<lambda>transition. Inr (set_order_status db (po_id order) (tr_to transition) appUserId))"

definition finishPickings :: "TransitionRegistry \<Rightarrow> log_db \<Rightarrow> id \<Rightarrow> id option \<Rightarrow> log_db res" where
  "finishPickings registry db requestId appUserId =
     fold_res (finish_order registry appUserId) (open_orders db requestId) db"

definition requestTransition :: "TransitionRegistry \<Rightarrow> string \<Rightarrow> code \<Rightarrow> code res" where
  "requestTransition registry action src =
     bind_res (assertTransition registry REQUEST_STATUS action src CONFLICT) (\<lambda>t. Inr (tr_to t))"

section \<open>History and closing\<close>

definition recordRequestAudit ::
  "log_db \<Rightarrow> id \<Rightarrow> code \<Rightarrow> id option \<Rightarrow> string option \<Rightarrow> string option \<Rightarrow> int \<Rightarrow> log_db" where
  "recordRequestAudit db requestId action actorId reason after tm =
     db\<lparr>audit_events := audit_events db @
          [\<lparr>au_occurred_at = tm, au_target_id = requestId,
            au_event_type_code = (if action = ''CREATED'' then ''CREATE'' else ''UPDATE''),
            au_performed_by = actorId, au_event_code = action, au_reason = reason, au_after = after\<rparr>]\<rparr>"

definition update_request :: "log_db \<Rightarrow> id \<Rightarrow> (request_row \<Rightarrow> request_row) \<Rightarrow> log_db res" where
  "update_request db requestId f =
     (if list_ex (\<lambda>r. rq_id r = requestId) (requests db)
      then Inr (db\<lparr>requests := map (\<lambda>r. if rq_id r = requestId then f r else r) (requests db)\<rparr>)
      else Inl (DbError P2025))"

definition stateLocked :: app_error where
  "stateLocked = ContractException CONFLICT [screen_item ''STATE_LOCKED''] []"

definition closeRemaining ::
  "TransitionRegistry \<Rightarrow> int \<Rightarrow> log_db \<Rightarrow> id \<Rightarrow> code \<Rightarrow> string option \<Rightarrow> id \<Rightarrow> log_db res" where
  "closeRemaining registry now db requestId reasonCode remark appUserId =
     (let progress = requestProgress db requestId in
      if \<not> pg_started progress then Inl stateLocked
      else if pg_inFlight progress then Inl stateLocked
      else
        bind_res (closePickings registry db requestId (Some appUserId)) (\<lambda>db1.
        bind_res (finishPickings registry db1 requestId (Some appUserId)) (\<lambda>db2.
        bind_res (update_request db2 requestId (\<lambda>r. r\<lparr>rq_closed_at := Some now,
            rq_close_reason_code := Some ''REMAINDER_CLOSED'', rq_close_reason_detail_code := Some reasonCode,
            rq_close_remark := remark, rq_closed_by := Some appUserId, rq_updated_at := now,
            rq_updated_by := Some appUserId, rq_version_no := rq_version_no r + 1\<rparr>)) (\<lambda>db3.
          Inr (recordRequestAudit db3 requestId ''CLOSED'' (Some appUserId) (Some reasonCode) remark now)))))"

section \<open>A work order is cancelled or closed\<close>

definition open_requests :: "log_db \<Rightarrow> id \<Rightarrow> request_row list" where
  "open_requests db workOrderId =
     filter (\<lambda>r. rq_work_order_id r = Some workOrderId \<and> rq_source_warehouse_id r \<noteq> None \<and>
                 rq_status_code r \<in> {''WAITING'', ''REGISTERED''} \<and> rq_closed_at r = None) (requests db)"

definition settle_request ::
  "TransitionRegistry \<Rightarrow> int \<Rightarrow> code \<Rightarrow> id option \<Rightarrow> request_row \<Rightarrow> log_db \<Rightarrow> log_db res" where
  "settle_request registry now reason appUserId request db =
     (let progress = requestProgress db (rq_id request) in
      bind_res (closePickings registry db (rq_id request) appUserId) (\<lambda>db1.
      bind_res
        (if pg_started progress
         then Inr (\<lambda>r. r\<lparr>rq_closed_at := Some now, rq_close_reason_code := Some reason\<rparr>)
         else bind_res (requestTransition registry ''material-issue-request-cancel'' (rq_status_code request))
                (\<lambda>status. Inr (\<lambda>r. r\<lparr>rq_status_code := status, rq_cancelled_at := Some now,
                                    rq_cancelled_by := appUserId\<rparr>)))
        (\<lambda>f.
      bind_res (update_request db1 (rq_id request) (\<lambda>r. (f r)\<lparr>rq_updated_at := now,
          rq_updated_by := appUserId, rq_version_no := rq_version_no r + 1\<rparr>)) (\<lambda>db2.
        Inr (recordRequestAudit db2 (rq_id request) (if pg_started progress then ''CLOSED'' else ''CANCELLED'')
               appUserId (Some reason) None now)))))"

text \<open>Without another transaction in between, the rows re-read under the lock are those of the first
  query.\<close>

definition settleWorkOrderRequests ::
  "TransitionRegistry \<Rightarrow> int \<Rightarrow> log_db \<Rightarrow> id \<Rightarrow> code \<Rightarrow> id option \<Rightarrow> log_db res" where
  "settleWorkOrderRequests registry now db workOrderId reason appUserId =
     fold_res (settle_request registry now reason appUserId) (open_requests db workOrderId) db"

section \<open>The transitions the code fires\<close>

lemma picking_transitions:
  "\<exists>t. assertTransition TRANSITIONS PICKING_STATUS ''picking-cancel'' ''REGISTERED'' CONFLICT = Inr t \<and>
     tr_to t = ''CANCELLED''"
  "\<exists>t. assertTransition TRANSITIONS PICKING_STATUS ''picking-issue'' ''REGISTERED'' CONFLICT = Inr t \<and>
     tr_to t = ''POSTED''"
proof -
  have "map_sum id tr_to (assertTransition TRANSITIONS PICKING_STATUS ''picking-cancel'' ''REGISTERED'' CONFLICT) =
      Inr ''CANCELLED''" by code_simp
  then show "\<exists>t. assertTransition TRANSITIONS PICKING_STATUS ''picking-cancel'' ''REGISTERED'' CONFLICT = Inr t \<and>
     tr_to t = ''CANCELLED''"
    by (cases "assertTransition TRANSITIONS PICKING_STATUS ''picking-cancel'' ''REGISTERED'' CONFLICT") auto
  have "map_sum id tr_to (assertTransition TRANSITIONS PICKING_STATUS ''picking-issue'' ''REGISTERED'' CONFLICT) =
      Inr ''POSTED''" by code_simp
  then show "\<exists>t. assertTransition TRANSITIONS PICKING_STATUS ''picking-issue'' ''REGISTERED'' CONFLICT = Inr t \<and>
     tr_to t = ''POSTED''"
    by (cases "assertTransition TRANSITIONS PICKING_STATUS ''picking-issue'' ''REGISTERED'' CONFLICT") auto
qed

lemma request_cancel:
  assumes "s \<in> {''WAITING'', ''REGISTERED''}"
  shows "requestTransition TRANSITIONS ''material-issue-request-cancel'' s = Inr ''CANCELLED''"
proof -
  have "requestTransition TRANSITIONS ''material-issue-request-cancel'' ''WAITING'' = Inr ''CANCELLED''"
    "requestTransition TRANSITIONS ''material-issue-request-cancel'' ''REGISTERED'' = Inr ''CANCELLED''"
    by code_simp+
  with assms show ?thesis by auto
qed

section \<open>Closing picking orders\<close>

definition wf_picking :: "log_db \<Rightarrow> bool" where
  "wf_picking db \<longleftrightarrow> distinct (map po_id (picking_orders db)) \<and> distinct (map pkl_id (picking_lines db)) \<and>
     list_all (\<lambda>p. 0 \<le> pkl_picked_qty p) (picking_lines db)"

definition live :: "log_db \<Rightarrow> id \<Rightarrow> picking_line_row \<Rightarrow> bool" where
  "live db rl p \<longleftrightarrow> pkl_request_line_id p = Some rl \<and> order_status db (pkl_picking_order_id p) \<noteq> None \<and>
     order_status db (pkl_picking_order_id p) \<noteq> Some ''CANCELLED''"

lemma picked_sum_alt:
  "picked_sum db rl = sum_list (map (\<lambda>p. if live db rl p then pkl_picked_qty p else 0) (picking_lines db))"
  by (simp add: picked_sum_def live_lines_def live_def sum_list_map_filter')

lemma order_status_set:
  "order_status (set_order_status db oid status who) i =
     (if i = oid then map_option (\<lambda>_. status) (order_status db i) else order_status db i)"
proof -
  let ?set = "\<lambda>o'. if po_id o' = oid
    then o'\<lparr>po_status_code := status, po_updated_by := who, po_version_no := po_version_no o' + 1\<rparr> else o'"
  have "map_option po_status_code (find (\<lambda>o'. po_id o' = i) (map ?set os)) =
    (if i = oid then map_option (\<lambda>_. status) (map_option po_status_code (find (\<lambda>o'. po_id o' = i) os))
     else map_option po_status_code (find (\<lambda>o'. po_id o' = i) os))" for os
    by (induction os) auto
  then have step: "map_option po_status_code (find (\<lambda>o'. po_id o' = i) (map ?set (picking_orders db))) =
    (if i = oid then map_option (\<lambda>_. status) (map_option po_status_code (find (\<lambda>o'. po_id o' = i) (picking_orders db)))
     else map_option po_status_code (find (\<lambda>o'. po_id o' = i) (picking_orders db)))" .
  have "picking_orders (set_order_status db oid status who) = map ?set (picking_orders db)"
    by (simp add: set_order_status_def)
  then show ?thesis unfolding order_status_def by (simp only: step)
qed

text \<open>What one step of closing keeps, and what it establishes for its order.\<close>

definition settled :: "log_db \<Rightarrow> id \<Rightarrow> bool" where
  "settled db oid \<longleftrightarrow> order_status db oid \<noteq> Some ''REGISTERED'' \<or>
     (order_lines db oid \<noteq> [] \<and>
      list_all (\<lambda>p. 0 < pkl_picked_qty p \<and> pkl_planned_qty p = pkl_picked_qty p) (order_lines db oid))"

definition picking_only :: "log_db \<Rightarrow> log_db \<Rightarrow> bool" where
  "picking_only db db' \<longleftrightarrow>
     db' = db\<lparr>picking_orders := picking_orders db', picking_lines := picking_lines db'\<rparr> \<and>
     map (\<lambda>o'. (po_id o', po_source_document_type_code o', po_source_document_id o')) (picking_orders db') =
       map (\<lambda>o'. (po_id o', po_source_document_type_code o', po_source_document_id o')) (picking_orders db) \<and>
     (\<forall>rl. picked_sum db' rl = picked_sum db rl)"

lemma picking_only_refl [simp]: "picking_only db db"
  by (simp add: picking_only_def)

lemma picking_only_keys:
  "picking_only db db' \<Longrightarrow>
   map (\<lambda>o'. (po_id o', po_source_document_type_code o', po_source_document_id o')) (picking_orders db') =
     map (\<lambda>o'. (po_id o', po_source_document_type_code o', po_source_document_id o')) (picking_orders db)"
  unfolding picking_only_def by (elim conjE)

lemma picking_only_trans: "picking_only a b \<Longrightarrow> picking_only b c \<Longrightarrow> picking_only a c"
  unfolding picking_only_def by (cases a; cases b; cases c) simp

lemma picking_only_progress:
  assumes "picking_only db db'"
  shows "requestProgress db' r = requestProgress db r" and "requests db' = requests db"
    and "request_lines db' = request_lines db" and "audit_events db' = audit_events db"
proof -
  show same: "requests db' = requests db" "request_lines db' = request_lines db" "audit_events db' = audit_events db"
    using assms unfolding picking_only_def by (cases db; cases db'; simp)+
  show "requestProgress db' r = requestProgress db r"
    using assms by (simp add: requestProgress_def lines_of_request_def same picking_only_def)
qed

lemma set_status_step:
  assumes "wf_picking db" and "order_status db oid = Some ''REGISTERED''"
    and "status = ''CANCELLED'' \<Longrightarrow> list_all (\<lambda>p. pkl_picked_qty p \<le> 0) (order_lines db oid)"
    and "status \<noteq> ''REGISTERED''"
  shows "wf_picking (set_order_status db oid status who)"
    and "picking_only db (set_order_status db oid status who)"
    and "order_lines (set_order_status db oid status who) i = order_lines db i"
    and "i \<noteq> oid \<Longrightarrow> order_status (set_order_status db oid status who) i = order_status db i"
    and "order_status (set_order_status db oid status who) oid = Some status"
proof -
  let ?db' = "set_order_status db oid status who"
  have lines: "picking_lines ?db' = picking_lines db" by (simp add: set_order_status_def)
  have ids: "map (\<lambda>o'. (po_id o', po_source_document_type_code o', po_source_document_id o')) (picking_orders ?db') =
      map (\<lambda>o'. (po_id o', po_source_document_type_code o', po_source_document_id o')) (picking_orders db)"
    by (simp add: set_order_status_def)
  have "map fst (map (\<lambda>o'. (po_id o', po_source_document_type_code o', po_source_document_id o')) (picking_orders ?db')) =
      map fst (map (\<lambda>o'. (po_id o', po_source_document_type_code o', po_source_document_id o')) (picking_orders db))"
    by (simp only: ids)
  then have po: "map po_id (picking_orders ?db') = map po_id (picking_orders db)" by (simp add: comp_def)
  show "wf_picking ?db'" using assms(1) unfolding wf_picking_def lines po .
  have "(if live ?db' rl p then pkl_picked_qty p else 0) = (if live db rl p then pkl_picked_qty p else 0)"
    if "p \<in> set (picking_lines db)" for rl p
  proof (cases "pkl_picking_order_id p = oid \<and> status = ''CANCELLED''")
    case True
    with assms(3) that have "pkl_picked_qty p \<le> 0" by (auto simp: order_lines_def list_all_iff)
    with assms(1) that have "pkl_picked_qty p = 0" by (auto simp: wf_picking_def list_all_iff intro: antisym)
    then show ?thesis by simp
  next
    case False
    with assms(2) have "live ?db' rl p = live db rl p" by (auto simp: live_def order_status_set)
    then show ?thesis by simp
  qed
  then have "picked_sum ?db' rl = picked_sum db rl" for rl
    unfolding picked_sum_alt lines by (intro arg_cong [where f = sum_list] map_cong) auto
  moreover have "?db' = db\<lparr>picking_orders := picking_orders ?db', picking_lines := picking_lines ?db'\<rparr>"
    by (cases db) (simp add: set_order_status_def)
  ultimately show "picking_only db ?db'" unfolding picking_only_def using ids by blast
  show "order_lines ?db' i = order_lines db i" by (simp add: order_lines_def lines)
  show "i \<noteq> oid \<Longrightarrow> order_status ?db' i = order_status db i" by (simp add: order_status_set)
  show "order_status ?db' oid = Some status" using assms(2) by (simp add: order_status_set)
qed

definition shrink :: "picking_line_row list \<Rightarrow> picking_line_row list \<Rightarrow> picking_line_row list" where
  "shrink lines all =
     map (\<lambda>p. case map_of (map (\<lambda>l. (pkl_id l, pkl_picked_qty l)) (filter (\<lambda>l. pkl_picked_qty l > 0) lines)) (pkl_id p) of
            None \<Rightarrow> p | Some q \<Rightarrow> p\<lparr>pkl_planned_qty := q\<rparr>)
       (filter (\<lambda>p. pkl_id p \<notin> set (map pkl_id (filter (\<lambda>l. pkl_picked_qty l \<le> 0) lines))) all)"

text \<open>Shrinking touches the lines of its own order only: unpicked ones go, picked ones are planned as
  picked.\<close>

lemma shrink_line:
  assumes "distinct (map pkl_id all)" and "p \<in> set all"
  shows "(case map_of (map (\<lambda>l. (pkl_id l, pkl_picked_qty l))
            (filter (\<lambda>l. pkl_picked_qty l > 0) (filter (\<lambda>p. pkl_picking_order_id p = oid) all))) (pkl_id p) of
          None \<Rightarrow> p | Some q \<Rightarrow> p\<lparr>pkl_planned_qty := q\<rparr>) =
      (if pkl_picking_order_id p = oid \<and> 0 < pkl_picked_qty p then p\<lparr>pkl_planned_qty := pkl_picked_qty p\<rparr> else p)"
    and "pkl_id p \<in> set (map pkl_id (filter (\<lambda>l. pkl_picked_qty l \<le> 0)
            (filter (\<lambda>p. pkl_picking_order_id p = oid) all))) \<longleftrightarrow>
      pkl_picking_order_id p = oid \<and> pkl_picked_qty p \<le> 0"
proof -
  let ?f = "filter (\<lambda>l. pkl_picked_qty l > 0) (filter (\<lambda>p. pkl_picking_order_id p = oid) all)"
  have inj: "x = y" if "x \<in> set all" "y \<in> set all" "pkl_id x = pkl_id y" for x y
    using assms(1) that by (auto simp: distinct_map inj_on_def)
  have "distinct (map pkl_id ?f)" using assms(1) by (simp add: distinct_map_filter)
  then have dist: "distinct (map fst (map (\<lambda>l. (pkl_id l, pkl_picked_qty l)) ?f))" by (simp add: comp_def)
  have "map_of (map (\<lambda>l. (pkl_id l, pkl_picked_qty l)) ?f) (pkl_id p) =
      (if pkl_picking_order_id p = oid \<and> 0 < pkl_picked_qty p then Some (pkl_picked_qty p) else None)"
  proof (cases "pkl_picking_order_id p = oid \<and> 0 < pkl_picked_qty p")
    case True
    then have "(pkl_id p, pkl_picked_qty p) \<in> set (map (\<lambda>l. (pkl_id l, pkl_picked_qty l)) ?f)"
      using assms(2) by auto
    with dist True show ?thesis by (simp add: map_of_eq_Some_iff del: map_map)
  next
    case False
    then have "pkl_id p \<notin> pkl_id ` set ?f" using inj assms(2) by auto
    with False show ?thesis by (force simp: map_of_eq_None_iff)
  qed
  then show "(case map_of (map (\<lambda>l. (pkl_id l, pkl_picked_qty l)) ?f) (pkl_id p) of
          None \<Rightarrow> p | Some q \<Rightarrow> p\<lparr>pkl_planned_qty := q\<rparr>) =
      (if pkl_picking_order_id p = oid \<and> 0 < pkl_picked_qty p then p\<lparr>pkl_planned_qty := pkl_picked_qty p\<rparr> else p)"
    by simp
  show "pkl_id p \<in> set (map pkl_id (filter (\<lambda>l. pkl_picked_qty l \<le> 0)
            (filter (\<lambda>p. pkl_picking_order_id p = oid) all))) \<longleftrightarrow>
      pkl_picking_order_id p = oid \<and> pkl_picked_qty p \<le> 0"
    using inj assms(2) by auto
qed

lemma shrink_eq:
  assumes "distinct (map pkl_id all)"
  shows "shrink (filter (\<lambda>p. pkl_picking_order_id p = oid) all) all =
    map (\<lambda>p. if pkl_picking_order_id p = oid then p\<lparr>pkl_planned_qty := pkl_picked_qty p\<rparr> else p)
      (filter (\<lambda>p. pkl_picking_order_id p = oid \<longrightarrow> 0 < pkl_picked_qty p) all)"
proof -
  have "filter (\<lambda>p. pkl_id p \<notin> set (map pkl_id (filter (\<lambda>l. pkl_picked_qty l \<le> 0)
            (filter (\<lambda>p. pkl_picking_order_id p = oid) all)))) all =
      filter (\<lambda>p. pkl_picking_order_id p = oid \<longrightarrow> 0 < pkl_picked_qty p) all"
    by (rule filter_cong [OF refl]) (simp only: shrink_line(2) [OF assms], auto)
  then have "shrink (filter (\<lambda>p. pkl_picking_order_id p = oid) all) all =
      map (\<lambda>p. case map_of (map (\<lambda>l. (pkl_id l, pkl_picked_qty l))
            (filter (\<lambda>l. pkl_picked_qty l > 0) (filter (\<lambda>p. pkl_picking_order_id p = oid) all))) (pkl_id p) of
          None \<Rightarrow> p | Some q \<Rightarrow> p\<lparr>pkl_planned_qty := q\<rparr>)
        (filter (\<lambda>p. pkl_picking_order_id p = oid \<longrightarrow> 0 < pkl_picked_qty p) all)"
    unfolding shrink_def by (rule arg_cong)
  also have "\<dots> = map (\<lambda>p. if pkl_picking_order_id p = oid then p\<lparr>pkl_planned_qty := pkl_picked_qty p\<rparr> else p)
      (filter (\<lambda>p. pkl_picking_order_id p = oid \<longrightarrow> 0 < pkl_picked_qty p) all)"
  proof (rule map_cong [OF refl])
    fix p
    assume "p \<in> set (filter (\<lambda>p. pkl_picking_order_id p = oid \<longrightarrow> 0 < pkl_picked_qty p) all)"
    then have p: "p \<in> set all" "pkl_picking_order_id p = oid \<longrightarrow> 0 < pkl_picked_qty p" by auto
    show "(case map_of (map (\<lambda>l. (pkl_id l, pkl_picked_qty l))
            (filter (\<lambda>l. pkl_picked_qty l > 0) (filter (\<lambda>p. pkl_picking_order_id p = oid) all))) (pkl_id p) of
          None \<Rightarrow> p | Some q \<Rightarrow> p\<lparr>pkl_planned_qty := q\<rparr>) =
        (if pkl_picking_order_id p = oid then p\<lparr>pkl_planned_qty := pkl_picked_qty p\<rparr> else p)"
      unfolding shrink_line(1) [OF assms p(1)] using p(2) by auto
  qed
  finally show ?thesis .
qed

lemma close_order_shrink:
  "close_order registry who (order, lines) db =
     (if list_all (\<lambda>l. pkl_picked_qty l \<le> 0) lines then
        bind_res (assertTransition registry PICKING_STATUS ''picking-cancel'' (po_status_code order) CONFLICT)
          (\<lambda>transition. Inr (set_order_status db (po_id order) (tr_to transition) who))
      else Inr (db\<lparr>picking_lines := shrink lines (picking_lines db)\<rparr>))"
  by (simp add: close_order_def shrink_def Let_def)


lemma open_order_facts:
  assumes "wf_picking db" and "order \<in> set (open_orders db r)"
  shows "order_status db (po_id order) = Some ''REGISTERED''" and "po_status_code order = ''REGISTERED''"
proof -
  from assms(2) have o': "order \<in> set (picking_orders db)" "po_status_code order = ''REGISTERED''"
    by (auto simp: open_orders_def)
  then show "po_status_code order = ''REGISTERED''" by simp
  have "find (\<lambda>o'. po_id o' = po_id order) (picking_orders db) = Some order"
    by (rule find_by_key [OF _ o'(1)]) (use assms(1) in \<open>simp add: wf_picking_def\<close>)
  with o'(2) show "order_status db (po_id order) = Some ''REGISTERED''" by (simp add: order_status_def)
qed

text \<open>One iteration, run on the order as first read: it succeeds, settles its order, and every other order
  and its lines stay.\<close>

lemma close_order_step:
  assumes "wf_picking db" and "order_status db (po_id order) = Some ''REGISTERED''"
    and "po_status_code order = ''REGISTERED''"
  shows "\<exists>db'. close_order TRANSITIONS who (order, order_lines db (po_id order)) db = Inr db' \<and>
    wf_picking db' \<and> picking_only db db' \<and> settled db' (po_id order) \<and>
    (\<forall>i. i \<noteq> po_id order \<longrightarrow> order_lines db' i = order_lines db i \<and> order_status db' i = order_status db i)"
proof (cases "list_all (\<lambda>l. pkl_picked_qty l \<le> 0) (order_lines db (po_id order))")
  case True
  obtain t where t: "assertTransition TRANSITIONS PICKING_STATUS ''picking-cancel'' ''REGISTERED'' CONFLICT = Inr t"
      "tr_to t = ''CANCELLED''"
    using picking_transitions(1) by blast
  note set_cancelled = set_status_step [OF assms(1,2), where status = "''CANCELLED''" and who = who]
  have "close_order TRANSITIONS who (order, order_lines db (po_id order)) db =
      Inr (set_order_status db (po_id order) ''CANCELLED'' who)"
    by (simp add: close_order_shrink True assms(3) t)
  moreover have "settled (set_order_status db (po_id order) ''CANCELLED'' who) (po_id order)"
    using set_cancelled(5) True by (simp add: settled_def)
  ultimately show ?thesis using set_cancelled True by simp
next
  case False
  let ?oid = "po_id order"
  let ?db' = "db\<lparr>picking_lines := shrink (order_lines db ?oid) (picking_lines db)\<rparr>"
  let ?keep = "\<lambda>p. if pkl_picking_order_id p = ?oid then p\<lparr>pkl_planned_qty := pkl_picked_qty p\<rparr> else p"
  have dist: "distinct (map pkl_id (picking_lines db))" using assms(1) by (simp add: wf_picking_def)
  have lines: "picking_lines ?db' = map ?keep
      (filter (\<lambda>p. pkl_picking_order_id p = ?oid \<longrightarrow> 0 < pkl_picked_qty p) (picking_lines db))"
    by (simp add: order_lines_def shrink_eq [OF dist])
  have status: "order_status ?db' i = order_status db i" for i by (simp add: order_status_def)
  have run: "close_order TRANSITIONS who (order, order_lines db ?oid) db = Inr ?db'"
    by (simp only: close_order_shrink False if_False)
  have "map pkl_id (picking_lines ?db') =
      map pkl_id (filter (\<lambda>p. pkl_picking_order_id p = ?oid \<longrightarrow> 0 < pkl_picked_qty p) (picking_lines db))"
    unfolding lines by simp
  then have "distinct (map pkl_id (picking_lines ?db'))" using dist by (simp add: distinct_map_filter)
  moreover have "list_all (\<lambda>p. 0 \<le> pkl_picked_qty p) (picking_lines ?db')"
    using assms(1) unfolding lines by (auto simp: wf_picking_def list_all_iff)
  ultimately have wf: "wf_picking ?db'" using assms(1) unfolding wf_picking_def by simp
  have "picked_sum ?db' rl = picked_sum db rl" for rl
  proof -
    let ?w = "\<lambda>p. if live db rl p then pkl_picked_qty p else 0"
    have zero: "\<forall>p \<in> set (picking_lines db). \<not> (pkl_picking_order_id p = ?oid \<longrightarrow> 0 < pkl_picked_qty p) \<longrightarrow> ?w p = 0"
      using assms(1) by (auto simp: wf_picking_def list_all_iff intro: antisym)
    have "picked_sum ?db' rl = sum_list (map ?w
        (filter (\<lambda>p. pkl_picking_order_id p = ?oid \<longrightarrow> 0 < pkl_picked_qty p) (picking_lines db)))"
      unfolding picked_sum_alt lines map_map
      by (intro arg_cong [where f = sum_list] map_cong) (auto simp: live_def status)
    also have "\<dots> = sum_list (map ?w (picking_lines db))"
      using zero by (intro sum_list_map_filter) auto
    finally show ?thesis by (simp only: picked_sum_alt)
  qed
  then have only: "picking_only db ?db'" by (simp add: picking_only_def)
  have own: "order_lines ?db' ?oid = map (\<lambda>p. p\<lparr>pkl_planned_qty := pkl_picked_qty p\<rparr>)
      (filter (\<lambda>p. 0 < pkl_picked_qty p) (order_lines db ?oid))"
  proof -
    have "filter (\<lambda>p. pkl_picking_order_id p = ?oid) (map ?keep
        (filter (\<lambda>p. pkl_picking_order_id p = ?oid \<longrightarrow> 0 < pkl_picked_qty p) ps)) =
      map (\<lambda>p. p\<lparr>pkl_planned_qty := pkl_picked_qty p\<rparr>)
        (filter (\<lambda>p. 0 < pkl_picked_qty p) (filter (\<lambda>p. pkl_picking_order_id p = ?oid) ps))" for ps
      by (induction ps) auto
    then show ?thesis unfolding order_lines_def [of ?db'] lines by (simp only: order_lines_def)
  qed
  then have "settled ?db' ?oid"
    using False unfolding settled_def own by (auto simp: list_all_iff filter_empty_conv not_le)
  moreover have "order_lines ?db' i = order_lines db i" if "i \<noteq> ?oid" for i
  proof -
    have "filter (\<lambda>p. pkl_picking_order_id p = i) (map ?keep
        (filter (\<lambda>p. pkl_picking_order_id p = ?oid \<longrightarrow> 0 < pkl_picked_qty p) ps)) =
      filter (\<lambda>p. pkl_picking_order_id p = i) ps" for ps
      using that by (induction ps) auto
    then show ?thesis unfolding order_lines_def [of ?db'] lines by (simp only: order_lines_def)
  qed
  ultimately show ?thesis using run wf only status by blast
qed


lemma settled_cong: "order_lines db' i = order_lines db i \<Longrightarrow> order_status db' i = order_status db i \<Longrightarrow>
    settled db' i = settled db i"
  by (simp add: settled_def)

lemma close_loop:
  assumes "wf_picking db" and "distinct (map po_id os)"
    and "\<forall>order \<in> set os. order_status db (po_id order) = Some ''REGISTERED'' \<and> po_status_code order = ''REGISTERED''"
  shows "\<exists>db'. fold_res (close_order TRANSITIONS who) (map (\<lambda>order. (order, order_lines db (po_id order))) os) db = Inr db' \<and>
    wf_picking db' \<and> picking_only db db' \<and> (\<forall>order \<in> set os. settled db' (po_id order)) \<and>
    (\<forall>i. i \<notin> po_id ` set os \<longrightarrow> order_lines db' i = order_lines db i \<and> order_status db' i = order_status db i)"
  using assms
proof (induction os arbitrary: db)
  case Nil
  then show ?case by simp
next
  case (Cons order os)
  from Cons.prems close_order_step [of db order who] obtain db1 where
    one: "close_order TRANSITIONS who (order, order_lines db (po_id order)) db = Inr db1" and
    wf: "wf_picking db1" and only: "picking_only db db1" and set1: "settled db1 (po_id order)" and
    others: "\<forall>i. i \<noteq> po_id order \<longrightarrow> order_lines db1 i = order_lines db i \<and> order_status db1 i = order_status db i"
    by auto
  from Cons.prems(2) have fresh: "po_id order \<notin> po_id ` set os" and dist: "distinct (map po_id os)" by auto
  have same: "map (\<lambda>order. (order, order_lines db (po_id order))) os =
      map (\<lambda>order. (order, order_lines db1 (po_id order))) os"
    using others fresh by (intro map_cong [OF refl]) (metis image_eqI)
  have "\<forall>order \<in> set os. order_status db1 (po_id order) = Some ''REGISTERED'' \<and> po_status_code order = ''REGISTERED''"
    using others fresh Cons.prems(3) by (metis image_eqI list.set_intros(2))
  from Cons.IH [OF wf dist this] obtain db' where
    rest: "fold_res (close_order TRANSITIONS who) (map (\<lambda>order. (order, order_lines db1 (po_id order))) os) db1 = Inr db'"
    and wf': "wf_picking db'" and only': "picking_only db1 db'" and set2: "\<forall>order \<in> set os. settled db' (po_id order)"
    and others': "\<forall>i. i \<notin> po_id ` set os \<longrightarrow> order_lines db' i = order_lines db1 i \<and> order_status db' i = order_status db1 i"
    by blast
  have "settled db' (po_id order)" using set1 others' fresh settled_cong by metis
  moreover have "fold_res (close_order TRANSITIONS who) (map (\<lambda>order. (order, order_lines db (po_id order))) (order # os)) db = Inr db'"
    unfolding list.map(2) fold_res.simps(2) one bind_res_Inr same by (rule rest)
  moreover have "\<forall>i. i \<notin> po_id ` set (order # os) \<longrightarrow>
      order_lines db' i = order_lines db i \<and> order_status db' i = order_status db i"
  proof (intro allI impI)
    fix i
    assume "i \<notin> po_id ` set (order # os)"
    then have "i \<notin> po_id ` set os" "i \<noteq> po_id order" by simp_all
    with others [rule_format, of i] others' [rule_format, of i]
    show "order_lines db' i = order_lines db i \<and> order_status db' i = order_status db i" by simp
  qed
  moreover have "\<forall>o' \<in> set (order # os). settled db' (po_id o')" using set2 calculation(1) by simp
  ultimately show ?case using wf' picking_only_trans [OF only only']
    by (intro exI [of _ db'] conjI)
qed

lemma open_orders_distinct: "wf_picking db \<Longrightarrow> distinct (map po_id (open_orders db r))"
  by (simp add: open_orders_def wf_picking_def distinct_map_filter)

lemma still_open:
  assumes "wf_picking db" and "picking_only db db'" and "wf_picking db'"
    and "\<forall>i. i \<notin> po_id ` set (open_orders db r) \<longrightarrow> order_status db' i = order_status db i"
    and "o' \<in> set (open_orders db' r)"
  shows "\<exists>order \<in> set (open_orders db r). po_id order = po_id o'"
proof -
  let ?key = "\<lambda>o'. (po_id o', po_source_document_type_code o', po_source_document_id o')"
  from assms(5) have o': "o' \<in> set (picking_orders db')" "po_source_document_type_code o' = ''MATERIAL_ISSUE_REQUEST''"
    "po_source_document_id o' = r" by (auto simp: open_orders_def)
  have "?key o' \<in> set (map ?key (picking_orders db))"
    unfolding picking_only_keys [OF assms(2), symmetric] set_map
    by (rule rev_image_eqI [OF o'(1) refl])
  then obtain order where order: "order \<in> set (picking_orders db)" "?key order = ?key o'" by auto
  have "order \<in> set (open_orders db r)"
  proof (rule ccontr)
    assume no: "order \<notin> set (open_orders db r)"
    then have "po_status_code order \<noteq> ''REGISTERED''" using order o' by (auto simp: open_orders_def)
    moreover have find: "find (\<lambda>x. po_id x = po_id order) (picking_orders db) = Some order"
      by (rule find_by_key [OF _ order(1)]) (use assms(1) in \<open>simp add: wf_picking_def\<close>)
    ultimately have "order_status db (po_id order) \<noteq> Some ''REGISTERED''" by (simp add: order_status_def)
    moreover have "po_id order \<notin> po_id ` set (open_orders db r)"
    proof
      assume "po_id order \<in> po_id ` set (open_orders db r)"
      then obtain y where y: "y \<in> set (open_orders db r)" "po_id y = po_id order" by auto
      then have "y \<in> set (picking_orders db)" by (simp add: open_orders_def)
      with y(2) order(1) assms(1) have "y = order" by (auto simp: wf_picking_def distinct_map inj_on_def)
      with y(1) no show False by simp
    qed
    ultimately have "order_status db' (po_id o') \<noteq> Some ''REGISTERED''" using assms(4) order(2) by auto
    with open_order_facts(1) [OF assms(3,5)] show False by simp
  qed
  with order(2) show ?thesis by auto
qed

lemma closePickings_effect:
  assumes "wf_picking db"
  shows "\<exists>db'. closePickings TRANSITIONS db r who = Inr db' \<and> wf_picking db' \<and> picking_only db db' \<and>
    (\<forall>o' \<in> set (open_orders db' r). order_lines db' (po_id o') \<noteq> [] \<and>
       (\<forall>p \<in> set (order_lines db' (po_id o')). 0 < pkl_picked_qty p \<and> pkl_planned_qty p = pkl_picked_qty p))"
proof -
  have "\<forall>order \<in> set (open_orders db r). order_status db (po_id order) = Some ''REGISTERED'' \<and> po_status_code order = ''REGISTERED''"
    using open_order_facts [OF assms] by blast
  from close_loop [OF assms open_orders_distinct [OF assms] this, of who] obtain db' where
    run: "closePickings TRANSITIONS db r who = Inr db'" and wf: "wf_picking db'" and only: "picking_only db db'"
    and done': "\<forall>order \<in> set (open_orders db r). settled db' (po_id order)"
    and others: "\<forall>i. i \<notin> po_id ` set (open_orders db r) \<longrightarrow>
      order_lines db' i = order_lines db i \<and> order_status db' i = order_status db i"
    unfolding closePickings_def by blast
  have "order_lines db' (po_id o') \<noteq> [] \<and>
      (\<forall>p \<in> set (order_lines db' (po_id o')). 0 < pkl_picked_qty p \<and> pkl_planned_qty p = pkl_picked_qty p)"
    if o': "o' \<in> set (open_orders db' r)" for o'
  proof -
    from others have "\<forall>i. i \<notin> po_id ` set (open_orders db r) \<longrightarrow> order_status db' i = order_status db i" by blast
    from still_open [OF assms only wf this o'] done' have "settled db' (po_id o')" by auto
    with open_order_facts(1) [OF wf o'] show ?thesis by (auto simp: settled_def list_all_iff)
  qed
  with run wf only show ?thesis by blast
qed


text \<open>After the closing, \<open>finishPickings\<close> completes what is still open.\<close>

lemma finish_order_step:
  assumes "wf_picking db" and "order_status db (po_id order) = Some ''REGISTERED''"
    and "po_status_code order = ''REGISTERED''"
  shows "\<exists>db'. finish_order TRANSITIONS who order db = Inr db' \<and> wf_picking db' \<and> picking_only db db' \<and>
    order_status db' (po_id order) = Some ''POSTED'' \<and>
    (\<forall>i. i \<noteq> po_id order \<longrightarrow> order_status db' i = order_status db i)"
proof -
  obtain t where t: "assertTransition TRANSITIONS PICKING_STATUS ''picking-issue'' ''REGISTERED'' CONFLICT = Inr t"
      "tr_to t = ''POSTED''"
    using picking_transitions(2) by blast
  have "finish_order TRANSITIONS who order db = Inr (set_order_status db (po_id order) ''POSTED'' who)"
    by (simp add: finish_order_def assms(3) t)
  with set_status_step [OF assms(1,2), where status = "''POSTED''" and who = who] show ?thesis by simp
qed

lemma finish_loop:
  assumes "wf_picking db" and "distinct (map po_id os)"
    and "\<forall>order \<in> set os. order_status db (po_id order) = Some ''REGISTERED'' \<and> po_status_code order = ''REGISTERED''"
  shows "\<exists>db'. fold_res (finish_order TRANSITIONS who) os db = Inr db' \<and> wf_picking db' \<and> picking_only db db' \<and>
    (\<forall>order \<in> set os. order_status db' (po_id order) = Some ''POSTED'') \<and>
    (\<forall>i. i \<notin> po_id ` set os \<longrightarrow> order_status db' i = order_status db i)"
  using assms
proof (induction os arbitrary: db)
  case Nil
  then show ?case by simp
next
  case (Cons order os)
  from Cons.prems finish_order_step [of db order who] obtain db1 where
    one: "finish_order TRANSITIONS who order db = Inr db1" and wf: "wf_picking db1" and only: "picking_only db db1"
    and posted: "order_status db1 (po_id order) = Some ''POSTED''" and
    others: "\<forall>i. i \<noteq> po_id order \<longrightarrow> order_status db1 i = order_status db i"
    by auto
  from Cons.prems(2) have fresh: "po_id order \<notin> po_id ` set os" and dist: "distinct (map po_id os)" by auto
  have "\<forall>order \<in> set os. order_status db1 (po_id order) = Some ''REGISTERED'' \<and> po_status_code order = ''REGISTERED''"
    using others fresh Cons.prems(3) by (metis image_eqI list.set_intros(2))
  from Cons.IH [OF wf dist this] obtain db' where
    rest: "fold_res (finish_order TRANSITIONS who) os db1 = Inr db'" and wf': "wf_picking db'"
    and only': "picking_only db1 db'" and all: "\<forall>order \<in> set os. order_status db' (po_id order) = Some ''POSTED''"
    and others': "\<forall>i. i \<notin> po_id ` set os \<longrightarrow> order_status db' i = order_status db1 i"
    by blast
  have "\<forall>order \<in> set (order # os). order_status db' (po_id order) = Some ''POSTED''"
    using all posted others' fresh by simp
  moreover have "\<forall>i. i \<notin> po_id ` set (order # os) \<longrightarrow> order_status db' i = order_status db i"
    using others others' by simp
  moreover have "fold_res (finish_order TRANSITIONS who) (order # os) db = Inr db'" by (simp add: one rest)
  ultimately show ?case using wf' picking_only_trans [OF only only'] by (intro exI [of _ db'] conjI)
qed

lemma finishPickings_effect:
  assumes "wf_picking db"
  shows "\<exists>db'. finishPickings TRANSITIONS db r who = Inr db' \<and> wf_picking db' \<and> picking_only db db' \<and>
    open_orders db' r = []"
proof -
  have "\<forall>order \<in> set (open_orders db r). order_status db (po_id order) = Some ''REGISTERED'' \<and> po_status_code order = ''REGISTERED''"
    using open_order_facts [OF assms] by blast
  from finish_loop [OF assms open_orders_distinct [OF assms] this, of who] obtain db' where
    run: "finishPickings TRANSITIONS db r who = Inr db'" and wf: "wf_picking db'" and only: "picking_only db db'"
    and posted: "\<forall>order \<in> set (open_orders db r). order_status db' (po_id order) = Some ''POSTED''"
    and others: "\<forall>i. i \<notin> po_id ` set (open_orders db r) \<longrightarrow> order_status db' i = order_status db i"
    unfolding finishPickings_def by blast
  have "o' \<notin> set (open_orders db' r)" for o'
  proof
    assume o': "o' \<in> set (open_orders db' r)"
    from still_open [OF assms only wf others o'] posted have "order_status db' (po_id o') = Some ''POSTED''" by auto
    with open_order_facts(1) [OF wf o'] show False by simp
  qed
  then have "open_orders db' r = []" by (metis list.set_intros(1) neq_Nil_conv)
  with run wf only show ?thesis by blast
qed

section \<open>Requests\<close>

definition wf_requests :: "log_db \<Rightarrow> bool" where
  "wf_requests db \<longleftrightarrow> wf_picking db \<and> distinct (map rq_id (requests db))"

lemma update_request_row:
  assumes "\<exists>q \<in> set (requests db). rq_id q = r"
  shows "update_request db r f = Inr (db\<lparr>requests := map (\<lambda>q. if rq_id q = r then f q else q) (requests db)\<rparr>)"
  using assms by (auto simp: update_request_def list_ex_iff)

lemma recordRequestAudit_frame [frame]:
  "requests (recordRequestAudit db r action who reason after tm) = requests db"
  "picking_orders (recordRequestAudit db r action who reason after tm) = picking_orders db"
  "picking_lines (recordRequestAudit db r action who reason after tm) = picking_lines db"
  "request_lines (recordRequestAudit db r action who reason after tm) = request_lines db"
  by (simp_all add: recordRequestAudit_def)

lemma picking_tables_cong:
  assumes "picking_orders db' = picking_orders db" and "picking_lines db' = picking_lines db"
  shows "open_orders db' r = open_orders db r" and "order_lines db' i = order_lines db i"
    and "wf_picking db' = wf_picking db" and "picked_sum db' i = picked_sum db i"
  using assms by (simp_all add: open_orders_def order_lines_def wf_picking_def picked_sum_def live_lines_def order_status_def)

lemma requestProgress_cong:
  assumes "picking_orders db' = picking_orders db" and "picking_lines db' = picking_lines db"
    and "request_lines db' = request_lines db"
  shows "requestProgress db' r = requestProgress db r"
  using assms by (simp add: requestProgress_def lines_of_request_def picking_tables_cong(4) [OF assms(1,2)])


definition settled_row :: "int \<Rightarrow> code \<Rightarrow> id option \<Rightarrow> bool \<Rightarrow> request_row \<Rightarrow> request_row" where
  "settled_row now reason who started q =
     (if started then q\<lparr>rq_closed_at := Some now, rq_close_reason_code := Some reason\<rparr>
      else q\<lparr>rq_status_code := ''CANCELLED'', rq_cancelled_at := Some now, rq_cancelled_by := who\<rparr>)
     \<lparr>rq_updated_at := now, rq_updated_by := who, rq_version_no := rq_version_no q + 1\<rparr>"

lemma settled_row_id [simp]: "rq_id (settled_row now reason who started q) = rq_id q"
  by (simp add: settled_row_def)

lemma settled_row_not_open:
  "rq_status_code (settled_row now reason who started q) \<in> {''WAITING'', ''REGISTERED''} \<Longrightarrow>
   rq_closed_at (settled_row now reason who started q) \<noteq> None"
  by (cases started) (simp_all add: settled_row_def)

lemma settle_request_step:
  assumes "wf_requests db" and "\<exists>x \<in> set (requests db). rq_id x = rq_id q"
    and "rq_status_code q \<in> {''WAITING'', ''REGISTERED''}"
  shows "\<exists>db'. settle_request TRANSITIONS now reason who q db = Inr db' \<and> wf_requests db' \<and>
    (\<forall>r. requestProgress db' r = requestProgress db r) \<and>
    requests db' = map (\<lambda>x. if rq_id x = rq_id q
      then settled_row now reason who (pg_started (requestProgress db (rq_id q))) x else x) (requests db)"
proof -
  let ?started = "pg_started (requestProgress db (rq_id q))"
  from assms(1) obtain db1 where run: "closePickings TRANSITIONS db (rq_id q) who = Inr db1" and
    wf: "wf_picking db1" and only: "picking_only db db1"
    using closePickings_effect [of db "rq_id q" who] by (auto simp: wf_requests_def)
  note same = picking_only_progress [OF only]
  let ?f = "\<lambda>x. if ?started then x\<lparr>rq_closed_at := Some now, rq_close_reason_code := Some reason\<rparr>
      else x\<lparr>rq_status_code := ''CANCELLED'', rq_cancelled_at := Some now, rq_cancelled_by := who\<rparr>"
  let ?g = "\<lambda>x. (?f x)\<lparr>rq_updated_at := now, rq_updated_by := who, rq_version_no := rq_version_no x + 1\<rparr>"
  let ?db2 = "db1\<lparr>requests := map (\<lambda>x. if rq_id x = rq_id q then ?g x else x) (requests db1)\<rparr>"
  let ?db3 = "recordRequestAudit ?db2 (rq_id q) (if ?started then ''CLOSED'' else ''CANCELLED'') who (Some reason) None now"
  have "(if ?started
         then Inr (\<lambda>r. r\<lparr>rq_closed_at := Some now, rq_close_reason_code := Some reason\<rparr>)
         else bind_res (requestTransition TRANSITIONS ''material-issue-request-cancel'' (rq_status_code q))
                (\<lambda>status. Inr (\<lambda>r. r\<lparr>rq_status_code := status, rq_cancelled_at := Some now,
                                    rq_cancelled_by := who\<rparr>))) = (Inr ?f :: (request_row \<Rightarrow> request_row) res)"
    by (simp add: request_cancel [OF assms(3)])
  moreover have "update_request db1 (rq_id q) ?g = Inr ?db2"
    by (rule update_request_row) (use assms(2) same(2) in simp)
  ultimately have "settle_request TRANSITIONS now reason who q db = Inr ?db3"
    unfolding settle_request_def Let_def run bind_res_Inr by (simp only: bind_res_Inr)
  moreover have "requests ?db3 = map (\<lambda>x. if rq_id x = rq_id q
      then settled_row now reason who ?started x else x) (requests db)"
    by (simp add: frame same(2) settled_row_def)
  moreover have "wf_requests ?db3"
  proof -
    have "wf_picking ?db3 = wf_picking db1" by (rule picking_tables_cong(3)) (simp_all add: frame)
    moreover have "map rq_id (requests ?db3) = map rq_id (requests db)" by (simp add: frame same(2))
    ultimately show ?thesis using wf assms(1) by (simp add: wf_requests_def)
  qed
  moreover have "requestProgress ?db3 r = requestProgress db r" for r
  proof -
    have "requestProgress ?db3 r = requestProgress db1 r" by (rule requestProgress_cong) (simp_all add: frame)
    then show ?thesis by (simp only: same(1))
  qed
  ultimately show ?thesis by blast
qed

lemma settle_loop:
  assumes "wf_requests db" and "distinct (map rq_id qs)"
    and "\<forall>q \<in> set qs. rq_id q \<in> rq_id ` set (requests db) \<and> rq_status_code q \<in> {''WAITING'', ''REGISTERED''}"
  shows "\<exists>db'. fold_res (settle_request TRANSITIONS now reason who) qs db = Inr db' \<and> wf_requests db' \<and>
    requests db' = map (\<lambda>x. if rq_id x \<in> rq_id ` set qs
      then settled_row now reason who (pg_started (requestProgress db (rq_id x))) x else x) (requests db)"
  using assms
proof (induction qs arbitrary: db)
  case Nil
  then show ?case by simp
next
  case (Cons q qs)
  from Cons.prems(3) have "\<exists>x \<in> set (requests db). rq_id x = rq_id q"
    and "rq_status_code q \<in> {''WAITING'', ''REGISTERED''}" by auto
  from settle_request_step [OF Cons.prems(1) this, of now reason who] obtain db1 where
    one: "settle_request TRANSITIONS now reason who q db = Inr db1" and wf: "wf_requests db1" and
    progress: "\<forall>r. requestProgress db1 r = requestProgress db r" and
    rows: "requests db1 = map (\<lambda>x. if rq_id x = rq_id q
      then settled_row now reason who (pg_started (requestProgress db (rq_id q))) x else x) (requests db)"
    by blast
  have ids: "rq_id ` set (requests db1) = rq_id ` set (requests db)"
  proof -
    have "map rq_id (requests db1) = map rq_id (requests db)" by (simp add: rows)
    then show ?thesis by (metis set_map)
  qed
  have "\<forall>q \<in> set qs. rq_id q \<in> rq_id ` set (requests db1) \<and> rq_status_code q \<in> {''WAITING'', ''REGISTERED''}"
    unfolding ids using Cons.prems(3) by simp
  with Cons.IH [OF wf] Cons.prems(2) obtain db' where
    rest: "fold_res (settle_request TRANSITIONS now reason who) qs db1 = Inr db'" and wf': "wf_requests db'" and
    rows': "requests db' = map (\<lambda>x. if rq_id x \<in> rq_id ` set qs
      then settled_row now reason who (pg_started (requestProgress db1 (rq_id x))) x else x) (requests db1)"
    by auto
  have "requests db' = map (\<lambda>x. if rq_id x \<in> rq_id ` set (q # qs)
      then settled_row now reason who (pg_started (requestProgress db (rq_id x))) x else x) (requests db)"
    unfolding rows' rows map_map using Cons.prems(2) by (intro map_cong [OF refl]) (auto simp: progress image_iff)
  with one rest wf' show ?case by simp
qed


section \<open>Properties\<close>

text \<open>Closing the picking orders of a request always succeeds and changes neither the request nor its
  progress (no picked quantity is lost); an order that stays open has lines, each of them picked and
  planned for exactly the picked quantity, so nothing more can be picked.\<close>
lemma closePickings_keeps_progress:
  assumes "wf_picking db"
  shows "\<exists>db'. closePickings TRANSITIONS db r who = Inr db' \<and> requestProgress db' r = requestProgress db r \<and>
    requests db' = requests db \<and> request_lines db' = request_lines db \<and>
    (\<forall>o' \<in> set (open_orders db' r). order_lines db' (po_id o') \<noteq> [] \<and>
       (\<forall>p \<in> set (order_lines db' (po_id o')). 0 < pkl_picked_qty p \<and> pkl_planned_qty p = pkl_picked_qty p))"
  using closePickings_effect [OF assms, of r who] picking_only_progress by blast

text \<open>Closing the remainder of a request succeeds exactly when something was picked or issued and
  nothing picked waits to be issued; then the request is closed with its reason, no picking order of it
  is open and its progress is unchanged. Otherwise it is refused as locked.\<close>
lemma closeRemaining_iff:
  assumes "wf_requests db" and "\<exists>q \<in> set (requests db). rq_id q = r"
  shows "if pg_started (requestProgress db r) \<and> \<not> pg_inFlight (requestProgress db r)
    then \<exists>db'. closeRemaining TRANSITIONS now db r reason remark who = Inr db' \<and> open_orders db' r = [] \<and>
      requestProgress db' r = requestProgress db r \<and>
      requests db' = map (\<lambda>q. if rq_id q = r
        then q\<lparr>rq_closed_at := Some now, rq_close_reason_code := Some ''REMAINDER_CLOSED'',
               rq_close_reason_detail_code := Some reason, rq_close_remark := remark, rq_closed_by := Some who,
               rq_updated_at := now, rq_updated_by := Some who, rq_version_no := rq_version_no q + 1\<rparr>
        else q) (requests db)
    else closeRemaining TRANSITIONS now db r reason remark who = Inl stateLocked"
proof (cases "pg_started (requestProgress db r) \<and> \<not> pg_inFlight (requestProgress db r)")
  case False
  then show ?thesis by (auto simp: closeRemaining_def Let_def)
next
  case True
  obtain db1 where 1: "closePickings TRANSITIONS db r (Some who) = Inr db1" "wf_picking db1" "picking_only db db1"
    using closePickings_effect [of db r "Some who"] assms(1) by (auto simp: wf_requests_def)
  obtain db2 where 2: "finishPickings TRANSITIONS db1 r (Some who) = Inr db2" "picking_only db1 db2"
      "open_orders db2 r = []"
    using finishPickings_effect [OF 1(2), of r "Some who"] by blast
  note same = picking_only_progress [OF picking_only_trans [OF 1(3) 2(2)]]
  let ?f = "\<lambda>q. q\<lparr>rq_closed_at := Some now, rq_close_reason_code := Some ''REMAINDER_CLOSED'',
     rq_close_reason_detail_code := Some reason, rq_close_remark := remark, rq_closed_by := Some who,
     rq_updated_at := now, rq_updated_by := Some who, rq_version_no := rq_version_no q + 1\<rparr>"
  let ?db3 = "db2\<lparr>requests := map (\<lambda>q. if rq_id q = r then ?f q else q) (requests db2)\<rparr>"
  let ?db4 = "recordRequestAudit ?db3 r ''CLOSED'' (Some who) (Some reason) remark now"
  have "update_request db2 r ?f = Inr ?db3" by (rule update_request_row) (use assms(2) same(2) in simp)
  with True 1(1) 2(1) have "closeRemaining TRANSITIONS now db r reason remark who = Inr ?db4"
    by (simp add: closeRemaining_def Let_def)
  moreover have "open_orders ?db4 r = open_orders db2 r" "requestProgress ?db4 r = requestProgress db2 r"
    by (rule picking_tables_cong(1) requestProgress_cong; simp add: frame)+
  ultimately show ?thesis using True 2(3) same by (simp add: frame)
qed

text \<open>C26. Cancelling or closing a work order always settles its open requests: each is closed with the reason
  where picking or issuing has begun and cancelled where not, every other request stays as it was, and no
  open request of the work order is left.\<close>
theorem settleWorkOrderRequests_settles:
  assumes "wf_requests db"
  shows "\<exists>db'. settleWorkOrderRequests TRANSITIONS now db wo reason who = Inr db' \<and> open_requests db' wo = [] \<and>
    requests db' = map (\<lambda>q. if q \<in> set (open_requests db wo)
      then settled_row now reason who (pg_started (requestProgress db (rq_id q))) q else q) (requests db)"
proof -
  let ?qs = "open_requests db wo"
  have dist: "distinct (map rq_id (requests db))" using assms by (simp add: wf_requests_def)
  then have "distinct (map rq_id ?qs)" by (simp add: open_requests_def distinct_map_filter)
  moreover have "\<forall>q \<in> set ?qs. rq_id q \<in> rq_id ` set (requests db) \<and> rq_status_code q \<in> {''WAITING'', ''REGISTERED''}"
    by (auto simp: open_requests_def)
  ultimately obtain db' where run: "settleWorkOrderRequests TRANSITIONS now db wo reason who = Inr db'" and
    rows: "requests db' = map (\<lambda>x. if rq_id x \<in> rq_id ` set ?qs
      then settled_row now reason who (pg_started (requestProgress db (rq_id x))) x else x) (requests db)"
    using settle_loop [OF assms, of ?qs now reason who] unfolding settleWorkOrderRequests_def by blast
  have open_id: "rq_id x \<in> rq_id ` set ?qs \<longleftrightarrow> x \<in> set ?qs" if "x \<in> set (requests db)" for x
    using dist that by (auto simp: open_requests_def distinct_map inj_on_def)
  have rows': "requests db' = map (\<lambda>q. if q \<in> set ?qs
      then settled_row now reason who (pg_started (requestProgress db (rq_id q))) q else q) (requests db)"
    unfolding rows by (intro map_cong [OF refl]) (simp only: open_id)
  have "open_requests db' wo = []"
    unfolding open_requests_def [of db'] rows'
    using settled_row_not_open by (fastforce simp: filter_empty_conv open_requests_def)
  with run rows' show ?thesis by blast
qed

definition example_picking :: log_db where
  "example_picking = example_log
     \<lparr>picking_orders := [\<lparr>po_id = 1, po_no = ''P-1'', po_type_code = ''MATERIAL'',
        po_source_document_type_code = ''MATERIAL_ISSUE_REQUEST'', po_source_document_id = 1, po_warehouse_id = 5,
        po_status_code = ''REGISTERED'', po_assigned_worker_id = None, po_created_by = None,
        po_updated_by = None, po_version_no = 1\<rparr>],
      picking_lines := [\<lparr>pkl_id = 1, pkl_picking_order_id = 1, pkl_line_no = 1, pkl_item_id = 3, pkl_lot_id = 9,
        pkl_location_id = 7, pkl_planned_qty = 4, pkl_picked_qty = 3, pkl_uom_id = 1,
        pkl_status_code = ''REGISTERED'', pkl_request_line_id = Some 11, pkl_created_by = None\<rparr>],
      request_lines := [\<lparr>rl_id = 11, rl_request_id = 1, rl_line_no = 1, rl_item_id = 3, rl_uom_id = 1,
         rl_requested_qty = 4, rl_issued_qty = 3, rl_shortage_qty = 0, rl_created_by = None\<rparr>],
      picking_order_seq := 2, picking_line_seq := 2\<rparr>"

lemma example_picking_wf: "wf_requests example_picking" "wf_picking example_picking"
  by (simp_all add: wf_requests_def wf_picking_def example_picking_def example_log_def)

lemma closePickings_keeps_progress_example:
  "\<exists>db'. closePickings TRANSITIONS example_picking 1 None = Inr db' \<and>
     requestProgress db' 1 = requestProgress example_picking 1"
  using closePickings_keeps_progress [OF example_picking_wf(2), of 1 None] by blast

lemma closeRemaining_iff_example:
  "\<exists>db'. closeRemaining TRANSITIONS 90 example_picking 1 ''SHORT'' None 2 = Inr db' \<and> open_orders db' 1 = []"
proof -
  have "pg_started (requestProgress example_picking 1) \<and> \<not> pg_inFlight (requestProgress example_picking 1)"
    by code_simp
  moreover have "\<exists>q \<in> set (requests example_picking). rq_id q = 1" by (simp add: example_picking_def example_log_def)
  ultimately show ?thesis
    using closeRemaining_iff [OF example_picking_wf(1), of 1 90 "''SHORT''" None 2] by auto
qed

theorem settleWorkOrderRequests_settles_witness:
  "open_requests example_picking 8 \<noteq> [] \<and>
   (\<exists>db'. settleWorkOrderRequests TRANSITIONS 90 example_picking 8 ''WO_CLOSED'' None = Inr db' \<and>
     open_requests db' 8 = [])"
proof -
  have "open_requests example_picking 8 \<noteq> []"
    by (simp add: open_requests_def example_picking_def example_log_def)
  then show ?thesis using settleWorkOrderRequests_settles [OF example_picking_wf(1), of 90 8 "''WO_CLOSED''" None] by blast
qed

end
