(* ===== verification/Planned_Stock.thy ===== *)
theory Planned_Stock
  imports Js_Strings Request_Lifecycle
begin

text \<open>
  \<open>src/core/material-issue/planned-stock.ts\<close> and \<open>replenishment-stock.ts\<close>: what the active requests of a
  warehouse still have to draw, what can be picked there, and where the former exceeds the latter. The
  advisory locks of \<open>lockPairs\<close> order concurrent transactions and have no effect inside one.
\<close>

section \<open>Planned quantities\<close>

abbreviation ACTIVE_REQUEST_STATUSES :: "code set" where
  "ACTIVE_REQUEST_STATUSES \<equiv> {''WAITING'', ''REGISTERED''}"

record PlannedLine =
  pl_warehouseId :: id
  pl_itemId :: id
  pl_requestId :: id
  pl_requestLineId :: id
  pl_issueWorkDate :: "int option"
  pl_plannedQty :: decimal

record LineShortage =
  ls_requestLineId :: id
  ls_requestId :: id
  ls_shortageQty :: decimal

record DynamicShortage =
  ds_warehouseId :: id
  ds_itemId :: id
  ds_availableQty :: decimal
  ds_plannedQty :: decimal
  ds_shortageQty :: decimal
  ds_lines :: "LineShortage list"

record PlannedScope =
  in_warehouses :: "id list option"
  in_plant :: "id option"
  in_items :: "id list option"

definition pairKey :: "id \<Rightarrow> id \<Rightarrow> string" where
  "pairKey w i = show_int w @ CHR '':'' # show_int i"

lemma pairKey_inject [simp]: "pairKey w i = pairKey w' i' \<longleftrightarrow> w = w' \<and> i = i'"
proof -
  have "CHR '':'' \<notin> set (show_int n)" for n using show_int_chars by (fastforce simp: is_digit_def)
  then show ?thesis by (simp add: pairKey_def separator_split)
qed

definition openQty :: "decimal \<Rightarrow> decimal \<Rightarrow> decimal" where
  "openQty requested picked = max (requested - picked) 0"

definition request_of :: "log_db \<Rightarrow> id \<Rightarrow> request_row option" where
  "request_of db rid = find (\<lambda>r. rq_id r = rid) (requests db)"

definition in_scope :: "'a list option \<Rightarrow> 'a \<Rightarrow> bool" where
  "in_scope xs x \<longleftrightarrow> (case xs of None \<Rightarrow> True | Some ys \<Rightarrow> x \<in> set ys)"

definition planned_line :: "log_db \<Rightarrow> PlannedScope \<Rightarrow> request_line_row \<Rightarrow> PlannedLine list" where
  "planned_line db sc l =
     (case request_of db (rl_request_id l) of
        None \<Rightarrow> []
      | Some r \<Rightarrow>
          (case rq_source_warehouse_id r of
             None \<Rightarrow> []
           | Some w \<Rightarrow>
               if in_scope (in_items sc) (rl_item_id l) \<and> rq_status_code r \<in> ACTIVE_REQUEST_STATUSES \<and>
                  rq_closed_at r = None \<and> in_scope (in_warehouses sc) w \<and>
                  (case in_plant sc of None \<Rightarrow> True
                   | Some p \<Rightarrow> map_option wh_plant_id (warehouse_of db w) = Some p)
               then [\<lparr>pl_warehouseId = w, pl_itemId = rl_item_id l, pl_requestId = rq_id r,
                      pl_requestLineId = rl_id l, pl_issueWorkDate = rq_issue_work_date r,
                      pl_plannedQty = openQty (rl_requested_qty l) (picked_sum db (rl_id l))\<rparr>]
               else []))"

definition plannedLines :: "log_db \<Rightarrow> PlannedScope \<Rightarrow> PlannedLine list" where
  "plannedLines db sc = concat (map (planned_line db sc) (request_lines db))"

definition sumPlanned :: "PlannedLine list \<Rightarrow> (string \<times> decimal) list" where
  "sumPlanned lines = fold (\<lambda>l. add_to (pairKey (pl_warehouseId l) (pl_itemId l)) (pl_plannedQty l)) lines []"

definition availableQty :: "log_db \<Rightarrow> id list \<Rightarrow> id list \<Rightarrow> (string \<times> decimal) list" where
  "availableQty db warehouseIds itemIds =
     fold (\<lambda>r. add_to (pairKey (warehouseId (dim r)) (itemId (dim r))) (available_qty r))
       (filter (\<lambda>r. PICKABLE_BALANCE db r \<and> warehouseId (dim r) \<in> set warehouseIds \<and>
                    itemId (dim r) \<in> set itemIds) (stock db)) []"

definition freeQty :: "log_db \<Rightarrow> id list \<Rightarrow> id list \<Rightarrow> (string \<times> decimal) list \<times> (string \<times> decimal) list" where
  "freeQty db warehouseIds itemIds =
     (availableQty db warehouseIds itemIds,
      sumPlanned (plannedLines db \<lparr>in_warehouses = Some warehouseIds, in_plant = None, in_items = Some itemIds\<rparr>))"

section \<open>Shortages\<close>

text \<open>The latest issue date first, among equal dates the line made last.\<close>

definition date_or_zero :: "int option \<Rightarrow> int" where
  "date_or_zero d = (case d of None \<Rightarrow> 0 | Some t \<Rightarrow> t)"

definition shortage_order :: "PlannedLine \<Rightarrow> PlannedLine \<Rightarrow> int" where
  "shortage_order a b =
     or_else (date_or_zero (pl_issueWorkDate b) - date_or_zero (pl_issueWorkDate a))
       (if pl_requestLineId a < pl_requestLineId b then 1 else if pl_requestLineId a > pl_requestLineId b then -1 else 0)"

fun share :: "decimal \<Rightarrow> PlannedLine list \<Rightarrow> LineShortage list" where
  "share left [] = []"
| "share left (line # rest) =
     (if left \<le> 0 then []
      else let tk = min left (pl_plannedQty line) in
        if tk \<le> 0 then share left rest
        else \<lparr>ls_requestLineId = pl_requestLineId line, ls_requestId = pl_requestId line, ls_shortageQty = tk\<rparr>
               # share (left - tk) rest)"

declare share.simps(2) [simp del]

definition distributeShortage :: "decimal \<Rightarrow> PlannedLine list \<Rightarrow> LineShortage list" where
  "distributeShortage excess lines = share excess (js_sort (by_number shortage_order) lines)"

definition pair_shortage ::
  "PlannedLine list \<Rightarrow> (string \<times> decimal) list \<Rightarrow> string \<times> decimal \<Rightarrow> DynamicShortage list" where
  "pair_shortage lines available kp =
     (case kp of (key, plannedQty) \<Rightarrow>
        let avail = get_or_zero available key; excess = plannedQty - avail in
        if excess \<le> 0 then []
        else let pairLines = filter (\<lambda>l. pairKey (pl_warehouseId l) (pl_itemId l) = key) lines in
          (case pairLines of
             [] \<Rightarrow> []
           | first # _ \<Rightarrow>
               [\<lparr>ds_warehouseId = pl_warehouseId first, ds_itemId = pl_itemId first, ds_availableQty = avail,
                 ds_plannedQty = plannedQty, ds_shortageQty = excess,
                 ds_lines = distributeShortage excess pairLines\<rparr>]))"

definition shortage_scope :: "id option \<Rightarrow> id option \<Rightarrow> PlannedScope" where
  "shortage_scope plant warehouse =
     \<lparr>in_warehouses = map_option (\<lambda>w. [w]) warehouse, in_plant = plant, in_items = None\<rparr>"

definition dynamicShortages :: "log_db \<Rightarrow> id option \<Rightarrow> id option \<Rightarrow> DynamicShortage list" where
  "dynamicShortages db plant warehouse =
     (let lines = plannedLines db (shortage_scope plant warehouse) in
      if lines = [] then []
      else concat (map (pair_shortage lines
             (availableQty db (js_set (map pl_warehouseId lines)) (js_set (map pl_itemId lines))))
             (sumPlanned lines)))"


section \<open>Sums per warehouse and item\<close>

definition planned_at :: "log_db \<Rightarrow> PlannedScope \<Rightarrow> id \<Rightarrow> id \<Rightarrow> decimal" where
  "planned_at db sc w i = sum_list (map pl_plannedQty
     (filter (\<lambda>l. pl_warehouseId l = w \<and> pl_itemId l = i) (plannedLines db sc)))"

definition pickable_at :: "log_db \<Rightarrow> id \<Rightarrow> id \<Rightarrow> decimal" where
  "pickable_at db w i = sum_list (map available_qty
     (filter (\<lambda>r. PICKABLE_BALANCE db r \<and> warehouseId (dim r) = w \<and> itemId (dim r) = i) (stock db)))"

lemma get_sumPlanned:
  "get_or_zero (sumPlanned lines) (pairKey w i) =
     sum_list (map pl_plannedQty (filter (\<lambda>l. pl_warehouseId l = w \<and> pl_itemId l = i) lines))"
  unfolding sumPlanned_def get_sum_by by (simp add: get_or_zero_def)

lemma get_availableQty:
  assumes "w \<in> set ws" and "i \<in> set is"
  shows "get_or_zero (availableQty db ws is) (pairKey w i) = pickable_at db w i"
proof -
  have "filter (\<lambda>r. warehouseId (dim r) = w \<and> itemId (dim r) = i)
      (filter (\<lambda>r. PICKABLE_BALANCE db r \<and> warehouseId (dim r) \<in> set ws \<and> itemId (dim r) \<in> set is) (stock db)) =
    filter (\<lambda>r. PICKABLE_BALANCE db r \<and> warehouseId (dim r) = w \<and> itemId (dim r) = i) (stock db)"
    using assms by (auto simp: filter_filter intro!: filter_cong)
  then show ?thesis
    unfolding availableQty_def get_sum_by pickable_at_def by (simp add: get_or_zero_def)
qed

lemma pickable_at_nonneg: "0 \<le> pickable_at db w i"
  unfolding pickable_at_def by (rule sum_list_nonneg) (auto simp: PICKABLE_BALANCE_def)

lemma planned_line_facts:
  assumes "p \<in> set (planned_line db sc l)"
  shows "0 \<le> pl_plannedQty p" and "pl_requestLineId p = rl_id l"
  using assms by (auto simp: planned_line_def openQty_def split: option.splits if_splits)

lemma plannedLines_nonneg: "p \<in> set (plannedLines db sc) \<Longrightarrow> 0 \<le> pl_plannedQty p"
  using planned_line_facts(1) by (auto simp: plannedLines_def)

text \<open>The plans of every warehouse.\<close>

definition all_plans :: PlannedScope where
  "all_plans = \<lparr>in_warehouses = None, in_plant = None, in_items = None\<rparr>"

text \<open>Within the scope of the request, the scoped plan is the whole plan.\<close>

lemma planned_at_scope:
  assumes "w \<in> set ws" and "i \<in> set is"
  shows "planned_at db \<lparr>in_warehouses = Some ws, in_plant = None, in_items = Some is\<rparr> w i = planned_at db all_plans w i"
proof -
  let ?sc = "\<lparr>in_warehouses = Some ws, in_plant = None, in_items = Some is\<rparr>"
  have line: "filter (\<lambda>p. pl_warehouseId p = w \<and> pl_itemId p = i) (planned_line db ?sc l) =
      filter (\<lambda>p. pl_warehouseId p = w \<and> pl_itemId p = i) (planned_line db all_plans l)" for l
    using assms by (auto simp: planned_line_def in_scope_def all_plans_def split: option.splits)
  show ?thesis by (simp add: planned_at_def plannedLines_def filter_concat comp_def line)
qed


section \<open>Sharing a shortage\<close>

interpretation shortage: comparison "by_number shortage_order"
proof -
  have ids: "number_comparison (\<lambda>a b. if pl_requestLineId a < pl_requestLineId b then 1
      else if pl_requestLineId a > pl_requestLineId b then - 1 else 0 :: int)"
    by unfold_locales (auto split: if_splits)
  have "number_comparison (\<lambda>a b. date_or_zero (pl_issueWorkDate b) - date_or_zero (pl_issueWorkDate a))"
    by unfold_locales (auto simp: sgn_if)
  from or_else_comparison [OF this ids] have "number_comparison shortage_order"
    unfolding shortage_order_def [abs_def] .
  then show "comparison (by_number shortage_order)" by (rule number_comparison.by_number_comparison)
qed

lemma share_step:
  assumes "0 \<le> pl_plannedQty line"
  shows "share left (line # rest) =
     (if 0 < left \<and> 0 < pl_plannedQty line
      then \<lparr>ls_requestLineId = pl_requestLineId line, ls_requestId = pl_requestId line,
             ls_shortageQty = min left (pl_plannedQty line)\<rparr> # share (left - min left (pl_plannedQty line)) rest
      else share left rest)"
proof -
  have stop: "left \<le> 0 \<Longrightarrow> share left rest = []" by (cases rest) (simp_all add: share.simps(2))
  show ?thesis using assms stop by (auto simp: share.simps(2) Let_def not_less)
qed

lemma share_sum:
  "\<lbrakk>\<forall>l \<in> set ls. 0 \<le> pl_plannedQty l; 0 \<le> left\<rbrakk> \<Longrightarrow>
   sum_list (map ls_shortageQty (share left ls)) = min left (sum_list (map pl_plannedQty ls))"
proof (induction ls arbitrary: left)
  case Nil
  then show ?case by simp
next
  case (Cons l ls)
  have rest: "0 \<le> sum_list (map pl_plannedQty ls)" using Cons.prems(1) by (intro sum_list_nonneg) auto
  have "sum_list (map ls_shortageQty (share left' ls)) = min left' (sum_list (map pl_plannedQty ls))"
    if "0 \<le> left'" for left'
    using Cons that by simp
  with Cons.prems rest show ?case by (auto simp: share_step min_def)
qed

lemma share_member:
  "\<lbrakk>\<forall>l \<in> set ls. 0 \<le> pl_plannedQty l; s \<in> set (share left ls)\<rbrakk> \<Longrightarrow>
   \<exists>l \<in> set ls. pl_requestLineId l = ls_requestLineId s \<and> pl_requestId l = ls_requestId s \<and>
     0 < ls_shortageQty s \<and> ls_shortageQty s \<le> pl_plannedQty l"
proof (induction ls arbitrary: left)
  case Nil
  then show ?case by simp
next
  case (Cons l ls)
  then show ?case by (fastforce simp: share_step split: if_splits)
qed



text \<open>The reference: going down the ordered lines, a line is short by what the lines before it left over,
  up to its own quantity.\<close>

definition fill_at :: "decimal \<Rightarrow> PlannedLine list \<Rightarrow> nat \<Rightarrow> LineShortage" where
  "fill_at excess ls k =
     \<lparr>ls_requestLineId = pl_requestLineId (ls ! k), ls_requestId = pl_requestId (ls ! k),
      ls_shortageQty = min (pl_plannedQty (ls ! k)) (max 0 (excess - sum_list (map pl_plannedQty (take k ls))))\<rparr>"

definition water_fill :: "decimal \<Rightarrow> PlannedLine list \<Rightarrow> LineShortage list" where
  "water_fill excess ls = filter (\<lambda>s. 0 < ls_shortageQty s) (map (fill_at excess ls) [0..<length ls])"

lemma water_fill_Cons:
  "water_fill excess (l # ls) =
     (if 0 < pl_plannedQty l \<and> 0 < excess
      then [\<lparr>ls_requestLineId = pl_requestLineId l, ls_requestId = pl_requestId l,
             ls_shortageQty = min (pl_plannedQty l) excess\<rparr>] else []) @ water_fill (excess - pl_plannedQty l) ls"
proof -
  have indices: "map f [0..<Suc n] = f 0 # map (\<lambda>k. f (Suc k)) [0..<n]" for f :: "nat \<Rightarrow> LineShortage" and n
    by (simp add: upt_conv_Cons map_Suc_upt [symmetric] del: upt_Suc)
  have "fill_at excess (l # ls) (Suc k) = fill_at (excess - pl_plannedQty l) ls k" for k
    by (simp add: fill_at_def diff_diff_eq)
  moreover have "fill_at excess (l # ls) 0 = \<lparr>ls_requestLineId = pl_requestLineId l, ls_requestId = pl_requestId l,
      ls_shortageQty = min (pl_plannedQty l) (max 0 excess)\<rparr>"
    by (simp add: fill_at_def)
  ultimately have "map (fill_at excess (l # ls)) [0..<length (l # ls)] =
      \<lparr>ls_requestLineId = pl_requestLineId l, ls_requestId = pl_requestId l,
       ls_shortageQty = min (pl_plannedQty l) (max 0 excess)\<rparr> # map (fill_at (excess - pl_plannedQty l) ls) [0..<length ls]"
    by (simp only: length_Cons indices)
  then show ?thesis unfolding water_fill_def by (auto simp: max_def simp del: upt_Suc)
qed

lemma water_fill_zero: "\<forall>l \<in> set ls. 0 \<le> pl_plannedQty l \<Longrightarrow> excess \<le> 0 \<Longrightarrow> water_fill excess ls = []"
  by (induction ls arbitrary: excess) (simp_all add: water_fill_Cons, simp add: water_fill_def)

lemma share_water_fill: "\<forall>l \<in> set ls. 0 \<le> pl_plannedQty l \<Longrightarrow> share left ls = water_fill left ls"
proof (induction ls arbitrary: left)
  case Nil
  then show ?case by (simp add: water_fill_def)
next
  case (Cons l ls)
  then have nonneg: "\<forall>l \<in> set ls. 0 \<le> pl_plannedQty l" "0 \<le> pl_plannedQty l" by auto
  consider "left \<le> 0" | "0 < left" "left \<le> pl_plannedQty l" | "0 < left" "pl_plannedQty l < left" by linarith
  then show ?case
  proof cases
    case 1
    then show ?thesis using Cons nonneg by (simp add: share_step water_fill_Cons water_fill_zero)
  next
    case 2
    then show ?thesis using Cons nonneg
      by (simp add: share_step water_fill_Cons water_fill_zero min_absorb1 min_absorb2)
  next
    case 3
    then show ?thesis using Cons nonneg by (auto simp: share_step water_fill_Cons min_absorb1 min_absorb2)
  qed
qed

section \<open>Dynamic shortages\<close>

lemma sumPlanned_entry:
  "(key, q) \<in> set (sumPlanned lines) \<longleftrightarrow>
   (\<exists>l \<in> set lines. key = pairKey (pl_warehouseId l) (pl_itemId l)) \<and> q = get_or_zero (sumPlanned lines) key"
proof -
  have keys: "fst ` set (sumPlanned lines) = (\<lambda>l. pairKey (pl_warehouseId l) (pl_itemId l)) ` set lines"
    unfolding sumPlanned_def keys_sum_by by simp
  have "distinct (map fst (sumPlanned lines))" unfolding sumPlanned_def by (rule distinct_sum_by) simp
  then have entry: "(key, q) \<in> set (sumPlanned lines) \<longleftrightarrow> map_of (sumPlanned lines) key = Some q"
    by simp
  have "map_of (sumPlanned lines) key = None \<longleftrightarrow>
      \<not> (\<exists>l \<in> set lines. key = pairKey (pl_warehouseId l) (pl_itemId l))"
    unfolding map_of_eq_None_iff keys by auto
  with entry show ?thesis unfolding get_or_zero_def
    by (cases "map_of (sumPlanned lines) key") auto
qed

lemma pair_shortage_of:
  assumes "l \<in> set lines" and "key = pairKey (pl_warehouseId l) (pl_itemId l)"
  shows "pair_shortage lines available (key, q) =
    (if q - get_or_zero available key \<le> 0 then []
     else [\<lparr>ds_warehouseId = pl_warehouseId l, ds_itemId = pl_itemId l,
            ds_availableQty = get_or_zero available key, ds_plannedQty = q,
            ds_shortageQty = q - get_or_zero available key,
            ds_lines = distributeShortage (q - get_or_zero available key)
              (filter (\<lambda>x. pl_warehouseId x = pl_warehouseId l \<and> pl_itemId x = pl_itemId l) lines)\<rparr>])"
proof -
  let ?pair = "filter (\<lambda>x. pl_warehouseId x = pl_warehouseId l \<and> pl_itemId x = pl_itemId l) lines"
  from assms(1) have "l \<in> set ?pair" by simp
  then obtain first rest where pair: "?pair = first # rest" by (cases ?pair) auto
  then have "first \<in> set ?pair" by simp
  then have "pl_warehouseId first = pl_warehouseId l" "pl_itemId first = pl_itemId l" by auto
  then show ?thesis by (simp add: pair_shortage_def assms(2) Let_def pair)
qed

definition shortage_at :: "log_db \<Rightarrow> PlannedScope \<Rightarrow> id \<Rightarrow> id \<Rightarrow> DynamicShortage" where
  "shortage_at db sc w i =
     (let excess = planned_at db sc w i - pickable_at db w i in
      \<lparr>ds_warehouseId = w, ds_itemId = i, ds_availableQty = pickable_at db w i,
       ds_plannedQty = planned_at db sc w i, ds_shortageQty = excess,
       ds_lines = distributeShortage excess
         (filter (\<lambda>x. pl_warehouseId x = w \<and> pl_itemId x = i) (plannedLines db sc))\<rparr>)"

lemma dynamicShortages_member:
  "d \<in> set (dynamicShortages db plant warehouse) \<longleftrightarrow>
   (\<exists>l \<in> set (plannedLines db (shortage_scope plant warehouse)).
      pickable_at db (pl_warehouseId l) (pl_itemId l) <
        planned_at db (shortage_scope plant warehouse) (pl_warehouseId l) (pl_itemId l) \<and>
      d = shortage_at db (shortage_scope plant warehouse) (pl_warehouseId l) (pl_itemId l))"
proof -
  let ?sc = "shortage_scope plant warehouse"
  let ?lines = "plannedLines db ?sc"
  let ?av = "availableQty db (js_set (map pl_warehouseId ?lines)) (js_set (map pl_itemId ?lines))"
  have avail: "get_or_zero ?av (pairKey (pl_warehouseId l) (pl_itemId l)) =
      pickable_at db (pl_warehouseId l) (pl_itemId l)" if "l \<in> set ?lines" for l
    by (rule get_availableQty) (use that in auto)
  have "d \<in> set (dynamicShortages db plant warehouse) \<longleftrightarrow>
      (\<exists>kq \<in> set (sumPlanned ?lines). d \<in> set (pair_shortage ?lines ?av kq))"
    by (auto simp: dynamicShortages_def Let_def sumPlanned_def)
  also have "\<dots> \<longleftrightarrow> (\<exists>l \<in> set ?lines. d \<in> set (pair_shortage ?lines ?av
      (pairKey (pl_warehouseId l) (pl_itemId l),
       get_or_zero (sumPlanned ?lines) (pairKey (pl_warehouseId l) (pl_itemId l)))))"
    using sumPlanned_entry [of _ _ ?lines] by auto
  also have "\<dots> \<longleftrightarrow> (\<exists>l \<in> set ?lines.
      pickable_at db (pl_warehouseId l) (pl_itemId l) < planned_at db ?sc (pl_warehouseId l) (pl_itemId l) \<and>
      d = shortage_at db ?sc (pl_warehouseId l) (pl_itemId l))"
    by (intro bex_cong [OF refl])
      (simp add: pair_shortage_of [OF _ refl] avail get_sumPlanned planned_at_def [symmetric] not_le
        shortage_at_def Let_def)
  finally show ?thesis .
qed

section \<open>Properties\<close>

text \<open>A dynamic shortage is reported for a warehouse and item exactly when the open quantities of the
  active requests there exceed the stock that can be picked there.\<close>
lemma dynamic_shortage_iff:
  "(\<exists>d \<in> set (dynamicShortages db plant warehouse). ds_warehouseId d = w \<and> ds_itemId d = i) \<longleftrightarrow>
   pickable_at db w i < planned_at db (shortage_scope plant warehouse) w i"
proof
  assume "\<exists>d \<in> set (dynamicShortages db plant warehouse). ds_warehouseId d = w \<and> ds_itemId d = i"
  then show "pickable_at db w i < planned_at db (shortage_scope plant warehouse) w i"
    by (auto simp: dynamicShortages_member shortage_at_def Let_def)
next
  let ?sc = "shortage_scope plant warehouse"
  assume short: "pickable_at db w i < planned_at db ?sc w i"
  with pickable_at_nonneg [of db w i] have "planned_at db ?sc w i \<noteq> 0" by simp
  then have "filter (\<lambda>l. pl_warehouseId l = w \<and> pl_itemId l = i) (plannedLines db ?sc) \<noteq> []"
    unfolding planned_at_def by (metis list.map(1) sum_list.Nil)
  then obtain l where "l \<in> set (plannedLines db ?sc)"
    "pl_warehouseId l = w" "pl_itemId l = i" by (auto simp: filter_empty_conv)
  with short have "shortage_at db ?sc w i \<in> set (dynamicShortages db plant warehouse)"
    unfolding dynamicShortages_member by blast
  then show "\<exists>d \<in> set (dynamicShortages db plant warehouse). ds_warehouseId d = w \<and> ds_itemId d = i"
    by (rule bexI [rotated]) (simp add: shortage_at_def Let_def)
qed


definition example_planned :: "id \<Rightarrow> int \<Rightarrow> decimal \<Rightarrow> PlannedLine" where
  "example_planned l date q = \<lparr>pl_warehouseId = 5, pl_itemId = 3, pl_requestId = 1, pl_requestLineId = l,
     pl_issueWorkDate = Some date, pl_plannedQty = q\<rparr>"


text \<open>A reported shortage is shared completely: its amount is what is planned beyond what can be picked,
  the shares of the request lines add up to it, and no line gets more than its own open quantity.\<close>
theorem dynamic_shortage_shared:
  assumes "d \<in> set (dynamicShortages db plant warehouse)"
  shows "ds_shortageQty d = ds_plannedQty d - ds_availableQty d \<and> 0 < ds_shortageQty d \<and>
    sum_list (map ls_shortageQty (ds_lines d)) = ds_shortageQty d \<and>
    (\<forall>s \<in> set (ds_lines d). \<exists>l \<in> set (plannedLines db (shortage_scope plant warehouse)).
       pl_requestLineId l = ls_requestLineId s \<and> pl_warehouseId l = ds_warehouseId d \<and> pl_itemId l = ds_itemId d \<and>
       0 < ls_shortageQty s \<and> ls_shortageQty s \<le> pl_plannedQty l)"
proof -
  let ?sc = "shortage_scope plant warehouse"
  from assms obtain w i where d: "d = shortage_at db ?sc w i" and short: "pickable_at db w i < planned_at db ?sc w i"
    by (auto simp: dynamicShortages_member)
  let ?pair = "filter (\<lambda>x. pl_warehouseId x = w \<and> pl_itemId x = i) (plannedLines db ?sc)"
  let ?ordered = "js_sort (by_number shortage_order) ?pair"
  have nonneg: "\<forall>l \<in> set ?ordered. 0 \<le> pl_plannedQty l" using plannedLines_nonneg by auto
  have "sum_list (map pl_plannedQty ?ordered) = planned_at db ?sc w i"
    unfolding planned_at_def by (rule sum_list_map_mset) simp
  then have "sum_list (map ls_shortageQty (ds_lines d)) = ds_shortageQty d"
    using share_sum [OF nonneg, of "planned_at db ?sc w i - pickable_at db w i"] short pickable_at_nonneg [of db w i]
    by (simp add: d shortage_at_def Let_def distributeShortage_def)
  moreover have "\<exists>l \<in> set (plannedLines db ?sc). pl_requestLineId l = ls_requestLineId s \<and>
      pl_warehouseId l = w \<and> pl_itemId l = i \<and> 0 < ls_shortageQty s \<and> ls_shortageQty s \<le> pl_plannedQty l"
    if "s \<in> set (ds_lines d)" for s
  proof -
    from that have "s \<in> set (share (planned_at db ?sc w i - pickable_at db w i) ?ordered)"
      by (simp add: d shortage_at_def Let_def distributeShortage_def)
    from share_member [OF nonneg this] show ?thesis by auto
  qed
  ultimately show ?thesis using short by (simp add: d shortage_at_def Let_def)
qed

theorem dynamic_shortage_shared_witness:
  "\<exists>d \<in> set (dynamicShortages (example_log\<lparr>stock := []\<rparr>) (Some 1) None).
     ds_shortageQty d = ds_plannedQty d - ds_availableQty d \<and> sum_list (map ls_shortageQty (ds_lines d)) = ds_shortageQty d"
proof -
  have "map ds_shortageQty (dynamicShortages (example_log\<lparr>stock := []\<rparr>) (Some 1) None) = [4]" by code_simp
  then obtain d where "d \<in> set (dynamicShortages (example_log\<lparr>stock := []\<rparr>) (Some 1) None)"
    by (auto simp: map_eq_Cons_conv)
  with dynamic_shortage_shared [OF this] show ?thesis by blast
qed

end
