(* ===== verification/Release_Request.thy ===== *)
theory Release_Request
  imports Planned_Stock
begin

text \<open>
  \<open>src/core/material-issue/release-request.ts\<close>: releasing a waiting request: allocate from its source
  warehouse, write the picking order, move the request to released. The hand-over notification writes
  notification tables only and is left out.
\<close>

section \<open>The release\<close>

text \<open>\<open>None\<close> stands for a picking number that is \<open>undefined\<close>: writing an order with it fails.\<close>

definition release_demands :: "request_line_row list \<Rightarrow> PickingDemand list" where
  "release_demands lines =
     map (\<lambda>l. \<lparr>pd_lineNo = rl_line_no l, pd_itemId = rl_item_id l, pd_uomId = rl_uom_id l, pd_qty = rl_requested_qty l\<rparr>)
       (filter (\<lambda>l. rl_requested_qty l > 0) lines)"

definition lines_in_order :: "log_db \<Rightarrow> id \<Rightarrow> request_line_row list" where
  "lines_in_order db rid = js_sort (by_number (\<lambda>a b. rl_line_no a - rl_line_no b)) (lines_of_request db rid)"

definition order_numbers :: "PickingAllocation \<Rightarrow> string option \<Rightarrow> string list" where
  "order_numbers allocation pickingOrderNo =
     (if al_orders allocation = [] then [] else case pickingOrderNo of None \<Rightarrow> [] | Some no \<Rightarrow> [no])"

definition release ::
  "TransitionRegistry \<Rightarrow> int \<Rightarrow> log_db \<Rightarrow> id \<Rightarrow> string option \<Rightarrow> id option \<Rightarrow> (bool \<times> log_db) res" where
  "release registry now db requestId pickingOrderNo appUserId =
     (case request_of db requestId of
        None \<Rightarrow> Inr (False, db)
      | Some request \<Rightarrow>
          if rq_status_code request \<noteq> ''WAITING'' then Inr (False, db)
          else bind_res (assertTransition registry REQUEST_STATUS ''material-issue-request-release''
                           (rq_status_code request) CONFLICT) (\<lambda>transition.
            case rq_source_warehouse_id request of
              None \<Rightarrow> Inl InternalError
            | Some w \<Rightarrow>
                (case warehouse_of db w of
                   None \<Rightarrow> Inl InternalError
                 | Some source \<Rightarrow>
                     if \<not> wh_is_active source then Inl InternalError
                     else let lines = lines_in_order db requestId;
                              allocation = allocateStock db (wh_plant_id source) (Some w) (release_demands lines);
                              worker = (case rq_work_order_id request of None \<Rightarrow> None
                                        | Some wo \<Rightarrow> (case work_order_of db wo of None \<Rightarrow> None | Some f \<Rightarrow> wo_worker_id f))
                          in bind_res
                            (writePicking db allocation (order_numbers allocation pickingOrderNo) worker
                               \<lparr>ps_materialIssueRequestId = requestId, ps_issueRequestNo = rq_no request,
                                ps_requestLineIds = map (\<lambda>l. (rl_line_no l, rl_id l)) lines\<rparr> appUserId)
                            (\<lambda>(pickings, db1).
                              bind_res (update_request db1 requestId (\<lambda>r. r\<lparr>rq_status_code := tr_to transition,
                                  rq_released_at := Some now, rq_release_attempted_at := Some now,
                                  rq_release_error_text := None, rq_updated_at := now, rq_updated_by := appUserId,
                                  rq_version_no := rq_version_no r + 1\<rparr>)) (\<lambda>db2.
                                Inr (True, recordRequestAudit db2 requestId ''RELEASED'' appUserId None None now))))))"

lemma release_transition:
  "\<exists>t. assertTransition TRANSITIONS REQUEST_STATUS ''material-issue-request-release'' ''WAITING'' CONFLICT = Inr t \<and>
     tr_to t = ''REGISTERED''"
proof -
  have "map_sum id tr_to (assertTransition TRANSITIONS REQUEST_STATUS ''material-issue-request-release'' ''WAITING'' CONFLICT) =
      Inr ''REGISTERED''" by code_simp
  then show ?thesis
    by (cases "assertTransition TRANSITIONS REQUEST_STATUS ''material-issue-request-release'' ''WAITING'' CONFLICT") auto
qed

section \<open>One source warehouse, one picking order\<close>

definition keyed :: "id set \<Rightarrow> lines_by_warehouse \<Rightarrow> bool" where
  "keyed S lines \<longleftrightarrow> distinct (map fst lines) \<and> fst ` set lines \<subseteq> S"

lemma keyed_push: "keyed S lines \<Longrightarrow> w \<in> S \<Longrightarrow> keyed S (push w d lines)"
  by (auto simp: keyed_def push_def distinct_update dom_update)

lemma take_slots_keyed:
  "take_slots cands demand w slots (need, left, lines) = (need', left', lines') \<Longrightarrow> w \<in> S \<Longrightarrow>
   keyed S lines \<Longrightarrow> keyed S lines'"
proof (induction slots arbitrary: need left lines)
  case Nil
  then show ?case by simp
next
  case (Cons slot slots)
  consider "need \<le> 0" | "0 < need" "left ! slot \<le> 0" | "0 < need" "0 < left ! slot" by linarith
  then show ?case
  proof cases
    case 3
    have run: "take_slots cands demand w slots (need - min need (left ! slot),
       left[slot := left ! slot - min need (left ! slot)],
       push w (draft cands demand slot (min need (left ! slot))) lines) = (need', left', lines')"
      using Cons.prems(1) 3 by (simp add: take_slots_step)
    show ?thesis by (rule Cons.IH [OF run Cons.prems(2) keyed_push [OF Cons.prems(3,2)]])
  qed (use Cons in \<open>auto simp: take_slots_step\<close>)
qed

lemma sourceWarehouse_member:
  assumes "sourceWarehouse pool = Some w"
  shows "w \<in> fst ` set pool"
proof -
  from assms obtain e where "best_entry None (warehouse_sums [] pool) = Some e" and w: "fst e = w"
    by (auto simp: sourceWarehouse_def)
  then have "e \<in> set (warehouse_sums [] pool)" using best_entry_best [of None "warehouse_sums [] pool" e] by simp
  then have "map_of (warehouse_sums [] pool) w = Some (snd e)"
    using distinct_warehouse_sums [of "[]" pool] w by (intro map_of_is_SomeI) auto
  then show ?thesis by (force simp: map_of_sums split: if_splits)
qed

lemma allocate_keyed:
  "fold (allocate_demand cands fefo) demands (left, lines, shortages) = (left', lines', shortages') \<Longrightarrow>
   keyed (sc_warehouseId ` set cands) lines \<Longrightarrow> keyed (sc_warehouseId ` set cands) lines'"
proof (induction demands arbitrary: left lines shortages)
  case Nil
  then show ?case by simp
next
  case (Cons demand demands)
  obtain left1 lines1 shortages1 where
    one: "allocate_demand cands fefo demand (left, lines, shortages) = (left1, lines1, shortages1)"
    by (cases "allocate_demand cands fefo demand (left, lines, shortages)")
  with Cons.prems(1) have rest: "fold (allocate_demand cands fefo) demands (left1, lines1, shortages1) =
      (left', lines', shortages')" by simp
  have "keyed (sc_warehouseId ` set cands) lines1"
  proof (cases "demand_source cands demand left")
    case None
    with one Cons.prems(2) show ?thesis by (auto simp: allocate_demand_def)
  next
    case (Some w)
    then obtain need where "take_slots cands demand w (demand_order cands fefo demand w)
        (pd_qty demand, left, lines) = (need, left1, lines1)"
      using one by (auto simp: allocate_demand_def split: prod.splits)
    moreover have "w \<in> sc_warehouseId ` set cands"
      using sourceWarehouse_member [OF Some [unfolded demand_source_def]]
      by (force simp: demand_pool_def)
    ultimately show ?thesis using Cons.prems(2) by (rule take_slots_keyed)
  qed
  with Cons.IH [OF rest] show ?case by simp
qed

lemma one_warehouse_one_order:
  "length (al_orders (allocateStock db plant (Some w) demands)) \<le> 1"
proof -
  let ?bals = "filter (\<lambda>r. PICKABLE_BALANCE db r \<and> itemId (dim r) \<in> set (js_set (map pd_itemId demands)) \<and>
      source_filter db plant (Some w) (warehouseId (dim r))) (stock db)"
  let ?cands = "concat (map (stock_candidate db) ?bals)"
  let ?fefo = "set (filter (fefo_item db) (js_set (map pd_itemId demands)))"
  obtain left lines shortages where run:
    "fold (allocate_demand ?cands ?fefo) demands (map sc_availableQty ?cands, [], []) = (left, lines, shortages)"
    by (cases "fold (allocate_demand ?cands ?fefo) demands (map sc_availableQty ?cands, [], [])")
  have "keyed (sc_warehouseId ` set ?cands) lines" by (rule allocate_keyed [OF run]) (simp add: keyed_def)
  moreover have "sc_warehouseId ` set ?cands \<subseteq> {w}"
    by (auto simp: stock_candidate_def source_filter_def split: option.splits)
  ultimately have lines: "distinct (map fst lines)" "fst ` set lines \<subseteq> {w}"
    unfolding keyed_def by (blast, meson subset_trans)
  have "length lines = card (fst ` set lines)" using lines(1) by (metis distinct_card length_map set_map)
  also have "\<dots> \<le> 1" using card_mono [OF _ lines(2)] by simp
  finally show ?thesis unfolding allocateStock_def Let_def allocatePicking_def run by simp
qed


section \<open>What writing a picking order keeps\<close>

definition wf_log :: "log_db \<Rightarrow> bool" where
  "wf_log db \<longleftrightarrow> wf_requests db \<and>
     list_all (\<lambda>x. po_id x < picking_order_seq db) (picking_orders db) \<and>
     list_all (\<lambda>p. pkl_picking_order_id p < picking_order_seq db \<and> pkl_id p < picking_line_seq db) (picking_lines db) \<and>
     distinct (map (\<lambda>p. (pkl_picking_order_id p, pkl_line_no p)) (picking_lines db))"

text \<open>New picking orders with unpicked lines only, for existing request lines.\<close>

definition adds_picking :: "string \<Rightarrow> log_db \<Rightarrow> log_db \<Rightarrow> bool" where
  "adds_picking no db db' \<longleftrightarrow> (\<exists>os ls n m. db' = db\<lparr>picking_orders := picking_orders db @ os, picking_lines := picking_lines db @ ls,
       picking_order_seq := picking_order_seq db + n, picking_line_seq := picking_line_seq db + m\<rparr> \<and>
     length os \<le> 1 \<and> 0 \<le> n \<and> 0 \<le> m \<and> list_all (\<lambda>x. po_id x = picking_order_seq db \<and> po_no x = no \<and> 0 < n) os \<and>
     distinct (map pkl_id ls) \<and> distinct (map pkl_line_no ls) \<and>
     list_all (\<lambda>p. set_option (pkl_request_line_id p) \<subseteq> rl_id ` set (request_lines db)) ls \<and>
     list_all (\<lambda>p. pkl_picked_qty p = 0 \<and> pkl_picking_order_id p = picking_order_seq db \<and> 0 < n \<and>
       picking_line_seq db \<le> pkl_id p \<and> pkl_id p < picking_line_seq db + m) ls)"

lemma adds_picking_keeps:
  assumes "wf_log db" and "adds_picking no db db'"
  shows "wf_log db'" and "picked_sum db' rl = picked_sum db rl" and "requests db' = requests db"
    and "request_lines db' = request_lines db" and "stock db' = stock db" and "warehouse_of db' = warehouse_of db"
proof -
  from assms(2) obtain os ls n m where
    db': "db' = db\<lparr>picking_orders := picking_orders db @ os, picking_lines := picking_lines db @ ls,
       picking_order_seq := picking_order_seq db + n, picking_line_seq := picking_line_seq db + m\<rparr>" and
    len: "length os \<le> 1" and nm: "0 \<le> n" "0 \<le> m" and
    new_orders: "list_all (\<lambda>x. po_id x = picking_order_seq db \<and> po_no x = no \<and> 0 < n) os" and
    new_ids: "distinct (map pkl_id ls)" "distinct (map pkl_line_no ls)" and
    "list_all (\<lambda>p. set_option (pkl_request_line_id p) \<subseteq> rl_id ` set (request_lines db)) ls" and
    new_lines: "list_all (\<lambda>p. pkl_picked_qty p = 0 \<and> pkl_picking_order_id p = picking_order_seq db \<and> 0 < n \<and>
       picking_line_seq db \<le> pkl_id p \<and> pkl_id p < picking_line_seq db + m) ls"
    unfolding adds_picking_def by blast
  show "requests db' = requests db" "request_lines db' = request_lines db" "stock db' = stock db"
    "warehouse_of db' = warehouse_of db" by (simp_all add: db')
  have old: "i < picking_order_seq db \<Longrightarrow> order_status db' i = order_status db i" for i
  proof -
    assume i: "i < picking_order_seq db"
    then have "find (\<lambda>x. po_id x = i) os = None" using new_orders by (auto simp: find_None_iff list_all_iff)
    then show ?thesis by (simp add: order_status_def db' find_append split: option.splits)
  qed
  have "(if live db' rl p then pkl_picked_qty p else 0) = (if live db rl p then pkl_picked_qty p else 0)"
    if "p \<in> set (picking_lines db)" for p
  proof -
    from that assms(1) have "pkl_picking_order_id p < picking_order_seq db" by (auto simp: wf_log_def list_all_iff)
    then show ?thesis by (simp add: live_def old)
  qed
  then have "map (\<lambda>p. if live db' rl p then pkl_picked_qty p else 0) (picking_lines db) =
      map (\<lambda>p. if live db rl p then pkl_picked_qty p else 0) (picking_lines db)" by simp
  moreover have "sum_list (map (\<lambda>p. if live db' rl p then pkl_picked_qty p else 0) ls) = 0"
  proof -
    have "map (\<lambda>p. if live db' rl p then pkl_picked_qty p else 0) ls = map (\<lambda>p. 0) ls"
      using new_lines by (auto simp: list_all_iff)
    then show ?thesis by (simp only: sum_list_0)
  qed
  moreover have "picking_lines db' = picking_lines db @ ls" by (simp add: db')
  ultimately show "picked_sum db' rl = picked_sum db rl" unfolding picked_sum_alt
    by (simp only: map_append sum_list_append add_0_right)
  have "distinct (map po_id (picking_orders db @ os))"
    using assms(1) len new_orders by (cases os) (auto simp: wf_log_def wf_requests_def wf_picking_def list_all_iff)
  moreover have "distinct (map pkl_id (picking_lines db @ ls))"
    using assms(1) new_ids(1) new_lines by (fastforce simp: wf_log_def wf_requests_def wf_picking_def list_all_iff)
  moreover have "distinct (map (\<lambda>p. (pkl_picking_order_id p, pkl_line_no p)) (picking_lines db @ ls))"
    using assms(1) new_ids(2) new_lines
    by (fastforce simp: wf_log_def wf_requests_def wf_picking_def list_all_iff distinct_map inj_on_def)
  ultimately show "wf_log db'"
    using assms(1) new_orders new_lines nm
    by (auto simp: db' wf_log_def wf_requests_def wf_picking_def list_all_iff)
qed


lemma writePicking_one_order:
  assumes "wf_log db" and "\<forall>x \<in> set (picking_orders db). po_no x \<noteq> no" and "length (al_orders a) \<le> 1"
    and "\<forall>od \<in> set (al_orders a). distinct (map dr_lineNo (od_lines od)) \<and>
      (\<forall>d \<in> set (od_lines od). 0 < dr_lineNo d \<and> 0 < dr_plannedQty d)"
    and "snd ` set (ps_requestLineIds source) \<subseteq> rl_id ` set (request_lines db)"
  shows "\<exists>written db'. writePicking db a (order_numbers a (Some no)) worker source who = Inr (written, db') \<and>
    adds_picking no db db'"
proof (cases "al_orders a")
  case Nil
  have "adds_picking no db db" unfolding adds_picking_def
    by (intro exI [of _ "[]"] exI [of _ "0 :: int"]) simp
  with Nil show ?thesis by (simp add: writePicking_def order_numbers_def)
next
  case (Cons od ods)
  with assms(3) have one: "al_orders a = [od]" by simp
  let ?seq = "picking_order_seq db" and ?lseq = "picking_line_seq db" and ?n = "length (od_lines od)"
  let ?row = "\<lparr>po_id = ?seq, po_no = no, po_type_code = ''MATERIAL'',
             po_source_document_type_code = ''MATERIAL_ISSUE_REQUEST'',
             po_source_document_id = ps_materialIssueRequestId source,
             po_warehouse_id = od_warehouseId od, po_status_code = ''REGISTERED'',
             po_assigned_worker_id = worker, po_created_by = who, po_updated_by = None, po_version_no = 1\<rparr>"
  let ?db1 = "db\<lparr>picking_orders := picking_orders db @ [?row], picking_order_seq := ?seq + 1\<rparr>"
  let ?rows = "map (\<lambda>(i, line). draft_row source who ?seq (?lseq + int i) line) (zip [0..<?n] (od_lines od))"
  let ?db2 = "?db1\<lparr>picking_lines := picking_lines db @ ?rows, picking_line_seq := ?lseq + int ?n\<rparr>"
  have order: "insert_picking_order db (?row\<lparr>po_id := 0\<rparr>) = Inr (?seq, ?db1)"
    using assms(2) by (auto simp: insert_picking_order_def list_ex_iff)
  have line_nos: "map pkl_line_no ?rows = map dr_lineNo (od_lines od)"
    by (rule nth_equalityI) (auto simp: draft_row_def)
  have ids: "map pkl_id ?rows = map (\<lambda>i. ?lseq + int i) [0..<?n]"
    by (rule nth_equalityI) (auto simp: draft_row_def)
  have nos: "distinct (map dr_lineNo (od_lines od))" using assms(4) one by simp
  have rows: "p \<in> set ?rows \<Longrightarrow> \<exists>i d. i < ?n \<and> d \<in> set (od_lines od) \<and> p = draft_row source who ?seq (?lseq + int i) d" for p
  proof -
    assume "p \<in> set ?rows"
    then obtain n where "n < ?n" "p = draft_row source who ?seq (?lseq + int n) (od_lines od ! n)"
      by (auto simp: in_set_zip)
    then show ?thesis using nth_mem by blast
  qed
  have fresh: "list_all (\<lambda>p. pkl_picking_order_id p < ?seq) (picking_lines db)"
    using assms(1) by (auto simp: wf_log_def list_all_iff)
  have own: "pkl_picking_order_id p = ?seq" if "p \<in> set ?rows" for p
    using rows [OF that] by (auto simp: draft_row_def)
  have "distinct (map (\<lambda>r. (pkl_picking_order_id r, pkl_line_no r)) ?rows)"
    using nos unfolding line_nos [symmetric] by (auto simp: distinct_map inj_on_def)
  moreover have "distinct (map (\<lambda>r. (pkl_picking_order_id r, pkl_line_no r)) (picking_lines db))"
    using assms(1) by (simp add: wf_log_def)
  moreover have "set (map (\<lambda>r. (pkl_picking_order_id r, pkl_line_no r)) (picking_lines db)) \<inter>
      set (map (\<lambda>r. (pkl_picking_order_id r, pkl_line_no r)) ?rows) = {}"
  proof (rule ccontr)
    assume "\<not> ?thesis"
    then obtain p p' where "p \<in> set (picking_lines db)" "p' \<in> set ?rows"
      "pkl_picking_order_id p = pkl_picking_order_id p'" by fastforce
    with own [of p'] fresh show False by (auto simp: list_all_iff)
  qed
  ultimately have "distinct (map (\<lambda>r. (pkl_picking_order_id r, pkl_line_no r)) (picking_lines db @ ?rows))"
    unfolding map_append distinct_append by (intro conjI)
  moreover have "list_all (\<lambda>r. pkl_planned_qty r > 0 \<and> pkl_line_no r > 0) ?rows"
    using rows assms(4) one by (fastforce simp: list_all_iff draft_row_def)
  ultimately have "insert_picking_lines ?db1 ?rows = Inr ?db2"
    by (simp add: insert_picking_lines_def)
  with order one have "writePicking db a [no] worker source who =
      Inr ([\<lparr>wp_pickingOrderId = ?seq, wp_warehouseId = od_warehouseId od, wp_lineCount = ?n\<rparr>], ?db2)"
    by (simp add: writePicking_def write_order_def Let_def)
  moreover have "adds_picking no db ?db2" unfolding adds_picking_def
  proof (rule exI [of _ "[?row]"], rule exI [of _ ?rows], rule exI [of _ 1], rule exI [of _ "int ?n"], intro conjI)
    show "distinct (map pkl_id ?rows)" unfolding ids by (simp add: distinct_map inj_on_def)
    show "distinct (map pkl_line_no ?rows)" unfolding line_nos by (rule nos)
    show "list_all (\<lambda>p. set_option (pkl_request_line_id p) \<subseteq> rl_id ` set (request_lines db)) ?rows"
      using rows assms(5) by (fastforce simp: list_all_iff draft_row_def dest: map_of_SomeD)
    show "list_all (\<lambda>p. pkl_picked_qty p = 0 \<and> pkl_picking_order_id p = ?seq \<and> 0 < (1 :: int) \<and>
        ?lseq \<le> pkl_id p \<and> pkl_id p < ?lseq + int ?n) ?rows"
      using rows by (fastforce simp: list_all_iff draft_row_def)
  qed simp_all
  ultimately show ?thesis using one by (auto simp: order_numbers_def)
qed


text \<open>The ids that requests and their lines may have, and the request lines picking lines may name.\<close>

definition wf_issue :: "log_db \<Rightarrow> bool" where
  "wf_issue db \<longleftrightarrow> wf_log db \<and> list_all (\<lambda>r. rq_id r < request_seq db) (requests db) \<and>
     list_all (\<lambda>l. rl_request_id l < request_seq db \<and> rl_id l < request_line_seq db) (request_lines db) \<and>
     distinct (map (\<lambda>l. (rl_request_id l, rl_line_no l)) (request_lines db)) \<and>
     list_all (\<lambda>p. \<forall>rl \<in> set_option (pkl_request_line_id p). rl < request_line_seq db) (picking_lines db)"

lemma adds_picking_issue:
  assumes "wf_issue db" and "adds_picking no db db'"
  shows "wf_issue db'" and "po_no ` set (picking_orders db') \<subseteq> insert no (po_no ` set (picking_orders db))"
    and "request_seq db' = request_seq db" and "request_line_seq db' = request_line_seq db"
proof -
  from assms(2) obtain os ls n m where
    db': "db' = db\<lparr>picking_orders := picking_orders db @ os, picking_lines := picking_lines db @ ls,
       picking_order_seq := picking_order_seq db + n, picking_line_seq := picking_line_seq db + m\<rparr>" and
    nos: "list_all (\<lambda>x. po_id x = picking_order_seq db \<and> po_no x = no \<and> 0 < n) os" and
    rls: "list_all (\<lambda>p. set_option (pkl_request_line_id p) \<subseteq> rl_id ` set (request_lines db)) ls"
    unfolding adds_picking_def by blast
  have "wf_log db'" by (rule adds_picking_keeps(1) [OF _ assms(2)]) (use assms(1) in \<open>simp add: wf_issue_def\<close>)
  moreover have ids: "\<forall>l \<in> set (request_lines db). rl_id l < request_line_seq db"
    using assms(1) by (auto simp: wf_issue_def list_all_iff)
  moreover from ids have "list_all (\<lambda>p. \<forall>rl \<in> set_option (pkl_request_line_id p). rl < request_line_seq db) ls"
    using rls by (fastforce simp: list_all_iff)
  ultimately show "wf_issue db'" using assms(1) by (simp add: wf_issue_def db')
  show "po_no ` set (picking_orders db') \<subseteq> insert no (po_no ` set (picking_orders db))"
    using nos by (auto simp: db' list_all_iff)
  show "request_seq db' = request_seq db" "request_line_seq db' = request_line_seq db" by (simp_all add: db')
qed

section \<open>What the release keeps\<close>

lemma allocated_lines:
  assumes "od \<in> set (al_orders (allocateStock db plant warehouse demands))"
  shows "distinct (map dr_lineNo (od_lines od))" and "d \<in> set (od_lines od) \<Longrightarrow> 0 < dr_lineNo d \<and> 0 < dr_plannedQty d"
proof -
  from assms obtain ls where ls: "od_lines od = number_lines ls"
    by (auto simp: allocateStock_def allocatePicking_def Let_def split: prod.splits)
  have nos: "map dr_lineNo (number_lines ls) = map (\<lambda>i. int i + 1) [0..<length ls]"
    by (rule nth_equalityI) (auto simp: number_lines_def)
  show "distinct (map dr_lineNo (od_lines od))" unfolding ls nos by (simp add: distinct_map inj_on_def)
  assume d: "d \<in> set (od_lines od)"
  then have "dr_lineNo d \<in> set (map dr_lineNo (number_lines ls))" by (simp add: ls)
  then have "0 < dr_lineNo d" unfolding nos by auto
  moreover have "0 < dr_plannedQty d"
    using allocation_drawn [OF assms [unfolded allocateStock_def Let_def] d] by (simp add: drawn_def)
  ultimately show "0 < dr_lineNo d \<and> 0 < dr_plannedQty d" ..
qed

text \<open>What a plan reads of a request.\<close>

definition plan_key :: "request_row \<Rightarrow> id \<times> id option \<times> bool \<times> int option" where
  "plan_key r = (rq_id r, rq_source_warehouse_id r,
     rq_status_code r \<in> ACTIVE_REQUEST_STATUSES \<and> rq_closed_at r = None, rq_issue_work_date r)"

lemma plannedLines_cong:
  assumes "request_lines db' = request_lines db" and "warehouse_of db' = warehouse_of db"
    and "\<And>rl. picked_sum db' rl = picked_sum db rl"
    and "\<And>r. map_option plan_key (request_of db' r) = map_option plan_key (request_of db r)"
  shows "plannedLines db' sc = plannedLines db sc"
proof -
  have "planned_line db' sc l = planned_line db sc l" for l
    using assms(4) [of "rl_request_id l"]
    by (cases "request_of db' (rl_request_id l)"; cases "request_of db (rl_request_id l)")
      (auto simp: planned_line_def plan_key_def assms(2,3) split: option.splits)
  then have "planned_line db' sc = planned_line db sc" by (rule ext)
  then show ?thesis by (simp add: plannedLines_def assms(1))
qed

lemma request_of_update:
  assumes "\<And>q. rq_id (f q) = rq_id q" and "requests db' = map (\<lambda>q. if rq_id q = r then f q else q) (requests db)"
  shows "request_of db' k = map_option (\<lambda>q. if rq_id q = r then f q else q) (request_of db k)"
  unfolding request_of_def assms(2) by (rule find_map_key) (simp add: assms(1))

lemma release_effect:
  assumes "wf_log db" and "request_of db r = Some q" and "rq_status_code q = ''WAITING''"
    and "rq_source_warehouse_id q = Some w" and "warehouse_of db w = Some f" and "wh_is_active f"
    and "\<forall>x \<in> set (picking_orders db). po_no x \<noteq> no"
  shows "\<exists>db1 db'. release TRANSITIONS now db r (Some no) who = Inr (True, db') \<and> adds_picking no db db1 \<and>
    (\<exists>audit. db' = db1\<lparr>requests := map (\<lambda>x. if rq_id x = r
        then x\<lparr>rq_status_code := ''REGISTERED'', rq_released_at := Some now, rq_release_attempted_at := Some now,
          rq_release_error_text := None, rq_updated_at := now, rq_updated_by := who,
          rq_version_no := rq_version_no x + 1\<rparr> else x) (requests db), audit_events := audit\<rparr>)"
proof -
  obtain t where t: "assertTransition TRANSITIONS REQUEST_STATUS ''material-issue-request-release'' ''WAITING'' CONFLICT = Inr t"
    "tr_to t = ''REGISTERED''" using release_transition by blast
  let ?lines = "lines_in_order db r"
  let ?a = "allocateStock db (wh_plant_id f) (Some w) (release_demands ?lines)"
  let ?worker = "case rq_work_order_id q of None \<Rightarrow> None
     | Some wo \<Rightarrow> (case work_order_of db wo of None \<Rightarrow> None | Some f \<Rightarrow> wo_worker_id f)"
  let ?source = "\<lparr>ps_materialIssueRequestId = r, ps_issueRequestNo = rq_no q,
     ps_requestLineIds = map (\<lambda>l. (rl_line_no l, rl_id l)) ?lines\<rparr>"
  have "\<forall>od \<in> set (al_orders ?a). distinct (map dr_lineNo (od_lines od)) \<and>
      (\<forall>d \<in> set (od_lines od). 0 < dr_lineNo d \<and> 0 < dr_plannedQty d)"
    using allocated_lines by blast
  note lines_ok = this
  have "snd ` set (ps_requestLineIds ?source) \<subseteq> rl_id ` set (request_lines db)"
    by (auto simp: lines_in_order_def lines_of_request_def)
  from writePicking_one_order [OF assms(1,7) one_warehouse_one_order lines_ok this, of ?worker who]
  obtain written db1 where wr: "writePicking db ?a (order_numbers ?a (Some no)) ?worker ?source who = Inr (written, db1)"
    and adds: "adds_picking no db db1" by blast
  have same: "requests db1 = requests db" by (rule adds_picking_keeps(3) [OF assms(1) adds])
  from find_key [OF assms(2) [unfolded request_of_def]] have "\<exists>x \<in> set (requests db1). rq_id x = r" by (auto simp: same)
  note update = update_request_row [OF this]
  have "release TRANSITIONS now db r (Some no) who = Inr (True, recordRequestAudit
     (db1\<lparr>requests := map (\<lambda>x. if rq_id x = r
        then x\<lparr>rq_status_code := tr_to t, rq_released_at := Some now, rq_release_attempted_at := Some now,
          rq_release_error_text := None, rq_updated_at := now, rq_updated_by := who,
          rq_version_no := rq_version_no x + 1\<rparr> else x) (requests db1)\<rparr>) r ''RELEASED'' who None None now)"
    by (simp add: release_def assms(2-6) t(1) Let_def wr update)
  then have "release TRANSITIONS now db r (Some no) who = Inr (True, recordRequestAudit
     (db1\<lparr>requests := map (\<lambda>x. if rq_id x = r
        then x\<lparr>rq_status_code := ''REGISTERED'', rq_released_at := Some now, rq_release_attempted_at := Some now,
          rq_release_error_text := None, rq_updated_at := now, rq_updated_by := who,
          rq_version_no := rq_version_no x + 1\<rparr> else x) (requests db)\<rparr>) r ''RELEASED'' who None None now)"
    unfolding t(2) same .
  with adds show ?thesis unfolding recordRequestAudit_def by fastforce
qed


lemma release_keeps_log:
  assumes "wf_log db" and "request_of db r = Some q" and "rq_status_code q = ''WAITING''"
    and "rq_source_warehouse_id q = Some w" and "warehouse_of db w = Some f" and "wh_is_active f"
    and "\<forall>x \<in> set (picking_orders db). po_no x \<noteq> no"
  shows "\<exists>db'. release TRANSITIONS now db r (Some no) who = Inr (True, db') \<and>
    map_option rq_status_code (request_of db' r) = Some ''REGISTERED'' \<and>
    (\<forall>sc. plannedLines db' sc = plannedLines db sc) \<and> stock db' = stock db \<and> wf_log db' \<and>
    length (picking_orders db') \<le> length (picking_orders db) + 1 \<and>
    (wf_issue db \<longrightarrow> wf_issue db') \<and> warehouse_of db' = warehouse_of db \<and>
    map rq_no (requests db') = map rq_no (requests db) \<and>
    po_no ` set (picking_orders db') \<subseteq> insert no (po_no ` set (picking_orders db)) \<and> pickable_at db' = pickable_at db"
proof -
  let ?f = "\<lambda>x. if rq_id x = r
        then x\<lparr>rq_status_code := ''REGISTERED'', rq_released_at := Some now, rq_release_attempted_at := Some now,
          rq_release_error_text := None, rq_updated_at := now, rq_updated_by := who,
          rq_version_no := rq_version_no x + 1\<rparr> else x"
  from release_effect [OF assms] obtain db1 db' audit where
    run: "release TRANSITIONS now db r (Some no) who = Inr (True, db')" and adds: "adds_picking no db db1" and
    db': "db' = db1\<lparr>requests := map ?f (requests db), audit_events := audit\<rparr>" by blast
  note kept = adds_picking_keeps [OF assms(1) adds]
  have row: "request_of db' k = map_option ?f (request_of db k)" for k
    unfolding request_of_def db' by (simp add: find_map_key)
  have "map_option plan_key (request_of db' k) = map_option plan_key (request_of db k)" for k
  proof (cases "request_of db k")
    case (Some x)
    then have "rq_id x = k" by (auto simp: request_of_def dest: find_key)
    with Some assms(2,3) show ?thesis by (auto simp: row plan_key_def)
  qed (simp add: row)
  moreover have "picked_sum db' rl = picked_sum db rl" for rl
    using picking_tables_cong(4) [of db' db1 rl] kept(2) by (simp add: db')
  moreover have "request_lines db' = request_lines db" "warehouse_of db' = warehouse_of db"
    by (simp_all add: db' kept)
  ultimately have "plannedLines db' sc = plannedLines db sc" for sc by (intro plannedLines_cong)
  moreover have "map_option rq_status_code (request_of db' r) = Some ''REGISTERED''"
    using find_key [OF assms(2) [unfolded request_of_def]] by (simp add: row assms(2))
  moreover have "wf_log db'"
  proof -
    have "distinct (map rq_id (map ?f (requests db))) = distinct (map rq_id (requests db))"
      by (rule arg_cong [where f = distinct]) simp
    with kept(1,3) show ?thesis by (simp add: db' wf_log_def wf_requests_def wf_picking_def del: map_map)
  qed
  moreover have "length (picking_orders db') \<le> length (picking_orders db) + 1"
    using adds unfolding adds_picking_def db' by auto
  moreover have "wf_issue db \<longrightarrow> wf_issue db'"
  proof
    assume issue: "wf_issue db"
    have "wf_issue db1" by (rule adds_picking_issue(1) [OF issue adds])
    moreover have "list_all (\<lambda>x. rq_id x < request_seq db) (map ?f (requests db))"
      using issue by (auto simp: wf_issue_def list_all_iff)
    ultimately show "wf_issue db'" using \<open>wf_log db'\<close> adds_picking_issue(3) [OF issue adds]
      by (simp add: wf_issue_def db')
  qed
  moreover have "map rq_no (requests db') = map rq_no (requests db)" by (simp add: db')
  moreover have "po_no ` set (picking_orders db') \<subseteq> insert no (po_no ` set (picking_orders db))"
    using adds by (auto simp: db' adds_picking_def list_all_iff)
  moreover have "pickable_at db' = pickable_at db"
  proof -
    have "lots db1 = lots db" "open_holds db1 = open_holds db" using adds by (auto simp: adds_picking_def)
    then have "PICKABLE_BALANCE db' = PICKABLE_BALANCE db"
      by (intro ext) (simp add: PICKABLE_BALANCE_def db' cong: option.case_cong)
    then show ?thesis by (intro ext) (simp add: pickable_at_def db' kept(5))
  qed
  moreover have "stock db' = stock db" by (simp add: db' kept(5))
  moreover note run
  ultimately show ?thesis using \<open>warehouse_of db' = warehouse_of db\<close> by (intro exI [of _ db'] conjI allI)
qed

section \<open>Properties\<close>

text \<open>C34. Releasing a waiting request from an active source warehouse with an unused picking number always
  succeeds, whatever the stock: the request becomes released, at most one picking order is written, and
  neither the stock nor any planned quantity changes.\<close>
theorem release_succeeds:
  assumes "wf_log db" and "request_of db r = Some q" and "rq_status_code q = ''WAITING''"
    and "rq_source_warehouse_id q = Some w" and "warehouse_of db w = Some f" and "wh_is_active f"
    and "\<forall>x \<in> set (picking_orders db). po_no x \<noteq> no"
  shows "\<exists>db'. release TRANSITIONS now db r (Some no) who = Inr (True, db') \<and>
    map_option rq_status_code (request_of db' r) = Some ''REGISTERED'' \<and>
    (\<forall>sc. plannedLines db' sc = plannedLines db sc) \<and> stock db' = stock db \<and>
    length (picking_orders db') \<le> length (picking_orders db) + 1"
  using release_keeps_log [OF assms] by blast

lemma example_log_wf: "wf_log example_log"
  by (simp add: wf_log_def wf_requests_def wf_picking_def example_log_def)

theorem release_succeeds_witness:
  "\<exists>db'. release TRANSITIONS 90 example_log 1 (Some ''PK-1'') None = Inr (True, db') \<and>
     map_option rq_status_code (request_of db' 1) = Some ''REGISTERED''"
proof -
  have "map_option rq_status_code (request_of example_log 1) = Some ''WAITING''"
    "map_option rq_source_warehouse_id (request_of example_log 1) = Some (Some 5)" by code_simp+
  then obtain q where q: "request_of example_log 1 = Some q" "rq_status_code q = ''WAITING''"
    "rq_source_warehouse_id q = Some 5" by auto
  have w: "warehouse_of example_log 5 = Some \<lparr>wh_plant_id = 1, wh_type_code = ''MATERIAL'',
         wh_is_active = True, wh_code = ''W5'', wh_name = ''W5''\<rparr>"
    "\<forall>x \<in> set (picking_orders example_log). po_no x \<noteq> ''PK-1''" by (simp_all add: example_log_def)
  from release_succeeds [OF example_log_wf q w(1) _ w(2), of 90 None] show ?thesis by auto
qed



end
