(* ===== verification/Replenishment.thy ===== *)
theory Replenishment
  imports Release_Request
begin

text \<open>
  \<open>src/core/material-issue/replenishment-stock.ts\<close>, \<open>production-warehouse.ts\<close> and
  \<open>replenishment-create.ts\<close>: what a production warehouse has, expects and can use, where a replenishment
  arrives, and the requests that replenish it: one per source warehouse, never for more than is free there.
\<close>

section \<open>Production warehouses\<close>

definition active_warehouse :: "log_db \<Rightarrow> id \<Rightarrow> bool" where
  "active_warehouse db w \<longleftrightarrow> (case warehouse_of db w of None \<Rightarrow> False | Some f \<Rightarrow> wh_is_active f)"

definition plantProductionWarehouses :: "log_db \<Rightarrow> id \<Rightarrow> id list" where
  "plantProductionWarehouses db plant =
     js_sort (\<le>) (js_set (map snd (filter (\<lambda>(d, w). active_warehouse db w \<and>
       map_option wh_plant_id (warehouse_of db w) = Some plant) (department_warehouses db))))"

definition isProductionWarehouse :: "log_db \<Rightarrow> id \<Rightarrow> bool" where
  "isProductionWarehouse db w \<longleftrightarrow> list_ex (\<lambda>(d, w'). w' = w \<and> active_warehouse db w') (department_warehouses db)"

definition isDividedWarehouse :: "log_db \<Rightarrow> id \<Rightarrow> bool" where
  "isDividedWarehouse db w \<longleftrightarrow>
     list_ex (\<lambda>l. loc_warehouse_id l = w \<and> loc_is_active l \<and> loc_system_role_code l = None) (locations db)"

definition arrivalLocationId :: "log_db \<Rightarrow> id \<Rightarrow> id res" where
  "arrivalLocationId db w =
     (let role = (if isDividedWarehouse db w then ''PUTAWAY_STAGING'' else ''WAREHOUSE_WHOLE'') in
      case find (\<lambda>l. loc_warehouse_id l = w \<and> loc_system_role_code l = Some role) (locations db) of
        None \<Rightarrow> Inl InternalError
      | Some l \<Rightarrow> Inr (loc_id l))"

section \<open>What a production warehouse has\<close>

record ReplenishmentStock =
  rs_availableQty :: decimal
  rs_plannedQty :: decimal
  rs_usableQty :: decimal
  rs_inProgressQty :: decimal
  rs_inProgressRequestCount :: nat

text \<open>The open lines of the replenishment requests that arrive at the given warehouses, with that
  warehouse.\<close>

definition incoming_lines :: "log_db \<Rightarrow> id list \<Rightarrow> id list \<Rightarrow> (id \<times> request_line_row) list" where
  "incoming_lines db warehouseIds itemIds =
     concat (map (\<lambda>l.
       case request_of db (rl_request_id l) of None \<Rightarrow> []
       | Some r \<Rightarrow>
           (case find (\<lambda>x. loc_id x = rq_destination_location_id r) (locations db) of None \<Rightarrow> []
            | Some x \<Rightarrow>
                if rl_item_id l \<in> set itemIds \<and> rq_type_code r = ''REPLENISHMENT'' \<and>
                   rq_status_code r \<in> ACTIVE_REQUEST_STATUSES \<and> rq_closed_at r = None \<and>
                   loc_warehouse_id x \<in> set warehouseIds
                then [(loc_warehouse_id x, l)] else [])) (request_lines db))"

definition replenishment_pair ::
  "(string \<times> decimal) list \<Rightarrow> (string \<times> decimal) list \<Rightarrow> (id \<times> request_line_row) list \<Rightarrow> id \<times> id \<Rightarrow> ReplenishmentStock" where
  "replenishment_pair available planned incoming p =
     (case p of (w, i) \<Rightarrow>
        let key = pairKey w i; mine = filter (\<lambda>(w', l). pairKey w' (rl_item_id l) = key) incoming in
        \<lparr>rs_availableQty = get_or_zero available key, rs_plannedQty = get_or_zero planned key,
         rs_usableQty = get_or_zero available key - get_or_zero planned key,
         rs_inProgressQty = sum_list (map (\<lambda>(w', l). max (rl_requested_qty l - rl_issued_qty l) 0) mine),
         rs_inProgressRequestCount = length (js_set (map (\<lambda>(w', l). rl_request_id l) mine))\<rparr>)"

definition replenishmentStock :: "log_db \<Rightarrow> (id \<times> id) list \<Rightarrow> (string \<times> ReplenishmentStock) list" where
  "replenishmentStock db pairs =
     (if pairs = [] then []
      else let warehouseIds = js_set (map fst pairs); itemIds = js_set (map snd pairs);
               available = availableQty db warehouseIds itemIds;
               planned = sumPlanned (plannedLines db
                 \<lparr>in_warehouses = Some warehouseIds, in_plant = None, in_items = Some itemIds\<rparr>);
               incoming = incoming_lines db warehouseIds itemIds
           in fold (\<lambda>(w, i). AList.update (pairKey w i) (replenishment_pair available planned incoming (w, i))) pairs [])"

section \<open>Making replenishment requests\<close>

record ReplenishmentLine =
  rp_itemId :: id
  rp_uomId :: id
  rp_requestedQty :: decimal
  rp_sourceWarehouseId :: id

record ReplenishmentCreateInput =
  ri_productionWarehouseId :: id
  ri_destinationLocationId :: id
  ri_issueWorkDate :: int
  ri_origin :: code
  ri_runId :: "id option"
  ri_lines :: "ReplenishmentLine list"
  ri_remarks :: "string option"
  ri_actorId :: "id option"
  ri_now :: int

record CappedLine =
  cl_line :: ReplenishmentLine
  cl_requested :: decimal
  cl_shortage :: decimal
  cl_freeQty :: decimal

record ReplenishmentCreated =
  rc_requests :: "(id \<times> id \<times> CappedLine list) list"
  rc_skippedLines :: "CappedLine list"

definition sourceGroups :: "ReplenishmentLine list \<Rightarrow> id list" where
  "sourceGroups lines = js_sort (by_number compareIds) (js_set (map rp_sourceWarehouseId lines))"

text \<open>One line: the state is what earlier lines used, the kept and the skipped lines.\<close>

definition plan_line ::
  "(string \<times> decimal) list \<Rightarrow> (string \<times> decimal) list \<Rightarrow> ReplenishmentLine \<Rightarrow>
   (string \<times> decimal) list \<times> CappedLine list \<times> CappedLine list \<Rightarrow>
   (string \<times> decimal) list \<times> CappedLine list \<times> CappedLine list" where
  "plan_line available planned line s =
     (case s of (used, kept, skipped) \<Rightarrow>
        let key = pairKey (rp_sourceWarehouseId line) (rp_itemId line);
            free = max (get_or_zero available key - get_or_zero planned key - get_or_zero used key) 0;
            requested = min (rp_requestedQty line) free;
            row = \<lparr>cl_line = line, cl_requested = requested, cl_shortage = rp_requestedQty line - requested,
                   cl_freeQty = free\<rparr>
        in if requested \<le> 0 then (used, kept, skipped @ [row])
           else (add_to key requested used, kept @ [row], skipped))"

definition planLines ::
  "ReplenishmentLine list \<Rightarrow> (string \<times> decimal) list \<Rightarrow> (string \<times> decimal) list \<Rightarrow> CappedLine list \<times> CappedLine list" where
  "planLines lines available planned = snd (fold (plan_line available planned) lines ([], [], []))"

definition insert_request :: "log_db \<Rightarrow> request_row \<Rightarrow> (id \<times> log_db) res" where
  "insert_request db row =
     (if list_ex (\<lambda>r. rq_no r = rq_no row) (requests db) then Inl (DbError (P2002 [''issue_request_no'']))
      else Inr (request_seq db, db\<lparr>requests := requests db @ [row\<lparr>rq_id := request_seq db\<rparr>],
                                  request_seq := request_seq db + 1\<rparr>))"

definition insert_request_lines :: "log_db \<Rightarrow> request_line_row list \<Rightarrow> log_db res" where
  "insert_request_lines db rows =
     (if list_all (\<lambda>l. 0 < rl_line_no l \<and> 0 \<le> rl_requested_qty l \<and> 0 \<le> rl_shortage_qty l \<and>
                       rl_issued_qty l \<le> rl_requested_qty l) rows \<and>
         distinct (map (\<lambda>l. (rl_request_id l, rl_line_no l)) (request_lines db @ rows))
      then Inr (db\<lparr>request_lines := request_lines db @ rows,
                   request_line_seq := request_line_seq db + int (length rows)\<rparr>)
      else Inl (DbError OtherDriverError))"

definition writeRequest ::
  "log_db \<Rightarrow> ReplenishmentCreateInput \<Rightarrow> id \<Rightarrow> CappedLine list \<Rightarrow> string option \<Rightarrow> (id \<times> log_db) res" where
  "writeRequest db input sourceWarehouseId rows requestNo =
     (case requestNo of None \<Rightarrow> Inl InternalError
      | Some no \<Rightarrow>
      bind_res (insert_request db
        \<lparr>rq_id = 0, rq_no = no, rq_type_code = ''REPLENISHMENT'', rq_status_code = ''WAITING'',
         rq_work_order_id = None, rq_source_warehouse_id = Some sourceWarehouseId,
         rq_destination_location_id = ri_destinationLocationId input,
         rq_issue_work_date = Some (ri_issueWorkDate input), rq_closed_at = None, rq_close_reason_code = None,
         rq_close_reason_detail_code = None, rq_close_remark = None, rq_closed_by = None, rq_cancelled_at = None,
         rq_cancelled_by = None, rq_released_at = None, rq_release_attempted_at = None,
         rq_release_error_text = None, rq_origin_code = Some (ri_origin input), rq_run_id = ri_runId input,
         rq_requested_by = ri_actorId input, rq_remarks = ri_remarks input, rq_created_by = ri_actorId input,
         rq_updated_at = ri_now input, rq_updated_by = ri_actorId input, rq_version_no = 1\<rparr>)
        (\<lambda>(rid, db1).
          bind_res (insert_request_lines db1
            (map (\<lambda>(index, row). \<lparr>rl_id = request_line_seq db1 + int index, rl_request_id = rid,
                 rl_line_no = int index + 1, rl_item_id = rp_itemId (cl_line row), rl_uom_id = rp_uomId (cl_line row),
                 rl_requested_qty = cl_requested row, rl_issued_qty = 0, rl_shortage_qty = cl_shortage row,
                 rl_created_by = ri_actorId input\<rparr>) (zip [0..<length rows] rows)))
            (\<lambda>db2. Inr (rid, recordRequestAudit db2 rid ''CREATED'' (ri_actorId input) (Some (ri_origin input))
                          None (ri_now input)))))"

definition nth_opt :: "'a list \<Rightarrow> nat \<Rightarrow> 'a option" where
  "nth_opt xs i = (if i < length xs then Some (xs ! i) else None)"

definition write_source ::
  "TransitionRegistry \<Rightarrow> ReplenishmentCreateInput \<Rightarrow> string list \<Rightarrow> string list \<Rightarrow> CappedLine list \<Rightarrow> nat \<times> id \<Rightarrow>
   (id \<times> id \<times> CappedLine list) list \<times> log_db \<Rightarrow> ((id \<times> id \<times> CappedLine list) list \<times> log_db) res" where
  "write_source registry input requestNos pickingNos kept iw s =
     (case (iw, s) of ((index, w), (made, db)) \<Rightarrow>
        let rows = filter (\<lambda>row. rp_sourceWarehouseId (cl_line row) = w) kept in
        if rows = [] then Inr (made, db)
        else bind_res (writeRequest db input w rows (nth_opt requestNos index)) (\<lambda>(rid, db1).
             bind_res (release registry (ri_now input) db1 rid (nth_opt pickingNos index) (ri_actorId input)) (\<lambda>(_, db2).
               Inr (made @ [(rid, w, rows)], db2))))"

definition create_replenishment ::
  "TransitionRegistry \<Rightarrow> log_db \<Rightarrow> ReplenishmentCreateInput \<Rightarrow> string list \<Rightarrow> string list \<Rightarrow>
   (ReplenishmentCreated \<times> log_db) res" where
  "create_replenishment registry db input requestNos pickingNos =
     (let sources = sourceGroups (ri_lines input);
          itemIds = js_set (map rp_itemId (ri_lines input));
          available = availableQty db sources itemIds;
          planned = sumPlanned (plannedLines db \<lparr>in_warehouses = Some sources, in_plant = None, in_items = Some itemIds\<rparr>)
      in case planLines (ri_lines input) available planned of (kept, skipped) \<Rightarrow>
         bind_res (fold_res (write_source registry input requestNos pickingNos kept)
                     (zip [0..<length sources] sources) ([], db))
           (\<lambda>(made, db'). Inr (\<lparr>rc_requests = made, rc_skippedLines = skipped\<rparr>, db')))"


section \<open>The cap\<close>

definition row_key :: "CappedLine \<Rightarrow> string" where
  "row_key row = pairKey (rp_sourceWarehouseId (cl_line row)) (rp_itemId (cl_line row))"

definition kept_for :: "CappedLine list \<Rightarrow> string \<Rightarrow> decimal" where
  "kept_for rows key = sum_list (map cl_requested (filter (\<lambda>row. row_key row = key) rows))"

definition capped :: "CappedLine \<Rightarrow> bool" where
  "capped row \<longleftrightarrow> 0 < cl_requested row \<and> 0 \<le> cl_shortage row \<and>
     cl_requested row + cl_shortage row = rp_requestedQty (cl_line row)"

lemma plan_lines_keeps:
  assumes "fold (plan_line available planned) lines (used, kept, skipped) = (used', kept', skipped')"
    and "\<forall>key. get_or_zero used key = kept_for kept key \<and>
      get_or_zero used key \<le> max (get_or_zero available key - get_or_zero planned key) 0"
    and "\<forall>row \<in> set kept. capped row \<and> cl_line row \<in> L" and "set lines \<subseteq> L"
  shows "(\<forall>key. kept_for kept' key \<le> max (get_or_zero available key - get_or_zero planned key) 0) \<and>
    (\<forall>row \<in> set kept'. capped row \<and> cl_line row \<in> L)"
  using assms
proof (induction lines arbitrary: used kept skipped)
  case Nil
  then show ?case by simp metis
next
  case (Cons line lines)
  let ?key = "pairKey (rp_sourceWarehouseId line) (rp_itemId line)"
  let ?free = "max (get_or_zero available ?key - get_or_zero planned ?key - get_or_zero used ?key) 0"
  let ?take = "min (rp_requestedQty line) ?free"
  let ?row = "\<lparr>cl_line = line, cl_requested = ?take, cl_shortage = rp_requestedQty line - ?take, cl_freeQty = ?free\<rparr>"
  show ?case
  proof (cases "?take \<le> 0")
    case True
    then have "plan_line available planned line (used, kept, skipped) = (used, kept, skipped @ [?row])"
      by (simp add: plan_line_def Let_def)
    with Cons.prems(1) have "fold (plan_line available planned) lines (used, kept, skipped @ [?row]) = (used', kept', skipped')"
      by simp
    from Cons.IH [OF this Cons.prems(2,3)] Cons.prems(4) show ?thesis by simp
  next
    case False
    then have step: "plan_line available planned line (used, kept, skipped) = (add_to ?key ?take used, kept @ [?row], skipped)"
      by (simp add: plan_line_def Let_def)
    with Cons.prems(1) have run: "fold (plan_line available planned) lines (add_to ?key ?take used, kept @ [?row], skipped) = (used', kept', skipped')"
      by simp
    have cap: "get_or_zero used ?key + ?take \<le> max (get_or_zero available ?key - get_or_zero planned ?key) 0"
      using Cons.prems(2) [rule_format, of ?key] by (simp add: min_def max_def split: if_splits)
    have step_inv: "get_or_zero (add_to ?key ?take used) key = kept_for (kept @ [?row]) key \<and>
        get_or_zero (add_to ?key ?take used) key \<le> max (get_or_zero available key - get_or_zero planned key) 0" for key
      using Cons.prems(2) [rule_format, of key] cap
      by (cases "key = ?key") (simp_all add: get_add_to kept_for_def row_key_def)
    have rows: "\<forall>row \<in> set (kept @ [?row]). capped row \<and> cl_line row \<in> L"
      using Cons.prems(3,4) False by (auto simp: capped_def)
    show ?thesis by (rule Cons.IH [OF run allI [OF step_inv] rows]) (use Cons.prems(4) in simp)
  qed
qed

lemma planLines_bound:
  assumes "planLines lines available planned = (kept, skipped)"
  shows "kept_for kept key \<le> max (get_or_zero available key - get_or_zero planned key) 0"
    and "row \<in> set kept \<Longrightarrow> capped row \<and> cl_line row \<in> set lines"
proof -
  obtain used where run: "fold (plan_line available planned) lines ([], [], []) = (used, kept, skipped)"
    using assms by (cases "fold (plan_line available planned) lines ([], [], [])") (auto simp: planLines_def)
  have "\<forall>key. get_or_zero [] key = kept_for [] key \<and>
      get_or_zero [] key \<le> max (get_or_zero available key - get_or_zero planned key) 0"
    by (simp add: get_or_zero_def kept_for_def)
  from plan_lines_keeps [OF run this, of "set lines"]
  show "kept_for kept key \<le> max (get_or_zero available key - get_or_zero planned key) 0"
    and "row \<in> set kept \<Longrightarrow> capped row \<and> cl_line row \<in> set lines" by auto
qed

section \<open>Writing one request\<close>

definition kept_at :: "CappedLine list \<Rightarrow> id \<Rightarrow> id \<Rightarrow> decimal" where
  "kept_at rows w i = kept_for rows (pairKey w i)"

definition new_lines :: "ReplenishmentCreateInput \<Rightarrow> id \<Rightarrow> id \<Rightarrow> CappedLine list \<Rightarrow> request_line_row list" where
  "new_lines input rid start rows =
     map (\<lambda>(index, row). \<lparr>rl_id = start + int index, rl_request_id = rid,
       rl_line_no = int index + 1, rl_item_id = rp_itemId (cl_line row), rl_uom_id = rp_uomId (cl_line row),
       rl_requested_qty = cl_requested row, rl_issued_qty = 0, rl_shortage_qty = cl_shortage row,
       rl_created_by = ri_actorId input\<rparr>) (zip [0..<length rows] rows)"

lemma new_lines_facts:
  "l \<in> set (new_lines input rid start rows) \<Longrightarrow>
     \<exists>i < length rows. rl_id l = start + int i \<and> rl_request_id l = rid \<and> rl_line_no l = int i + 1 \<and>
       rl_item_id l = rp_itemId (cl_line (rows ! i)) \<and> rl_requested_qty l = cl_requested (rows ! i) \<and>
       rl_issued_qty l = 0 \<and> rl_shortage_qty l = cl_shortage (rows ! i)"
proof -
  assume "l \<in> set (new_lines input rid start rows)"
  then obtain n where "n < length rows" "l = \<lparr>rl_id = start + int n, rl_request_id = rid,
       rl_line_no = int n + 1, rl_item_id = rp_itemId (cl_line (rows ! n)), rl_uom_id = rp_uomId (cl_line (rows ! n)),
       rl_requested_qty = cl_requested (rows ! n), rl_issued_qty = 0, rl_shortage_qty = cl_shortage (rows ! n),
       rl_created_by = ri_actorId input\<rparr>"
    by (auto simp: new_lines_def in_set_zip)
  then show ?thesis by (intro exI [of _ n]) simp
qed

lemma new_lines_nos: "map rl_line_no (new_lines input rid start rows) = map (\<lambda>i. int i + 1) [0..<length rows]"
  by (rule nth_equalityI) (auto simp: new_lines_def)


text \<open>A new request with new lines; nothing else that plans read changes.\<close>

definition adds_request :: "request_row \<Rightarrow> request_line_row list \<Rightarrow> log_db \<Rightarrow> log_db \<Rightarrow> bool" where
  "adds_request q ls db db' \<longleftrightarrow> (\<exists>audit. db' = db\<lparr>requests := requests db @ [q], request_lines := request_lines db @ ls,
     request_seq := request_seq db + 1, request_line_seq := request_line_seq db + int (length ls), audit_events := audit\<rparr>)"

lemma adds_request_tables:
  assumes "adds_request q ls db db'"
  shows "requests db' = requests db @ [q]" and "request_lines db' = request_lines db @ ls"
    and "picking_orders db' = picking_orders db" and "picking_lines db' = picking_lines db"
    and "warehouse_of db' = warehouse_of db" and "stock db' = stock db" and "lots db' = lots db"
    and "open_holds db' = open_holds db" and "request_seq db' = request_seq db + 1"
    and "request_line_seq db' = request_line_seq db + int (length ls)"
    and "picking_order_seq db' = picking_order_seq db" and "picking_line_seq db' = picking_line_seq db"
  using assms by (auto simp: adds_request_def)

lemma adds_request_wf:
  assumes "wf_issue db" and "adds_request q ls db db'" and "rq_id q = request_seq db"
    and "\<forall>l \<in> set ls. rl_request_id l = request_seq db \<and> request_line_seq db \<le> rl_id l \<and>
      rl_id l < request_line_seq db + int (length ls)"
    and "distinct (map (\<lambda>l. (rl_request_id l, rl_line_no l)) (request_lines db @ ls))"
  shows "wf_issue db'"
  using assms(1,3,4,5)
  by (fastforce simp: wf_issue_def wf_log_def wf_requests_def wf_picking_def adds_request_tables [OF assms(2)]
      list_all_iff)

lemma adds_request_plans:
  assumes "wf_issue db" and "adds_request q ls db db'" and "rq_id q = request_seq db"
    and "rq_source_warehouse_id q = Some w" and "rq_status_code q = ''WAITING''" and "rq_closed_at q = None"
    and "\<forall>l \<in> set ls. rl_request_id l = request_seq db \<and> request_line_seq db \<le> rl_id l \<and> 0 \<le> rl_requested_qty l"
  shows "planned_at db' all_plans w' i = planned_at db all_plans w' i +
    sum_list (map rl_requested_qty (filter (\<lambda>l. w = w' \<and> rl_item_id l = i) ls))"
proof -
  note tables = adds_request_tables [OF assms(2)]
  have find_new: "find (\<lambda>r. rq_id r = request_seq db) (requests db) = None"
    using assms(1) by (auto simp: find_None_iff wf_issue_def list_all_iff)
  have req: "request_of db' k = (if k = request_seq db then Some q else request_of db k)" for k
    using find_new by (auto simp: request_of_def tables(1) find_append assms(3) split: option.splits)
  have picked: "picked_sum db' rl = picked_sum db rl" for rl
    by (rule picking_tables_cong(4)) (simp_all add: tables)
  have "planned_line db' all_plans l = planned_line db all_plans l" if "l \<in> set (request_lines db)" for l
  proof -
    from that assms(1) have "rl_request_id l \<noteq> request_seq db" by (auto simp: wf_issue_def list_all_iff)
    then show ?thesis by (simp add: planned_line_def req picked tables(5) cong: option.case_cong if_cong)
  qed
  then have old: "map (planned_line db' all_plans) (request_lines db) = map (planned_line db all_plans) (request_lines db)"
    by simp
  have new: "planned_line db' all_plans l = [\<lparr>pl_warehouseId = w, pl_itemId = rl_item_id l, pl_requestId = rq_id q,
      pl_requestLineId = rl_id l, pl_issueWorkDate = rq_issue_work_date q, pl_plannedQty = rl_requested_qty l\<rparr>]"
    if l: "l \<in> set ls" for l
  proof -
    have "filter (live db (rl_id l)) (picking_lines db) = []"
      using assms(1,7) l by (fastforce simp: filter_empty_conv live_def wf_issue_def list_all_iff)
    then have "picked_sum db (rl_id l) = 0"
      by (simp add: picked_sum_def live_lines_def live_def [abs_def])
    with l assms(4-7) show ?thesis
      by (simp add: planned_line_def req picked all_plans_def in_scope_def openQty_def)
  qed
  have sum_new: "sum_list (map pl_plannedQty (filter (\<lambda>l. pl_warehouseId l = w' \<and> pl_itemId l = i)
      (concat (map (planned_line db' all_plans) ks)))) =
    sum_list (map rl_requested_qty (filter (\<lambda>l. w = w' \<and> rl_item_id l = i) ks))" if "set ks \<subseteq> set ls" for ks
    using that by (induction ks) (auto simp: new)
  have "plannedLines db' all_plans = plannedLines db all_plans @ concat (map (planned_line db' all_plans) ls)"
    unfolding plannedLines_def tables(2) map_append concat_append old ..
  then show ?thesis unfolding planned_at_def using sum_new [of ls] by simp
qed


lemma new_lines_distinct:
  assumes "wf_issue db"
  shows "distinct (map (\<lambda>l. (rl_request_id l, rl_line_no l))
    (request_lines db @ new_lines input (request_seq db) start rows))"
proof -
  let ?key = "\<lambda>l. (rl_request_id l, rl_line_no l)"
  let ?new = "new_lines input (request_seq db) start rows"
  have "distinct (map rl_line_no ?new)" unfolding new_lines_nos by (simp add: distinct_map inj_on_def)
  then have "distinct (map ?key ?new)" by (auto simp: distinct_map inj_on_def)
  moreover have "?key l \<noteq> ?key l'" if "l \<in> set (request_lines db)" "l' \<in> set ?new" for l l'
    using new_lines_facts [OF that(2)] that(1) assms by (auto simp: wf_issue_def list_all_iff)
  then have "?key ` set (request_lines db) \<inter> ?key ` set ?new = {}" by blast
  moreover have "distinct (map ?key (request_lines db))" using assms by (simp add: wf_issue_def)
  ultimately show ?thesis unfolding map_append distinct_append set_map by (intro conjI)
qed

lemma writeRequest_effect:
  assumes "wf_issue db" and "no \<notin> rq_no ` set (requests db)" and "\<forall>row \<in> set rows. capped row"
  shows "\<exists>q db'. writeRequest db input w rows (Some no) = Inr (request_seq db, db') \<and>
    adds_request q (new_lines input (request_seq db) (request_line_seq db) rows) db db' \<and>
    rq_id q = request_seq db \<and> rq_source_warehouse_id q = Some w \<and> rq_status_code q = ''WAITING'' \<and>
    rq_closed_at q = None \<and> rq_no q = no"
proof -
  let ?ls = "new_lines input (request_seq db) (request_line_seq db) rows"
  let ?row = "\<lparr>rq_id = 0, rq_no = no, rq_type_code = ''REPLENISHMENT'', rq_status_code = ''WAITING'',
         rq_work_order_id = None, rq_source_warehouse_id = Some w,
         rq_destination_location_id = ri_destinationLocationId input,
         rq_issue_work_date = Some (ri_issueWorkDate input), rq_closed_at = None, rq_close_reason_code = None,
         rq_close_reason_detail_code = None, rq_close_remark = None, rq_closed_by = None, rq_cancelled_at = None,
         rq_cancelled_by = None, rq_released_at = None, rq_release_attempted_at = None,
         rq_release_error_text = None, rq_origin_code = Some (ri_origin input), rq_run_id = ri_runId input,
         rq_requested_by = ri_actorId input, rq_remarks = ri_remarks input, rq_created_by = ri_actorId input,
         rq_updated_at = ri_now input, rq_updated_by = ri_actorId input, rq_version_no = 1\<rparr>"
  let ?q = "?row\<lparr>rq_id := request_seq db\<rparr>"
  let ?db1 = "db\<lparr>requests := requests db @ [?q], request_seq := request_seq db + 1\<rparr>"
  let ?db2 = "?db1\<lparr>request_lines := request_lines db @ ?ls, request_line_seq := request_line_seq db + int (length ?ls)\<rparr>"
  have 1: "insert_request db ?row = Inr (request_seq db, ?db1)"
    using assms(2) by (auto simp: insert_request_def list_ex_iff image_iff)
  have "list_all (\<lambda>l. 0 < rl_line_no l \<and> 0 \<le> rl_requested_qty l \<and> 0 \<le> rl_shortage_qty l \<and>
      rl_issued_qty l \<le> rl_requested_qty l) ?ls"
    unfolding list_all_iff
  proof
    fix l
    assume "l \<in> set ?ls"
    from new_lines_facts [OF this] obtain i where i: "i < length rows" "rl_line_no l = int i + 1"
      "rl_requested_qty l = cl_requested (rows ! i)" "rl_issued_qty l = 0" "rl_shortage_qty l = cl_shortage (rows ! i)"
      by blast
    moreover from i(1) assms(3) have "capped (rows ! i)" by simp
    ultimately show "0 < rl_line_no l \<and> 0 \<le> rl_requested_qty l \<and> 0 \<le> rl_shortage_qty l \<and>
        rl_issued_qty l \<le> rl_requested_qty l" by (simp add: capped_def)
  qed
  then have 2: "insert_request_lines ?db1 ?ls = Inr ?db2"
    using new_lines_distinct [OF assms(1)] by (simp add: insert_request_lines_def)
  have "writeRequest db input w rows (Some no) = Inr (request_seq db,
      recordRequestAudit ?db2 (request_seq db) ''CREATED'' (ri_actorId input) (Some (ri_origin input)) None (ri_now input))"
    unfolding writeRequest_def option.case 1 bind_res_Inr prod.case
    using 2 by (simp add: new_lines_def [symmetric])
  moreover have "adds_request ?q ?ls db (recordRequestAudit ?db2 (request_seq db) ''CREATED'' (ri_actorId input)
      (Some (ri_origin input)) None (ri_now input))"
    unfolding adds_request_def
    by (rule exI [of _ "audit_events (recordRequestAudit ?db2 (request_seq db) ''CREATED'' (ri_actorId input)
      (Some (ri_origin input)) None (ri_now input))"]) (simp add: recordRequestAudit_def)
  ultimately show ?thesis by (intro exI [of _ ?q]) auto
qed

section \<open>One source warehouse\<close>

lemma write_source_step:
  assumes "wf_issue db" and "index < length requestNos" and "index < length pickingNos"
    and "requestNos ! index \<notin> rq_no ` set (requests db)" and "pickingNos ! index \<notin> po_no ` set (picking_orders db)"
    and "active_warehouse db w" and "\<forall>row \<in> set kept. capped row"
  shows "\<exists>made' db'. write_source TRANSITIONS input requestNos pickingNos kept (index, w) (made, db) = Inr (made', db') \<and>
    wf_issue db' \<and> warehouse_of db' = warehouse_of db \<and> pickable_at db' = pickable_at db \<and>
    rq_no ` set (requests db') \<subseteq> insert (requestNos ! index) (rq_no ` set (requests db)) \<and>
    po_no ` set (picking_orders db') \<subseteq> insert (pickingNos ! index) (po_no ` set (picking_orders db)) \<and>
    (\<forall>w' i. planned_at db' all_plans w' i = planned_at db all_plans w' i + (if w = w' then kept_at kept w' i else 0))"
proof -
  let ?rows = "filter (\<lambda>row. rp_sourceWarehouseId (cl_line row) = w) kept"
  let ?ls = "new_lines input (request_seq db) (request_line_seq db) ?rows"
  have rows: "kept_at kept w i = sum_list (map rl_requested_qty (filter (\<lambda>l. rl_item_id l = i) ?ls))" for i
  proof -
    have "map (\<lambda>l. (rl_item_id l, rl_requested_qty l)) ?ls =
        map (\<lambda>row. (rp_itemId (cl_line row), cl_requested row)) ?rows"
      by (rule nth_equalityI) (auto simp: new_lines_def)
    then have "sum_list (map snd (filter (\<lambda>p. fst p = i) (map (\<lambda>l. (rl_item_id l, rl_requested_qty l)) ?ls))) =
        sum_list (map snd (filter (\<lambda>p. fst p = i) (map (\<lambda>row. (rp_itemId (cl_line row), cl_requested row)) ?rows)))"
      by (rule arg_cong)
    then have "sum_list (map rl_requested_qty (filter (\<lambda>l. rl_item_id l = i) ?ls)) =
        sum_list (map cl_requested (filter (\<lambda>row. rp_itemId (cl_line row) = i) ?rows))"
      by (simp add: filter_map comp_def)
    then show ?thesis by (simp add: kept_at_def kept_for_def row_key_def conj_commute)
  qed
  show ?thesis
  proof (cases "?rows = []")
    case True
    then have "kept_at kept w i = 0" for i unfolding rows by (simp add: new_lines_def)
    with True assms(1) show ?thesis by (auto simp: write_source_def)
  next
    case False
    have capped: "\<forall>row \<in> set ?rows. capped row" using assms(7) by simp
    from writeRequest_effect [OF assms(1,4) capped, of input w] obtain q db1 where
      made1: "writeRequest db input w ?rows (Some (requestNos ! index)) = Inr (request_seq db, db1)" and
      adds: "adds_request q ?ls db db1" and
      q: "rq_id q = request_seq db" "rq_source_warehouse_id q = Some w" "rq_status_code q = ''WAITING''"
        "rq_closed_at q = None" "rq_no q = requestNos ! index" by blast
    note tables = adds_request_tables [OF adds]
    have ids: "\<forall>l \<in> set ?ls. rl_request_id l = request_seq db \<and> request_line_seq db \<le> rl_id l \<and>
        rl_id l < request_line_seq db + int (length ?ls) \<and> 0 \<le> rl_requested_qty l"
    proof
      fix l
      assume "l \<in> set ?ls"
      from new_lines_facts [OF this] obtain i where "i < length ?rows" "rl_id l = request_line_seq db + int i"
        "rl_request_id l = request_seq db" "rl_requested_qty l = cl_requested (?rows ! i)" by blast
      moreover from this(1) have "capped (?rows ! i)" using capped nth_mem by blast
      ultimately show "rl_request_id l = request_seq db \<and> request_line_seq db \<le> rl_id l \<and>
        rl_id l < request_line_seq db + int (length ?ls) \<and> 0 \<le> rl_requested_qty l"
        by (simp add: capped_def new_lines_def)
    qed
    have wf1: "wf_issue db1"
      by (rule adds_request_wf [OF assms(1) adds q(1) _ new_lines_distinct [OF assms(1)]]) (use ids in blast)
    have plans: "planned_at db1 all_plans w' i = planned_at db all_plans w' i + (if w = w' then kept_at kept w' i else 0)" for w' i
    proof -
      have "\<forall>l \<in> set ?ls. rl_request_id l = request_seq db \<and> request_line_seq db \<le> rl_id l \<and> 0 \<le> rl_requested_qty l"
        using ids by blast
      from adds_request_plans [OF assms(1) adds q(1-4) this, of w' i] rows [of i] show ?thesis
        by (cases "w = w'") auto
    qed
    have "find (\<lambda>r. rq_id r = request_seq db) (requests db) = None"
      using assms(1) by (auto simp: find_None_iff wf_issue_def list_all_iff)
    then have req: "request_of db1 (request_seq db) = Some q" by (simp add: request_of_def tables(1) find_append q(1))
    from assms(6) obtain f where f: "warehouse_of db1 w = Some f" "wh_is_active f"
      by (auto simp: active_warehouse_def tables(5) split: option.splits)
    have unused: "\<forall>x \<in> set (picking_orders db1). po_no x \<noteq> pickingNos ! index"
      using assms(5) by (auto simp: tables(3) image_iff)
    from wf1 have "wf_log db1" by (simp add: wf_issue_def)
    from release_keeps_log [OF this req q(3,2) f unused, of "ri_now input" "ri_actorId input"] obtain db2 where
      rel: "release TRANSITIONS (ri_now input) db1 (request_seq db) (Some (pickingNos ! index)) (ri_actorId input) = Inr (True, db2)"
      and plans2: "\<forall>sc. plannedLines db2 sc = plannedLines db1 sc" and wf2: "wf_issue db1 \<longrightarrow> wf_issue db2"
      and wh: "warehouse_of db2 = warehouse_of db1" and nos: "map rq_no (requests db2) = map rq_no (requests db1)"
      and pos: "po_no ` set (picking_orders db2) \<subseteq> insert (pickingNos ! index) (po_no ` set (picking_orders db1))"
      and pick: "pickable_at db2 = pickable_at db1" by blast
    have "PICKABLE_BALANCE db1 = PICKABLE_BALANCE db"
      by (intro ext) (simp add: PICKABLE_BALANCE_def tables cong: option.case_cong)
    then have pick1: "pickable_at db1 = pickable_at db" by (intro ext) (simp add: pickable_at_def tables)
    have "rq_no ` set (requests db2) = rq_no ` set (requests db1)" using nos by (metis set_map)
    then have nos2: "rq_no ` set (requests db2) \<subseteq> insert (requestNos ! index) (rq_no ` set (requests db))"
      by (simp add: tables(1) q(5))
    have "write_source TRANSITIONS input requestNos pickingNos kept (index, w) (made, db) =
        Inr (made @ [(request_seq db, w, ?rows)], db2)"
      using False made1 rel assms(2,3) by (simp add: write_source_def nth_opt_def Let_def)
    moreover have "planned_at db2 all_plans w' i = planned_at db1 all_plans w' i" for w' i
      using plans2 by (simp add: planned_at_def)
    ultimately show ?thesis
      using wf1 wf2 wh pos pick pick1 nos2 plans tables(3,5)
      by (intro exI [of _ "made @ [(request_seq db, w, ?rows)]"] exI [of _ db2]) simp
  qed
qed


section \<open>All source warehouses\<close>

lemma write_loop:
  assumes "wf_issue db" and "distinct (map fst iws)" and "distinct requestNos" and "distinct pickingNos"
    and "\<forall>(k, w) \<in> set iws. k < length requestNos \<and> k < length pickingNos \<and> active_warehouse db w \<and>
      requestNos ! k \<notin> rq_no ` set (requests db) \<and> pickingNos ! k \<notin> po_no ` set (picking_orders db)"
    and "\<forall>row \<in> set kept. capped row"
  shows "\<exists>made' db'. fold_res (write_source TRANSITIONS input requestNos pickingNos kept) iws (made, db) = Inr (made', db') \<and>
    pickable_at db' = pickable_at db \<and>
    (\<forall>w' i. planned_at db' all_plans w' i = planned_at db all_plans w' i +
       sum_list (map (\<lambda>(k, w). if w = w' then kept_at kept w' i else 0) iws))"
  using assms
proof (induction iws arbitrary: db made)
  case Nil
  then show ?case by simp
next
  case (Cons kw iws)
  obtain k w where kw: "kw = (k, w)" by (cases kw)
  from Cons.prems(5) kw have ok: "k < length requestNos" "k < length pickingNos" "active_warehouse db w"
    "requestNos ! k \<notin> rq_no ` set (requests db)" "pickingNos ! k \<notin> po_no ` set (picking_orders db)" by auto
  from write_source_step [OF Cons.prems(1) ok(1,2,4,5,3) Cons.prems(6), of input made] obtain made1 db1 where
    one: "write_source TRANSITIONS input requestNos pickingNos kept (k, w) (made, db) = Inr (made1, db1)" and
    wf: "wf_issue db1" and wh: "warehouse_of db1 = warehouse_of db" and pick: "pickable_at db1 = pickable_at db" and
    rq: "rq_no ` set (requests db1) \<subseteq> insert (requestNos ! k) (rq_no ` set (requests db))" and
    po: "po_no ` set (picking_orders db1) \<subseteq> insert (pickingNos ! k) (po_no ` set (picking_orders db))" and
    plans: "\<forall>w' i. planned_at db1 all_plans w' i = planned_at db all_plans w' i + (if w = w' then kept_at kept w' i else 0)"
    by blast
  have "\<forall>(k, w) \<in> set iws. k < length requestNos \<and> k < length pickingNos \<and> active_warehouse db1 w \<and>
      requestNos ! k \<notin> rq_no ` set (requests db1) \<and> pickingNos ! k \<notin> po_no ` set (picking_orders db1)"
  proof
    fix jv
    assume jv: "jv \<in> set iws"
    obtain j v where [simp]: "jv = (j, v)" by (cases jv)
    from jv Cons.prems(2) kw have "j \<noteq> k" by (auto simp: image_iff)
    moreover from jv Cons.prems(5) have j: "j < length requestNos" "j < length pickingNos" "active_warehouse db v"
      "requestNos ! j \<notin> rq_no ` set (requests db)" "pickingNos ! j \<notin> po_no ` set (picking_orders db)" by auto
    ultimately have "requestNos ! j \<noteq> requestNos ! k" "pickingNos ! j \<noteq> pickingNos ! k"
      using Cons.prems(3,4) ok(1,2) by (auto simp: nth_eq_iff_index_eq)
    with j rq po have "j < length requestNos \<and> j < length pickingNos \<and> active_warehouse db1 v \<and>
        requestNos ! j \<notin> rq_no ` set (requests db1) \<and> pickingNos ! j \<notin> po_no ` set (picking_orders db1)"
      by (auto simp: active_warehouse_def wh)
    then show "case jv of (k, w) \<Rightarrow> k < length requestNos \<and> k < length pickingNos \<and> active_warehouse db1 w \<and>
      requestNos ! k \<notin> rq_no ` set (requests db1) \<and> pickingNos ! k \<notin> po_no ` set (picking_orders db1)" by simp
  qed
  moreover have "distinct (map fst iws)" using Cons.prems(2) by simp
  ultimately obtain made' db' where
    rest: "fold_res (write_source TRANSITIONS input requestNos pickingNos kept) iws (made1, db1) = Inr (made', db')" and
    pick': "pickable_at db' = pickable_at db1" and
    plans': "\<forall>w' i. planned_at db' all_plans w' i = planned_at db1 all_plans w' i +
       sum_list (map (\<lambda>(k, w). if w = w' then kept_at kept w' i else 0) iws)"
    using Cons.IH [OF wf _ Cons.prems(3,4) _ Cons.prems(6), of made1] by blast
  have "planned_at db' all_plans w' i = planned_at db all_plans w' i +
       sum_list (map (\<lambda>(k, w). if w = w' then kept_at kept w' i else 0) (kw # iws))" for w' i
    using plans plans' by (simp add: kw)
  moreover have "fold_res (write_source TRANSITIONS input requestNos pickingNos kept) (kw # iws) (made, db) = Inr (made', db')"
    by (simp add: kw one rest)
  ultimately show ?case using pick pick' by auto
qed

lemma sum_none:
  "w' \<notin> set ws \<Longrightarrow> sum_list (map (\<lambda>(k, w). if w = w' then x else 0) (zip ks ws)) = (0 :: decimal)"
proof (induction ks arbitrary: ws)
  case (Cons k ks)
  then show ?case by (cases ws) auto
qed simp

lemma sum_once:
  "distinct ws \<Longrightarrow> sum_list (map (\<lambda>(k, w). if w = w' then x else 0) (zip ks ws)) \<le> max x (0 :: decimal)"
proof (induction ks arbitrary: ws)
  case (Cons k ks)
  then show ?case
  proof (cases ws)
    case (Cons w vs)
    with Cons.IH [of vs] Cons.prems sum_none [of w' vs x ks] show ?thesis by (cases "w = w'") auto
  qed simp
qed simp

lemma kept_at_bound:
  assumes "planLines lines (availableQty db ws is) (sumPlanned (plannedLines db
      \<lparr>in_warehouses = Some ws, in_plant = None, in_items = Some is\<rparr>)) = (kept, skipped)"
    and "set ws = rp_sourceWarehouseId ` set lines" and "set is = rp_itemId ` set lines"
  shows "kept_at kept w i \<le> max (pickable_at db w i - planned_at db all_plans w i) 0"
proof (cases "w \<in> set ws \<and> i \<in> set is")
  case True
  have "get_or_zero (sumPlanned (plannedLines db \<lparr>in_warehouses = Some ws, in_plant = None, in_items = Some is\<rparr>)) (pairKey w i) =
      planned_at db all_plans w i"
    unfolding get_sumPlanned planned_at_def [symmetric] using True by (intro planned_at_scope) auto
  with True planLines_bound(1) [OF assms(1), of "pairKey w i"] show ?thesis
    by (simp add: kept_at_def get_availableQty)
next
  case False
  have "filter (\<lambda>row. row_key row = pairKey w i) kept = []"
    using planLines_bound(2) [OF assms(1)] False assms(2,3) by (auto simp: filter_empty_conv row_key_def)
  then show ?thesis by (simp add: kept_at_def kept_for_def)
qed

section \<open>Properties\<close>


definition example_replenishment :: ReplenishmentCreateInput where
  "example_replenishment = \<lparr>ri_productionWarehouseId = 6, ri_destinationLocationId = 7, ri_issueWorkDate = 30,
     ri_origin = ''DIRECT'', ri_runId = None,
     ri_lines = [\<lparr>rp_itemId = 3, rp_uomId = 1, rp_requestedQty = 9, rp_sourceWarehouseId = 5\<rparr>],
     ri_remarks = None, ri_actorId = Some 2, ri_now = 90\<rparr>"

lemma example_log_issue: "wf_issue example_log"
  using example_log_wf by (simp add: wf_issue_def example_log_def)


text \<open>The cap of one request: every kept line asks for a positive quantity, what it asks for plus its
  shortage is what was wanted, and all kept lines of a warehouse and item together stay within what is
  available there beyond the plans.\<close>
lemma planLines_capped:
  assumes "planLines lines available planned = (kept, skipped)"
  shows "(\<forall>row \<in> set kept. 0 < cl_requested row \<and> 0 \<le> cl_shortage row \<and>
      cl_requested row + cl_shortage row = rp_requestedQty (cl_line row)) \<and>
    sum_list (map cl_requested (filter (\<lambda>row. rp_sourceWarehouseId (cl_line row) = w \<and> rp_itemId (cl_line row) = i) kept))
      \<le> max (get_or_zero available (pairKey w i) - get_or_zero planned (pairKey w i)) 0"
  using planLines_bound(1) [OF assms, of "pairKey w i"] planLines_bound(2) [OF assms]
  by (simp add: capped_def kept_for_def row_key_def)

lemma planLines_capped_example:
  "\<exists>kept skipped. planLines (ri_lines example_replenishment) [(pairKey 5 3, 10)] [(pairKey 5 3, 4)] = (kept, skipped) \<and>
     sum_list (map cl_requested (filter (\<lambda>row. rp_sourceWarehouseId (cl_line row) = 5 \<and> rp_itemId (cl_line row) = 3) kept)) \<le> 6"
proof -
  obtain kept skipped where run: "planLines (ri_lines example_replenishment) [(pairKey 5 3, 10)] [(pairKey 5 3, 4)] = (kept, skipped)"
    by (meson surj_pair)
  from planLines_capped [OF run, of 5 3] run show ?thesis by (simp add: get_or_zero_def)
qed

end
