(* ===== verification/Source_Warehouse.thy ===== *)
theory Source_Warehouse
  imports Planned_Stock
begin

text \<open>
  \<open>src/core/material-issue/source-warehouse.ts\<close>: the production warehouse a material is drawn from. The
  department of the production line gives the candidate warehouses; of those with pickable stock the one with
  the most free stock is chosen, ties by the LOT that would be picked first and then the warehouse code.
  \<open>String.prototype.localeCompare\<close> compares by the collation tables of the ICU library, which are not part of
  the repository: it is the parameter \<open>localeCompare\<close>, of which only that it is a comparison is used.
\<close>

section \<open>The candidate warehouses\<close>

record SourceScope =
  ss_warehouseIds :: "id list"
  ss_destinationLocationId :: id

record SourceCandidate =
  cd_warehouseId :: id
  cd_warehouseCode :: string
  cd_availableQty :: decimal
  cd_plannedQty :: decimal
  cd_earliest :: LotKey

record ChosenSource =
  ch_warehouseId :: id
  ch_freeQty :: decimal

record SourceChoice =
  so_chosen :: "(id \<times> ChosenSource) list"
  so_unsourced :: "id list"

definition in_plant_warehouse :: "log_db \<Rightarrow> id \<Rightarrow> id \<Rightarrow> bool" where
  "in_plant_warehouse db plant w \<longleftrightarrow> map_option wh_plant_id (warehouse_of db w) = Some plant"

definition usesProductionWarehouses :: "log_db \<Rightarrow> id \<Rightarrow> bool" where
  "usesProductionWarehouses db plant \<longleftrightarrow> list_ex (\<lambda>(d, w). in_plant_warehouse db plant w) (department_warehouses db)"

definition is_active_warehouse :: "log_db \<Rightarrow> id \<Rightarrow> bool" where
  "is_active_warehouse db w \<longleftrightarrow> map_option wh_is_active (warehouse_of db w) = Some True"

definition resolveCandidates :: "log_db \<Rightarrow> id \<Rightarrow> id \<Rightarrow> error_item list \<times> id list + SourceScope" where
  "resolveCandidates db plant lineId =
     (let line = line_of db lineId;
          department = (case line of None \<Rightarrow> None | Some l \<Rightarrow> ln_department_id l);
          wip = (case line of None \<Rightarrow> None | Some l \<Rightarrow> ln_default_wip_location_id l);
          links = (case department of None \<Rightarrow> []
            | Some d \<Rightarrow> js_sort (\<le>) (map snd (filter (\<lambda>(d', w). d' = d \<and> in_plant_warehouse db plant w)
                         (department_warehouses db))));
          warehouseIds = filter (is_active_warehouse db) links;
          errors1 = (case department of
              None \<Rightarrow> [field ''productionLineId'' ''LINE_DEPARTMENT_MISSING'']
            | Some d \<Rightarrow> if warehouseIds = [] then [field ''departmentId'' ''PRODUCTION_WAREHOUSE_MISSING''] else []);
          errors2 = (case wip of
              None \<Rightarrow> [field ''productionLineId'' ''PRODUCTION_FLOOR_LOCATION_MISSING''] | Some l \<Rightarrow> [])
      in case wip of
           None \<Rightarrow> Inl (errors1 @ errors2, warehouseIds)
         | Some l \<Rightarrow> if errors1 @ errors2 \<noteq> [] then Inl (errors1 @ errors2, warehouseIds)
                     else Inr \<lparr>ss_warehouseIds = warehouseIds, ss_destinationLocationId = l\<rparr>)"

section \<open>Choosing one\<close>

definition comparedTo :: "decimal \<Rightarrow> decimal \<Rightarrow> int" where
  "comparedTo a b = (if a < b then -1 else if a > b then 1 else 0)"

definition cd_free :: "SourceCandidate \<Rightarrow> decimal" where
  "cd_free c = cd_availableQty c - cd_plannedQty c"

definition source_order ::
  "(string \<Rightarrow> string \<Rightarrow> int) \<Rightarrow> bool \<Rightarrow> SourceCandidate \<Rightarrow> SourceCandidate \<Rightarrow> int" where
  "source_order localeCompare fefo a b =
     or_else (comparedTo (cd_free b) (cd_free a))
       (or_else (lotOrder (cd_earliest a) (cd_earliest b) fefo)
          (localeCompare (cd_warehouseCode a) (cd_warehouseCode b)))"

definition pickSource ::
  "(string \<Rightarrow> string \<Rightarrow> int) \<Rightarrow> SourceCandidate list \<Rightarrow> bool \<Rightarrow> SourceCandidate option" where
  "pickSource localeCompare candidates fefo =
     (case js_sort (by_number (source_order localeCompare fefo)) (filter (\<lambda>c. cd_availableQty c > 0) candidates) of
        [] \<Rightarrow> None
      | c # _ \<Rightarrow> Some c)"

definition lot_key_of :: "log_db \<Rightarrow> balance_row \<Rightarrow> LotKey option" where
  "lot_key_of db r =
     (case lotId (dim r) of None \<Rightarrow> None
      | Some lot \<Rightarrow> (case lots db lot of None \<Rightarrow> None
          | Some f \<Rightarrow> Some \<lparr>lot_expiryDate = lf_expiry_date f, lot_createdAt = lf_created_at f, lot_lotId = lot,
                           lot_locationId = locationId (dim r)\<rparr>))"

definition note_balance ::
  "log_db \<Rightarrow> balance_row \<Rightarrow> (string \<times> decimal) list \<times> (string \<times> LotKey) list \<Rightarrow>
   (string \<times> decimal) list \<times> (string \<times> LotKey) list" where
  "note_balance db r s =
     (case (s, lot_key_of db r) of
        (_, None) \<Rightarrow> s
      | ((available, earliest), Some lot) \<Rightarrow>
          let key = pairKey (warehouseId (dim r)) (itemId (dim r)) in
          (add_to key (available_qty r) available,
           case map_of earliest key of
             None \<Rightarrow> AList.update key lot earliest
           | Some current \<Rightarrow>
               if lotOrder lot current (fefo_item db (itemId (dim r))) < 0 then AList.update key lot earliest else earliest))"

definition source_candidate ::
  "log_db \<Rightarrow> (string \<times> decimal) list \<Rightarrow> (string \<times> decimal) list \<Rightarrow> (string \<times> LotKey) list \<Rightarrow> id \<Rightarrow> id \<Rightarrow> SourceCandidate list" where
  "source_candidate db available planned earliest i w =
     (let key = pairKey w i in
      case map_of earliest key of None \<Rightarrow> []
      | Some lot \<Rightarrow>
          [\<lparr>cd_warehouseId = w,
            cd_warehouseCode = (case warehouse_of db w of None \<Rightarrow> '''' | Some f \<Rightarrow> wh_code f),
            cd_availableQty = get_or_zero available key, cd_plannedQty = get_or_zero planned key,
            cd_earliest = lot\<rparr>])"

definition choose_item ::
  "(string \<Rightarrow> string \<Rightarrow> int) \<Rightarrow> log_db \<Rightarrow> id list \<Rightarrow> (string \<times> decimal) list \<Rightarrow> (string \<times> decimal) list \<Rightarrow>
   (string \<times> LotKey) list \<Rightarrow> id \<Rightarrow> SourceChoice \<Rightarrow> SourceChoice" where
  "choose_item localeCompare db warehouseIds available planned earliest i choice =
     (case pickSource localeCompare (concat (map (source_candidate db available planned earliest i) warehouseIds))
             (fefo_item db i) of
        None \<Rightarrow> choice\<lparr>so_unsourced := so_unsourced choice @ [i]\<rparr>
      | Some s \<Rightarrow> choice\<lparr>so_chosen := AList.update i
            \<lparr>ch_warehouseId = cd_warehouseId s, ch_freeQty = max (cd_availableQty s - cd_plannedQty s) 0\<rparr>
            (so_chosen choice)\<rparr>)"

definition chooseSources ::
  "(string \<Rightarrow> string \<Rightarrow> int) \<Rightarrow> log_db \<Rightarrow> id list \<Rightarrow> id list \<Rightarrow> SourceChoice" where
  "chooseSources localeCompare db warehouseIds items =
     (let itemIds = js_set items;
          planned = sumPlanned (plannedLines db
            \<lparr>in_warehouses = Some warehouseIds, in_plant = None, in_items = Some itemIds\<rparr>);
          balances = filter (\<lambda>r. PICKABLE_BALANCE db r \<and> warehouseId (dim r) \<in> set warehouseIds \<and>
                                 itemId (dim r) \<in> set itemIds) (stock db)
      in case fold (note_balance db) balances ([], []) of (available, earliest) \<Rightarrow>
           fold (choose_item localeCompare db warehouseIds available planned earliest) itemIds
             \<lparr>so_chosen = [], so_unsourced = []\<rparr>)"

section \<open>The choices the work order screen offers\<close>

text \<open>\<open>collate\<close> is the database's order of codes (\<open>ORDER BY warehouse_code\<close>).\<close>

definition productionWarehouseChoices ::
  "(string \<Rightarrow> string \<Rightarrow> bool) \<Rightarrow> log_db \<Rightarrow> id \<Rightarrow> bool \<times> (id \<times> string \<times> string) list" where
  "productionWarehouseChoices collate db workOrderId =
     (case (case work_order_of db workOrderId of None \<Rightarrow> None | Some wo \<Rightarrow> wo_plant_id wo) of
        None \<Rightarrow> (False, [])
      | Some plant \<Rightarrow>
          if \<not> usesProductionWarehouses db plant then (False, [])
          else (True,
            case (case work_order_of db workOrderId of None \<Rightarrow> None | Some wo \<Rightarrow> wo_department_id wo) of
              None \<Rightarrow> []
            | Some d \<Rightarrow> js_sort (\<lambda>a b. collate (fst (snd a)) (fst (snd b))) (concat (map (\<lambda>(d', w).
                if d' = d \<and> in_plant_warehouse db plant w \<and> is_active_warehouse db w
                then (case warehouse_of db w of None \<Rightarrow> [] | Some f \<Rightarrow> [(w, wh_code f, wh_name f)]) else [])
                (department_warehouses db)))))"


section \<open>What the loop over the balances counts\<close>

definition bal_key :: "balance_row \<Rightarrow> string" where
  "bal_key r = pairKey (warehouseId (dim r)) (itemId (dim r))"

lemma pickable_lot_key: "PICKABLE_BALANCE db r \<Longrightarrow> lot_key_of db r \<noteq> None"
  by (auto simp: PICKABLE_BALANCE_def lot_key_of_def split: option.splits)

lemma note_balances:
  assumes "\<forall>r \<in> set rs. lot_key_of db r \<noteq> None" and "fold (note_balance db) rs (available, earliest) = (available', earliest')"
  shows "available' = fold (\<lambda>r. add_to (bal_key r) (available_qty r)) rs available"
    and "map_of earliest' key \<noteq> None \<longleftrightarrow> map_of earliest key \<noteq> None \<or> (\<exists>r \<in> set rs. bal_key r = key)"
  using assms
proof (induction rs arbitrary: available earliest)
  case (Cons r rs)
  {
    case 1
    obtain a1 e1 where step: "note_balance db r (available, earliest) = (a1, e1)" by (meson surj_pair)
    with 1 have "a1 = add_to (bal_key r) (available_qty r) available"
      by (auto simp: note_balance_def bal_key_def Let_def split: option.splits if_splits)
    with Cons.IH(1) [of a1 e1] 1 step show ?case by simp
  next
    case 2
    obtain a1 e1 where step: "note_balance db r (available, earliest) = (a1, e1)" by (meson surj_pair)
    with 2 have "map_of e1 key \<noteq> None \<longleftrightarrow> map_of earliest key \<noteq> None \<or> bal_key r = key"
      by (auto simp: note_balance_def bal_key_def Let_def update_conv split: option.splits if_splits)
    with Cons.IH(2) [of a1 e1] 2 step show ?case by auto
  }
qed simp_all

lemma pickable_at_pos:
  "0 < pickable_at db w i \<longleftrightarrow> (\<exists>r \<in> set (stock db). PICKABLE_BALANCE db r \<and> bal_key r = pairKey w i)"
proof -
  let ?rs = "filter (\<lambda>r. PICKABLE_BALANCE db r \<and> warehouseId (dim r) = w \<and> itemId (dim r) = i) (stock db)"
  have pos: "\<forall>r \<in> set ?rs. 0 < available_qty r" by (auto simp: PICKABLE_BALANCE_def)
  have "0 < sum_list (map available_qty rs) \<longleftrightarrow> rs \<noteq> []" if "\<forall>r \<in> set rs. 0 < available_qty r" for rs
  proof (cases rs)
    case (Cons r rs')
    have "0 \<le> sum_list (map available_qty rs')" using that Cons by (intro sum_list_nonneg) (auto intro: less_imp_le)
    with Cons that show ?thesis by auto
  qed simp
  from this [OF pos] show ?thesis unfolding pickable_at_def by (auto simp: filter_empty_conv bal_key_def)
qed

section \<open>The chosen warehouse\<close>

lemma comparedTo_comparison: "number_comparison (\<lambda>a b. comparedTo (f b) (f a))"
  by unfold_locales (auto simp: comparedTo_def split: if_splits)

lemma source_order_comparison:
  assumes "number_comparison localeCompare"
  shows "comparison (by_number (source_order localeCompare fefo))"
proof -
  have codes: "number_comparison (\<lambda>a b. localeCompare (cd_warehouseCode a) (cd_warehouseCode b))"
    using number_comparison.antisymmetric [OF assms] number_comparison.trans_le [OF assms] by unfold_locales blast+
  have "number_comparison (source_order localeCompare fefo)"
    unfolding source_order_def [abs_def]
    by (rule or_else_comparison [OF comparedTo_comparison or_else_comparison [OF lotOrder_comparison codes]])
  then show ?thesis by (rule number_comparison.by_number_comparison)
qed

lemma pickSource_best:
  assumes "number_comparison localeCompare" and "pickSource localeCompare candidates fefo = Some s"
  shows "s \<in> set candidates" and "0 < cd_availableQty s"
    and "c \<in> set candidates \<Longrightarrow> 0 < cd_availableQty c \<Longrightarrow> cd_free c \<le> cd_free s"
proof -
  let ?pool = "filter (\<lambda>c. cd_availableQty c > 0) candidates"
  let ?le = "by_number (source_order localeCompare fefo)"
  from assms(2) obtain rest where sorted: "js_sort ?le ?pool = s # rest"
    by (auto simp: pickSource_def split: list.splits)
  then have "s \<in> set (js_sort ?le ?pool)" by simp
  then show "s \<in> set candidates" "0 < cd_availableQty s" by simp_all
  assume c: "c \<in> set candidates" "0 < cd_availableQty c"
  then have "?le s c"
    by (intro comparison.head_is_least [OF source_order_comparison [OF assms(1)] sorted]) simp
  then show "cd_free c \<le> cd_free s"
    by (auto simp: by_number_def source_order_def or_else_def comparedTo_def split: if_splits)
qed

lemma pickSource_None: "pickSource localeCompare candidates fefo = None \<longleftrightarrow> (\<forall>c \<in> set candidates. cd_availableQty c \<le> 0)"
proof -
  have "pickSource localeCompare candidates fefo = None \<longleftrightarrow>
      js_sort (by_number (source_order localeCompare fefo)) (filter (\<lambda>c. cd_availableQty c > 0) candidates) = []"
    by (auto simp: pickSource_def split: list.splits)
  also have "\<dots> \<longleftrightarrow> filter (\<lambda>c. cd_availableQty c > 0) candidates = []"
    using length_js_sort by (metis length_0_conv)
  finally show ?thesis by (auto simp: filter_empty_conv not_less)
qed

definition pick_for ::
  "(string \<Rightarrow> string \<Rightarrow> int) \<Rightarrow> log_db \<Rightarrow> id list \<Rightarrow> (string \<times> decimal) list \<Rightarrow> (string \<times> decimal) list \<Rightarrow>
   (string \<times> LotKey) list \<Rightarrow> id \<Rightarrow> SourceCandidate option" where
  "pick_for lc db ws available planned earliest i =
     pickSource lc (concat (map (source_candidate db available planned earliest i) ws)) (fefo_item db i)"

lemma choose_item_step:
  "map_of (so_chosen (choose_item lc db ws available planned earliest j choice)) i =
     (if i = j then case pick_for lc db ws available planned earliest j of None \<Rightarrow> map_of (so_chosen choice) i
        | Some s \<Rightarrow> Some \<lparr>ch_warehouseId = cd_warehouseId s, ch_freeQty = max (cd_availableQty s - cd_plannedQty s) 0\<rparr>
      else map_of (so_chosen choice) i)"
  "set (so_unsourced (choose_item lc db ws available planned earliest j choice)) =
     set (so_unsourced choice) \<union> (if pick_for lc db ws available planned earliest j = None then {j} else {})"
  unfolding choose_item_def pick_for_def [symmetric]
  by (cases "pick_for lc db ws available planned earliest j"; simp add: update_conv)+

lemma choose_items:
  assumes "distinct is"
  shows "map_of (so_chosen (fold (choose_item lc db ws available planned earliest) is choice)) i =
      (case (if i \<in> set is then pick_for lc db ws available planned earliest i else None) of
         None \<Rightarrow> map_of (so_chosen choice) i
       | Some s \<Rightarrow> Some \<lparr>ch_warehouseId = cd_warehouseId s, ch_freeQty = max (cd_availableQty s - cd_plannedQty s) 0\<rparr>)"
    and "set (so_unsourced (fold (choose_item lc db ws available planned earliest) is choice)) = set (so_unsourced choice) \<union>
      {j \<in> set is. pick_for lc db ws available planned earliest j = None}"
  using assms
proof (induction "is" arbitrary: choice)
  case (Cons j js)
  {
    case 1
    with Cons.IH(1) [of "choose_item lc db ws available planned earliest j choice"] show ?case
      by (cases "i = j"; cases "i \<in> set js"; cases "pick_for lc db ws available planned earliest i")
        (simp_all add: choose_item_step)
  next
    case 2
    with Cons.IH(2) [of "choose_item lc db ws available planned earliest j choice"] show ?case
      by (auto simp: choose_item_step)
  }
qed simp_all

lemma chooseSources_item:
  assumes "i \<in> set items" and "cands = concat (map (source_candidate db available
      (sumPlanned (plannedLines db \<lparr>in_warehouses = Some ws, in_plant = None, in_items = Some (js_set items)\<rparr>)) earliest i) ws)"
    and "fold (note_balance db) (filter (\<lambda>r. PICKABLE_BALANCE db r \<and> warehouseId (dim r) \<in> set ws \<and>
      itemId (dim r) \<in> set (js_set items)) (stock db)) ([], []) = (available, earliest)"
  shows "c \<in> set cands \<longleftrightarrow> (\<exists>w \<in> set ws. 0 < pickable_at db w i \<and>
    (\<exists>lot. map_of earliest (pairKey w i) = Some lot \<and>
      c = \<lparr>cd_warehouseId = w, cd_warehouseCode = (case warehouse_of db w of None \<Rightarrow> '''' | Some f \<Rightarrow> wh_code f),
           cd_availableQty = pickable_at db w i, cd_plannedQty = planned_at db all_plans w i, cd_earliest = lot\<rparr>))"
    and "w \<in> set ws \<Longrightarrow> 0 < pickable_at db w i \<Longrightarrow>
      \<exists>c \<in> set cands. cd_availableQty c = pickable_at db w i \<and> cd_plannedQty c = planned_at db all_plans w i"
proof -
  let ?rs = "filter (\<lambda>r. PICKABLE_BALANCE db r \<and> warehouseId (dim r) \<in> set ws \<and> itemId (dim r) \<in> set (js_set items)) (stock db)"
  have keys: "\<forall>r \<in> set ?rs. lot_key_of db r \<noteq> None" using pickable_lot_key by auto
  note noted = note_balances [OF keys assms(3)]
  have avail: "get_or_zero available (pairKey w i) = pickable_at db w i" if "w \<in> set ws" for w
  proof -
    have "available = availableQty db ws (js_set items)" unfolding availableQty_def noted(1) bal_key_def ..
    with that assms(1) show ?thesis by (simp add: get_availableQty)
  qed
  have planned: "get_or_zero (sumPlanned (plannedLines db
      \<lparr>in_warehouses = Some ws, in_plant = None, in_items = Some (js_set items)\<rparr>)) (pairKey w i) = planned_at db all_plans w i"
    if "w \<in> set ws" for w
    unfolding get_sumPlanned planned_at_def [symmetric] using that assms(1) by (intro planned_at_scope) auto
  have earliest: "map_of earliest (pairKey w i) \<noteq> None \<longleftrightarrow> 0 < pickable_at db w i" if "w \<in> set ws" for w
    unfolding noted(2) pickable_at_pos using that assms(1) by (auto simp: bal_key_def)
  show "\<exists>c \<in> set cands. cd_availableQty c = pickable_at db w i \<and> cd_plannedQty c = planned_at db all_plans w i"
    if w: "w \<in> set ws" and pos: "0 < pickable_at db w i"
  proof -
    from earliest [OF w] pos obtain lot where lot: "map_of earliest (pairKey w i) = Some lot" by auto
    let ?c = "\<lparr>cd_warehouseId = w, cd_warehouseCode = (case warehouse_of db w of None \<Rightarrow> [] | Some f \<Rightarrow> wh_code f),
      cd_availableQty = pickable_at db w i, cd_plannedQty = planned_at db all_plans w i, cd_earliest = lot\<rparr>"
    have "?c \<in> set cands" unfolding assms(2) using w lot avail [OF w] planned [OF w]
      by (auto simp: source_candidate_def Let_def intro!: bexI [of _ w])
    then show ?thesis by (rule bexI [rotated]) simp
  qed
  show "c \<in> set cands \<longleftrightarrow> (\<exists>w \<in> set ws. 0 < pickable_at db w i \<and>
    (\<exists>lot. map_of earliest (pairKey w i) = Some lot \<and>
      c = \<lparr>cd_warehouseId = w, cd_warehouseCode = (case warehouse_of db w of None \<Rightarrow> '''' | Some f \<Rightarrow> wh_code f),
           cd_availableQty = pickable_at db w i, cd_plannedQty = planned_at db all_plans w i, cd_earliest = lot\<rparr>))"
    using avail planned earliest unfolding assms(2)
    by (fastforce simp: source_candidate_def Let_def split: option.splits)
qed

section \<open>Properties\<close>

text \<open>C37. Every material is either drawn from one of the candidate warehouses that has pickable stock of it and
  the most stock beyond the plans, with exactly that surplus as the cap of the new request, or it is reported
  as unsourced, and then no candidate warehouse has any of it.\<close>
theorem chooseSources_best:
  assumes "number_comparison localeCompare" and "i \<in> set items"
  shows "case map_of (so_chosen (chooseSources localeCompare db ws items)) i of
      None \<Rightarrow> i \<in> set (so_unsourced (chooseSources localeCompare db ws items)) \<and> (\<forall>w \<in> set ws. pickable_at db w i = 0)
    | Some c \<Rightarrow> ch_warehouseId c \<in> set ws \<and> 0 < pickable_at db (ch_warehouseId c) i \<and>
        ch_freeQty c = max (pickable_at db (ch_warehouseId c) i - planned_at db all_plans (ch_warehouseId c) i) 0 \<and>
        (\<forall>w \<in> set ws. 0 < pickable_at db w i \<longrightarrow> pickable_at db w i - planned_at db all_plans w i \<le>
           pickable_at db (ch_warehouseId c) i - planned_at db all_plans (ch_warehouseId c) i)"
proof -
  let ?planned = "sumPlanned (plannedLines db \<lparr>in_warehouses = Some ws, in_plant = None, in_items = Some (js_set items)\<rparr>)"
  obtain available earliest where counted:
    "fold (note_balance db) (filter (\<lambda>r. PICKABLE_BALANCE db r \<and> warehouseId (dim r) \<in> set ws \<and>
      itemId (dim r) \<in> set (js_set items)) (stock db)) ([], []) = (available, earliest)" by (meson surj_pair)
  let ?cands = "concat (map (source_candidate db available ?planned earliest i) ws)"
  note cands = chooseSources_item [OF assms(2) refl counted]
  have run: "chooseSources localeCompare db ws items =
      fold (choose_item localeCompare db ws available ?planned earliest) (js_set items) \<lparr>so_chosen = [], so_unsourced = []\<rparr>"
    unfolding chooseSources_def Let_def counted by simp
  note items = choose_items [of "js_set items" localeCompare db ws available ?planned earliest, OF distinct_js_set]
  show ?thesis
  proof (cases "pickSource localeCompare ?cands (fefo_item db i)")
    case None
    have "pickable_at db w i = 0" if w: "w \<in> set ws" for w
    proof (rule ccontr)
      assume "pickable_at db w i \<noteq> 0"
      with pickable_at_nonneg [of db w i] have pos: "0 < pickable_at db w i" by simp
      with cands(2) [OF w] None show False unfolding pickSource_None by force
    qed
    with None assms(2) show ?thesis by (simp add: run items pick_for_def)
  next
    case (Some s)
    from pickSource_best(1,2) [OF assms(1) Some] obtain w where w: "w \<in> set ws" "0 < pickable_at db w i"
      and s: "cd_warehouseId s = w" "cd_availableQty s = pickable_at db w i" "cd_plannedQty s = planned_at db all_plans w i"
      unfolding cands(1) by auto
    have "pickable_at db v i - planned_at db all_plans v i \<le> pickable_at db w i - planned_at db all_plans w i"
      if v: "v \<in> set ws" "0 < pickable_at db v i" for v
    proof -
      from cands(2) [OF v] obtain c where c: "c \<in> set ?cands" "cd_availableQty c = pickable_at db v i"
        "cd_plannedQty c = planned_at db all_plans v i" by blast
      with pickSource_best(3) [OF assms(1) Some c(1)] v(2) show ?thesis by (simp add: cd_free_def s del: set_concat)
    qed
    with Some w s assms(2) show ?thesis by (simp add: run items pick_for_def)
  qed
qed

theorem chooseSources_best_witness:
  "number_comparison (\<lambda>a b. int (length a) - int (length b)) \<and>
   map_option ch_freeQty (map_of (so_chosen (chooseSources (\<lambda>a b. int (length a) - int (length b)) example_log [5] [3])) 3) = Some 6 \<and>
   (\<exists>c. map_of (so_chosen (chooseSources (\<lambda>a b. int (length a) - int (length b)) example_log [5] [3])) 3 = Some c \<and>
      0 < pickable_at example_log (ch_warehouseId c) 3)"
proof -
  have cmp: "number_comparison (\<lambda>a b. int (length a) - int (length b))" by (rule difference_comparison)
  have free: "map_option ch_freeQty (map_of (so_chosen (chooseSources (\<lambda>a b. int (length a) - int (length b)) example_log [5] [3])) 3) = Some 6"
    by code_simp
  then obtain c where "map_of (so_chosen (chooseSources (\<lambda>a b. int (length a) - int (length b)) example_log [5] [3])) 3 = Some c"
    by auto
  with chooseSources_best [OF cmp, of 3 "[3]" example_log "[5]"] cmp free show ?thesis by auto
qed

end
