(* ===== verification/Numbering.thy ===== *)
theory Numbering
  imports Js_Strings Api_Errors
begin

text \<open>
  \<open>src/core/numbering/numbering.service.ts\<close>: document numbers. A rule (per plant, else global, else
  created from the default prefix) gives a pattern; a counter per rule and day gives the value. The service
  does not run in the caller's transaction: what it wrote stays even when a later step throws, so an
  operation returns its result together with the store.
\<close>

section \<open>Rules and counters\<close>

record numbering_rule =
  nr_id :: id
  nr_document_type_code :: code
  nr_plant_id :: "id option"
  nr_lot_type_code :: "code option"
  nr_pattern :: string
  nr_reset_cycle_code :: code
  nr_is_active :: bool

record num_db =
  numbering_rules :: "numbering_rule list"
  numbering_counters :: "((id \<times> string) \<times> nat) list"
  numbering_rule_seq :: id

definition DEFAULT_PREFIX :: "(code \<times> string) list" where
  "DEFAULT_PREFIX =
     [(''PURCHASE_ORDER'', ''PO''),
      (''GOODS_RECEIPT'', ''GR''),
      (''PUTAWAY_TASK'', ''PT''),
      (''NOTICE'', ''NTC''),
      (''APPROVAL_REQUEST'', ''AP''),
      (''INBOUND_RECEIPT'', ''IR''),
      (''GOODS_ISSUE'', ''GI''),
      (''WORK_ORDER'', ''WO''),
      (''PRODUCTION_PLAN'', ''PP''),
      (''MATERIAL_ISSUE_REQUEST'', ''MIR''),
      (''PICKING_ORDER'', ''PK''),
      (''SHOPFLOOR_RECEIPT'', ''SR''),
      (''MATERIAL_CONSUMPTION'', ''MC''),
      (''MATERIAL_RETURN'', ''MR''),
      (''INSPECTION_RESULT'', ''IRS''),
      (''INSPECTION_REQUEST'', ''IRQ''),
      (''STOCK_TRANSFER'', ''ST''),
      (''INVENTORY_ADJUSTMENT'', ''IA''),
      (''INVENTORY_COUNT'', ''IC''),
      (''HANDLING_UNIT'', ''HU''),
      (''EQUIPMENT_INSPECTION'', ''EQI''),
      (''BREAKDOWN'', ''MLF''),
      (''MAINTENANCE_ORDER'', ''MO''),
      (''OPERATION_HANDOVER'', ''OH''),
      (''NONCONFORMANCE'', ''NC''),
      (''CONCESSION'', ''CNC''),
      (''SHIPMENT_REQUEST'', ''SR''),
      (''INVENTORY_RESERVATION'', ''RS''),
      (''SERIAL_NUMBER'', ''SN''),
      (''RECYCLE_ENTRY'', ''RC''),
      (''SHIPMENT'', ''SH''),
      (''SHIPPING_UNIT'', ''SU'')]"

definition DEFAULT_PATTERN_SUFFIX :: string where
  "DEFAULT_PATTERN_SUFFIX = ''-{YYYYMMDD}-{SEQ4}''"

definition MAX_BATCH_SIZE :: int where
  "MAX_BATCH_SIZE = 1000"

definition prefixOf :: "code \<Rightarrow> string res" where
  "prefixOf documentTypeCode =
     (case map_of DEFAULT_PREFIX documentTypeCode of None \<Rightarrow> Inl InternalError | Some p \<Rightarrow> Inr p)"

section \<open>Rendering a pattern\<close>

text \<open>One token; \<open>/^SEQ(\d+)$/\<close> is \<open>SEQ\<close> followed by at least one digit and nothing else.\<close>

definition seq_width :: "string \<Rightarrow> nat option" where
  "seq_width name =
     (if take 3 name = ''SEQ'' \<and> drop 3 name \<noteq> [] \<and> list_all is_digit (drop 3 name)
      then Some (read_nat (drop 3 name)) else None)"

definition render_token :: "string \<Rightarrow> nat \<Rightarrow> string \<Rightarrow> string res" where
  "render_token day v name =
     (if name = ''YYYYMMDD'' then Inr day
      else if name = ''YYMMDD'' then Inr (drop 2 day)
      else case seq_width name of
             Some n \<Rightarrow> Inr (padStart (show_nat v) n (CHR ''0''))
           | None \<Rightarrow> Inl InternalError)"

text \<open>The global replacement of \<open>/\{([^}]+)\}/\<close>: at an opening brace the token reaches to the next closing
  brace and is not empty; a brace that starts no token stays.\<close>

function render :: "string \<Rightarrow> string \<Rightarrow> nat \<Rightarrow> string res" where
  "render [] day v = Inr []"
| "render (c # s) day v =
     (let name = takeWhile (\<lambda>x. x \<noteq> CHR ''}'') s; rest = dropWhile (\<lambda>x. x \<noteq> CHR ''}'') s in
      if c = CHR ''{'' \<and> name \<noteq> [] \<and> rest \<noteq> []
      then bind_res (render_token day v name) (\<lambda>t. bind_res (render (tl rest) day v) (\<lambda>u. Inr (t @ u)))
      else bind_res (render s day v) (\<lambda>u. Inr (c # u)))"
  by pat_completeness auto
termination
proof (relation "measure (\<lambda>(s, day, v). length s)")
  fix s :: string and c name rest and day :: string and v :: nat and x
  assume "rest = dropWhile (\<lambda>x. x \<noteq> CHR ''}'') s"
  then have "length (tl rest) \<le> length s" using length_dropWhile_le [of _ s] by (simp add: le_diff_conv le_SucI)
  then show "((tl rest, day, v), (c # s, day, v)) \<in> measure (\<lambda>(s, day, v). length s)" by simp
qed simp_all

section \<open>Finding a rule\<close>

definition found_rules :: "num_db \<Rightarrow> code \<Rightarrow> id option \<Rightarrow> numbering_rule list" where
  "found_rules db documentTypeCode plant =
     filter (\<lambda>r. nr_document_type_code r = documentTypeCode \<and> nr_lot_type_code r = None \<and>
                 (nr_plant_id r = plant \<or> nr_plant_id r = None)) (numbering_rules db)"

definition pick_rule :: "num_db \<Rightarrow> code \<Rightarrow> id option \<Rightarrow> numbering_rule option" where
  "pick_rule db documentTypeCode plant =
     (let found = found_rules db documentTypeCode plant;
          specific = filter (\<lambda>r. nr_plant_id r \<noteq> None) found
      in case (if specific \<noteq> [] then specific else found) of [] \<Rightarrow> None | r # _ \<Rightarrow> Some r)"

text \<open>The row the unique index \<open>uq_numbering_rule\<close> holds against a new global rule.\<close>

definition conflicting_rule :: "num_db \<Rightarrow> code \<Rightarrow> numbering_rule option" where
  "conflicting_rule db documentTypeCode =
     find (\<lambda>r. nr_document_type_code r = documentTypeCode \<and> (case nr_plant_id r of None \<Rightarrow> 0 | Some p \<Rightarrow> p) = 0 \<and>
               (case nr_lot_type_code r of None \<Rightarrow> [] | Some l \<Rightarrow> l) = []) (numbering_rules db)"

definition rule :: "num_db \<Rightarrow> code \<Rightarrow> id option \<Rightarrow> numbering_rule res \<times> num_db" where
  "rule db documentTypeCode plant =
     (case pick_rule db documentTypeCode plant of
        Some r \<Rightarrow> (if nr_is_active r then Inr r else Inl InternalError, db)
      | None \<Rightarrow>
          (case prefixOf documentTypeCode of
             Inl e \<Rightarrow> (Inl e, db)
           | Inr pfx \<Rightarrow>
               (case conflicting_rule db documentTypeCode of
                  Some r \<Rightarrow> (Inr r, db)
                | None \<Rightarrow>
                    let r = \<lparr>nr_id = numbering_rule_seq db, nr_document_type_code = documentTypeCode,
                             nr_plant_id = None, nr_lot_type_code = None,
                             nr_pattern = pfx @ DEFAULT_PATTERN_SUFFIX, nr_reset_cycle_code = ''DAILY'',
                             nr_is_active = True\<rparr>
                    in (Inr r, db\<lparr>numbering_rules := numbering_rules db @ [r],
                                  numbering_rule_seq := numbering_rule_seq db + 1\<rparr>))))"

section \<open>Issuing numbers\<close>

text \<open>The upsert of a counter; \<open>last_value\<close> has a \<open>CHECK (last_value >= 0)\<close>, so it is a natural number.\<close>

definition last_value :: "num_db \<Rightarrow> id \<Rightarrow> string \<Rightarrow> nat" where
  "last_value db rid period = (case map_of (numbering_counters db) (rid, period) of None \<Rightarrow> 0 | Some v \<Rightarrow> v)"

definition bump_counter :: "num_db \<Rightarrow> id \<Rightarrow> string \<Rightarrow> nat \<Rightarrow> nat \<times> num_db" where
  "bump_counter db rid period increment =
     (last_value db rid period + increment,
      db\<lparr>numbering_counters := AList.update (rid, period) (last_value db rid period + increment) (numbering_counters db)\<rparr>)"

definition period_key :: "string \<Rightarrow> string" where
  "period_key periodDate = filter (\<lambda>c. c \<noteq> CHR ''-'') periodDate"

definition issue_numbers :: "num_db \<Rightarrow> numbering_rule \<Rightarrow> string \<Rightarrow> nat \<Rightarrow> string list res \<times> num_db" where
  "issue_numbers db r periodKey increment =
     (case bump_counter db (nr_id r) periodKey increment of (lastValue, db') \<Rightarrow>
        let first = lastValue - increment + 1
        in (map_res (render (nr_pattern r) periodKey) (map (\<lambda>index. first + index) [0..<increment]), db'))"

definition nextMany :: "num_db \<Rightarrow> code \<Rightarrow> id option \<Rightarrow> string \<Rightarrow> int \<Rightarrow> string list res \<times> num_db" where
  "nextMany db documentTypeCode plant periodDate quantity =
     (if quantity < 1 \<or> quantity > MAX_BATCH_SIZE then (Inl InternalError, db)
      else case rule db documentTypeCode plant of
        (Inl e, db1) \<Rightarrow> (Inl e, db1)
      | (Inr r, db1) \<Rightarrow>
          if nr_reset_cycle_code r \<noteq> ''DAILY'' then (Inl InternalError, db1)
          else issue_numbers db1 r (period_key periodDate) (nat quantity))"

definition next_number :: "num_db \<Rightarrow> code \<Rightarrow> id option \<Rightarrow> string \<Rightarrow> string res \<times> num_db" where
  "next_number db documentTypeCode plant periodDate =
     (case nextMany db documentTypeCode plant periodDate 1 of
        (Inl e, db') \<Rightarrow> (Inl e, db') | (Inr ns, db') \<Rightarrow> (Inr (hd ns), db'))"

section \<open>Different values have different numbers\<close>

lemma length_show_nat_mono: "v \<le> w \<Longrightarrow> length (show_nat v) \<le> length (show_nat w)"
proof -
  assume "v \<le> w"
  have "0 < length (show_nat w)" by simp
  then have "w < 10 ^ length (show_nat w)" using length_show_nat [of "length (show_nat w)" w] by simp
  with \<open>v \<le> w\<close> have "v < 10 ^ length (show_nat w)" by simp
  then show ?thesis using length_show_nat [of "length (show_nat w)" v] by simp
qed

text \<open>Whether a pattern has a \<open>{SEQn}\<close> token.\<close>

function has_seq :: "string \<Rightarrow> bool" where
  "has_seq [] = False"
| "has_seq (c # s) =
     (let name = takeWhile (\<lambda>x. x \<noteq> CHR ''}'') s; rest = dropWhile (\<lambda>x. x \<noteq> CHR ''}'') s in
      if c = CHR ''{'' \<and> name \<noteq> [] \<and> rest \<noteq> [] then seq_width name \<noteq> None \<or> has_seq (tl rest) else has_seq s)"
  by pat_completeness auto
termination
proof (relation "measure length")
  fix c :: char and s name rest :: string
  assume "rest = dropWhile (\<lambda>x. x \<noteq> CHR ''}'') s"
  then have "length (tl rest) \<le> length s" using length_dropWhile_le [of _ s] by (simp add: le_diff_conv le_SucI)
  then show "(tl rest, c # s) \<in> measure length" by simp
qed simp_all

lemma render_token_inj:
  assumes "render_token day v name = Inr a" and "render_token day w name = Inr b" and "v \<le> w"
  shows "length a \<le> length b" and "a = b \<Longrightarrow> seq_width name \<noteq> None \<Longrightarrow> v = w"
proof -
  consider (fixed) "a = b" "seq_width name = None" | (seq) n where "seq_width name = Some n"
    "a = padStart (show_nat v) n (CHR ''0'')" "b = padStart (show_nat w) n (CHR ''0'')"
    using assms(1,2) by (auto simp: render_token_def seq_width_def split: option.splits if_splits)
  note cases = this
  show "length a \<le> length b"
    using cases length_show_nat_mono [OF assms(3)] by cases (auto simp: length_padStart)
  assume "a = b" "seq_width name \<noteq> None"
  with cases obtain n where "padStart (show_nat v) n (CHR ''0'') = padStart (show_nat w) n (CHR ''0'')" by cases auto
  then have "read_nat (padStart (show_nat v) n (CHR ''0'')) = read_nat (padStart (show_nat w) n (CHR ''0''))" by simp
  then show "v = w" by simp
qed

lemma render_inj:
  "\<lbrakk>render p day v = Inr a; render p day w = Inr b; v \<le> w\<rbrakk> \<Longrightarrow>
   length a \<le> length b \<and> (a = b \<longrightarrow> has_seq p \<longrightarrow> v = w)"
proof (induction p arbitrary: a b rule: has_seq.induct)
  case 1
  then show ?case by simp
next
  case (2 c s)
  let ?name = "takeWhile (\<lambda>x. x \<noteq> CHR ''}'') s" and ?rest = "dropWhile (\<lambda>x. x \<noteq> CHR ''}'') s"
  show ?case
  proof (cases "c = CHR ''{'' \<and> ?name \<noteq> [] \<and> ?rest \<noteq> []")
    case True
    from 2(3) True obtain ta ua where a: "a = ta @ ua" "render_token day v ?name = Inr ta" "render (tl ?rest) day v = Inr ua"
      by (auto simp: res_simps)
    from 2(4) True obtain tb ub where b: "b = tb @ ub" "render_token day w ?name = Inr tb" "render (tl ?rest) day w = Inr ub"
      by (auto simp: res_simps)
    note token = render_token_inj [OF a(2) b(2) 2(5)]
    from 2(1) [OF refl refl True a(3) b(3) 2(5)]
    have rest: "length ua \<le> length ub" "ua = ub \<longrightarrow> has_seq (tl ?rest) \<longrightarrow> v = w" by auto
    have "v = w" if "a = b" "has_seq (c # s)"
    proof -
      from that(1) a(1) b(1) have "length ta + length ua = length tb + length ub" by (metis length_append)
      with token(1) rest(1) have "length ta = length tb" by linarith
      with that(1) a(1) b(1) have "ta = tb" "ua = ub" by auto
      with token(2) rest(2) that(2) True show ?thesis by auto
    qed
    with a(1) b(1) token(1) rest(1) show ?thesis by auto
  next
    case False
    from 2(3) False obtain ua where a: "a = c # ua" "render s day v = Inr ua" by (auto simp: res_simps Let_def)
    from 2(4) False obtain ub where b: "b = c # ub" "render s day w = Inr ub" by (auto simp: res_simps Let_def)
    from 2(2) [OF refl refl False a(2) b(2) 2(5)] a(1) b(1) False show ?thesis by auto
  qed
qed

lemma render_distinct:
  assumes "render p day v = Inr a" and "render p day w = Inr a" and "has_seq p"
  shows "v = w"
proof (cases "v \<le> w")
  case True
  then show ?thesis using render_inj [OF assms(1,2)] assms(3) by blast
next
  case False
  then have "w \<le> v" by simp
  then show ?thesis using render_inj [OF assms(2,1)] assms(3) by blast
qed

section \<open>Other calls\<close>

text \<open>What other requests do meanwhile: the two statements that write, each at any moment.\<close>

inductive numbering_run :: "num_db \<Rightarrow> num_db \<Rightarrow> bool" where
  nothing: "numbering_run db db"
| rule_statement: "numbering_run db db' \<Longrightarrow> rule db' documentTypeCode plant = (res, db'') \<Longrightarrow> numbering_run db db''"
| counter_statement: "numbering_run db db' \<Longrightarrow> bump_counter db' rid period n = (v, db'') \<Longrightarrow> numbering_run db db''"

text \<open>The rule a document type has: what \<open>rule\<close> answers without writing.\<close>

definition has_rule :: "num_db \<Rightarrow> code \<Rightarrow> id option \<Rightarrow> numbering_rule \<Rightarrow> bool" where
  "has_rule db documentTypeCode plant r \<longleftrightarrow>
     (pick_rule db documentTypeCode plant = Some r \<and> nr_is_active r) \<or>
     (pick_rule db documentTypeCode plant = None \<and> (\<exists>pfx. prefixOf documentTypeCode = Inr pfx) \<and>
      conflicting_rule db documentTypeCode = Some r)"

lemma rule_cases:
  "(\<exists>res. rule db d p = (res, db)) \<or>
   (\<exists>pfx r. pick_rule db d p = None \<and> prefixOf d = Inr pfx \<and> conflicting_rule db d = None \<and>
      r = \<lparr>nr_id = numbering_rule_seq db, nr_document_type_code = d, nr_plant_id = None, nr_lot_type_code = None,
           nr_pattern = pfx @ DEFAULT_PATTERN_SUFFIX, nr_reset_cycle_code = ''DAILY'', nr_is_active = True\<rparr> \<and>
      rule db d p = (Inr r, db\<lparr>numbering_rules := numbering_rules db @ [r],
                                numbering_rule_seq := numbering_rule_seq db + 1\<rparr>))"
  by (auto simp: rule_def Let_def split: option.splits sum.splits)

lemma rule_if_has_rule: "has_rule db d p r \<Longrightarrow> rule db d p = (Inr r, db)"
  by (auto simp: has_rule_def rule_def)

lemma pick_rule_append:
  assumes "pick_rule db d p = Some r"
  shows "pick_rule (db\<lparr>numbering_rules := numbering_rules db @ [n], numbering_rule_seq := s\<rparr>) d p = Some r \<or>
    nr_plant_id n \<noteq> None"
  using assms by (auto simp: pick_rule_def found_rules_def Let_def split: if_splits list.splits)

lemma conflicting_rule_other:
  assumes "nr_document_type_code n \<noteq> d"
  shows "conflicting_rule (db\<lparr>numbering_rules := numbering_rules db @ [n], numbering_rule_seq := s\<rparr>) d = conflicting_rule db d"
    and "pick_rule (db\<lparr>numbering_rules := numbering_rules db @ [n], numbering_rule_seq := s\<rparr>) d p = pick_rule db d p"
  using assms by (auto simp: conflicting_rule_def find_append pick_rule_def found_rules_def split: option.splits)

lemma has_rule_rule:
  assumes "has_rule db d p r" and "rule db d' p' = (res, db')"
  shows "has_rule db' d p r"
  using rule_cases [of db d' p']
proof
  assume "\<exists>res. rule db d' p' = (res, db)"
  with assms show ?thesis by auto
next
  assume "\<exists>pfx r. pick_rule db d' p' = None \<and> prefixOf d' = Inr pfx \<and> conflicting_rule db d' = None \<and>
      r = \<lparr>nr_id = numbering_rule_seq db, nr_document_type_code = d', nr_plant_id = None, nr_lot_type_code = None,
           nr_pattern = pfx @ DEFAULT_PATTERN_SUFFIX, nr_reset_cycle_code = ''DAILY'', nr_is_active = True\<rparr> \<and>
      rule db d' p' = (Inr r, db\<lparr>numbering_rules := numbering_rules db @ [r],
                                numbering_rule_seq := numbering_rule_seq db + 1\<rparr>)"
  then obtain n where n: "conflicting_rule db d' = None" "nr_plant_id n = None" "nr_document_type_code n = d'"
    "rule db d' p' = (Inr n, db\<lparr>numbering_rules := numbering_rules db @ [n], numbering_rule_seq := numbering_rule_seq db + 1\<rparr>)"
    by auto
  from n(4) assms(2) have db': "db' = db\<lparr>numbering_rules := numbering_rules db @ [n], numbering_rule_seq := numbering_rule_seq db + 1\<rparr>"
    by simp
  show ?thesis
  proof (cases "d' = d")
    case True
    then have "pick_rule db d p = Some r \<and> nr_is_active r" using assms(1) n(1) by (auto simp: has_rule_def)
    then show ?thesis using pick_rule_append [of db d p r "numbering_rule_seq db + 1" n] n(2) by (simp add: has_rule_def db')
  next
    case False
    then show ?thesis
      using assms(1) conflicting_rule_other [of n d "numbering_rule_seq db + 1" db] n(3) by (simp add: has_rule_def db')
  qed
qed

lemma has_rule_after: 
  assumes "rule db d p = (Inr r, db')"
  shows "has_rule db' d p r"
proof (cases "pick_rule db d p")
  case (Some q)
  with assms show ?thesis by (auto simp: rule_def has_rule_def split: if_splits)
next
  case None
  then have empty: "found_rules db d p = []" by (auto simp: pick_rule_def Let_def split: list.splits if_splits)
  from None assms obtain pfx where pfx: "prefixOf d = Inr pfx" by (auto simp: rule_def split: sum.splits)
  show ?thesis
  proof (cases "conflicting_rule db d")
    case (Some q)
    with None pfx assms show ?thesis by (simp add: rule_def has_rule_def)
  next
    case new: None
    with None pfx assms have db': "db' = db\<lparr>numbering_rules := numbering_rules db @ [r], numbering_rule_seq := numbering_rule_seq db + 1\<rparr>"
      and r: "nr_document_type_code r = d" "nr_plant_id r = None" "nr_lot_type_code r = None" "nr_is_active r"
      by (auto simp: rule_def Let_def)
    have "found_rules db' d p = [r]" using empty r by (simp add: found_rules_def db')
    then show ?thesis using r by (simp add: has_rule_def pick_rule_def)
  qed
qed

lemma rule_ignores_counters [simp]:
  "pick_rule (db\<lparr>numbering_counters := c\<rparr>) d p = pick_rule db d p"
  "conflicting_rule (db\<lparr>numbering_counters := c\<rparr>) d = conflicting_rule db d"
  by (simp_all add: pick_rule_def found_rules_def conflicting_rule_def)

lemma has_rule_bump:
  "has_rule db d p r \<Longrightarrow> bump_counter db rid period n = (v, db') \<Longrightarrow> has_rule db' d p r"
  by (auto simp: has_rule_def bump_counter_def)

lemma has_rule_run: "numbering_run db db' \<Longrightarrow> has_rule db d p r \<Longrightarrow> has_rule db' d p r"
  by (induction rule: numbering_run.induct) (auto intro: has_rule_rule has_rule_bump)

text \<open>Counters only grow.\<close>

lemma last_value_bump:
  "bump_counter db rid period n = (v, db') \<Longrightarrow>
   last_value db' rid' period' = (if rid' = rid \<and> period' = period then last_value db rid period + n else last_value db rid' period')"
  by (auto simp: bump_counter_def last_value_def update_conv)

lemma last_value_rule: "rule db d p = (res, db') \<Longrightarrow> last_value db' rid period = last_value db rid period"
  using rule_cases [of db d p] by (auto simp: last_value_def)

lemma last_value_run: "numbering_run db db' \<Longrightarrow> last_value db rid period \<le> last_value db' rid period"
proof (induction rule: numbering_run.induct)
  case (nothing db)
  then show ?case by simp
next
  case (rule_statement db db' d p res db'')
  then show ?case using last_value_rule by metis
next
  case (counter_statement db db' rid' period' n v db'')
  then show ?case using last_value_bump [OF counter_statement(2), of rid period] by (auto split: if_splits)
qed

lemma issue_numbers_effect:
  assumes "issue_numbers db r period n = (Inr xs, db')"
  shows "list_all2 (\<lambda>v x. render (nr_pattern r) period v = Inr x)
           [last_value db (nr_id r) period + 1 ..< last_value db (nr_id r) period + 1 + n] xs"
    and "last_value db' (nr_id r) period = last_value db (nr_id r) period + n"
proof -
  have eq: "map (\<lambda>index. k + 1 + index) [0..<n] = [k + 1 ..< k + 1 + n]" for k
    using map_add_upt [of "k + 1" n] by (simp add: add.commute)
  show "list_all2 (\<lambda>v x. render (nr_pattern r) period v = Inr x)
           [last_value db (nr_id r) period + 1 ..< last_value db (nr_id r) period + 1 + n] xs"
    using assms unfolding eq [symmetric] by (simp add: issue_numbers_def bump_counter_def map_res_Inr Let_def)
  show "last_value db' (nr_id r) period = last_value db (nr_id r) period + n"
    using assms by (auto simp: issue_numbers_def Let_def last_value_bump [of db "nr_id r" period n] split: prod.splits)
qed

lemma nextMany_cases:
  assumes "nextMany db d p date q = (Inr xs, db')"
  obtains r db1 where "rule db d p = (Inr r, db1)" "issue_numbers db1 r (period_key date) (nat q) = (Inr xs, db')" "1 \<le> q"
  using assms by (auto simp: nextMany_def split: if_splits prod.splits sum.splits)

lemma distinct_rendered:
  assumes "list_all2 (\<lambda>v x. render p day v = Inr x) vs xs" and "distinct vs" and "has_seq p"
  shows "distinct xs"
  using assms(1,2)
proof (induction rule: list_all2_induct)
  case Nil
  then show ?case by simp
next
  case (Cons v vs x xs)
  have "x \<notin> set xs"
  proof
    assume "x \<in> set xs"
    then obtain i where i: "i < length xs" "xs ! i = x" by (auto simp: in_set_conv_nth)
    with Cons.hyps(2) have "render p day (vs ! i) = Inr x" "i < length vs" by (auto simp: list_all2_conv_all_nth)
    with Cons.hyps(1) assms(3) have "v = vs ! i" by (intro render_distinct)
    with \<open>i < length vs\<close> Cons.prems show False by auto
  qed
  with Cons show ?case by auto
qed

section \<open>Properties\<close>


text \<open>The example rule the migration gives in a comment has a token the service refuses.\<close>

lemma plant_token_refused: "render ''WO-{PLANT}-{YYMMDD}-{SEQ4}'' day v = Inl InternalError"
proof -
  have "render_token day v ''PLANT'' = Inl InternalError" by (simp add: render_token_def seq_width_def)
  then show ?thesis by (simp add: bind_res_def)
qed

lemma render_literal: "CHR ''{'' \<notin> set p \<Longrightarrow> render (p @ s) day v = bind_res (render s day v) (\<lambda>u. Inr (p @ u))"
proof (induction p)
  case Nil
  then show ?case by (cases "render s day v") auto
next
  case (Cons c p)
  then show ?case by (cases "render s day v") (auto simp: Let_def)
qed

lemma prefix_without_brace: "prefixOf d = Inr pfx \<Longrightarrow> CHR ''{'' \<notin> set pfx"
proof -
  assume "prefixOf d = Inr pfx"
  then have "(d, pfx) \<in> set DEFAULT_PREFIX" by (auto simp: prefixOf_def split: option.splits dest: map_of_SomeD)
  moreover have "list_all (\<lambda>(d, p). CHR ''{'' \<notin> set p) DEFAULT_PREFIX" by code_simp
  ultimately show ?thesis by (auto simp: list_all_iff)
qed

lemma render_suffix:
  "render DEFAULT_PATTERN_SUFFIX day v = Inr (''-'' @ day @ ''-'' @ padStart (show_nat v) 4 (CHR ''0''))"
proof -
  have "seq_width ''SEQ4'' = Some 4" by code_simp
  then have "render_token day v ''SEQ4'' = Inr (padStart (show_nat v) 4 (CHR ''0''))"
    and "render_token day v ''YYYYMMDD'' = Inr day"
    by (simp_all add: render_token_def)
  then show ?thesis by (simp add: DEFAULT_PATTERN_SUFFIX_def)
qed

text \<open>A number of the default pattern reads back: for every document type with a default prefix and
  every eight-digit day the rendered number is prefix, day and sequence, its last part reads as the
  sequence value however many digits that has, and two such numbers are equal only for the same day and
  value.\<close>
lemma default_number_reads_back:
  assumes "prefixOf d = Inr pfx" and "length day = 8" and "length day' = 8"
    and "render (pfx @ DEFAULT_PATTERN_SUFFIX) day v = Inr number"
  shows "take 8 (drop (length pfx + 1) number) = day \<and> read_nat (drop (length pfx + 10) number) = v \<and>
    (render (pfx @ DEFAULT_PATTERN_SUFFIX) day' w = Inr number \<longleftrightarrow> day' = day \<and> w = v)"
proof -
  have eq: "render (pfx @ DEFAULT_PATTERN_SUFFIX) x u = Inr (pfx @ ''-'' @ x @ ''-'' @ padStart (show_nat u) 4 (CHR ''0''))" for x u
    using prefix_without_brace [OF assms(1)] by (simp add: render_literal render_suffix)
  then have number: "number = pfx @ ''-'' @ day @ ''-'' @ padStart (show_nat v) 4 (CHR ''0'')" using assms(4) by simp
  have "w = v" if "padStart (show_nat w) 4 (CHR ''0'') = padStart (show_nat v) 4 (CHR ''0'')"
    using arg_cong [OF that, of read_nat] by simp
  then show ?thesis using assms(2,3) by (auto simp: eq number)
qed

definition no_numbers :: num_db where
  "no_numbers = \<lparr>numbering_rules = [], numbering_counters = [], numbering_rule_seq = 1\<rparr>"


lemma default_number_reads_back_example:
  "read_nat (drop 13 ''NTC-20260801-12345'') = 12345"
proof -
  have 1: "prefixOf ''NOTICE'' = Inr ''NTC''" by code_simp
  have "show_nat 12345 = ''12345''" by (simp add: show_nat.simps digit_def)
  then have 2: "render (''NTC'' @ DEFAULT_PATTERN_SUFFIX) ''20260801'' 12345 = Inr ''NTC-20260801-12345''"
    using render_literal [of "''NTC''"] by (simp add: render_suffix padStart_def)
  show ?thesis using default_number_reads_back [OF 1 _ _ 2, of "''20260802''" 1] by simp
qed

end
