(* ===== verification/Message_Format.thy ===== *)
theory Message_Format
  imports Js_Strings Api_Errors
begin

text \<open>
  \<open>src/core/notification/message-format.ts\<close>, \<open>notification-events.ts\<close> and \<open>handover-alert-types.ts\<close>:
  the catalogues of notification events, the parameters of each, the times in a message, and the Zalo
  \<open>template_data\<close>. A timestamp is milliseconds since the epoch, a text the list of its code points. Titles,
  names and labels for the screen (Korean and Vietnamese prose) are left out, so a message is the list of
  the labelled parts it is joined from.
\<close>

section \<open>Catalogues\<close>

datatype NotificationRecipientMode = CONFIGURED | APPROVER

definition NOTIFICATION_EVENTS :: "(code \<times> NotificationRecipientMode) list" where
  "NOTIFICATION_EVENTS =
     [(''WORK_SESSION_STARTED'', CONFIGURED),
      (''WORK_SESSION_STOPPED'', CONFIGURED),
      (''WORK_SESSION_ENDED'', CONFIGURED),
      (''WORK_ORDER_CLOSED'', CONFIGURED),
      (''EQUIPMENT_BREAKDOWN_OCCURRED'', CONFIGURED),
      (''APPROVAL_ACTION_REQUIRED'', APPROVER)]"

definition notificationEvent :: "code \<Rightarrow> NotificationRecipientMode option" where
  "notificationEvent eventCode = map_of NOTIFICATION_EVENTS eventCode"

definition HANDOVER_ALERT_TYPES :: "(code \<times> code) list" where
  "HANDOVER_ALERT_TYPES =
     [(''IQC_INSPECTION_REQUESTED'', ''INBOUND_RECEIPT''),
      (''PUTAWAY_REQUESTED'', ''GOODS_RECEIPT''),
      (''MATERIAL_PICKING_REQUESTED'', ''PICKING_ORDER''),
      (''STOCK_TRANSFER_ARRIVAL_PENDING'', ''STOCK_TRANSFER''),
      (''WORK_ORDER_RELEASED'', ''WORK_ORDER''),
      (''EMERGENCY_WORK_ORDER_RELEASED'', ''WORK_ORDER''),
      (''REWORK_WORK_ORDER_CREATED'', ''WORK_ORDER''),
      (''OQC_INSPECTION_REQUESTED'', ''SHIPMENT_REQUEST''),
      (''SHIPMENT_PICKING_REQUESTED'', ''SHIPMENT_REQUEST''),
      (''SHIPMENT_PACKING_REQUESTED'', ''SHIPMENT'')]"

definition handoverAlertType :: "code \<Rightarrow> code option" where
  "handoverAlertType alertTypeCode = map_of HANDOVER_ALERT_TYPES alertTypeCode"

definition EVENT_PARAMS :: "(code \<times> string list) list" where
  "EVENT_PARAMS =
     [(''WORK_SESSION_STARTED'', [''wo_no'', ''item'', ''process'', ''line'']),
      (''WORK_SESSION_STOPPED'', [''wo_no'', ''item'', ''process'', ''line'', ''reason'']),
      (''WORK_SESSION_ENDED'', [''wo_no'', ''item'', ''process'', ''line'', ''plan_qty'', ''good_qty'']),
      (''WORK_ORDER_CLOSED'', [''wo_no'', ''item'', ''process'', ''line'', ''plan_qty'', ''good_qty'']),
      (''EQUIPMENT_BREAKDOWN_OCCURRED'', [''equipment'', ''location'', ''line'', ''symptom'']),
      (''APPROVAL_ACTION_REQUIRED'', [''approval_type'', ''request_no'', ''requester'', ''reason'', ''step''])]"

definition HANDOVER_PARAMS :: "(code \<times> string list) list" where
  "HANDOVER_PARAMS =
     [(''PUTAWAY_REQUESTED'', [''receipt_no'', ''warehouse'', ''task_count'', ''event_time'', ''actor'']),
      (''MATERIAL_PICKING_REQUESTED'', [''picking_no'', ''wo_no'', ''item_count'', ''warehouse'', ''required_at'', ''event_time'']),
      (''STOCK_TRANSFER_ARRIVAL_PENDING'', [''transfer_no'', ''from_warehouse'', ''to_warehouse'', ''item_count'', ''event_time'', ''actor'']),
      (''SHIPMENT_PICKING_REQUESTED'', [''request_no'', ''customer'', ''item_count'', ''ship_date'', ''event_time'']),
      (''SHIPMENT_PACKING_REQUESTED'', [''shipment_no'', ''warehouse'', ''ship_date'', ''event_time'', ''actor'']),
      (''WORK_ORDER_RELEASED'', [''wo_no'', ''item'', ''plan_qty'', ''process'', ''equipment'', ''event_time'']),
      (''EMERGENCY_WORK_ORDER_RELEASED'', [''wo_no'', ''item'', ''plan_qty'', ''process'', ''equipment'', ''event_time'']),
      (''OQC_INSPECTION_REQUESTED'', [''request_no'', ''request_count'', ''ship_date'', ''event_time'']),
      (''REWORK_WORK_ORDER_CREATED'', [''wo_no'', ''item'', ''qty'', ''ncr_no'', ''process'', ''event_time'', ''actor'']),
      (''IQC_INSPECTION_REQUESTED'', [''receipt_no'', ''lot_count'', ''supplier'', ''event_time''])]"

definition COMMON_PARAMS :: "string list" where
  "COMMON_PARAMS = [''event_time'', ''actor'']"

definition ZALO_PARAMS :: "(code \<times> (string \<times> string) list) list" where
  "ZALO_PARAMS =
     [(''WORK_SESSION_STARTED'', [(''line'', ''line''), (''product'', ''product''), (''work_order'', ''wo_no''), (''event_time'', ''event_time'')]),
      (''WORK_SESSION_STOPPED'', [(''line'', ''line''), (''work_order'', ''wo_no''), (''event_time'', ''event_time''), (''reason'', ''reason'')]),
      (''WORK_SESSION_ENDED'', [(''line'', ''line''), (''work_order'', ''wo_no''), (''event_time'', ''event_time''), (''result'', ''result'')]),
      (''WORK_ORDER_CLOSED'', [(''line'', ''line''), (''work_order'', ''wo_no''), (''quantity'', ''quantity''), (''event_time'', ''event_time'')]),
      (''EQUIPMENT_BREAKDOWN_OCCURRED'', [(''line'', ''line''), (''equipment'', ''equipment''), (''event_time'', ''event_time''), (''description'', ''symptom'')]),
      (''APPROVAL_ACTION_REQUIRED'', [(''requester'', ''requester''), (''request_type'', ''request_type''), (''request_no'', ''request_no''), (''event_time'', ''event_time'')])]"

definition EMPTY_PARAM :: string where
  "EMPTY_PARAM = ''-''"

section \<open>Times\<close>

text \<open>The proleptic Gregorian date \<open>getUTCFullYear\<close>, \<open>getUTCMonth\<close> and \<open>getUTCDate\<close> give for a day number
  since 1970-01-01: years start in March, an era is 400 years.\<close>

definition civil_of_days :: "int \<Rightarrow> int \<times> int \<times> int" where
  "civil_of_days days =
     (let z = days + 719468;
          era = z div 146097;
          doe = z - era * 146097;
          yoe = (doe - doe div 1460 + doe div 36524 - doe div 146096) div 365;
          doy = doe - (365 * yoe + yoe div 4 - yoe div 100);
          mp = (5 * doy + 2) div 153;
          d = doy - (153 * mp + 2) div 5 + 1;
          m = if mp < 10 then mp + 3 else mp - 9
      in (yoe + era * 400 + (if m \<le> 2 then 1 else 0), m, d))"

definition SITE_OFFSET_MS :: int where
  "SITE_OFFSET_MS = 7 * 60 * 60 * 1000"

record site_parts =
  yyyy :: string
  mon :: string
  dd :: string
  hh :: string
  mi :: string
  ss :: string

definition two :: "int \<Rightarrow> string" where
  "two n = padStart (show_int n) 2 (CHR ''0'')"

definition siteParts :: "int \<Rightarrow> site_parts" where
  "siteParts time =
     (let local = time + SITE_OFFSET_MS;
          t = local mod 86400000
      in case civil_of_days (local div 86400000) of (y, m, d) \<Rightarrow>
        \<lparr>yyyy = show_int y, mon = two m, dd = two d,
         hh = two (t div 3600000), mi = two (t div 60000 mod 60), ss = two (t div 1000 mod 60)\<rparr>)"

definition formatEventTime :: "int \<Rightarrow> string" where
  "formatEventTime time = (let p = siteParts time in dd p @ ''/'' @ mon p @ ''/'' @ yyyy p @ '' '' @ hh p @ '':'' @ mi p)"

definition formatZaloEventTime :: "int \<Rightarrow> string" where
  "formatZaloEventTime time =
     (let p = siteParts time in hh p @ '':'' @ mi p @ '':'' @ ss p @ '' '' @ dd p @ ''/'' @ mon p @ ''/'' @ yyyy p)"

definition shortTime :: "int \<Rightarrow> string" where
  "shortTime time = (let p = siteParts time in mon p @ ''-'' @ dd p @ '' '' @ hh p @ '':'' @ mi p)"

text \<open>\<open>formatCalendarDate\<close>: a date column is midnight UTC.\<close>

definition formatCalendarDate :: "int option \<Rightarrow> string option" where
  "formatCalendarDate date =
     map_option (\<lambda>t. case civil_of_days (t div 86400000) of (y, m, d) \<Rightarrow> two d @ ''/'' @ two m @ ''/'' @ show_int y) date"

section \<open>Values and messages\<close>

datatype note_value = VNull | VNum int | VStr string

type_synonym NotificationValues = "(string \<times> note_value) list"

text \<open>\<open>{ ...a, ...b }\<close>.\<close>

definition merge_values :: "NotificationValues \<Rightarrow> NotificationValues \<Rightarrow> NotificationValues" where
  "merge_values a b = fold (\<lambda>(k, v) o'. AList.update k v o') b a"

definition text_of :: "note_value option \<Rightarrow> string" where
  "text_of v = (case v of None \<Rightarrow> [] | Some VNull \<Rightarrow> [] | Some (VNum n) \<Rightarrow> show_int n | Some (VStr s) \<Rightarrow> trim s)"

definition paramsOf :: "code \<Rightarrow> string list res" where
  "paramsOf eventCode =
     (case map_of HANDOVER_PARAMS eventCode of
        Some handover \<Rightarrow> Inr (filter (\<lambda>key. key \<notin> set COMMON_PARAMS) handover)
      | None \<Rightarrow> (case map_of EVENT_PARAMS eventCode of None \<Rightarrow> Inl InternalError | Some ps \<Rightarrow> Inr ps))"

text \<open>\<open>Array.from(value).slice(0, maxLength)\<close>.\<close>

definition slice_to :: "int \<Rightarrow> string \<Rightarrow> string" where
  "slice_to n s = (if 0 \<le> n then take (nat n) s else take (length s - nat (- n)) s)"

definition template_value :: "int \<Rightarrow> string \<Rightarrow> string" where
  "template_value maxLength v = (if v = [] then EMPTY_PARAM else slice_to maxLength v)"

definition templateData ::
  "code \<Rightarrow> NotificationValues \<Rightarrow> int \<Rightarrow> int \<Rightarrow> NotificationValues \<Rightarrow> (string \<times> string) list res" where
  "templateData eventCode values occurredAt maxLength zaloValues =
     (let handover = map_of HANDOVER_PARAMS eventCode;
          params = (case handover of None \<Rightarrow> map_of ZALO_PARAMS eventCode | Some ks \<Rightarrow> Some (map (\<lambda>key. (key, key)) ks));
          eventTime = (if handover = None then formatZaloEventTime occurredAt else formatEventTime occurredAt);
          everything = merge_values (merge_values values zaloValues) [(''event_time'', VStr eventTime)]
      in case params of
           None \<Rightarrow> Inl InternalError
         | Some ps \<Rightarrow> Inr (map (\<lambda>(key, source). (key, template_value maxLength (text_of (map_of everything source)))) ps))"

text \<open>\<open>notificationMessage\<close>: the parts that are joined, each with the key its label is looked up by.\<close>

definition notificationMessage :: "code \<Rightarrow> NotificationValues \<Rightarrow> int \<Rightarrow> (string \<times> string) list res" where
  "notificationMessage eventCode values occurredAt =
     bind_res (paramsOf eventCode) (\<lambda>params.
       let parts = filter (\<lambda>(key, v). v \<noteq> []) (map (\<lambda>key. (key, text_of (map_of values key))) params);
           actor = text_of (map_of values ''actor'')
       in Inr (parts @ (if actor \<noteq> [] \<and> eventCode \<noteq> ''APPROVAL_ACTION_REQUIRED'' then [(''actor'', actor)] else []) @
               [(''event_time'', shortTime occurredAt)]))"

section \<open>The catalogues fit together\<close>

text \<open>Every event either emitter accepts has parameters for its message and for its template.\<close>

lemma catalogue_params:
  assumes "notificationEvent e = Some m \<or> handoverAlertType e = Some a"
  shows "\<exists>ps. paramsOf e = Inr ps"
    and "map_of HANDOVER_PARAMS e \<noteq> None \<or> map_of ZALO_PARAMS e \<noteq> None"
proof -
  have "e \<in> fst ` set NOTIFICATION_EVENTS \<union> fst ` set HANDOVER_ALERT_TYPES"
    using assms by (force simp: notificationEvent_def handoverAlertType_def dest: map_of_SomeD)
  moreover have "list_all (\<lambda>e. (case paramsOf e of Inr ps \<Rightarrow> True | Inl x \<Rightarrow> False) \<and>
      (map_of HANDOVER_PARAMS e \<noteq> None \<or> map_of ZALO_PARAMS e \<noteq> None))
      (map fst NOTIFICATION_EVENTS @ map fst HANDOVER_ALERT_TYPES)"
    by code_simp
  ultimately have good: "(case paramsOf e of Inr ps \<Rightarrow> True | Inl x \<Rightarrow> False) \<and>
      (map_of HANDOVER_PARAMS e \<noteq> None \<or> map_of ZALO_PARAMS e \<noteq> None)"
    by (simp only: list_all_iff set_append set_map)
  then show "\<exists>ps. paramsOf e = Inr ps" by (cases "paramsOf e") simp_all
  from good show "map_of HANDOVER_PARAMS e \<noteq> None \<or> map_of ZALO_PARAMS e \<noteq> None" by (rule conjunct2)
qed

lemma notificationMessage_total:
  "notificationEvent e = Some m \<or> handoverAlertType e = Some a \<Longrightarrow> \<exists>msg. notificationMessage e vs t = Inr msg"
  using catalogue_params(1) [of e m a] by (auto simp: notificationMessage_def Let_def)

lemma templateData_total:
  "notificationEvent e = Some m \<or> handoverAlertType e = Some a \<Longrightarrow> \<exists>d. templateData e vs t n zs = Inr d"
  using catalogue_params(2) [of e m a] by (auto simp: templateData_def Let_def split: option.splits)

text \<open>No template parameter is empty, which Zalo would refuse.\<close>

lemma templateData_filled:
  assumes "templateData e vs t n zs = Inr d" and "0 < n" and "(k, v) \<in> set d"
  shows "v \<noteq> [] \<and> length v \<le> max 1 (nat n)"
proof -
  have fill: "template_value n w \<noteq> [] \<and> length (template_value n w) \<le> max 1 (nat n)" for w
    using assms(2) by (auto simp: template_value_def EMPTY_PARAM_def slice_to_def)
  obtain w where "v = template_value n w"
    using assms(1,3) by (auto simp: templateData_def Let_def split: option.splits)
  with fill [of w] show ?thesis by simp
qed

lemma civil_examples:
  "civil_of_days 0 = (1970, 1, 1)" "civil_of_days 11016 = (2000, 2, 29)" "civil_of_days 20662 = (2026, 7, 28)"
  "civil_of_days (- 1) = (1969, 12, 31)"
  by code_simp+

lemma format_examples:
  "formatZaloEventTime 0 = ''07:00:00 01/01/1970''" "formatEventTime 1785196800000 = ''28/07/2026 07:00''"
  "shortTime 1785196859999 = ''07-28 07:00''"
  by code_simp+

end
