(* ===== verification/Notifications.thy ===== *)
theory Notifications
  imports Message_Format
begin

text \<open>
  \<open>src/core/notification/notification-emitter.ts\<close> and \<open>department-resolver.ts\<close>: what a business
  transaction writes for its notification centre and its Zalo queue. Every operation runs inside the
  caller's transaction; an operation returns its result and the store, or throws. The titles are left out.
\<close>

section \<open>Tables\<close>

record app_user =
  u_id :: id
  u_name :: string
  u_is_active :: bool
  u_phone_number :: "string option"
  u_department_id :: "id option"

record department =
  d_id :: id
  d_is_active :: bool

text \<open>A setting with its recipients; keyed by department and event, or by plant and alert type.\<close>

record alert_setting =
  s_key :: "id \<times> code"
  s_is_enabled :: bool
  s_zalo_enabled :: bool
  s_recipients :: "id list"

datatype SkipReason = DEPARTMENT_UNRESOLVED | EVENT_DISABLED | NO_RECIPIENTS | REPORTER_OPTED_OUT | APPROVER_INACTIVE

record event_row =
  e_id :: id
  e_type_code :: code
  e_aggregate_type_code :: code
  e_aggregate_id :: id
  e_occurred_at :: int
  e_department_id :: "id option"
  e_dispatch_status_code :: code
  e_skip_reason_code :: "SkipReason option"
  e_payload :: NotificationValues

record notification_row =
  n_event_id :: id
  n_recipient_user_id :: id
  n_message :: "(string \<times> string) list"

record zalo_row =
  z_id :: id
  z_event_id :: id
  z_recipient_user_id :: id
  z_phone_number :: string
  z_event_type_code :: code
  z_department_id :: "id option"
  z_template_data :: "(string \<times> string) list"
  z_tracking_id :: string
  z_expires_at :: int
  z_priority :: int
  z_next_attempt_at :: "int option"

record note_db =
  nd_users :: "app_user list"
  nd_departments :: "department list"
  nd_department_settings :: "alert_setting list"
  nd_handover_settings :: "alert_setting list"
  nd_param_max_length :: "int option"
  nd_events :: "event_row list"
  nd_notifications :: "notification_row list"
  nd_zalo :: "zalo_row list"
  nd_event_seq :: id
  nd_zalo_seq :: id

record EmitInput =
  ei_eventCode :: code
  ei_aggregateTypeCode :: code
  ei_aggregateId :: id
  ei_occurredAt :: int
  ei_departmentId :: "id option"
  ei_approverUserId :: "id option"
  ei_optOut :: bool
  ei_values :: NotificationValues
  ei_zaloValues :: NotificationValues
  ei_refs :: "(string \<times> int) list"

record HandoverEmitInput =
  hi_alertTypeCode :: code
  hi_plantId :: id
  hi_aggregateTypeCode :: code
  hi_aggregateId :: id
  hi_occurredAt :: int
  hi_values :: NotificationValues
  hi_refs :: "(string \<times> int) list"
  hi_zaloNotBefore :: "int option"

record Decision =
  dc_skipReason :: "SkipReason option"
  dc_recipients :: "app_user list"
  dc_zaloEnabled :: bool

record WriteInput =
  wi_eventCode :: code
  wi_aggregateTypeCode :: code
  wi_aggregateId :: id
  wi_occurredAt :: int
  wi_departmentId :: "id option"
  wi_values :: NotificationValues
  wi_zaloValues :: NotificationValues
  wi_refs :: "(string \<times> int) list"
  wi_priority :: int
  wi_zaloNotBefore :: "int option"
  wi_decision :: Decision

record EmitResult =
  er_notificationEventId :: "id option"
  er_skipReason :: "SkipReason option"
  er_notificationCount :: nat
  er_zaloCount :: nat

definition nothing_written :: EmitResult where
  "nothing_written = \<lparr>er_notificationEventId = None, er_skipReason = None, er_notificationCount = 0, er_zaloCount = 0\<rparr>"

definition ZALO_TTL_MS :: int where "ZALO_TTL_MS = 24 * 60 * 60 * 1000"
definition DEFAULT_PARAM_MAX_LENGTH :: int where "DEFAULT_PARAM_MAX_LENGTH = 100"
definition EVENT_PRIORITY :: int where "EVENT_PRIORITY = 0"
definition HANDOVER_PRIORITY :: int where "HANDOVER_PRIORITY = 1"

section \<open>Departments\<close>

definition find_user :: "note_db \<Rightarrow> id \<Rightarrow> app_user option" where
  "find_user db i = find (\<lambda>u. u_id u = i) (nd_users db)"

definition activeDepartment :: "department option \<Rightarrow> id option" where
  "activeDepartment d = (case d of None \<Rightarrow> None | Some d \<Rightarrow> if d_is_active d then Some (d_id d) else None)"

definition resolveByUser :: "note_db \<Rightarrow> id \<Rightarrow> id option" where
  "resolveByUser db appUserId =
     activeDepartment
       (case find_user db appUserId of
          None \<Rightarrow> None
        | Some u \<Rightarrow> (case u_department_id u of None \<Rightarrow> None | Some i \<Rightarrow> find (\<lambda>d. d_id d = i) (nd_departments db)))"

section \<open>Who is told\<close>

definition skip :: "SkipReason \<Rightarrow> Decision" where
  "skip r = \<lparr>dc_skipReason = Some r, dc_recipients = [], dc_zaloEnabled = False\<rparr>"

definition active_recipients :: "note_db \<Rightarrow> id list \<Rightarrow> app_user list" where
  "active_recipients db is = filter u_is_active (List.map_filter (find_user db) is)"

definition to_recipients :: "app_user list \<Rightarrow> bool \<Rightarrow> Decision" where
  "to_recipients us z =
     (if us = [] then skip NO_RECIPIENTS else \<lparr>dc_skipReason = None, dc_recipients = us, dc_zaloEnabled = z\<rparr>)"

definition decide_recipients :: "note_db \<Rightarrow> EmitInput \<Rightarrow> NotificationRecipientMode \<Rightarrow> Decision res" where
  "decide_recipients db input mode =
     (if ei_optOut input then Inr (skip REPORTER_OPTED_OUT)
      else case ei_departmentId input of
        None \<Rightarrow> Inr (skip DEPARTMENT_UNRESOLVED)
      | Some dep \<Rightarrow>
          (case find (\<lambda>s. s_key s = (dep, ei_eventCode input)) (nd_department_settings db) of
             None \<Rightarrow> Inr (skip EVENT_DISABLED)
           | Some setting \<Rightarrow>
               if \<not> s_is_enabled setting then Inr (skip EVENT_DISABLED)
               else case mode of
                 APPROVER \<Rightarrow>
                   (case ei_approverUserId input of
                      None \<Rightarrow> Inl InternalError
                    | Some i \<Rightarrow>
                        (case find_user db i of
                           None \<Rightarrow> Inr (skip APPROVER_INACTIVE)
                         | Some approver \<Rightarrow>
                             if u_is_active approver then Inr (to_recipients [approver] (s_zalo_enabled setting))
                             else Inr (skip APPROVER_INACTIVE)))
               | CONFIGURED \<Rightarrow> Inr (to_recipients (active_recipients db (s_recipients setting)) (s_zalo_enabled setting))))"

definition decideHandover :: "note_db \<Rightarrow> HandoverEmitInput \<Rightarrow> Decision" where
  "decideHandover db input =
     (case find (\<lambda>s. s_key s = (hi_plantId input, hi_alertTypeCode input)) (nd_handover_settings db) of
        None \<Rightarrow> skip EVENT_DISABLED
      | Some setting \<Rightarrow>
          if \<not> s_is_enabled setting then skip EVENT_DISABLED
          else to_recipients (active_recipients db (sort (s_recipients setting))) (s_zalo_enabled setting))"

section \<open>Writing\<close>

definition zalo_targets :: "Decision \<Rightarrow> app_user list" where
  "zalo_targets d = (if dc_zaloEnabled d then filter (\<lambda>u. u_phone_number u \<noteq> None) (dc_recipients d) else [])"

definition zalo_row_of :: "WriteInput \<Rightarrow> id \<Rightarrow> (string \<times> string) list \<Rightarrow> id \<Rightarrow> app_user \<Rightarrow> zalo_row" where
  "zalo_row_of input eventId data i target =
     \<lparr>z_id = i, z_event_id = eventId, z_recipient_user_id = u_id target, z_phone_number = the (u_phone_number target),
      z_event_type_code = wi_eventCode input, z_department_id = wi_departmentId input, z_template_data = data,
      z_tracking_id = ''zd-'' @ show_int i, z_expires_at = wi_occurredAt input + ZALO_TTL_MS,
      z_priority = wi_priority input, z_next_attempt_at = wi_zaloNotBefore input\<rparr>"

definition queueZalo :: "note_db \<Rightarrow> id \<Rightarrow> WriteInput \<Rightarrow> app_user list \<Rightarrow> note_db res" where
  "queueZalo db eventId input targets =
     bind_res (templateData (wi_eventCode input) (wi_values input) (wi_occurredAt input)
                 (case nd_param_max_length db of None \<Rightarrow> DEFAULT_PARAM_MAX_LENGTH | Some n \<Rightarrow> n) (wi_zaloValues input))
       (\<lambda>data.
         let ids = map (\<lambda>k. nd_zalo_seq db + int k) [0..<length targets];
             created = map2 (zalo_row_of input eventId data) ids targets
         in if distinct (map z_recipient_user_id created)
            then Inr (db\<lparr>nd_zalo := nd_zalo db @ created, nd_zalo_seq := nd_zalo_seq db + int (length targets)\<rparr>)
            else Inl (DbError (P2002 [''notification_event_id'', ''recipient_user_id''])))"

definition write_event :: "note_db \<Rightarrow> WriteInput \<Rightarrow> event_row \<times> note_db" where
  "write_event db input =
     (let d = wi_decision input;
          row = \<lparr>e_id = nd_event_seq db, e_type_code = wi_eventCode input,
                 e_aggregate_type_code = wi_aggregateTypeCode input, e_aggregate_id = wi_aggregateId input,
                 e_occurred_at = wi_occurredAt input, e_department_id = wi_departmentId input,
                 e_dispatch_status_code = (if dc_skipReason d = None then ''NOTIFIED'' else ''SKIPPED''),
                 e_skip_reason_code = dc_skipReason d,
                 e_payload = merge_values (merge_values (map (\<lambda>(k, i). (k, VNum i)) (wi_refs input)) (wi_values input))
                   (if dc_zaloEnabled d
                    then [(''zaloSkippedNoPhone'', VNum (int (length (filter (\<lambda>u. u_phone_number u = None) (dc_recipients d)))))]
                    else [])\<rparr>
      in (row, db\<lparr>nd_events := nd_events db @ [row], nd_event_seq := nd_event_seq db + 1\<rparr>))"

definition write_notifications :: "note_db \<Rightarrow> WriteInput \<Rightarrow> id \<Rightarrow> (string \<times> string) list \<Rightarrow> note_db res" where
  "write_notifications db input eventId message =
     (if distinct (map u_id (dc_recipients (wi_decision input)))
      then Inr (db\<lparr>nd_notifications := nd_notifications db @
        map (\<lambda>u. \<lparr>n_event_id = eventId, n_recipient_user_id = u_id u, n_message = message\<rparr>)
          (dc_recipients (wi_decision input))\<rparr>)
      else Inl (DbError (P2002 [''notification_event_id'', ''recipient_user_id''])))"

definition write_notice :: "note_db \<Rightarrow> WriteInput \<Rightarrow> (EmitResult \<times> note_db) res" where
  "write_notice db input =
     (let d = wi_decision input; (row, db1) = write_event db input; eventId = e_id row in
      if dc_skipReason d \<noteq> None
      then Inr (\<lparr>er_notificationEventId = Some eventId, er_skipReason = dc_skipReason d,
                 er_notificationCount = 0, er_zaloCount = 0\<rparr>, db1)
      else bind_res (notificationMessage (wi_eventCode input) (wi_values input) (wi_occurredAt input)) (\<lambda>message.
           bind_res (write_notifications db1 input eventId message) (\<lambda>db2.
           bind_res (if zalo_targets d = [] then Inr db2 else queueZalo db2 eventId input (zalo_targets d)) (\<lambda>db3.
             Inr (\<lparr>er_notificationEventId = Some eventId, er_skipReason = None,
                   er_notificationCount = length (dc_recipients d), er_zaloCount = length (zalo_targets d)\<rparr>, db3)))))"

section \<open>Emitting\<close>

definition find_same_event :: "note_db \<Rightarrow> EmitInput \<Rightarrow> event_row option" where
  "find_same_event db input =
     find (\<lambda>e. e_type_code e = ei_eventCode input \<and> e_aggregate_type_code e = ei_aggregateTypeCode input \<and>
               e_aggregate_id e = ei_aggregateId input \<and> e_occurred_at e = ei_occurredAt input) (nd_events db)"

definition emit :: "note_db \<Rightarrow> EmitInput \<Rightarrow> (EmitResult \<times> note_db) res" where
  "emit db input =
     (case notificationEvent (ei_eventCode input) of
        None \<Rightarrow> Inl InternalError
      | Some mode \<Rightarrow>
          (case find_same_event db input of
             Some e \<Rightarrow> Inr (nothing_written, db)
           | None \<Rightarrow>
               bind_res (decide_recipients db input mode) (\<lambda>d.
                 write_notice db
                   \<lparr>wi_eventCode = ei_eventCode input, wi_aggregateTypeCode = ei_aggregateTypeCode input,
                    wi_aggregateId = ei_aggregateId input, wi_occurredAt = ei_occurredAt input,
                    wi_departmentId = ei_departmentId input, wi_values = ei_values input,
                    wi_zaloValues = ei_zaloValues input, wi_refs = ei_refs input, wi_priority = EVENT_PRIORITY,
                    wi_zaloNotBefore = None, wi_decision = d\<rparr>)))"

text \<open>\<open>guarded\<close>: a savepoint around the work; what fails is undone and answered by the fallback.\<close>

definition guarded :: "('d \<Rightarrow> ('r \<times> 'd) res) \<Rightarrow> 'r \<Rightarrow> 'd \<Rightarrow> 'r \<times> 'd" where
  "guarded work fallback db = (case work db of Inl e \<Rightarrow> (fallback, db) | Inr r \<Rightarrow> r)"

definition find_same_handover :: "note_db \<Rightarrow> HandoverEmitInput \<Rightarrow> event_row option" where
  "find_same_handover db input =
     find (\<lambda>e. e_type_code e = hi_alertTypeCode input \<and> e_aggregate_type_code e = hi_aggregateTypeCode input \<and>
               e_aggregate_id e = hi_aggregateId input) (nd_events db)"

definition writeHandover :: "HandoverEmitInput \<Rightarrow> note_db \<Rightarrow> (EmitResult \<times> note_db) res" where
  "writeHandover input db =
     (case find_same_handover db input of
        Some e \<Rightarrow> Inr (nothing_written, db)
      | None \<Rightarrow>
          write_notice db
            \<lparr>wi_eventCode = hi_alertTypeCode input, wi_aggregateTypeCode = hi_aggregateTypeCode input,
             wi_aggregateId = hi_aggregateId input, wi_occurredAt = hi_occurredAt input, wi_departmentId = None,
             wi_values = hi_values input, wi_zaloValues = [], wi_refs = hi_refs input,
             wi_priority = HANDOVER_PRIORITY, wi_zaloNotBefore = hi_zaloNotBefore input,
             wi_decision = decideHandover db input\<rparr>)"

definition emitHandover :: "note_db \<Rightarrow> HandoverEmitInput \<Rightarrow> (EmitResult \<times> note_db) res" where
  "emitHandover db input =
     (case handoverAlertType (hi_alertTypeCode input) of
        None \<Rightarrow> Inl InternalError
      | Some t \<Rightarrow> Inr (guarded (writeHandover input) nothing_written db))"

section \<open>What a write appends\<close>

text \<open>The rows of one event: the event, a notification per recipient, a delivery for some of them.\<close>

definition event_rows :: "note_db \<Rightarrow> WriteInput \<Rightarrow> event_row \<Rightarrow> notification_row list \<Rightarrow> zalo_row list \<Rightarrow> bool" where
  "event_rows db input row ns zs \<longleftrightarrow>
     e_id row = nd_event_seq db \<and> e_type_code row = wi_eventCode input \<and>
     e_aggregate_type_code row = wi_aggregateTypeCode input \<and> e_aggregate_id row = wi_aggregateId input \<and>
     e_occurred_at row = wi_occurredAt input \<and> e_skip_reason_code row = dc_skipReason (wi_decision input) \<and>
     map n_recipient_user_id ns = map u_id (dc_recipients (wi_decision input)) \<and>
     (\<forall>n\<in>set ns. n_event_id n = nd_event_seq db) \<and>
     map z_id zs = map (\<lambda>k. nd_zalo_seq db + int k) [0..<length zs] \<and>
     distinct (map z_recipient_user_id zs) \<and>
     (\<forall>z\<in>set zs. z_event_id z = nd_event_seq db \<and> z_tracking_id z = ''zd-'' @ show_int (z_id z) \<and>
        z_recipient_user_id z \<in> n_recipient_user_id ` set ns)"

definition with_rows :: "note_db \<Rightarrow> event_row \<Rightarrow> notification_row list \<Rightarrow> zalo_row list \<Rightarrow> note_db" where
  "with_rows db row ns zs =
     db\<lparr>nd_events := nd_events db @ [row], nd_event_seq := nd_event_seq db + 1,
        nd_notifications := nd_notifications db @ ns,
        nd_zalo := nd_zalo db @ zs, nd_zalo_seq := nd_zalo_seq db + int (length zs)\<rparr>"

text \<open>What every decision satisfies when the user and setting tables do.\<close>

definition decision_ok :: "Decision \<Rightarrow> bool" where
  "decision_ok d \<longleftrightarrow> distinct (map u_id (dc_recipients d)) \<and> (dc_skipReason d \<noteq> None \<longrightarrow> dc_recipients d = [])"

lemma zalo_targets_recipients:
  "decision_ok d \<Longrightarrow> distinct (map u_id (zalo_targets d)) \<and> u_id ` set (zalo_targets d) \<subseteq> u_id ` set (dc_recipients d)"
  by (auto simp: zalo_targets_def decision_ok_def distinct_map_filter)

lemma queueZalo_effect:
  assumes "templateData (wi_eventCode input) (wi_values input) (wi_occurredAt input)
      (case nd_param_max_length db of None \<Rightarrow> DEFAULT_PARAM_MAX_LENGTH | Some n \<Rightarrow> n) (wi_zaloValues input) = Inr data"
    and "distinct (map u_id targets)"
  obtains zs where "queueZalo db eventId input targets =
      Inr (db\<lparr>nd_zalo := nd_zalo db @ zs, nd_zalo_seq := nd_zalo_seq db + int (length zs)\<rparr>)"
    and "length zs = length targets" and "map z_id zs = map (\<lambda>k. nd_zalo_seq db + int k) [0..<length zs]"
    and "map z_recipient_user_id zs = map u_id targets"
    and "\<forall>z\<in>set zs. z_event_id z = eventId \<and> z_tracking_id z = ''zd-'' @ show_int (z_id z)"
proof -
  let ?zs = "map2 (zalo_row_of input eventId data) (map (\<lambda>k. nd_zalo_seq db + int k) [0..<length targets]) targets"
  have len: "length ?zs = length targets" by simp
  have ids: "map z_id ?zs = map (\<lambda>k. nd_zalo_seq db + int k) [0..<length ?zs]"
    by (rule nth_equalityI) (simp_all add: zalo_row_of_def)
  have rcp: "map z_recipient_user_id ?zs = map u_id targets"
    by (rule nth_equalityI) (simp_all add: zalo_row_of_def)
  have "\<forall>z\<in>set ?zs. z_event_id z = eventId \<and> z_tracking_id z = ''zd-'' @ show_int (z_id z)"
    by (auto simp: zalo_row_of_def)
  moreover have "queueZalo db eventId input targets =
      Inr (db\<lparr>nd_zalo := nd_zalo db @ ?zs, nd_zalo_seq := nd_zalo_seq db + int (length ?zs)\<rparr>)"
    using assms(2) unfolding queueZalo_def assms(1) bind_res_Inr Let_def rcp by simp
  ultimately show ?thesis using that [of ?zs] len ids rcp by blast
qed

lemma write_notice_effect:
  assumes "notificationEvent (wi_eventCode input) = Some m \<or> handoverAlertType (wi_eventCode input) = Some a"
    and "decision_ok (wi_decision input)"
  obtains r row ns zs where "write_notice db input = Inr (r, with_rows db row ns zs)"
    and "event_rows db input row ns zs" and "er_notificationEventId r = Some (nd_event_seq db)"
proof (cases "dc_skipReason (wi_decision input)")
  case (Some reason)
  then have "dc_recipients (wi_decision input) = []" using assms(2) by (simp add: decision_ok_def)
  with Some show ?thesis
    using that [of _ "fst (write_event db input)" "[]" "[]"]
    by (simp add: write_notice_def write_event_def with_rows_def event_rows_def Let_def)
next
  case None
  let ?d = "wi_decision input" and ?row = "fst (write_event db input)" and ?db1 = "snd (write_event db input)"
  obtain msg where msg: "notificationMessage (wi_eventCode input) (wi_values input) (wi_occurredAt input) = Inr msg"
    using notificationMessage_total [OF assms(1)] by blast
  let ?ns = "map (\<lambda>u. \<lparr>n_event_id = nd_event_seq db, n_recipient_user_id = u_id u, n_message = msg\<rparr>) (dc_recipients ?d)"
  let ?db2 = "?db1\<lparr>nd_notifications := nd_notifications db @ ?ns\<rparr>"
  have row: "e_id ?row = nd_event_seq db" by (simp add: write_event_def Let_def)
  have db1: "?db1 = db\<lparr>nd_events := nd_events db @ [?row], nd_event_seq := nd_event_seq db + 1\<rparr>"
    by (simp add: write_event_def Let_def)
  have written: "write_notifications ?db1 input (nd_event_seq db) msg = Inr ?db2"
    using assms(2) by (simp add: write_notifications_def decision_ok_def db1)
  have targets: "distinct (map u_id (zalo_targets ?d))" "u_id ` set (zalo_targets ?d) \<subseteq> u_id ` set (dc_recipients ?d)"
    using zalo_targets_recipients [OF assms(2)] by auto
  obtain data where data: "templateData (wi_eventCode input) (wi_values input) (wi_occurredAt input)
      (case nd_param_max_length ?db2 of None \<Rightarrow> DEFAULT_PARAM_MAX_LENGTH | Some n \<Rightarrow> n) (wi_zaloValues input) = Inr data"
    using templateData_total [OF assms(1)] by blast
  obtain zs where zs: "queueZalo ?db2 (nd_event_seq db) input (zalo_targets ?d) =
      Inr (?db2\<lparr>nd_zalo := nd_zalo ?db2 @ zs, nd_zalo_seq := nd_zalo_seq ?db2 + int (length zs)\<rparr>)"
    "length zs = length (zalo_targets ?d)" "map z_id zs = map (\<lambda>k. nd_zalo_seq ?db2 + int k) [0..<length zs]"
    "map z_recipient_user_id zs = map u_id (zalo_targets ?d)"
    "\<forall>z\<in>set zs. z_event_id z = nd_event_seq db \<and> z_tracking_id z = ''zd-'' @ show_int (z_id z)"
    using queueZalo_effect [OF data targets(1)] by metis
  have "z_recipient_user_id ` set zs = u_id ` set (zalo_targets ?d)" using arg_cong [OF zs(4), of set] by simp
  then have "z_recipient_user_id ` set zs \<subseteq> n_recipient_user_id ` set ?ns"
    using targets(2) by (simp add: image_image)
  then have "\<forall>z\<in>set zs. z_recipient_user_id z \<in> n_recipient_user_id ` set ?ns" by blast
  then have rows: "event_rows db input ?row ?ns zs"
    using zs(3,4,5) targets(1) row
    by (simp add: event_rows_def db1 write_event_def Let_def)
  have queued: "(if zalo_targets ?d = [] then Inr ?db2 else queueZalo ?db2 (nd_event_seq db) input (zalo_targets ?d)) =
      Inr (with_rows db ?row ?ns zs)"
    using zs(1,2) by (auto simp: with_rows_def db1)
  have "write_notice db input =
      Inr (\<lparr>er_notificationEventId = Some (nd_event_seq db), er_skipReason = None,
            er_notificationCount = length (dc_recipients ?d), er_zaloCount = length (zalo_targets ?d)\<rparr>,
           with_rows db ?row ?ns zs)"
    using None unfolding write_notice_def Let_def case_prod_beta row msg bind_res_Inr written queued by simp
  then show ?thesis by (rule that [OF _ rows]) (rule EmitResult.select_convs)
qed

section \<open>The tables stay consistent\<close>

definition event_key :: "event_row \<Rightarrow> code \<times> code \<times> id \<times> int" where
  "event_key e = (e_type_code e, e_aggregate_type_code e, e_aggregate_id e, e_occurred_at e)"

definition settings_ok :: "note_db \<Rightarrow> bool" where
  "settings_ok db \<longleftrightarrow>
     (\<forall>s \<in> set (nd_department_settings db) \<union> set (nd_handover_settings db). distinct (s_recipients s))"

text \<open>The unique indexes of the four tables, and what belongs together: a notification belongs to an event
  that was not skipped, and a delivery to a notification of the same event and recipient.\<close>

definition rows_ok :: "note_db \<Rightarrow> bool" where
  "rows_ok db \<longleftrightarrow>
     distinct (map e_id (nd_events db)) \<and> (\<forall>e\<in>set (nd_events db). e_id e < nd_event_seq db) \<and>
     distinct (map event_key (nd_events db)) \<and>
     distinct (map (\<lambda>n. (n_event_id n, n_recipient_user_id n)) (nd_notifications db)) \<and>
     (\<forall>n\<in>set (nd_notifications db). \<exists>e\<in>set (nd_events db). e_id e = n_event_id n \<and> e_skip_reason_code e = None) \<and>
     distinct (map z_id (nd_zalo db)) \<and> (\<forall>z\<in>set (nd_zalo db). z_id z < nd_zalo_seq db) \<and>
     distinct (map z_tracking_id (nd_zalo db)) \<and>
     (\<forall>z\<in>set (nd_zalo db). z_tracking_id z = ''zd-'' @ show_int (z_id z)) \<and>
     distinct (map (\<lambda>z. (z_event_id z, z_recipient_user_id z)) (nd_zalo db)) \<and>
     (\<forall>z\<in>set (nd_zalo db). \<exists>n\<in>set (nd_notifications db).
        n_event_id n = z_event_id z \<and> n_recipient_user_id n = z_recipient_user_id z)"

definition notes_ok :: "note_db \<Rightarrow> bool" where
  "notes_ok db \<longleftrightarrow> settings_ok db \<and> rows_ok db"

lemma rows_below_seq:
  "rows_ok db \<Longrightarrow> n \<in> set (nd_notifications db) \<Longrightarrow> n_event_id n < nd_event_seq db"
  "rows_ok db \<Longrightarrow> z \<in> set (nd_zalo db) \<Longrightarrow> z_event_id z < nd_event_seq db"
  unfolding rows_ok_def by metis+

lemma distinct_map_pair: "distinct (map g xs) \<Longrightarrow> distinct (map (\<lambda>x. (f x, g x)) xs)"
  by (auto simp: distinct_map inj_on_def)

lemma rows_ok_with_rows:
  assumes ok: "rows_ok db" and rows: "event_rows db input row ns zs" and d: "decision_ok (wi_decision input)"
    and new: "event_key row \<notin> event_key ` set (nd_events db)"
  shows "rows_ok (with_rows db row ns zs)"
proof -
  note r = rows [unfolded event_rows_def]
  have nrec: "distinct (map n_recipient_user_id ns)" using r d by (simp add: decision_ok_def)
  have skipped: "ns \<noteq> [] \<Longrightarrow> e_skip_reason_code row = None" using r d by (auto simp: decision_ok_def)
  have zid: "\<forall>z\<in>set zs. nd_zalo_seq db \<le> z_id z \<and> z_id z < nd_zalo_seq db + int (length zs)"
  proof
    fix z
    assume "z \<in> set zs"
    then have "z_id z \<in> set (map (\<lambda>k. nd_zalo_seq db + int k) [0..<length zs])" using r by (metis image_eqI set_map)
    then show "nd_zalo_seq db \<le> z_id z \<and> z_id z < nd_zalo_seq db + int (length zs)" by auto
  qed
  have zdist: "distinct (map z_id zs)" using r by (simp add: distinct_map inj_on_def)
  have track: "map z_tracking_id zs = map (\<lambda>i. ''zd-'' @ show_int i) (map z_id zs)"
    unfolding map_map o_def using r by (intro map_cong) auto
  have "distinct (map z_tracking_id zs)" unfolding track using zdist by (simp add: distinct_map inj_on_def)
  moreover have "z_tracking_id z \<noteq> z_tracking_id y" if "z \<in> set (nd_zalo db)" "y \<in> set zs" for z y
    using that ok zid r by (force simp: rows_ok_def)
  moreover have "z_id z \<noteq> z_id y" if "z \<in> set (nd_zalo db)" "y \<in> set zs" for z y
    using that ok zid by (force simp: rows_ok_def)
  moreover have "z_event_id z \<noteq> nd_event_seq db" if "z \<in> set (nd_zalo db)" for z
    using rows_below_seq(2) [OF ok that] by simp
  moreover have "n_event_id n \<noteq> nd_event_seq db" if "n \<in> set (nd_notifications db)" for n
    using rows_below_seq(1) [OF ok that] by simp
  moreover have "distinct (map (\<lambda>n. (n_event_id n, n_recipient_user_id n)) ns)"
    and "distinct (map (\<lambda>z. (z_event_id z, z_recipient_user_id z)) zs)"
    using nrec r by (simp_all add: distinct_map_pair)
  moreover have "\<forall>z\<in>set zs. \<exists>n\<in>set ns. n_event_id n = z_event_id z \<and> n_recipient_user_id n = z_recipient_user_id z"
    using r by fastforce
  moreover have "\<forall>n\<in>set ns. e_id row = n_event_id n \<and> e_skip_reason_code row = None" using r skipped by force
  ultimately have parts: "distinct (map z_tracking_id (nd_zalo db @ zs))" "distinct (map z_id (nd_zalo db @ zs))"
    "distinct (map (\<lambda>n. (n_event_id n, n_recipient_user_id n)) (nd_notifications db @ ns))"
    "distinct (map (\<lambda>z. (z_event_id z, z_recipient_user_id z)) (nd_zalo db @ zs))"
    "\<forall>n\<in>set (nd_notifications db @ ns). \<exists>e\<in>set (nd_events db @ [row]). e_id e = n_event_id n \<and> e_skip_reason_code e = None"
    "\<forall>z\<in>set (nd_zalo db @ zs). \<exists>n\<in>set (nd_notifications db @ ns).
        n_event_id n = z_event_id z \<and> n_recipient_user_id n = z_recipient_user_id z"
    using ok zdist r unfolding rows_ok_def by (fastforce simp: ball_Un bex_Un)+
  moreover have "distinct (map e_id (nd_events db @ [row]))" "distinct (map event_key (nd_events db @ [row]))"
    "\<forall>e\<in>set (nd_events db @ [row]). e_id e < nd_event_seq db + 1"
    using ok r new by (auto simp: rows_ok_def)
  moreover have "\<forall>z\<in>set (nd_zalo db @ zs). z_id z < nd_zalo_seq db + int (length zs)"
    "\<forall>z\<in>set (nd_zalo db @ zs). z_tracking_id z = ''zd-'' @ show_int (z_id z)"
    using ok r zid by (auto simp: rows_ok_def)
  ultimately show ?thesis unfolding rows_ok_def by (simp add: with_rows_def)
qed

lemma find_user_id: "find_user db i = Some u \<Longrightarrow> u_id u = i"
  unfolding find_user_def by (auto dest: find_key)

lemma distinct_active_recipients: "distinct is \<Longrightarrow> distinct (map u_id (active_recipients db is))"
proof -
  have "map u_id (List.map_filter (find_user db) is) = filter (\<lambda>i. find_user db i \<noteq> None) is" for "is"
    by (induction "is") (auto simp: List.map_filter_simps find_user_id split: option.splits)
  then show "distinct is \<Longrightarrow> ?thesis" by (simp add: active_recipients_def distinct_map_filter)
qed

lemma decision_ok_skip [simp]: "decision_ok (skip r)"
  by (simp add: decision_ok_def skip_def)

lemma decision_ok_to_recipients [simp]: "decision_ok (to_recipients us z) \<longleftrightarrow> distinct (map u_id us)"
  by (auto simp: decision_ok_def to_recipients_def skip_def)

lemma decide_recipients_ok: "settings_ok db \<Longrightarrow> decide_recipients db input mode = Inr d \<Longrightarrow> decision_ok d"
  by (auto simp: decide_recipients_def settings_ok_def distinct_active_recipients split: option.splits if_splits
      NotificationRecipientMode.splits dest!: find_key)

lemma decide_recipients_total:
  "mode = APPROVER \<longrightarrow> ei_approverUserId input \<noteq> None \<Longrightarrow> \<exists>d. decide_recipients db input mode = Inr d"
  by (cases mode) (auto simp: decide_recipients_def split: option.splits)

lemma decideHandover_ok: "settings_ok db \<Longrightarrow> decision_ok (decideHandover db input)"
  by (auto simp: decideHandover_def settings_ok_def distinct_active_recipients split: option.splits dest!: find_key)

definition emit_valid :: "EmitInput \<Rightarrow> bool" where
  "emit_valid input \<longleftrightarrow> (\<exists>mode. notificationEvent (ei_eventCode input) = Some mode \<and>
     (mode = APPROVER \<longrightarrow> ei_approverUserId input \<noteq> None))"

definition handover_valid :: "HandoverEmitInput \<Rightarrow> bool" where
  "handover_valid input \<longleftrightarrow> handoverAlertType (hi_alertTypeCode input) \<noteq> None"

section \<open>The contract of an emitter\<close>

text \<open>What a business transaction relies on when it tells somebody: the call does not fail, keeps the
  tables consistent, takes nothing back and leaves the master data alone.\<close>

locale notice_operation =
  fixes operation :: "note_db \<Rightarrow> 'i \<Rightarrow> (EmitResult \<times> note_db) res" and valid :: "'i \<Rightarrow> bool"
  assumes total: "notes_ok db \<Longrightarrow> valid i \<Longrightarrow> \<exists>r db'. operation db i = Inr (r, db')"
    and keeps: "operation db i = Inr (r, db') \<Longrightarrow> notes_ok db \<Longrightarrow> notes_ok db'"
    and grows: "operation db i = Inr (r, db') \<Longrightarrow> notes_ok db \<Longrightarrow>
      prefix (nd_events db) (nd_events db') \<and> prefix (nd_notifications db) (nd_notifications db') \<and>
      prefix (nd_zalo db) (nd_zalo db')"
    and masters: "operation db i = Inr (r, db') \<Longrightarrow> notes_ok db \<Longrightarrow>
      nd_users db' = nd_users db \<and> nd_departments db' = nd_departments db"
begin

definition tell :: "'i \<Rightarrow> note_db \<Rightarrow> note_db res" where
  "tell i db = bind_res (operation db i) (\<lambda>(r, db'). Inr db')"

lemma tell_Inr: "tell i db = Inr db' \<longleftrightarrow> (\<exists>r. operation db i = Inr (r, db'))"
  by (cases "operation db i") (auto simp: tell_def)

lemma tell_all:
  assumes "notes_ok db" and "list_all valid is"
  shows "\<exists>db'. fold_res tell is db = Inr db' \<and> notes_ok db' \<and> prefix (nd_events db) (nd_events db')"
  using assms
proof (induction "is" arbitrary: db)
  case Nil
  then show ?case by simp
next
  case (Cons i "is")
  then obtain r db1 where 1: "operation db i = Inr (r, db1)" using total by fastforce
  with Cons.prems have "notes_ok db1" "prefix (nd_events db) (nd_events db1)" using keeps grows by blast+
  moreover obtain db' where "fold_res tell is db1 = Inr db'" "notes_ok db'" "prefix (nd_events db1) (nd_events db')"
    using Cons.IH [OF \<open>notes_ok db1\<close>] Cons.prems(2) by auto
  moreover have "tell i db = Inr db1" using 1 by (simp add: tell_def)
  ultimately show ?case using prefix_order.trans by auto
qed

end

text \<open>The two emitters as one write, or nothing.\<close>

lemma emit_effect:
  assumes ok: "notes_ok db" and e: "emit db input = Inr (r, db')"
  shows "r = nothing_written \<and> db' = db \<and> find_same_event db input \<noteq> None \<or>
    (\<exists>row ns zs. db' = with_rows db row ns zs \<and> rows_ok db' \<and>
       er_notificationEventId r = Some (nd_event_seq db) \<and> find_same_event db input = None \<and>
       event_key row = (ei_eventCode input, ei_aggregateTypeCode input, ei_aggregateId input, ei_occurredAt input))"
proof (cases "find_same_event db input")
  case (Some x)
  with e show ?thesis by (auto simp: emit_def split: option.splits)
next
  case None
  obtain mode d where mode: "notificationEvent (ei_eventCode input) = Some mode" and d: "decide_recipients db input mode = Inr d"
    using None e by (auto simp: emit_def res_simps split: option.splits)
  let ?in = "\<lparr>wi_eventCode = ei_eventCode input, wi_aggregateTypeCode = ei_aggregateTypeCode input,
    wi_aggregateId = ei_aggregateId input, wi_occurredAt = ei_occurredAt input, wi_departmentId = ei_departmentId input,
    wi_values = ei_values input, wi_zaloValues = ei_zaloValues input, wi_refs = ei_refs input, wi_priority = EVENT_PRIORITY,
    wi_zaloNotBefore = None, wi_decision = d\<rparr>"
  have dok: "decision_ok (wi_decision ?in)" using decide_recipients_ok [OF _ d] ok by (simp add: notes_ok_def)
  obtain r' row ns zs where w: "write_notice db ?in = Inr (r', with_rows db row ns zs)" "event_rows db ?in row ns zs"
    "er_notificationEventId r' = Some (nd_event_seq db)"
    using write_notice_effect [OF _ dok, of mode] mode by (metis WriteInput.select_convs(1))
  have key: "event_key row = (ei_eventCode input, ei_aggregateTypeCode input, ei_aggregateId input, ei_occurredAt input)"
    using w(2) by (simp add: event_rows_def event_key_def)
  then have "event_key row \<notin> event_key ` set (nd_events db)"
    using None by (auto simp: find_same_event_def find_None_iff event_key_def)
  then have "rows_ok (with_rows db row ns zs)"
    using rows_ok_with_rows [OF _ w(2) dok] ok by (simp add: notes_ok_def)
  moreover have "r = r' \<and> db' = with_rows db row ns zs" using None mode d w(1) e by (simp add: emit_def)
  ultimately show ?thesis using None w(3) key by blast
qed

lemma emit_total:
  assumes "notes_ok db" and "emit_valid input"
  shows "\<exists>r db'. emit db input = Inr (r, db')"
proof (cases "find_same_event db input")
  case (Some e)
  with assms(2) show ?thesis by (auto simp: emit_def emit_valid_def)
next
  case None
  obtain mode where mode: "notificationEvent (ei_eventCode input) = Some mode" "mode = APPROVER \<longrightarrow> ei_approverUserId input \<noteq> None"
    using assms(2) by (auto simp: emit_valid_def)
  obtain d where d: "decide_recipients db input mode = Inr d" using decide_recipients_total [OF mode(2)] by blast
  let ?in = "\<lparr>wi_eventCode = ei_eventCode input, wi_aggregateTypeCode = ei_aggregateTypeCode input,
    wi_aggregateId = ei_aggregateId input, wi_occurredAt = ei_occurredAt input, wi_departmentId = ei_departmentId input,
    wi_values = ei_values input, wi_zaloValues = ei_zaloValues input, wi_refs = ei_refs input, wi_priority = EVENT_PRIORITY,
    wi_zaloNotBefore = None, wi_decision = d\<rparr>"
  have "decision_ok (wi_decision ?in)" using decide_recipients_ok [OF _ d] assms(1) by (simp add: notes_ok_def)
  then obtain r row ns zs where "write_notice db ?in = Inr (r, with_rows db row ns zs)"
    using write_notice_effect [of ?in mode] mode(1) by (metis WriteInput.select_convs(1))
  then show ?thesis using None mode(1) d by (simp add: emit_def)
qed

lemma emitHandover_cases:
  assumes "notes_ok db" and "handover_valid input"
  shows "emitHandover db input = Inr (nothing_written, db) \<and> find_same_handover db input \<noteq> None \<or>
    (\<exists>r row ns zs. emitHandover db input = Inr (r, with_rows db row ns zs) \<and> rows_ok (with_rows db row ns zs) \<and>
       er_notificationEventId r = Some (nd_event_seq db) \<and> find_same_handover db input = None \<and>
       event_key row = (hi_alertTypeCode input, hi_aggregateTypeCode input, hi_aggregateId input, hi_occurredAt input))"
proof (cases "find_same_handover db input")
  case (Some e)
  with assms(2) show ?thesis by (auto simp: emitHandover_def handover_valid_def guarded_def writeHandover_def)
next
  case None
  obtain t where t: "handoverAlertType (hi_alertTypeCode input) = Some t" using assms(2) by (auto simp: handover_valid_def)
  let ?in = "\<lparr>wi_eventCode = hi_alertTypeCode input, wi_aggregateTypeCode = hi_aggregateTypeCode input,
    wi_aggregateId = hi_aggregateId input, wi_occurredAt = hi_occurredAt input, wi_departmentId = None,
    wi_values = hi_values input, wi_zaloValues = [], wi_refs = hi_refs input, wi_priority = HANDOVER_PRIORITY,
    wi_zaloNotBefore = hi_zaloNotBefore input, wi_decision = decideHandover db input\<rparr>"
  have ok: "decision_ok (wi_decision ?in)" using decideHandover_ok assms(1) by (simp add: notes_ok_def)
  obtain r row ns zs where w: "write_notice db ?in = Inr (r, with_rows db row ns zs)" "event_rows db ?in row ns zs"
    "er_notificationEventId r = Some (nd_event_seq db)"
    using write_notice_effect [OF _ ok, of _ t] t by (metis WriteInput.select_convs(1))
  have key: "event_key row = (hi_alertTypeCode input, hi_aggregateTypeCode input, hi_aggregateId input, hi_occurredAt input)"
    using w(2) by (simp add: event_rows_def event_key_def)
  moreover have "event_key row \<notin> event_key ` set (nd_events db)"
    using None key by (auto simp: find_same_handover_def find_None_iff event_key_def)
  then have "rows_ok (with_rows db row ns zs)"
    using rows_ok_with_rows [OF _ w(2) ok] assms(1) by (simp add: notes_ok_def)
  moreover have "emitHandover db input = Inr (r, with_rows db row ns zs)"
    using None t w(1) by (simp add: emitHandover_def guarded_def writeHandover_def)
  ultimately show ?thesis using None w(3) by blast
qed

lemma with_rows_masters [simp]:
  "nd_users (with_rows db row ns zs) = nd_users db" "nd_departments (with_rows db row ns zs) = nd_departments db"
  "settings_ok (with_rows db row ns zs) = settings_ok db"
  "nd_events (with_rows db row ns zs) = nd_events db @ [row]"
  "nd_notifications (with_rows db row ns zs) = nd_notifications db @ ns" "nd_zalo (with_rows db row ns zs) = nd_zalo db @ zs"
  by (simp_all add: with_rows_def settings_ok_def)

lemma emitHandover_effect:
  assumes "notes_ok db" and "emitHandover db input = Inr (r, db')"
  shows "r = nothing_written \<and> db' = db \<and> find_same_handover db input \<noteq> None \<or>
    (\<exists>row ns zs. db' = with_rows db row ns zs \<and> rows_ok db' \<and> find_same_handover db input = None \<and>
       event_key row = (hi_alertTypeCode input, hi_aggregateTypeCode input, hi_aggregateId input, hi_occurredAt input))"
proof -
  have "handover_valid input" using assms(2) by (auto simp: emitHandover_def handover_valid_def split: option.splits)
  from emitHandover_cases [OF assms(1) this] assms(2) show ?thesis by auto
qed

interpretation emitter: notice_operation emit emit_valid
proof (unfold_locales)
  fix db db' :: note_db and i r
  show "notes_ok db \<Longrightarrow> emit_valid i \<Longrightarrow> \<exists>r db'. emit db i = Inr (r, db')" by (rule emit_total)
  assume e: "emit db i = Inr (r, db')" and ok: "notes_ok db"
  note effect = emit_effect [OF ok e]
  show "notes_ok db'" using effect ok by (auto simp: notes_ok_def)
  show "prefix (nd_events db) (nd_events db') \<and> prefix (nd_notifications db) (nd_notifications db') \<and>
      prefix (nd_zalo db) (nd_zalo db')" using effect by auto
  show "nd_users db' = nd_users db \<and> nd_departments db' = nd_departments db" using effect by auto
qed

interpretation handover: notice_operation emitHandover handover_valid
proof (unfold_locales)
  fix db db' :: note_db and i r
  show "notes_ok db \<Longrightarrow> handover_valid i \<Longrightarrow> \<exists>r db'. emitHandover db i = Inr (r, db')"
    by (auto simp: emitHandover_def handover_valid_def)
  assume e: "emitHandover db i = Inr (r, db')" and ok: "notes_ok db"
  note effect = emitHandover_effect [OF ok e]
  show "notes_ok db'" using effect ok by (auto simp: notes_ok_def)
  show "prefix (nd_events db) (nd_events db') \<and> prefix (nd_notifications db) (nd_notifications db') \<and>
      prefix (nd_zalo db) (nd_zalo db')" using effect by auto
  show "nd_users db' = nd_users db \<and> nd_departments db' = nd_departments db" using effect by auto
qed

section \<open>Properties\<close>

inductive note_run :: "note_db \<Rightarrow> note_db \<Rightarrow> bool" where
  start: "note_run db db"
| emitted: "note_run db db' \<Longrightarrow> emit db' input = Inr (r, db'') \<Longrightarrow> note_run db db''"
| handed_over: "note_run db db' \<Longrightarrow> emitHandover db' hinput = Inr (r, db'') \<Longrightarrow> note_run db db''"

lemma note_run_ok: "note_run db db' \<Longrightarrow> notes_ok db \<Longrightarrow> notes_ok db'"
  by (induction rule: note_run.induct) (auto intro: emitter.keeps handover.keeps)

text \<open>C38. From empty tables, after any sequence of events and handover alerts, every Zalo delivery goes to a
  recipient whose notification centre has the notification of the same event, that event was not skipped,
  no recipient has two notifications or two deliveries of one event, and tracking ids are unique.\<close>
theorem deliveries_follow_notifications:
  assumes "note_run db db'" and "settings_ok db"
    and "nd_events db = []" and "nd_notifications db = []" and "nd_zalo db = []"
  shows "(\<forall>z\<in>set (nd_zalo db'). \<exists>n\<in>set (nd_notifications db'). \<exists>e\<in>set (nd_events db').
      n_event_id n = z_event_id z \<and> n_recipient_user_id n = z_recipient_user_id z \<and>
      e_id e = n_event_id n \<and> e_skip_reason_code e = None) \<and>
    distinct (map (\<lambda>n. (n_event_id n, n_recipient_user_id n)) (nd_notifications db')) \<and>
    distinct (map (\<lambda>z. (z_event_id z, z_recipient_user_id z)) (nd_zalo db')) \<and>
    distinct (map z_tracking_id (nd_zalo db'))"
proof -
  have "notes_ok db" using assms(2-5) by (simp add: notes_ok_def rows_ok_def)
  with assms(1) have "rows_ok db'" using note_run_ok by (auto simp: notes_ok_def)
  then show ?thesis unfolding rows_ok_def by metis
qed

text \<open>Telling never fails the business transaction and happens once: a known event is accepted and from then
  on the same event (type, document, time) writes nothing; a known handover alert is accepted and from
  then on the same alert for the same document writes nothing, whatever its time.\<close>
lemma told_once:
  assumes "notes_ok db"
  shows "(emit_valid i \<longrightarrow> (\<exists>r db1. emit db i = Inr (r, db1) \<and>
      (\<forall>j. emit_valid j \<and> ei_eventCode j = ei_eventCode i \<and> ei_aggregateTypeCode j = ei_aggregateTypeCode i \<and>
         ei_aggregateId j = ei_aggregateId i \<and> ei_occurredAt j = ei_occurredAt i \<longrightarrow>
         emit db1 j = Inr (nothing_written, db1)))) \<and>
    (handover_valid h \<longrightarrow> (\<exists>r db1. emitHandover db h = Inr (r, db1) \<and>
      (\<forall>k. hi_alertTypeCode k = hi_alertTypeCode h \<and> hi_aggregateTypeCode k = hi_aggregateTypeCode h \<and>
         hi_aggregateId k = hi_aggregateId h \<longrightarrow> emitHandover db1 k = Inr (nothing_written, db1))))"
proof (intro conjI impI)
  assume "emit_valid i"
  then obtain r db1 where e: "emit db i = Inr (r, db1)" using emitter.total [OF assms] by blast
  have "emit db1 j = Inr (nothing_written, db1)"
    if j: "emit_valid j" "ei_eventCode j = ei_eventCode i" "ei_aggregateTypeCode j = ei_aggregateTypeCode i"
      "ei_aggregateId j = ei_aggregateId i" "ei_occurredAt j = ei_occurredAt i" for j
  proof -
    have "find_same_event db1 j \<noteq> None"
      using emit_effect [OF assms e] j(2-5) by (auto simp: find_same_event_def find_None_iff event_key_def)
    then show ?thesis using j(1) by (auto simp: emit_def emit_valid_def)
  qed
  with e show "\<exists>r db1. emit db i = Inr (r, db1) \<and>
      (\<forall>j. emit_valid j \<and> ei_eventCode j = ei_eventCode i \<and> ei_aggregateTypeCode j = ei_aggregateTypeCode i \<and>
         ei_aggregateId j = ei_aggregateId i \<and> ei_occurredAt j = ei_occurredAt i \<longrightarrow>
         emit db1 j = Inr (nothing_written, db1))" by blast
next
  assume v: "handover_valid h"
  then obtain r db1 where e: "emitHandover db h = Inr (r, db1)" using handover.total [OF assms] by blast
  have "emitHandover db1 k = Inr (nothing_written, db1)"
    if k: "hi_alertTypeCode k = hi_alertTypeCode h" "hi_aggregateTypeCode k = hi_aggregateTypeCode h"
      "hi_aggregateId k = hi_aggregateId h" for k
  proof -
    have "find_same_handover db1 k \<noteq> None"
      using emitHandover_effect [OF assms e] k by (auto simp: find_same_handover_def find_None_iff event_key_def)
    then show ?thesis using k(1) v by (auto simp: emitHandover_def handover_valid_def guarded_def writeHandover_def)
  qed
  with e show "\<exists>r db1. emitHandover db h = Inr (r, db1) \<and>
      (\<forall>k. hi_alertTypeCode k = hi_alertTypeCode h \<and> hi_aggregateTypeCode k = hi_aggregateTypeCode h \<and>
         hi_aggregateId k = hi_aggregateId h \<longrightarrow> emitHandover db1 k = Inr (nothing_written, db1))" by blast
qed

definition demo_notes :: note_db where
  "demo_notes =
     \<lparr>nd_users = [\<lparr>u_id = 7, u_name = ''Lan'', u_is_active = True, u_phone_number = Some ''84900000007'', u_department_id = Some 3\<rparr>,
                  \<lparr>u_id = 8, u_name = ''Minh'', u_is_active = True, u_phone_number = None, u_department_id = Some 3\<rparr>],
      nd_departments = [\<lparr>d_id = 3, d_is_active = True\<rparr>],
      nd_department_settings = [\<lparr>s_key = (3, ''WORK_ORDER_CLOSED''), s_is_enabled = True, s_zalo_enabled = True, s_recipients = [7, 8]\<rparr>],
      nd_handover_settings = [], nd_param_max_length = None, nd_events = [], nd_notifications = [], nd_zalo = [],
      nd_event_seq = 1, nd_zalo_seq = 1\<rparr>"

definition demo_event :: EmitInput where
  "demo_event =
     \<lparr>ei_eventCode = ''WORK_ORDER_CLOSED'', ei_aggregateTypeCode = ''WORK_ORDER'', ei_aggregateId = 5, ei_occurredAt = 0,
      ei_departmentId = Some 3, ei_approverUserId = None, ei_optOut = False,
      ei_values = [(''wo_no'', VStr ''WO-1'')], ei_zaloValues = [], ei_refs = []\<rparr>"

lemma demo_emit:
  obtains r db' where "emit demo_notes demo_event = Inr (r, db')" and "map n_recipient_user_id (nd_notifications db') = [7, 8]"
    and "map z_recipient_user_id (nd_zalo db') = [7]"
proof -
  have "(case emit demo_notes demo_event of Inl e \<Rightarrow> False | Inr (r, db') \<Rightarrow>
      map n_recipient_user_id (nd_notifications db') = [7, 8] \<and> map z_recipient_user_id (nd_zalo db') = [7])"
    by code_simp
  then show ?thesis using that by (auto split: sum.splits)
qed

theorem deliveries_follow_notifications_witness:
  "\<exists>db'. map z_recipient_user_id (nd_zalo db') = [7] \<and> note_run demo_notes db' \<and>
    distinct (map (\<lambda>z. (z_event_id z, z_recipient_user_id z)) (nd_zalo db'))"
proof -
  obtain r db' where e: "emit demo_notes demo_event = Inr (r, db')"
    "map n_recipient_user_id (nd_notifications db') = [7, 8]" "map z_recipient_user_id (nd_zalo db') = [7]"
    by (rule demo_emit)
  have run: "note_run demo_notes db'" by (rule emitted [OF start e(1)])
  have "settings_ok demo_notes" "nd_events demo_notes = []" "nd_notifications demo_notes = []" "nd_zalo demo_notes = []"
    by (simp_all add: demo_notes_def settings_ok_def)
  then have "distinct (map (\<lambda>z. (z_event_id z, z_recipient_user_id z)) (nd_zalo db'))"
    using deliveries_follow_notifications [OF run] by simp
  with e(3) run show ?thesis by (intro exI conjI)
qed

lemma told_once_example:
  "\<exists>r db1. emit demo_notes demo_event = Inr (r, db1) \<and> emit db1 (demo_event\<lparr>ei_values := []\<rparr>) = Inr (nothing_written, db1)"
proof -
  have ok: "notes_ok demo_notes" by (simp add: demo_notes_def notes_ok_def settings_ok_def rows_ok_def)
  have v: "emit_valid demo_event" "emit_valid (demo_event\<lparr>ei_values := []\<rparr>)"
    by (simp_all add: emit_valid_def demo_event_def notificationEvent_def NOTIFICATION_EVENTS_def)
  show ?thesis using conjunct1 [OF told_once [OF ok, of demo_event undefined]] v by fastforce
qed

end
