(* ===== verification/Contract_Registry.thy ===== *)
theory Contract_Registry
  imports Js_Strings Api_Errors "HOL-Library.Char_ord" "HOL-Library.List_Lexorder"
begin

text \<open>
  \<open>src/common/contract/contract-registry.ts\<close>: the operations of the contract files, by
  \<open>METHOD /path\<close>. Of a document the model keeps the paths with their methods and the \<open>$ref\<close> of each
  parameter, which is what the request guards read; schemas are left out. Reading the directory and
  parsing the files is a parameter: \<open>load\<close> gets the file names with their parsed documents.
\<close>

section \<open>Documents and operations\<close>

text \<open>A parameter is its \<open>$ref\<close>, or nothing where it is written in place.\<close>

record path_item =
  pi_parameters :: "string option list"
  pi_operations :: "(string \<times> string option list) list"

type_synonym OpenApiDocument = "(string \<times> path_item) list"

record ContractOperation =
  co_key :: string
  co_method :: string
  co_path :: string
  co_source :: string
  co_parameters :: "string option list"
  co_document :: OpenApiDocument
  co_pointer :: string

definition METHODS :: "string list" where
  "METHODS = [''get'', ''post'', ''put'', ''patch'', ''delete'']"

text \<open>The two global replacements of \<open>jsonPointerToken\<close>, one after the other.\<close>

definition replace_char :: "char \<Rightarrow> string \<Rightarrow> string \<Rightarrow> string" where
  "replace_char c t s = concat (map (\<lambda>x. if x = c then t else [x]) s)"

definition jsonPointerToken :: "string \<Rightarrow> string" where
  "jsonPointerToken v = replace_char (CHR ''/'') ''~1'' (replace_char (CHR ''~'') ''~0'' v)"

definition toUpperCase :: "string \<Rightarrow> string" where
  "toUpperCase s = map to_upper s"

definition operation_key :: "string \<Rightarrow> string \<Rightarrow> string" where
  "operation_key meth path = toUpperCase meth @ '' '' @ path"

section \<open>Loading\<close>

text \<open>The registry is the JavaScript \<open>Map\<close>: its entries in insertion order.\<close>

type_synonym registry = "(string \<times> ContractOperation) list"

definition add_operation :: "string \<Rightarrow> OpenApiDocument \<Rightarrow> string \<times> path_item \<Rightarrow> string \<Rightarrow> registry \<Rightarrow> registry res" where
  "add_operation file document item meth operations =
     (case map_of (pi_operations (snd item)) meth of
        None \<Rightarrow> Inr operations
      | Some parameters \<Rightarrow>
          (let key = operation_key meth (fst item) in
           case map_of operations key of
             Some existing \<Rightarrow> Inl InternalError
           | None \<Rightarrow> Inr (operations @ [(key,
               \<lparr>co_key = key, co_method = toUpperCase meth, co_path = fst item, co_source = file,
                co_parameters = parameters, co_document = document,
                co_pointer = ''/paths/'' @ jsonPointerToken (fst item) @ ''/'' @ meth\<rparr>)])))"

definition add_document :: "string \<times> OpenApiDocument \<Rightarrow> registry \<Rightarrow> registry res" where
  "add_document d = fold_res (\<lambda>item. fold_res (add_operation (fst d) (snd d) item) METHODS) (snd d)"

definition load :: "(string \<times> OpenApiDocument) list \<Rightarrow> registry res" where
  "load dir =
     (let files = sort_key fst (filter (\<lambda>d. suffix ''.json'' (fst d)) dir) in
      if files = [] then Inl InternalError else fold_res add_document files [])"

definition get_operation :: "registry \<Rightarrow> string \<Rightarrow> ContractOperation option" where
  "get_operation registry key = map_of registry key"

definition has_operation :: "registry \<Rightarrow> string \<Rightarrow> bool" where
  "has_operation registry key = (get_operation registry key \<noteq> None)"

definition operation_keys :: "registry \<Rightarrow> string list" where
  "operation_keys registry = map fst registry"

definition registry_size :: "registry \<Rightarrow> nat" where
  "registry_size registry = length registry"

section \<open>Pointer tokens\<close>

text \<open>Reading a token back, as RFC 6901 does: the two escapes from left to right.\<close>

fun unescape :: "string \<Rightarrow> string" where
  "unescape [] = []"
| "unescape [c] = [c]"
| "unescape (c # d # s) =
     (if c = CHR ''~'' \<and> d = CHR ''1'' then CHR ''/'' # unescape s
      else if c = CHR ''~'' \<and> d = CHR ''0'' then CHR ''~'' # unescape s
      else c # unescape (d # s))"

lemma jsonPointerToken_Cons:
  "jsonPointerToken (c # s) =
     (if c = CHR ''~'' then ''~0'' else if c = CHR ''/'' then ''~1'' else [c]) @ jsonPointerToken s"
  by (simp add: jsonPointerToken_def replace_char_def)

lemma unescape_token: "unescape (jsonPointerToken s) = s"
proof (induction s)
  case Nil
  then show ?case by (simp add: jsonPointerToken_def replace_char_def)
next
  case (Cons c s)
  have "unescape (c # t) = c # unescape t" if "c \<noteq> CHR ''~''" for t
    using that by (cases t) auto
  with Cons show ?case by (auto simp: jsonPointerToken_Cons)
qed

lemma token_without_slash: "CHR ''/'' \<notin> set (jsonPointerToken s)"
  by (induction s) (auto simp: jsonPointerToken_Cons, simp add: jsonPointerToken_def replace_char_def)

section \<open>What a loaded registry holds\<close>

definition registry_ok :: "registry \<Rightarrow> bool" where
  "registry_ok r \<longleftrightarrow> distinct (map fst r) \<and>
     (\<forall>(k, o') \<in> set r. co_key o' = k \<and> k = co_method o' @ '' '' @ co_path o' \<and>
        (\<exists>item m. (co_path o', item) \<in> set (co_document o') \<and> m \<in> set METHODS \<and> co_method o' = toUpperCase m \<and>
           map_of (pi_operations item) m = Some (co_parameters o') \<and>
           co_pointer o' = ''/paths/'' @ jsonPointerToken (co_path o') @ ''/'' @ m))"

text \<open>The operation of a document's path item is in the registry, with its document and parameters.\<close>

definition entered :: "OpenApiDocument \<Rightarrow> string \<times> path_item \<Rightarrow> string \<Rightarrow> registry \<Rightarrow> bool" where
  "entered doc item m r \<longleftrightarrow>
     (map_of (pi_operations (snd item)) m \<noteq> None \<longrightarrow>
       (\<exists>o'. (operation_key m (fst item), o') \<in> set r \<and> co_document o' = doc \<and> co_path o' = fst item \<and>
          map_of (pi_operations (snd item)) m = Some (co_parameters o')))"

lemma entered_mono: "entered doc item m r \<Longrightarrow> set r \<subseteq> set r' \<Longrightarrow> entered doc item m r'"
  unfolding entered_def by blast

lemma add_operation_ok:
  assumes "add_operation file doc item m r = Inr r'" and "registry_ok r" and "item \<in> set doc" and "m \<in> set METHODS"
  shows "registry_ok r' \<and> set r \<subseteq> set r' \<and> entered doc item m r'"
proof (cases "map_of (pi_operations (snd item)) m")
  case None
  with assms(1,2) show ?thesis by (simp add: add_operation_def entered_def)
next
  case (Some ps)
  let ?o = "\<lparr>co_key = operation_key m (fst item), co_method = toUpperCase m, co_path = fst item, co_source = file,
    co_parameters = ps, co_document = doc, co_pointer = ''/paths/'' @ jsonPointerToken (fst item) @ ''/'' @ m\<rparr>"
  from assms(1) Some have new: "map_of r (operation_key m (fst item)) = None"
    and r': "r' = r @ [(operation_key m (fst item), ?o)]"
    by (auto simp: add_operation_def Let_def split: option.splits)
  have "\<exists>it m'. (fst item, it) \<in> set doc \<and> m' \<in> set METHODS \<and> toUpperCase m = toUpperCase m' \<and>
      map_of (pi_operations it) m' = Some ps \<and>
      ''/paths/'' @ jsonPointerToken (fst item) @ ''/'' @ m = ''/paths/'' @ jsonPointerToken (fst item) @ ''/'' @ m'"
    using Some assms(3,4) by (intro exI [of _ "snd item"] exI [of _ m]) auto
  with new assms(2) show ?thesis
    using Some by (auto simp: r' registry_ok_def map_of_eq_None_iff operation_key_def entered_def)
qed

definition covers :: "OpenApiDocument \<Rightarrow> registry \<Rightarrow> bool" where
  "covers doc r \<longleftrightarrow> (\<forall>item \<in> set doc. \<forall>m \<in> set METHODS. entered doc item m r)"

lemma add_methods_ok:
  assumes "fold_res (add_operation file doc item) ms r = Inr r'" and "registry_ok r" and "item \<in> set doc" and "set ms \<subseteq> set METHODS"
  shows "registry_ok r' \<and> set r \<subseteq> set r' \<and> (\<forall>m\<in>set ms. entered doc item m r')"
  using assms(1,2,4)
proof (induction ms arbitrary: r)
  case Nil
  then show ?case by simp
next
  case (Cons m ms)
  from Cons.prems(1) obtain u where u: "add_operation file doc item m r = Inr u" "fold_res (add_operation file doc item) ms u = Inr r'"
    by (auto simp: res_simps)
  have "m \<in> set METHODS" using Cons.prems(3) by simp
  note 1 = add_operation_ok [OF u(1) Cons.prems(2) assms(3) this]
  have "registry_ok u" using 1 by blast
  note 2 = Cons.IH [OF u(2) this]
  have rest: "registry_ok r' \<and> set u \<subseteq> set r' \<and> (\<forall>m\<in>set ms. entered doc item m r')"
    using 2 Cons.prems(3) by simp
  then have "entered doc item m r'" using 1 entered_mono by blast
  with 1 rest show ?case by auto
qed

lemma add_document_ok:
  assumes "add_document d r = Inr r'" and "registry_ok r"
  shows "registry_ok r' \<and> set r \<subseteq> set r' \<and> covers (snd d) r'"
proof -
  let ?f = "\<lambda>item. fold_res (add_operation (fst d) (snd d) item) METHODS"
  have keep: "registry_ok v \<and> set u \<subseteq> set v" if "fold_res ?f items u = Inr v" "registry_ok u" "set items \<subseteq> set (snd d)" for items u v
  proof (rule fold_res_invariant [OF that(1)])
    show "registry_ok u \<and> set u \<subseteq> set u" using that(2) by simp
    fix item u' v'
    assume "item \<in> set items" "?f item u' = Inr v'" and u': "registry_ok u' \<and> set u \<subseteq> set u'"
    then have "registry_ok v' \<and> set u' \<subseteq> set v'" using add_methods_ok [of _ _ _ METHODS u' v'] that(3) by blast
    with u' show "registry_ok v' \<and> set u \<subseteq> set v'" by blast
  qed
  have run: "fold_res ?f (snd d) r = Inr r'" using assms(1) by (simp add: add_document_def)
  have "entered (snd d) item m r'" if p: "item \<in> set (snd d)" and m: "m \<in> set METHODS" for item m
  proof -
    obtain u v pre post where v: "fold_res ?f pre r = Inr u" "?f item u = Inr v" "fold_res ?f post v = Inr r'"
      "set pre \<subseteq> set (snd d)" "set post \<subseteq> set (snd d)"
      by (rule fold_res_visits [OF run p])
    have "registry_ok u" using keep [OF v(1) assms(2) v(4)] by simp
    note one = add_methods_ok [OF v(2) this p subset_refl]
    then have "set v \<subseteq> set r'" using keep [OF v(3) _ v(5)] by blast
    with one m show ?thesis using entered_mono by blast
  qed
  then show ?thesis using keep [OF run assms(2)] by (auto simp: covers_def)
qed

lemma load_ok:
  assumes "load dir = Inr r"
  shows "registry_ok r \<and> (\<forall>d\<in>set dir. suffix ''.json'' (fst d) \<longrightarrow> covers (snd d) r)"
proof -
  let ?files = "sort_key fst (filter (\<lambda>d. suffix ''.json'' (fst d)) dir)"
  have run: "fold_res add_document ?files [] = Inr r"
    using assms by (auto simp: load_def Let_def split: if_splits)
  have keep: "registry_ok v \<and> set u \<subseteq> set v" if "fold_res add_document ds u = Inr v" "registry_ok u" for ds u v
  proof (rule fold_res_invariant [OF that(1)])
    show "registry_ok u \<and> set u \<subseteq> set u" using that(2) by simp
    fix d u' v'
    assume "add_document d u' = Inr v'" and u': "registry_ok u' \<and> set u \<subseteq> set u'"
    with add_document_ok [of d u' v'] show "registry_ok v' \<and> set u \<subseteq> set v'"
      by (meson subset_trans)
  qed
  have start: "registry_ok []" by (simp add: registry_ok_def)
  have "covers (snd d) r" if "d \<in> set dir" "suffix ''.json'' (fst d)" for d
  proof -
    have "d \<in> set ?files" using that by simp
    then obtain u v pre post where v: "fold_res add_document pre [] = Inr u" "add_document d u = Inr v"
      "fold_res add_document post v = Inr r" "set pre \<subseteq> set ?files" "set post \<subseteq> set ?files"
      by (rule fold_res_visits [OF run])
    have one: "registry_ok v \<and> covers (snd d) v" using add_document_ok [OF v(2)] keep [OF v(1) start] by blast
    have "set v \<subseteq> set r" using keep [OF v(3)] one by blast
    with one show ?thesis unfolding covers_def using entered_mono by blast
  qed
  then show ?thesis using keep [OF run start] by blast
qed

end
