(* ===== verification/Request_Guards.thy ===== *)
theory Request_Guards
  imports Contract_Registry
begin

text \<open>
  The two headers every write request may need: \<open>src/common/idempotency/idempotency.guard.ts\<close> and
  \<open>src/common/optimistic-lock/\<close>. Which operation needs which header is what its contract declares.
\<close>

section \<open>Headers\<close>

text \<open>\<open>request.headers[name]\<close>: absent, a text, or a list of texts.\<close>

datatype header_value = NoHeader | OneHeader string | HeaderList "string list"

definition first_header :: "header_value \<Rightarrow> string option" where
  "first_header h =
     (case h of NoHeader \<Rightarrow> None | OneHeader s \<Rightarrow> Some s | HeaderList ss \<Rightarrow> (case ss of [] \<Rightarrow> None | s # _ \<Rightarrow> Some s))"

text \<open>\<open>if (!header)\<close> holds also for the empty text.\<close>

definition present_header :: "header_value \<Rightarrow> string option" where
  "present_header h = (case first_header h of None \<Rightarrow> None | Some s \<Rightarrow> if s = [] then None else Some s)"

section \<open>What the contract declares\<close>

definition declared_refs :: "ContractOperation \<Rightarrow> string option list" where
  "declared_refs e =
     (case map_of (co_document e) (co_path e) of None \<Rightarrow> [] | Some pathItem \<Rightarrow> pi_parameters pathItem) @ co_parameters e"

definition declares :: "ContractOperation \<Rightarrow> string \<Rightarrow> bool" where
  "declares e suf = list_ex (\<lambda>ref. case ref of None \<Rightarrow> False | Some s \<Rightarrow> suffix suf s) (declared_refs e)"

section \<open>The idempotency guard\<close>

definition is_hex :: "char \<Rightarrow> bool" where
  "is_hex c \<longleftrightarrow> c \<in> set ''0123456789abcdefABCDEF''"

definition is_uuid :: "string \<Rightarrow> bool" where
  "is_uuid s \<longleftrightarrow> length s = 36 \<and>
     list_all (\<lambda>i. if i \<in> {8, 13, 18, 23} then s ! i = CHR ''-'' else is_hex (s ! i)) [0..<36]"

definition requiresIdempotency :: "registry \<Rightarrow> string \<Rightarrow> bool" where
  "requiresIdempotency registry key =
     (case get_operation registry key of None \<Rightarrow> False | Some e \<Rightarrow> declares e ''/IdempotencyKey'')"

definition idempotency_guard :: "registry \<Rightarrow> string option \<Rightarrow> header_value \<Rightarrow> bool res" where
  "idempotency_guard registry operation header =
     (case operation of
        None \<Rightarrow> Inr True
      | Some key \<Rightarrow>
          if \<not> requiresIdempotency registry key then Inr True
          else case present_header header of
            None \<Rightarrow> Inl (ContractException BAD_REQUEST [screen_item ''REQUIRED''] [])
          | Some s \<Rightarrow> if is_uuid s then Inr True else Inl (ContractException BAD_REQUEST [screen_item ''INVALID''] []))"

section \<open>Versions in headers\<close>

definition MAX_SAFE_INTEGER :: nat where
  "MAX_SAFE_INTEGER = 2 ^ 53 - 1"

definition setEtag :: "nat \<Rightarrow> string" where
  "setEtag versionNo = show_nat versionNo"

abbreviation quote_char :: char where
  "quote_char \<equiv> CHR 0x22"

definition digits_only :: "string \<Rightarrow> bool" where
  "digits_only s \<longleftrightarrow> s \<noteq> [] \<and> list_all is_digit s"

definition strip_weak :: "string \<Rightarrow> string" where
  "strip_weak s = (if take 2 s \<in> {''W/'', ''w/''} then drop 2 s else s)"

text \<open>\<open>/^(?:"(\d+)"|(\d+))$/\<close>, the matched digits.\<close>

definition unquote :: "string \<Rightarrow> string option" where
  "unquote s =
     (if digits_only s then Some s
      else if 2 \<le> length s \<and> hd s = quote_char \<and> last s = quote_char \<and> digits_only (butlast (tl s))
      then Some (butlast (tl s)) else None)"

definition parseIfMatch :: "string \<Rightarrow> nat option" where
  "parseIfMatch raw =
     (case unquote (strip_weak (trim raw)) of
        None \<Rightarrow> None
      | Some digits \<Rightarrow>
          (let parsed = read_nat digits in if parsed \<le> MAX_SAFE_INTEGER \<and> 0 < parsed then Some parsed else None))"

text \<open>\<open>assertUpdated\<close>: a conditional update that hit no row lost a race.\<close>

definition assertUpdated :: "nat \<Rightarrow> ConflictCause \<Rightarrow> ConflictExtra \<Rightarrow> unit res" where
  "assertUpdated affectedRows cause extra = (if affectedRows = 0 then Inl (ConflictException cause extra) else Inr ())"

section \<open>The optimistic lock guard\<close>

datatype Requirement = Required | Optional | NotRequired

definition lock_requirement :: "registry \<Rightarrow> string \<Rightarrow> Requirement" where
  "lock_requirement registry key =
     (case get_operation registry key of
        None \<Rightarrow> NotRequired
      | Some e \<Rightarrow>
          if declares e ''/IfMatchVersion'' then Required
          else if declares e ''/IfMatchVersionOptional'' then Optional else NotRequired)"

text \<open>The result is what \<open>rememberIfMatch\<close> stored for the handler.\<close>

definition optimistic_lock_guard :: "registry \<Rightarrow> string option \<Rightarrow> header_value \<Rightarrow> nat option res" where
  "optimistic_lock_guard registry operation header =
     (case operation of
        None \<Rightarrow> Inr None
      | Some key \<Rightarrow>
          (let requirement = lock_requirement registry key in
           if requirement = NotRequired then Inr None
           else case present_header header of
             None \<Rightarrow> if requirement = Optional then Inr None
                     else Inl (ContractException BAD_REQUEST [screen_item ''REQUIRED''] [])
           | Some s \<Rightarrow>
               (case parseIfMatch s of
                  None \<Rightarrow> Inl (ContractException BAD_REQUEST [screen_item ''INVALID''] [])
                | Some version \<Rightarrow> Inr (Some version))))"

section \<open>Reading back an ETag\<close>

lemma digits_only_show [simp]: "digits_only (show_nat n)"
  by (simp add: digits_only_def show_nat_digits)

text \<open>A version in the four forms a client or a proxy sends: bare or quoted, with or without \<open>W/\<close>.\<close>

definition etag_forms :: "nat \<Rightarrow> string list" where
  "etag_forms v = [setEtag v, quote_char # setEtag v @ [quote_char], ''W/'' @ setEtag v,
     ''W/'' @ quote_char # setEtag v @ [quote_char]]"

lemma unquote_forms: "unquote (show_nat v) = Some (show_nat v)" "unquote (quote_char # show_nat v @ [quote_char]) = Some (show_nat v)"
proof -
  show "unquote (show_nat v) = Some (show_nat v)" by (simp add: unquote_def)
  have "\<not> is_digit quote_char" by code_simp
  then have "\<not> digits_only (quote_char # show_nat v @ [quote_char])" by (simp add: digits_only_def)
  then show "unquote (quote_char # show_nat v @ [quote_char]) = Some (show_nat v)"
    by (simp add: unquote_def butlast_append)
qed

lemma strip_weak_digits: "digits_only s \<Longrightarrow> strip_weak s = s"
  by (cases s) (auto simp: strip_weak_def digits_only_def is_digit_def)

lemma parse_form:
  assumes "s \<in> set (etag_forms v)" and "0 < v" and "v \<le> MAX_SAFE_INTEGER"
  shows "parseIfMatch s = Some v" and "s \<noteq> []"
proof -
  have "list_all (\<lambda>c. \<not> is_space c) (show_nat v)"
    using show_nat_digits [of v] is_digit_not_space by (auto simp: list_all_iff)
  moreover have "\<not> is_space quote_char" "\<not> is_space (CHR ''W'')" "\<not> is_space (CHR ''/'')" by code_simp+
  ultimately have "list_all (\<lambda>c. \<not> is_space c) s" using assms(1) by (auto simp: etag_forms_def setEtag_def)
  then have trim: "trim s = s" by (rule trim_no_space)
  have "unquote (strip_weak s) = Some (show_nat v)"
    using assms(1) strip_weak_digits [OF digits_only_show, of v]
    by (auto simp: etag_forms_def setEtag_def unquote_forms strip_weak_def)
  then show "parseIfMatch s = Some v" using assms(2,3) by (simp add: parseIfMatch_def trim Let_def)
  show "s \<noteq> []" using assms(1) show_nat_not_Nil [of v] by (auto simp: etag_forms_def setEtag_def simp del: show_nat_not_Nil)
qed

lemma guard_version:
  "optimistic_lock_guard r (Some k) h = Inr (Some v) \<Longrightarrow> 0 < v \<and> v \<le> MAX_SAFE_INTEGER"
  by (auto simp: optimistic_lock_guard_def parseIfMatch_def Let_def split: option.splits if_splits)

section \<open>What the contract declares is enforced\<close>

lemma loaded_operation:
  assumes "load dir = Inr r" and "(file, doc) \<in> set dir" and "suffix ''.json'' file" and "distinct (map fst doc)"
    and "(path, item) \<in> set doc" and "m \<in> set METHODS" and "map_of (pi_operations item) m = Some ps"
  shows "\<exists>e. get_operation r (operation_key m path) = Some e \<and> declared_refs e = pi_parameters item @ ps"
proof -
  have ok: "registry_ok r" and "covers doc r" using load_ok [OF assms(1)] assms(2,3) by auto
  then have "entered doc (path, item) m r" using assms(5,6) unfolding covers_def by fast
  then obtain e where e: "(operation_key m path, e) \<in> set r" "co_document e = doc" "co_path e = path" "co_parameters e = ps"
    using assms(7) by (auto simp: entered_def)
  moreover have "map_of doc path = Some item" using assms(4,5) by simp
  ultimately show ?thesis using ok by (auto simp: registry_ok_def get_operation_def declared_refs_def)
qed

section \<open>Properties\<close>

text \<open>C40. A version survives the round trip through the \<open>ETag\<close> and the \<open>If-Match\<close> header: where the contract asks for
  it, the guard hands the handler exactly the version the response was written with, whether or not the
  client or a proxy quoted it or marked it weak; and a handler never sees a version that is not a positive
  safe integer.\<close>
theorem if_match_roundtrip:
  assumes "lock_requirement r k \<noteq> NotRequired" and "0 < v" and "v \<le> MAX_SAFE_INTEGER"
  shows "list_all (\<lambda>s. optimistic_lock_guard r (Some k) (OneHeader s) = Inr (Some v)) (etag_forms v) \<and>
    (optimistic_lock_guard r (Some k) h = Inr (Some w) \<longrightarrow> 0 < w \<and> w \<le> MAX_SAFE_INTEGER)"
  using assms guard_version [of r k h w] parse_form [OF _ assms(2,3)]
  by (auto simp: list_all_iff optimistic_lock_guard_def present_header_def first_header_def)

text \<open>C39. What a contract file declares is enforced, wherever it declares it. For every operation of a
  loaded document whose path item or operation refers to the idempotency key, a request passes the guard
  exactly with a UUID in that header; for one that refers to the mandatory version, a request passes only
  with a version, which the handler then has.\<close>
theorem declared_headers_enforced:
  assumes "load dir = Inr r" and "(file, doc) \<in> set dir" and "suffix ''.json'' file" and "distinct (map fst doc)"
    and "(path, item) \<in> set doc" and "m \<in> set METHODS" and "map_of (pi_operations item) m = Some ps"
    and "Some ref \<in> set (pi_parameters item @ ps)"
  shows "(suffix ''/IdempotencyKey'' ref \<longrightarrow>
      (idempotency_guard r (Some (operation_key m path)) h = Inr True \<longleftrightarrow> (\<exists>s. present_header h = Some s \<and> is_uuid s))) \<and>
    (suffix ''/IfMatchVersion'' ref \<longrightarrow> optimistic_lock_guard r (Some (operation_key m path)) h = Inr remembered \<longrightarrow>
      (\<exists>s v. present_header h = Some s \<and> parseIfMatch s = Some v \<and> remembered = Some v))"
proof -
  obtain e where e: "get_operation r (operation_key m path) = Some e" "declared_refs e = pi_parameters item @ ps"
    using loaded_operation [OF assms(1-7)] by blast
  have "declares e suf" if "suffix suf ref" for suf
    using assms(8) that unfolding declares_def e(2) list_ex_iff by (intro bexI [of _ "Some ref"]) auto
  then show ?thesis
    using e(1) by (auto simp: idempotency_guard_def requiresIdempotency_def optimistic_lock_guard_def lock_requirement_def
        Let_def split: option.splits if_splits)
qed

definition demo_contract :: "(string \<times> OpenApiDocument) list" where
  "demo_contract =
     [(''app.json'', [(''/app/notices/{noticeId}'',
        \<lparr>pi_parameters = [Some ''#/components/parameters/IdempotencyKey''],
         pi_operations = [(''put'', [Some ''#/components/parameters/IfMatchVersion'', None])]\<rparr>)])]"

lemma demo_contract_loads: "\<exists>r. load demo_contract = Inr r \<and> lock_requirement r ''PUT /app/notices/{noticeId}'' = Required"
proof -
  have "(case load demo_contract of Inl e \<Rightarrow> False | Inr r \<Rightarrow> lock_requirement r ''PUT /app/notices/{noticeId}'' = Required)"
    by code_simp
  then show ?thesis by (auto split: sum.splits)
qed

theorem if_match_roundtrip_witness:
  "\<exists>r. load demo_contract = Inr r \<and>
    optimistic_lock_guard r (Some ''PUT /app/notices/{noticeId}'') (OneHeader ''W/12'') = Inr (Some 12)"
proof -
  obtain r where r: "load demo_contract = Inr r" "lock_requirement r ''PUT /app/notices/{noticeId}'' = Required"
    using demo_contract_loads by blast
  have "''W/12'' \<in> set (etag_forms 12)" by (simp add: etag_forms_def setEtag_def show_nat.simps digit_def)
  then show ?thesis
    using if_match_roundtrip [of r "''PUT /app/notices/{noticeId}''" 12] r by (auto simp: list_all_iff MAX_SAFE_INTEGER_def)
qed

theorem declared_headers_enforced_witness:
  "\<exists>r. load demo_contract = Inr r \<and> idempotency_guard r (Some ''PUT /app/notices/{noticeId}'') NoHeader \<noteq> Inr True"
proof -
  obtain r where r: "load demo_contract = Inr r" using demo_contract_loads by blast
  let ?item = "snd (hd (snd (hd demo_contract)))"
  have key: "operation_key ''put'' ''/app/notices/{noticeId}'' = ''PUT /app/notices/{noticeId}''" by code_simp
  have "idempotency_guard r (Some (operation_key ''put'' ''/app/notices/{noticeId}'')) NoHeader \<noteq> Inr True"
    using declared_headers_enforced [OF r, of "''app.json''" "snd (hd demo_contract)" "''/app/notices/{noticeId}''" ?item "''put''"
        "[Some ''#/components/parameters/IfMatchVersion'', None]" "''#/components/parameters/IdempotencyKey''" NoHeader]
    by (simp add: demo_contract_def METHODS_def suffix_def present_header_def first_header_def)
  with r show ?thesis by (simp add: key)
qed

end
