(* ===== verification/Idempotency.thy ===== *)
theory Idempotency
  imports Request_Guards
begin

text \<open>
  \<open>src/common/idempotency/idempotency.service.ts\<close>: one write request is one transaction is one record, so a
  request sent again is answered from its record. The work of the request, the hash and the text of a
  number are parameters; the store is the table of records beside the business store \<open>'d\<close> the work acts on.
  A run reads the table, runs its transaction and may read again; other requests commit in between, so
  the three moments are three stores.
\<close>

section \<open>The fingerprint of a request\<close>

text \<open>\<open>JSON.stringify\<close> of a text, on the 8-bit characters.\<close>

definition hex_digit :: "nat \<Rightarrow> char" where
  "hex_digit n = ''0123456789abcdef'' ! n"

definition escape_char :: "char \<Rightarrow> string" where
  "escape_char c =
     (let n = of_char c :: nat; bs = CHR 0x5C in
      if n = 34 then [bs, CHR 0x22] else if n = 92 then [bs, bs]
      else if n = 8 then [bs, CHR ''b''] else if n = 9 then [bs, CHR ''t''] else if n = 10 then [bs, CHR ''n'']
      else if n = 12 then [bs, CHR ''f''] else if n = 13 then [bs, CHR ''r'']
      else if n < 32 then [bs, CHR ''u'', CHR ''0'', CHR ''0'', hex_digit (n div 16), hex_digit (n mod 16)]
      else [c])"

definition quoted :: "string \<Rightarrow> string" where
  "quoted s = quote_char # concat (map escape_char s) @ [quote_char]"

text \<open>\<open>Array.prototype.join\<close>.\<close>

fun join :: "string \<Rightarrow> string list \<Rightarrow> string" where
  "join sep [] = []"
| "join sep [s] = s"
| "join sep (s # t # ss) = s @ sep @ join sep (t # ss)"

fun stableJson :: "(decimal \<Rightarrow> string) \<Rightarrow> json \<Rightarrow> string" where
  "stableJson num JNull = ''null''"
| "stableJson num (JBool b) = (if b then ''true'' else ''false'')"
| "stableJson num (JNum n) = num n"
| "stableJson num (JStr s) = quoted s"
| "stableJson num (JArr vs) = ''['' @ join '','' (map (stableJson num) vs) @ '']''"
| "stableJson num (JObj es) =
     ''{'' @ join '','' (map (\<lambda>(k, t). quoted k @ '':'' @ t) (sort_key fst (map (\<lambda>(k, v). (k, stableJson num v)) es))) @ ''}''"

definition requestFingerprint :: "(string \<Rightarrow> string) \<Rightarrow> (decimal \<Rightarrow> string) \<Rightarrow> string \<Rightarrow> json \<Rightarrow> string" where
  "requestFingerprint hash num operation body = hash (operation @ [CHR 0x0A] @ stableJson num body)"

section \<open>Records and contexts\<close>

definition RETENTION_HOURS :: int where
  "RETENTION_HOURS = 72"

datatype record_status = IN_PROGRESS | COMPLETED

record idempotency_record =
  ir_key :: string
  ir_fingerprint :: string
  ir_status :: record_status
  ir_app_user_id :: "id option"
  ir_expires_at :: int
  ir_response_status :: "nat option"
  ir_response_body :: "json option"
  ir_completed_at :: "int option"

record 'd idem_db =
  idempotency_records :: "idempotency_record list"
  business :: 'd

datatype FamilyConflictCode = VERSION_CONFLICT | DUPLICATE_KEY | INVALID_STATE

record IdempotencyConflictCode =
  cc_duplicate :: FamilyConflictCode
  cc_inProgress :: FamilyConflictCode

definition FAMILY_CONFLICT_CODE :: IdempotencyConflictCode where
  "FAMILY_CONFLICT_CODE = \<lparr>cc_duplicate = DUPLICATE_KEY, cc_inProgress = INVALID_STATE\<rparr>"

definition family_code :: "FamilyConflictCode \<Rightarrow> code" where
  "family_code c =
     (case c of VERSION_CONFLICT \<Rightarrow> ''VERSION_CONFLICT'' | DUPLICATE_KEY \<Rightarrow> ''DUPLICATE_KEY'' | INVALID_STATE \<Rightarrow> ''INVALID_STATE'')"

record IdempotencyContext =
  ic_key :: string
  ic_fingerprint :: string
  ic_appUserId :: "id option"
  ic_successStatus :: nat
  ic_conflictCode :: "IdempotencyConflictCode option"

record IdempotentOutcome =
  io_replayed :: bool
  io_status :: nat
  io_body :: "json option"

definition codeOf :: "IdempotencyContext \<Rightarrow> (IdempotencyConflictCode \<Rightarrow> FamilyConflictCode) \<Rightarrow> ConflictExtra" where
  "codeOf context branch =
     (case ic_conflictCode context of
        None \<Rightarrow> no_extra | Some c \<Rightarrow> no_extra\<lparr>extra_code := Some (family_code (branch c))\<rparr>)"

section \<open>Replaying\<close>

text \<open>The column has type \<open>uuid\<close>, which compares values, not texts.\<close>

definition uuid_value :: "string \<Rightarrow> string" where
  "uuid_value s = map to_upper s"

definition find_record :: "'d idem_db \<Rightarrow> string \<Rightarrow> idempotency_record option" where
  "find_record db key = find (\<lambda>r. ir_key r = uuid_value key) (idempotency_records db)"

definition replay :: "idempotency_record \<Rightarrow> IdempotencyContext \<Rightarrow> IdempotentOutcome res" where
  "replay r context =
     (if ir_fingerprint r \<noteq> ic_fingerprint context then Inl (ConflictException CauseUser (codeOf context cc_duplicate))
      else if ir_status r \<noteq> COMPLETED then Inl (ConflictException CauseWorkerLease (codeOf context cc_inProgress))
      else Inr \<lparr>io_replayed = True,
                io_status = (case ir_response_status r of None \<Rightarrow> ic_successStatus context | Some s \<Rightarrow> s),
                io_body = ir_response_body r\<rparr>)"

definition replayExisting :: "'d idem_db \<Rightarrow> IdempotencyContext \<Rightarrow> IdempotentOutcome option res" where
  "replayExisting db context =
     (case find_record db (ic_key context) of
        None \<Rightarrow> Inr None | Some r \<Rightarrow> bind_res (replay r context) (\<lambda>o'. Inr (Some o')))"

section \<open>Running\<close>

definition started_record :: "IdempotencyContext \<Rightarrow> int \<Rightarrow> idempotency_record" where
  "started_record context now =
     \<lparr>ir_key = uuid_value (ic_key context), ir_fingerprint = ic_fingerprint context, ir_status = IN_PROGRESS,
      ir_app_user_id = ic_appUserId context, ir_expires_at = now + RETENTION_HOURS * 3600000,
      ir_response_status = None, ir_response_body = None, ir_completed_at = None\<rparr>"

definition complete_record :: "IdempotencyContext \<Rightarrow> int \<Rightarrow> json option \<Rightarrow> idempotency_record \<Rightarrow> idempotency_record" where
  "complete_record context now body r =
     (if ir_key r = uuid_value (ic_key context)
      then r\<lparr>ir_status := COMPLETED, ir_response_status := Some (ic_successStatus context),
             ir_response_body := body, ir_completed_at := Some now\<rparr>
      else r)"

text \<open>The transaction: a record, the work, the completed record; a throw loses all three.\<close>

definition transaction ::
  "IdempotencyContext \<Rightarrow> ('d \<Rightarrow> (json option \<times> 'd) res) \<Rightarrow> int \<Rightarrow> 'd idem_db \<Rightarrow> (IdempotentOutcome \<times> 'd idem_db) res" where
  "transaction context work now db =
     (if find_record db (ic_key context) \<noteq> None then Inl (DbError (P2002 [''idempotency_key'']))
      else bind_res (work (business db)) (\<lambda>(body, d).
        Inr (\<lparr>io_replayed = False, io_status = ic_successStatus context, io_body = body\<rparr>,
             db\<lparr>idempotency_records :=
                  map (complete_record context now body) (idempotency_records db @ [started_record context now]),
                business := d\<rparr>)))"

definition idempotency_conflict :: "app_error \<Rightarrow> bool" where
  "idempotency_conflict e =
     (case e of DbError (P2002 target) \<Rightarrow> sublist ''idempotency'' (join '','' target) | _ \<Rightarrow> False)"

text \<open>A run: what it answers, and the store it committed where it committed one. It first reads \<open>seen\<close>, its
  transaction works on \<open>current\<close>, and after a collision it reads \<open>later\<close>.\<close>

definition run_request ::
  "IdempotencyContext \<Rightarrow> ('d \<Rightarrow> (json option \<times> 'd) res) \<Rightarrow> int \<Rightarrow> 'd idem_db \<Rightarrow> 'd idem_db \<Rightarrow> 'd idem_db \<Rightarrow>
   IdempotentOutcome res \<times> 'd idem_db option" where
  "run_request context work now seen current later =
     (case replayExisting seen context of
        Inl e \<Rightarrow> (Inl e, None)
      | Inr (Some outcome) \<Rightarrow> (Inr outcome, None)
      | Inr None \<Rightarrow>
          (case transaction context work now current of
             Inr (outcome, db) \<Rightarrow> (Inr outcome, Some db)
           | Inl e \<Rightarrow>
               if idempotency_conflict e
               then (case find_record later (ic_key context) of
                       Some r \<Rightarrow> (replay r context, None) | None \<Rightarrow> (Inl e, None))
               else (Inl e, None)))"

section \<open>The order of keys does not matter\<close>

lemma sort_key_unique:
  assumes "mset xs = mset ys" and "distinct (map f xs)"
  shows "sort_key f xs = sort_key f ys"
proof (rule properties_for_sort_key)
  show "mset (sort_key f ys) = mset xs" using assms(1) by simp
  show "sorted (map f (sort_key f ys))" by simp
  fix k
  have one: "filter (\<lambda>x. f k = f x) zs = [k]" if "distinct (map f zs)" "k \<in> set zs" for zs
    using that by (induction zs) (auto simp: filter_empty_conv, metis image_eqI)
  assume "k \<in> set (sort_key f ys)"
  then have "k \<in> set ys" "k \<in> set xs" using assms(1) by (auto dest: mset_eq_setD)
  moreover have "mset (map f (sort_key f ys)) = mset (map f xs)" using assms(1) by simp
  then have "distinct (map f (sort_key f ys))" using assms(2) mset_eq_imp_distinct_iff by blast
  ultimately show "filter (\<lambda>x. f k = f x) (sort_key f ys) = filter (\<lambda>x. f k = f x) xs"
    using one [OF assms(2)] one [of "sort_key f ys"] by simp
qed

text \<open>The same JSON value with the keys of its objects in another order.\<close>

inductive same_json :: "json \<Rightarrow> json \<Rightarrow> bool" where
  same: "same_json v v"
| arrays: "list_all2 same_json vs ws \<Longrightarrow> same_json (JArr vs) (JArr ws)"
| objects: "distinct (map fst es) \<Longrightarrow> mset es = mset es' \<Longrightarrow> list_all2 (rel_prod (=) same_json) es' fs \<Longrightarrow>
    same_json (JObj es) (JObj fs)"
  monos list.rel_mono_strong prod.rel_mono

lemma stableJson_same: "same_json a b \<Longrightarrow> stableJson num a = stableJson num b"
proof (induction rule: same_json.induct)
  case (same v)
  show ?case by (rule refl)
next
  case (arrays vs ws)
  then have "map (stableJson num) vs = map (stableJson num) ws"
    by (auto simp: list_all2_conv_all_nth intro: nth_equalityI)
  then show ?case by simp
next
  case (objects es es' fs)
  let ?t = "map (\<lambda>(k, v). (k, stableJson num v))"
  have "distinct (map fst (?t es))" using objects(1) by (simp add: case_prod_beta comp_def)
  moreover have "mset (?t es) = mset (?t es')" using objects(2) by simp
  ultimately have "sort_key fst (?t es) = sort_key fst (?t es')" by (intro sort_key_unique)
  moreover have "?t es' = ?t fs"
    using objects(3) by (auto simp: list_all2_conv_all_nth rel_prod_sel case_prod_beta intro!: nth_equalityI)
  ultimately show ?case by simp
qed

lemma requestFingerprint_same:
  "same_json a b \<Longrightarrow> requestFingerprint hash num op a = requestFingerprint hash num op b"
  by (simp add: requestFingerprint_def stableJson_same)

section \<open>The table of records\<close>

text \<open>The primary key, and what committed transactions leave: every record is completed.\<close>

definition records_ok :: "'d idem_db \<Rightarrow> bool" where
  "records_ok db \<longleftrightarrow> distinct (map ir_key (idempotency_records db)) \<and>
     (\<forall>r\<in>set (idempotency_records db). ir_status r = COMPLETED)"

definition completed_record :: "IdempotencyContext \<Rightarrow> int \<Rightarrow> json option \<Rightarrow> idempotency_record" where
  "completed_record context now body = complete_record context now body (started_record context now)"

lemma completed_record_fields [simp]:
  "ir_key (completed_record context now body) = uuid_value (ic_key context)"
  "ir_fingerprint (completed_record context now body) = ic_fingerprint context"
  "ir_status (completed_record context now body) = COMPLETED"
  "ir_response_status (completed_record context now body) = Some (ic_successStatus context)"
  "ir_response_body (completed_record context now body) = body"
  by (simp_all add: completed_record_def complete_record_def started_record_def)

lemma transaction_effect:
  assumes "transaction context work now db = Inr (outcome, db')"
  obtains body d where "work (business db) = Inr (body, d)" and "find_record db (ic_key context) = None"
    and "outcome = \<lparr>io_replayed = False, io_status = ic_successStatus context, io_body = body\<rparr>"
    and "db' = db\<lparr>idempotency_records := idempotency_records db @ [completed_record context now body], business := d\<rparr>"
proof -
  from assms have none: "find_record db (ic_key context) = None" by (auto simp: transaction_def split: if_splits)
  from assms none obtain body d where bd: "work (business db) = Inr (body, d)" by (auto simp: transaction_def res_simps)
  have "map (complete_record context now body) (idempotency_records db) = idempotency_records db"
    using none by (intro map_idI) (auto simp: find_record_def find_None_iff complete_record_def)
  with assms none bd show ?thesis
    by (intro that [OF bd none]) (auto simp: transaction_def completed_record_def)
qed

lemma transaction_ok: "transaction context work now db = Inr (outcome, db') \<Longrightarrow> records_ok db \<Longrightarrow> records_ok db'"
  by (erule transaction_effect) (auto simp: records_ok_def find_record_def find_None_iff)

text \<open>What the database goes through: committed requests, and changes of the business store by others.\<close>

inductive idem_run :: "'d idem_db \<Rightarrow> 'd idem_db \<Rightarrow> bool" where
  nothing: "idem_run db db"
| request: "idem_run db db' \<Longrightarrow> transaction context work now db' = Inr (outcome, db'') \<Longrightarrow> idem_run db db''"
| other: "idem_run db db' \<Longrightarrow> idem_run db (db'\<lparr>business := d\<rparr>)"

lemma idem_run_keeps_record:
  assumes "idem_run db db'" and "find_record db key = Some r"
  shows "find_record db' key = Some r"
  using assms
proof (induction rule: idem_run.induct)
  case (request db db' ctx work now outcome db'')
  then have "find_record db' key = Some r" by blast
  with request(2) show ?case by (auto elim!: transaction_effect simp: find_record_def find_append)
qed (auto simp: find_record_def)

lemma replay_completed:
  assumes "ir_status r = COMPLETED" and "ir_response_status r = Some s"
  shows "replay r context =
    (if ir_fingerprint r = ic_fingerprint context then Inr \<lparr>io_replayed = True, io_status = s, io_body = ir_response_body r\<rparr>
     else Inl (ConflictException CauseUser (codeOf context cc_duplicate)))"
  using assms by (simp add: replay_def)

text \<open>A run against a record answers from it, whenever it first saw the record.\<close>

lemma run_answers_from_record:
  assumes "find_record seen (ic_key context) = None \<or> find_record seen (ic_key context) = Some r"
    and "find_record current (ic_key context) = Some r" and "find_record later (ic_key context) = Some r"
  shows "run_request context work now seen current later = (replay r context, None)"
proof -
  have "idempotency_conflict (DbError (P2002 [''idempotency_key'']))" by code_simp
  then show ?thesis
    using assms by (cases "replay r context") (auto simp: run_request_def replayExisting_def transaction_def)
qed

section \<open>Properties\<close>


definition demo_context :: "json \<Rightarrow> IdempotencyContext" where
  "demo_context body =
     \<lparr>ic_key = ''6f1c0000-0000-4000-8000-00000000000a'',
      ic_fingerprint = requestFingerprint (\<lambda>s. s) (\<lambda>n. ''1'') ''POST /x'' body,
      ic_appUserId = None, ic_successStatus = 201, ic_conflictCode = Some FAMILY_CONFLICT_CODE\<rparr>"


end
