(* ===== verification/Approval.thy ===== *)
theory Approval
  imports Notifications Request_Guards Document_State
begin

text \<open>
  \<open>src/core/approval/approval.service.ts\<close> with its notifier \<open>src/core/notification/approval-notice.ts\<close>:
  raising a request from an approval route, the lock other documents read, and the decisions of the
  approvers one after the other. Every operation runs in the caller's transaction. The Korean names of
  the approval types are the parameter \<open>names\<close>.
\<close>

section \<open>Tables\<close>

record approval_request =
  ar_id :: id
  ar_no :: string
  ar_type_code :: code
  ar_target_type_code :: code
  ar_target_id :: id
  ar_requested_by :: "id option"
  ar_requested_worker_id :: "id option"
  ar_requested_at :: int
  ar_status_code :: code
  ar_reason :: string
  ar_version_no :: nat

record approval_step =
  as_request_id :: id
  as_step_no :: nat
  as_approver_id :: id
  as_decision_code :: "code option"
  as_decision_at :: "int option"
  as_comment :: "string option"

record approval_route =
  rt_id :: id
  rt_type_code :: code
  rt_business_unit_id :: "id option"
  rt_is_active :: bool

record approval_route_step =
  rs_route_id :: id
  rs_step_no :: nat
  rs_approver_type_code :: code
  rs_approver_user_id :: "id option"

record worker =
  w_id :: id
  w_name :: string

record approval_db =
  ap_requests :: "approval_request list"
  ap_steps :: "approval_step list"
  ap_routes :: "approval_route list"
  ap_route_steps :: "approval_route_step list"
  ap_workers :: "worker list"
  ap_request_seq :: id
  ap_notes :: note_db

record RouteStep =
  rstep_no :: nat
  rstep_approverTypeCode :: code
  rstep_approverUserId :: "id option"

record StepRow =
  sr_stepNo :: nat
  sr_approverId :: id
  sr_decisionCode :: "code option"

record ApprovalRequestInput =
  ri_approvalRequestNo :: string
  ri_approvalTypeCode :: code
  ri_targetTypeCode :: code
  ri_targetId :: id
  ri_businessUnitId :: "id option"
  ri_requestedBy :: "id option"
  ri_requestedWorkerId :: "id option"
  ri_reason :: string

record DecisionResult =
  dr_requestId :: id
  dr_statusCode :: code
  dr_versionNo :: nat
  dr_steps :: "StepRow list"

definition APPROVAL_STATUS_COLUMN :: StateColumn where
  "APPROVAL_STATUS_COLUMN = ''app.approval_request.status_code''"

definition steps_of :: "approval_db \<Rightarrow> id \<Rightarrow> approval_step list" where
  "steps_of db i = sort_key as_step_no (filter (\<lambda>s. as_request_id s = i) (ap_steps db))"

definition find_request :: "approval_db \<Rightarrow> id \<Rightarrow> approval_request option" where
  "find_request db i = find (\<lambda>r. ar_id r = i) (ap_requests db)"

section \<open>Telling the current approver\<close>

definition APPROVAL_TYPE_NAMES_EN :: "(code \<times> string) list" where
  "APPROVAL_TYPE_NAMES_EN =
     [(''GOODS_ISSUE_DISPOSAL'', ''Disposal issue''),
      (''INVENTORY_ADJUSTMENT'', ''Inventory adjustment''),
      (''PURCHASE_ORDER'', ''Purchase order''),
      (''INBOUND_RECEIPT_CANCEL'', ''Inbound receipt cancel''),
      (''GOODS_RECEIPT_CANCEL'', ''Goods receipt cancel''),
      (''GOODS_ISSUE_CANCEL'', ''Goods issue cancel''),
      (''SHIPMENT_CANCEL'', ''Shipment cancel''),
      (''IQC_SKIP'', ''IQC skip''),
      (''PRODUCTION_RESULT_CORRECT'', ''Production result correction''),
      (''CONCESSION'', ''Concession''),
      (''OQC_SKIP'', ''OQC skip'')]"

definition approvalTypeNameEn :: "code \<Rightarrow> string" where
  "approvalTypeNameEn c = (case map_of APPROVAL_TYPE_NAMES_EN c of None \<Rightarrow> c | Some n \<Rightarrow> n)"

definition requester_name :: "approval_db \<Rightarrow> approval_request \<Rightarrow> note_value" where
  "requester_name db r =
     (case (case ar_requested_by r of None \<Rightarrow> None | Some i \<Rightarrow> map_option u_name (find_user (ap_notes db) i)) of
        Some n \<Rightarrow> VStr n
      | None \<Rightarrow>
          (case (case ar_requested_worker_id r of None \<Rightarrow> None | Some i \<Rightarrow> map_option w_name (find (\<lambda>w. w_id w = i) (ap_workers db))) of
             Some n \<Rightarrow> VStr n | None \<Rightarrow> VNull))"

definition arrival_notice :: "(code \<Rightarrow> string) \<Rightarrow> approval_db \<Rightarrow> approval_request \<Rightarrow> approval_step \<Rightarrow> int \<Rightarrow> EmitInput" where
  "arrival_notice names db r current arrivedAt =
     \<lparr>ei_eventCode = ''APPROVAL_ACTION_REQUIRED'', ei_aggregateTypeCode = ''APPROVAL_REQUEST'',
      ei_aggregateId = ar_id r, ei_occurredAt = arrivedAt,
      ei_departmentId = resolveByUser (ap_notes db) (as_approver_id current),
      ei_approverUserId = Some (as_approver_id current), ei_optOut = False,
      ei_values = [(''approval_type'', VStr (names (ar_type_code r))), (''request_no'', VStr (ar_no r)),
        (''requester'', requester_name db r), (''reason'', VStr (ar_reason r)),
        (''step'', VStr (show_nat (as_step_no current) @ ''/'' @ show_nat (length (steps_of db (ar_id r))))),
        (''actor'', requester_name db r)],
      ei_zaloValues = [(''request_type'', VStr (approvalTypeNameEn (ar_type_code r)))], ei_refs = []\<rparr>"

definition notifyCurrentStep :: "(code \<Rightarrow> string) \<Rightarrow> approval_db \<Rightarrow> id \<Rightarrow> int \<Rightarrow> approval_db res" where
  "notifyCurrentStep names db approvalRequestId arrivedAt =
     (case find_request db approvalRequestId of
        None \<Rightarrow> Inl (DbError P2025)
      | Some r \<Rightarrow>
          (case find (\<lambda>s. as_decision_code s = None) (steps_of db approvalRequestId) of
             None \<Rightarrow> Inr db
           | Some current \<Rightarrow>
               bind_res (emit (ap_notes db) (arrival_notice names db r current arrivedAt)) (\<lambda>(x, notes).
                 Inr (db\<lparr>ap_notes := notes\<rparr>))))"

section \<open>Locks\<close>

definition same_target :: "code \<Rightarrow> id \<Rightarrow> code \<Rightarrow> approval_request \<Rightarrow> bool" where
  "same_target targetTypeCode targetId approvalTypeCode r \<longleftrightarrow>
     ar_target_type_code r = targetTypeCode \<and> ar_target_id r = targetId \<and> ar_type_code r = approvalTypeCode"

definition assertNoOpenRequest :: "approval_db \<Rightarrow> code \<Rightarrow> id \<Rightarrow> code \<Rightarrow> unit res" where
  "assertNoOpenRequest db targetTypeCode targetId approvalTypeCode =
     (case find (\<lambda>r. same_target targetTypeCode targetId approvalTypeCode r \<and> ar_status_code r = ''PENDING'') (ap_requests db) of
        Some r \<Rightarrow> Inl (badRequest ''APPROVAL_IN_PROGRESS'') | None \<Rightarrow> Inr ())"

definition assertApproved :: "approval_db \<Rightarrow> code \<Rightarrow> id \<Rightarrow> code \<Rightarrow> unit res" where
  "assertApproved db targetTypeCode targetId approvalTypeCode =
     (let requests = filter (same_target targetTypeCode targetId approvalTypeCode) (ap_requests db) in
      if requests = [] \<or> list_ex (\<lambda>r. ar_status_code r = ''APPROVED'') requests then Inr ()
      else if list_ex (\<lambda>r. ar_status_code r = ''PENDING'') requests then Inl (badRequest ''APPROVAL_IN_PROGRESS'')
      else Inl (badRequest ''APPROVAL_REQUIRED''))"

section \<open>Raising a request\<close>

definition route_steps :: "approval_db \<Rightarrow> id \<Rightarrow> approval_route_step list" where
  "route_steps db i = sort_key rs_step_no (filter (\<lambda>s. rs_route_id s = i) (ap_route_steps db))"

definition selectRoute :: "approval_db \<Rightarrow> code \<Rightarrow> id option \<Rightarrow> (id \<times> RouteStep list) res" where
  "selectRoute db approvalTypeCode businessUnitId =
     (let routes = filter (\<lambda>t. rt_type_code t = approvalTypeCode \<and> rt_is_active t \<and>
                        (rt_business_unit_id t = businessUnitId \<or> rt_business_unit_id t = None)) (ap_routes db);
          specific = filter (\<lambda>t. rt_business_unit_id t \<noteq> None) routes;
          layer = (if specific \<noteq> [] then specific else routes)
      in if 1 < length layer then Inl (badRequest ''ROUTE_AMBIGUOUS'')
         else case layer of
           [] \<Rightarrow> Inl (badRequest ''ROUTE_NOT_FOUND'')
         | t # _ \<Rightarrow>
             if route_steps db (rt_id t) = [] then Inl (badRequest ''ROUTE_NOT_FOUND'')
             else Inr (rt_id t,
               map (\<lambda>s. \<lparr>rstep_no = rs_step_no s, rstep_approverTypeCode = rs_approver_type_code s,
                        rstep_approverUserId = rs_approver_user_id s\<rparr>) (route_steps db (rt_id t))))"

definition expanded_step :: "id \<Rightarrow> nat \<times> approval_route_step \<Rightarrow> approval_step res" where
  "expanded_step approvalRequestId x =
     (case rs_approver_user_id (snd x) of
        None \<Rightarrow> Inl (badRequest ''APPROVER_TYPE_NOT_SUPPORTED'')
      | Some u \<Rightarrow>
          if rs_approver_type_code (snd x) \<noteq> ''USER'' then Inl (badRequest ''APPROVER_TYPE_NOT_SUPPORTED'')
          else Inr \<lparr>as_request_id = approvalRequestId, as_step_no = fst x + 1, as_approver_id = u,
                    as_decision_code = None, as_decision_at = None, as_comment = None\<rparr>)"

definition expandSteps :: "approval_db \<Rightarrow> id \<Rightarrow> id \<Rightarrow> approval_db res" where
  "expandSteps db approvalRouteId approvalRequestId =
     (let rows = route_steps db approvalRouteId in
      if rows = [] then Inl (badRequest ''ROUTE_NOT_FOUND'')
      else bind_res (map_res (expanded_step approvalRequestId) (zip [0..<length rows] rows)) (\<lambda>data.
        Inr (db\<lparr>ap_steps := ap_steps db @ data\<rparr>)))"

definition create_request :: "approval_db \<Rightarrow> ApprovalRequestInput \<Rightarrow> int \<Rightarrow> (id \<times> approval_db) res" where
  "create_request db input requestedAt =
     (if list_ex (\<lambda>r. ar_no r = ri_approvalRequestNo input) (ap_requests db)
      then Inl (DbError (P2002 [''approval_request_no'']))
      else Inr (ap_request_seq db,
        db\<lparr>ap_requests := ap_requests db @
             [\<lparr>ar_id = ap_request_seq db, ar_no = ri_approvalRequestNo input, ar_type_code = ri_approvalTypeCode input,
               ar_target_type_code = ri_targetTypeCode input, ar_target_id = ri_targetId input,
               ar_requested_by = ri_requestedBy input, ar_requested_worker_id = ri_requestedWorkerId input,
               ar_requested_at = requestedAt, ar_status_code = ''PENDING'', ar_reason = ri_reason input, ar_version_no = 1\<rparr>],
           ap_request_seq := ap_request_seq db + 1\<rparr>))"

definition request_approval ::
  "(code \<Rightarrow> string) \<Rightarrow> approval_db \<Rightarrow> ApprovalRequestInput \<Rightarrow> int \<Rightarrow> (id \<times> approval_db) res" where
  "request_approval names db input requestedAt =
     (if (ri_requestedBy input = None) = (ri_requestedWorkerId input = None) then Inl InternalError
      else bind_res (assertNoOpenRequest db (ri_targetTypeCode input) (ri_targetId input) (ri_approvalTypeCode input)) (\<lambda>_.
           bind_res (selectRoute db (ri_approvalTypeCode input) (ri_businessUnitId input)) (\<lambda>(approvalRouteId, _).
           bind_res (create_request db input requestedAt) (\<lambda>(approvalRequestId, db1).
           bind_res (expandSteps db1 approvalRouteId approvalRequestId) (\<lambda>db2.
           bind_res (notifyCurrentStep names db2 approvalRequestId requestedAt) (\<lambda>db3.
             Inr (approvalRequestId, db3)))))))"

section \<open>Deciding\<close>

definition currentStep :: "StepRow list \<Rightarrow> StepRow option" where
  "currentStep steps = find (\<lambda>s. sr_decisionCode s = None) (sort_key sr_stepNo steps)"

datatype Decision_code = APPROVE | REJECT

definition decision_code :: "Decision_code \<Rightarrow> code" where
  "decision_code d = (case d of APPROVE \<Rightarrow> ''APPROVED'' | REJECT \<Rightarrow> ''REJECTED'')"

definition step_row :: "approval_step \<Rightarrow> StepRow" where
  "step_row s = \<lparr>sr_stepNo = as_step_no s, sr_approverId = as_approver_id s, sr_decisionCode = as_decision_code s\<rparr>"

lemma step_row_fields [simp]:
  "sr_stepNo (step_row s) = as_step_no s" "sr_approverId (step_row s) = as_approver_id s"
  "sr_decisionCode (step_row s) = as_decision_code s"
  by (simp_all add: step_row_def)

definition step_rows :: "approval_db \<Rightarrow> id \<Rightarrow> StepRow list" where
  "step_rows db i = map step_row (steps_of db i)"

definition write_decision :: "approval_db \<Rightarrow> id \<Rightarrow> nat \<Rightarrow> code \<Rightarrow> int \<Rightarrow> string option \<Rightarrow> approval_db" where
  "write_decision db i stepNo c decidedAt comment =
     db\<lparr>ap_steps := map (\<lambda>s. if as_request_id s = i \<and> as_step_no s = stepNo
                           then s\<lparr>as_decision_code := Some c, as_decision_at := Some decidedAt, as_comment := comment\<rparr> else s)
                       (ap_steps db)\<rparr>"

text \<open>The conditional update of the request; its count goes to \<open>assertUpdated\<close>.\<close>

definition bump_request :: "approval_db \<Rightarrow> id \<Rightarrow> nat \<Rightarrow> code option \<Rightarrow> nat \<times> approval_db" where
  "bump_request db i version status =
     (let hit = (\<lambda>r. ar_id r = i \<and> ar_version_no r = version) in
      (length (filter hit (ap_requests db)),
       db\<lparr>ap_requests := map (\<lambda>r. if hit r
            then r\<lparr>ar_version_no := ar_version_no r + 1,
                   ar_status_code := (case status of None \<Rightarrow> ar_status_code r | Some s \<Rightarrow> s)\<rparr> else r) (ap_requests db)\<rparr>))"

definition decide ::
  "(code \<Rightarrow> string) \<Rightarrow> approval_db \<Rightarrow> id \<Rightarrow> nat \<Rightarrow> id \<Rightarrow> Decision_code \<Rightarrow> string option \<Rightarrow> int \<Rightarrow>
   (DecisionResult \<times> approval_db) res" where
  "decide names db i version actorUserId decision comment decidedAt =
     (case find_request db i of
        None \<Rightarrow> Inl (HttpException NOT_FOUND)
      | Some request \<Rightarrow>
          bind_res (assertTransition TRANSITIONS APPROVAL_STATUS_COLUMN
              (case decision of APPROVE \<Rightarrow> ''approval-approve'' | REJECT \<Rightarrow> ''approval-reject'')
              (ar_status_code request) BAD_REQUEST) (\<lambda>transition.
          bind_res (assertUpdated (if ar_version_no request \<noteq> version then 0 else 1) CauseUser no_extra) (\<lambda>_.
            let steps = step_rows db i in
            if \<not> list_ex (\<lambda>s. sr_approverId s = actorUserId) steps
            then Inl (ContractException FORBIDDEN [screen_item ''PERMISSION_DENIED''] [])
            else case currentStep steps of
              None \<Rightarrow> Inl (badRequest ''NOT_YOUR_TURN'')
            | Some current \<Rightarrow>
                if sr_approverId current \<noteq> actorUserId then Inl (badRequest ''NOT_YOUR_TURN'')
                else
                  let db1 = write_decision db i (sr_stepNo current) (decision_code decision) decidedAt comment;
                      closes = (decision = REJECT \<or> sr_stepNo current = sr_stepNo (last steps));
                      (count, db2) = bump_request db1 i version (if closes then Some (tr_to transition) else None)
                  in bind_res (assertUpdated count CauseUser no_extra) (\<lambda>_.
                     bind_res (if closes then Inr db2 else notifyCurrentStep names db2 i decidedAt) (\<lambda>db3.
                       Inr (\<lparr>dr_requestId = i,
                             dr_statusCode = (if closes then tr_to transition else ar_status_code request),
                             dr_versionNo = version + 1,
                             dr_steps = map (\<lambda>s. if sr_stepNo s = sr_stepNo current
                                           then s\<lparr>sr_decisionCode := Some (decision_code decision)\<rparr> else s) steps\<rparr>, db3))))))"

definition approve where
  "approve names db i version actorUserId comment decidedAt = decide names db i version actorUserId APPROVE comment decidedAt"

definition reject where
  "reject names db i version actorUserId comment decidedAt = decide names db i version actorUserId REJECT (Some comment) decidedAt"

section \<open>The abstract approval\<close>

text \<open>An approval as its users see it: who has decided, who decides next, and whether it is over.\<close>

datatype approval = Waiting "id list" "id list" | Granted "id list" | Refused "id list" "id list"

fun abs_decide :: "approval \<Rightarrow> id \<Rightarrow> Decision_code \<Rightarrow> approval option" where
  "abs_decide (Waiting done (a # left)) actor APPROVE =
     (if actor \<noteq> a then None else Some (if left = [] then Granted (done @ [a]) else Waiting (done @ [a]) left))"
| "abs_decide (Waiting done (a # left)) actor REJECT = (if actor \<noteq> a then None else Some (Refused (done @ [a]) left))"
| "abs_decide _ actor d = None"

fun status_name :: "approval \<Rightarrow> code" where
  "status_name (Waiting done left) = ''PENDING''"
| "status_name (Granted done) = ''APPROVED''"
| "status_name (Refused done left) = ''REJECTED''"

definition decided :: "approval_step \<Rightarrow> bool" where
  "decided s \<longleftrightarrow> as_decision_code s \<noteq> None"

definition abs_steps :: "approval_step list \<Rightarrow> approval" where
  "abs_steps sts =
     (let over = takeWhile decided sts; left = dropWhile decided sts in
      if list_ex (\<lambda>s. as_decision_code s = Some ''REJECTED'') over then Refused (map as_approver_id over) (map as_approver_id left)
      else if left = [] then Granted (map as_approver_id over)
      else Waiting (map as_approver_id over) (map as_approver_id left))"

definition abs_of :: "approval_db \<Rightarrow> id \<Rightarrow> approval" where
  "abs_of db i = abs_steps (steps_of db i)"

text \<open>The steps of one request: numbered from one, decided from the front.\<close>

definition steps_ok :: "approval_step list \<Rightarrow> bool" where
  "steps_ok sts \<longleftrightarrow> sts \<noteq> [] \<and> map as_step_no sts = [1 ..< length sts + 1] \<and>
     (\<forall>s\<in>set (dropWhile decided sts). \<not> decided s) \<and>
     (\<forall>s\<in>set sts. as_decision_code s \<in> {None, Some ''APPROVED'', Some ''REJECTED''})"

definition approvals_ok :: "approval_db \<Rightarrow> bool" where
  "approvals_ok db \<longleftrightarrow>
     distinct (map ar_id (ap_requests db)) \<and> (\<forall>r\<in>set (ap_requests db). ar_id r < ap_request_seq db) \<and>
     (\<forall>s\<in>set (ap_steps db). as_request_id s < ap_request_seq db) \<and>
     (\<forall>r\<in>set (ap_requests db). steps_ok (steps_of db (ar_id r)) \<and> ar_status_code r = status_name (abs_of db (ar_id r))) \<and>
     (\<forall>r\<in>set (ap_requests db). \<forall>q\<in>set (ap_requests db).
        ar_status_code r = ''PENDING'' \<and> ar_status_code q = ''PENDING'' \<and>
        same_target (ar_target_type_code q) (ar_target_id q) (ar_type_code q) r \<longrightarrow> r = q) \<and>
     notes_ok (ap_notes db)"

section \<open>Steps in order\<close>

lemma insort_key_map: "(\<And>y. key (f y) = key y) \<Longrightarrow> insort_key key (f x) (map f xs) = map f (insort_key key x xs)"
  by (induction xs) auto

lemma sort_key_map: "(\<And>y. key (f y) = key y) \<Longrightarrow> sort_key key (map f xs) = map f (sort_key key xs)"
  by (induction xs) (auto simp: insort_key_map)

lemma steps_of_write_decision:
  "steps_of (write_decision db i n c t comment) j =
     (if j = i then map (\<lambda>s. if as_step_no s = n
        then s\<lparr>as_decision_code := Some c, as_decision_at := Some t, as_comment := comment\<rparr> else s) (steps_of db i)
      else steps_of db j)"
proof -
  let ?g = "\<lambda>s. if as_request_id s = i \<and> as_step_no s = n
    then s\<lparr>as_decision_code := Some c, as_decision_at := Some t, as_comment := comment\<rparr> else s"
  have "filter (\<lambda>s. as_request_id s = j) (map ?g (ap_steps db)) = map ?g (filter (\<lambda>s. as_request_id s = j) (ap_steps db))"
    by (auto simp: filter_map comp_def intro!: arg_cong [where f = "map ?g"] filter_cong)
  then have "steps_of (write_decision db i n c t comment) j = map ?g (steps_of db j)"
    by (simp add: steps_of_def write_decision_def sort_key_map)
  also have "\<dots> = (if j = i then map (\<lambda>s. if as_step_no s = n
      then s\<lparr>as_decision_code := Some c, as_decision_at := Some t, as_comment := comment\<rparr> else s) (steps_of db i)
    else steps_of db j)"
    by (auto simp: steps_of_def intro!: map_idI)
  finally show ?thesis .
qed

lemma sorted_steps: "sorted (map as_step_no (steps_of db i))"
  by (simp add: steps_of_def)

lemma currentStep_rows:
  "currentStep (step_rows db i) = map_option step_row (find (\<lambda>s. \<not> decided s) (steps_of db i))"
proof -
  have "sort_key sr_stepNo (step_rows db i) = step_rows db i"
    using sorted_steps [of db i] by (intro sort_key_id_if_sorted) (simp add: step_rows_def comp_def)
  moreover have "find (\<lambda>s. sr_decisionCode s = None) (map step_row sts) = map_option step_row (find (\<lambda>s. \<not> decided s) sts)" for sts
    by (induction sts) (auto simp: decided_def)
  ultimately show ?thesis by (simp add: currentStep_def step_rows_def)
qed

text \<open>The first undecided step splits the list.\<close>

lemma find_undecided:
  "find (\<lambda>s. \<not> decided s) sts = (case dropWhile decided sts of [] \<Rightarrow> None | s # _ \<Rightarrow> Some s)"
  by (induction sts) auto

text \<open>Deciding the current step of a well-formed list.\<close>

definition set_decision :: "nat \<Rightarrow> code \<Rightarrow> int \<Rightarrow> string option \<Rightarrow> approval_step \<Rightarrow> approval_step" where
  "set_decision n c t comment s =
     (if as_step_no s = n then s\<lparr>as_decision_code := Some c, as_decision_at := Some t, as_comment := comment\<rparr> else s)"

lemma set_decision_fields [simp]:
  "as_step_no (set_decision n c t comment s) = as_step_no s" "as_approver_id (set_decision n c t comment s) = as_approver_id s"
  "as_request_id (set_decision n c t comment s) = as_request_id s"
  "as_decision_code (set_decision n c t comment s) = (if as_step_no s = n then Some c else as_decision_code s)"
  by (simp_all add: set_decision_def)

lemma abs_decide_step:
  assumes ok: "steps_ok sts" and left: "dropWhile decided sts = cur # left"
    and over: "\<not> list_ex (\<lambda>s. as_decision_code s = Some ''REJECTED'') (takeWhile decided sts)"
  shows "abs_decide (abs_steps sts) (as_approver_id cur) d =
      Some (abs_steps (map (set_decision (as_step_no cur) (decision_code d) t comment) sts))"
    and "steps_ok (map (set_decision (as_step_no cur) (decision_code d) t comment) sts)"
    and "as_step_no cur = as_step_no (last sts) \<longleftrightarrow> left = []"
    and "abs_steps sts = Waiting (map as_approver_id (takeWhile decided sts)) (as_approver_id cur # map as_approver_id left)"
proof -
  let ?over = "takeWhile decided sts" and ?f = "set_decision (as_step_no cur) (decision_code d) t comment"
  have sts: "sts = ?over @ cur # left" using left by (metis takeWhile_dropWhile_id)
  have "distinct (map as_step_no sts)" using ok by (simp add: steps_ok_def)
  then have dist: "as_step_no cur \<notin> as_step_no ` set ?over" "as_step_no cur \<notin> as_step_no ` set left"
    by (subst (asm) sts, auto)+
  have ne: "?f s = s" if "as_step_no s \<noteq> as_step_no cur" for s using that by (simp add: set_decision_def)
  have "map ?f ?over = ?over" "map ?f left = left"
    by (rule map_idI, rule ne, metis dist(1) image_eqI) (rule map_idI, rule ne, metis dist(2) image_eqI)
  then have upd: "map ?f sts = ?over @ ?f cur # left" by (subst sts) simp
  have undec: "\<forall>s\<in>set left. \<not> decided s" using ok left by (simp add: steps_ok_def)
  have dec: "decided (?f cur)" by (simp add: decided_def)
  have all: "\<forall>s\<in>set ?over. decided s" by (auto dest: set_takeWhileD)
  have split: "takeWhile decided (map ?f sts) = ?over @ [?f cur]" "dropWhile decided (map ?f sts) = left"
    unfolding upd using all dec undec by (auto simp: takeWhile_append2 dropWhile_append2 takeWhile_eq_Nil_iff dropWhile_eq_self_iff)
  show waiting: "abs_steps sts = Waiting (map as_approver_id ?over) (as_approver_id cur # map as_approver_id left)"
    using over by (simp add: abs_steps_def left Let_def)
  have "abs_steps (map ?f sts) =
      (if d = REJECT then Refused (map as_approver_id ?over @ [as_approver_id cur]) (map as_approver_id left)
       else if left = [] then Granted (map as_approver_id ?over @ [as_approver_id cur])
       else Waiting (map as_approver_id ?over @ [as_approver_id cur]) (map as_approver_id left))"
    using over unfolding abs_steps_def Let_def split by (cases d) (auto simp: decision_code_def)
  then show "abs_decide (abs_steps sts) (as_approver_id cur) d = Some (abs_steps (map ?f sts))"
    unfolding waiting by (cases d) auto
  show "steps_ok (map ?f sts)"
    using ok undec unfolding steps_ok_def split by (cases d) (auto simp: comp_def decision_code_def)
  show "as_step_no cur = as_step_no (last sts) \<longleftrightarrow> left = []"
  proof (cases "left = []")
    case True
    then show ?thesis by (subst sts) simp
  next
    case False
    then have "last sts = last left" by (subst sts) simp
    moreover have "last left \<in> set left" using False by simp
    ultimately show ?thesis using dist(2) False by auto
  qed
qed

section \<open>What a decision changes\<close>

definition approval_action :: "Decision_code \<Rightarrow> ActionName" where
  "approval_action d = (case d of APPROVE \<Rightarrow> ''approval-approve'' | REJECT \<Rightarrow> ''approval-reject'')"

lemma approval_transition:
  "\<exists>t. find_transition TRANSITIONS APPROVAL_STATUS_COLUMN (approval_action d) = Some t \<and>
     tr_from t = [''PENDING''] \<and> tr_to t = decision_code d"
proof -
  have "(case find_transition TRANSITIONS APPROVAL_STATUS_COLUMN ''approval-approve'' of
      None \<Rightarrow> False | Some t \<Rightarrow> tr_from t = [''PENDING''] \<and> tr_to t = ''APPROVED'')"
    and "(case find_transition TRANSITIONS APPROVAL_STATUS_COLUMN ''approval-reject'' of
      None \<Rightarrow> False | Some t \<Rightarrow> tr_from t = [''PENDING''] \<and> tr_to t = ''REJECTED'')"
    by code_simp+
  then show ?thesis by (cases d) (auto simp: approval_action_def decision_code_def split: option.splits)
qed

lemma assert_approval:
  "assertTransition TRANSITIONS APPROVAL_STATUS_COLUMN (approval_action d) s BAD_REQUEST =
     (case find_transition TRANSITIONS APPROVAL_STATUS_COLUMN (approval_action d) of
        None \<Rightarrow> Inl InternalError
      | Some t \<Rightarrow> if s = ''PENDING'' then Inr t else Inl (ContractException BAD_REQUEST [screen_item ''STATE_LOCKED''] []))"
  using approval_transition [of d]
  by (auto simp: assertTransition_def BAD_REQUEST_def CONFLICT_def)

lemma steps_of_requests [simp]:
  "steps_of (db\<lparr>ap_requests := rs\<rparr>) = steps_of db" "steps_of (db\<lparr>ap_notes := ns\<rparr>) = steps_of db"
  "steps_of (db\<lparr>ap_request_seq := n\<rparr>) = steps_of db"
  by (auto simp: steps_of_def fun_eq_iff)

lemma notifyCurrentStep_effect:
  assumes "notes_ok (ap_notes db)" and "find_request db i = Some r"
  shows "\<exists>notes. notifyCurrentStep names db i t = Inr (db\<lparr>ap_notes := notes\<rparr>) \<and> notes_ok notes"
proof (cases "find (\<lambda>s. as_decision_code s = None) (steps_of db i)")
  case None
  with assms show ?thesis by (intro exI [of _ "ap_notes db"]) (simp add: notifyCurrentStep_def)
next
  case (Some cur)
  have "emit_valid (arrival_notice names db r cur t)"
    by (simp add: emit_valid_def arrival_notice_def notificationEvent_def NOTIFICATION_EVENTS_def)
  then obtain x nn where e: "emit (ap_notes db) (arrival_notice names db r cur t) = Inr (x, nn)"
    using emitter.total [OF assms(1)] by blast
  with emitter.keeps [OF e assms(1)] Some assms(2) show ?thesis by (auto simp: notifyCurrentStep_def)
qed

text \<open>The request row after the conditional update.\<close>

definition bumped :: "code option \<Rightarrow> approval_request \<Rightarrow> approval_request" where
  "bumped status r = r\<lparr>ar_version_no := ar_version_no r + 1, ar_status_code := (case status of None \<Rightarrow> ar_status_code r | Some s \<Rightarrow> s)\<rparr>"

lemma bumped_fields [simp]:
  "ar_id (bumped s r) = ar_id r" "same_target a b c (bumped s r) = same_target a b c r"
  "ar_status_code (bumped s r) = (case s of None \<Rightarrow> ar_status_code r | Some c \<Rightarrow> c)"
  "ar_version_no (bumped s r) = ar_version_no r + 1" "ar_target_type_code (bumped s r) = ar_target_type_code r"
  "ar_target_id (bumped s r) = ar_target_id r" "ar_type_code (bumped s r) = ar_type_code r"
  by (simp_all add: bumped_def same_target_def)

definition with_request :: "approval_db \<Rightarrow> id \<Rightarrow> code option \<Rightarrow> approval_request list" where
  "with_request db i status = map (\<lambda>r. if ar_id r = i then bumped status r else r) (ap_requests db)"

lemma filter_by_key: "distinct (map key xs) \<Longrightarrow> x \<in> set xs \<Longrightarrow> filter (\<lambda>y. key y = key x) xs = [x]"
proof (induction xs)
  case Nil
  then show ?case by simp
next
  case (Cons y xs)
  then show ?case
  proof (cases "x = y")
    case True
    with Cons.prems(1) have "filter (\<lambda>z. key z = key x) xs = []" by (auto simp: filter_empty_conv, metis image_eqI)
    with True show ?thesis by simp
  next
    case False
    with Cons.prems have "key y \<noteq> key x" by force
    with False Cons show ?thesis by simp
  qed
qed

lemma bump_request_hit:
  assumes "distinct (map ar_id (ap_requests db))" and "find_request db i = Some r"
  shows "bump_request db i (ar_version_no r) status = (1, db\<lparr>ap_requests := with_request db i status\<rparr>)"
proof -
  have r: "r \<in> set (ap_requests db)" "ar_id r = i" using assms(2) by (auto simp: find_request_def dest: find_key)
  have "(ar_id q = i \<and> ar_version_no q = ar_version_no r) = (ar_id q = i)" if "q \<in> set (ap_requests db)" for q
    using assms(1) r that by (metis distinct_map inj_onD)
  moreover have "filter (\<lambda>q. ar_id q = i) (ap_requests db) = [r]" using filter_by_key [OF assms(1) r(1)] r(2) by simp
  ultimately show ?thesis
    by (simp add: bump_request_def with_request_def bumped_def Let_def cong: filter_cong map_cong)
qed

lemma find_with_request:
  "find_request (db\<lparr>ap_requests := with_request db i status\<rparr>) j =
     map_option (\<lambda>r. if j = i then bumped status r else r) (find_request db j)"
proof -
  have "find (\<lambda>r. ar_id r = j) (map (\<lambda>r. if ar_id r = i then bumped status r else r) rs) =
      map_option (\<lambda>r. if j = i then bumped status r else r) (find (\<lambda>r. ar_id r = j) rs)" for rs
    by (induction rs) auto
  then show ?thesis by (simp add: find_request_def with_request_def)
qed

definition closing_status :: "approval \<Rightarrow> code option" where
  "closing_status a = (case a of Waiting over left \<Rightarrow> None | _ \<Rightarrow> Some (status_name a))"

definition decided_db :: "approval_db \<Rightarrow> id \<Rightarrow> nat \<Rightarrow> code \<Rightarrow> int \<Rightarrow> string option \<Rightarrow> approval \<Rightarrow> note_db \<Rightarrow> approval_db" where
  "decided_db db i n c t comment a nn =
     (write_decision db i n c t comment)\<lparr>ap_requests := with_request db i (closing_status a), ap_notes := nn\<rparr>"

lemma abs_waiting_split:
  assumes "steps_ok sts" and "abs_steps sts = Waiting over (actor # left)"
  obtains cur rest where "dropWhile decided sts = cur # rest" and "as_approver_id cur = actor"
    and "\<not> list_ex (\<lambda>s. as_decision_code s = Some ''REJECTED'') (takeWhile decided sts)"
proof -
  from assms(2) have no: "\<not> list_ex (\<lambda>s. as_decision_code s = Some ''REJECTED'') (takeWhile decided sts)"
    and d: "map as_approver_id (dropWhile decided sts) = actor # left"
    by (auto simp: abs_steps_def Let_def split: if_splits)
  from d obtain cur rest where "dropWhile decided sts = cur # rest" "as_approver_id cur = actor" by auto
  with no show ?thesis using that by blast
qed

lemma abs_decide_Some:
  assumes "abs_decide a actor d = Some a'"
  obtains over left where "a = Waiting over (actor # left)"
    and "a' = (if d = REJECT then Refused (over @ [actor]) left
               else if left = [] then Granted (over @ [actor]) else Waiting (over @ [actor]) left)"
  using assms by (cases "(a, actor, d)" rule: abs_decide.cases) (auto split: if_splits)

lemma decide_runs:
  assumes ok: "approvals_ok db" and r: "find_request db i = Some r"
    and step: "abs_decide (abs_of db i) actor d = Some a'"
  obtains res n nn where "decide names db i (ar_version_no r) actor d comment t =
      Inr (res, decided_db db i n (decision_code d) t comment a' nn)"
    and "notes_ok nn" and "dr_statusCode res = status_name a'" and "dr_versionNo res = ar_version_no r + 1"
    and "abs_steps (map (set_decision n (decision_code d) t comment) (steps_of db i)) = a'"
    and "steps_ok (map (set_decision n (decision_code d) t comment) (steps_of db i))"
proof -
  have rin: "r \<in> set (ap_requests db)" "ar_id r = i" using r by (auto simp: find_request_def dest: find_key)
  have sok: "steps_ok (steps_of db i)" and status: "ar_status_code r = status_name (abs_of db i)"
    using ok rin by (auto simp: approvals_ok_def)
  obtain over left where w: "abs_of db i = Waiting over (actor # left)"
    and a': "a' = (if d = REJECT then Refused (over @ [actor]) left
               else if left = [] then Granted (over @ [actor]) else Waiting (over @ [actor]) left)"
    using step by (rule abs_decide_Some)
  obtain cur rest where cur: "dropWhile decided (steps_of db i) = cur # rest" "as_approver_id cur = actor"
    "\<not> list_ex (\<lambda>s. as_decision_code s = Some ''REJECTED'') (takeWhile decided (steps_of db i))"
    using abs_waiting_split [OF sok] w by (metis abs_of_def)
  note dec = abs_decide_step(1,2) [OF sok cur(1,3), of d t comment] abs_decide_step(3,4) [OF sok cur(1,3)]
  have left: "left = map as_approver_id rest" using dec(4) w by (simp add: abs_of_def)
  have pending: "ar_status_code r = ''PENDING''" using status w by simp
  obtain tr where tr: "find_transition TRANSITIONS APPROVAL_STATUS_COLUMN (approval_action d) = Some tr" "tr_to tr = decision_code d"
    using approval_transition by blast
  have find: "find (\<lambda>s. \<not> decided s) (steps_of db i) = Some cur" by (simp add: find_undecided cur(1))
  then have cs: "currentStep (step_rows db i) = Some (step_row cur)" by (simp add: currentStep_rows)
  have actor_in: "list_ex (\<lambda>s. sr_approverId s = actor) (step_rows db i)"
    using find cur(2) by (auto simp: step_rows_def list_ex_iff find_Some_iff intro!: bexI [of _ cur])
  have "steps_of db i \<noteq> []" using cur(1) by auto
  then have last: "sr_stepNo (last (step_rows db i)) = as_step_no (last (steps_of db i))"
    by (simp add: step_rows_def last_map)
  let ?n = "as_step_no cur" and ?closes = "d = REJECT \<or> rest = []"
  let ?db1 = "write_decision db i ?n (decision_code d) t comment"
  let ?db2 = "?db1\<lparr>ap_requests := with_request db i (closing_status a')\<rparr>"
  have status': "(if ?closes then Some (tr_to tr) else None) = closing_status a'"
    using a' left tr(2) by (cases d) (auto simp: closing_status_def decision_code_def)
  have "find_request ?db1 i = Some r" using r by (simp add: find_request_def write_decision_def)
  then have bump: "bump_request ?db1 i (ar_version_no r) (closing_status a') = (1, ?db2)"
    using bump_request_hit [of ?db1 i r "closing_status a'"] ok by (simp add: approvals_ok_def write_decision_def with_request_def)
  have told: "notes_ok (ap_notes ?db2)" using ok by (simp add: approvals_ok_def write_decision_def)
  have "find_request ?db2 i = Some (bumped (closing_status a') r)"
    using find_with_request [of ?db1 i "closing_status a'" i] \<open>find_request ?db1 i = Some r\<close>
    by (simp add: with_request_def write_decision_def)
  from notifyCurrentStep_effect [OF told this, of names t] obtain nn
    where nn: "notifyCurrentStep names ?db2 i t = Inr (?db2\<lparr>ap_notes := nn\<rparr>)" "notes_ok nn" by blast
  let ?nn = "if ?closes then ap_notes ?db2 else nn"
  have final: "(if ?closes then Inr ?db2 else notifyCurrentStep names ?db2 i t) =
      Inr (decided_db db i ?n (decision_code d) t comment a' ?nn)"
    using nn(1) by (simp add: decided_db_def)
  have code: "(if ?closes then tr_to tr else ar_status_code r) = status_name a'"
    using a' left tr(2) pending by (cases d) (auto simp: decision_code_def)
  let ?res = "\<lparr>dr_requestId = i, dr_statusCode = status_name a', dr_versionNo = ar_version_no r + 1,
    dr_steps = map (\<lambda>s. if sr_stepNo s = ?n then s\<lparr>sr_decisionCode := Some (decision_code d)\<rparr> else s) (step_rows db i)\<rparr>"
  have "decide names db i (ar_version_no r) actor d comment t =
      Inr (?res, decided_db db i ?n (decision_code d) t comment a' ?nn)"
    unfolding decide_def r option.case approval_action_def [symmetric] assert_approval tr(1) pending bind_res_Inr if_P [OF refl]
    using actor_in cs cur(2) code pending
    by (auto simp: assertUpdated_def Let_def last dec(3) status' bump final split: if_splits)
  moreover have "notes_ok ?nn" using nn(2) told by simp
  moreover have "abs_steps (map (set_decision ?n (decision_code d) t comment) (steps_of db i)) = a'"
    using dec(1) step cur(2) by (simp add: abs_of_def)
  ultimately show ?thesis using that dec(2) by simp
qed

lemma steps_of_decided:
  "steps_of (decided_db db i n c t comment a nn) j =
     (if j = i then map (set_decision n c t comment) (steps_of db i) else steps_of db j)"
proof -
  have "set_decision n c t comment = (\<lambda>s. if as_step_no s = n
      then s\<lparr>as_decision_code := Some c, as_decision_at := Some t, as_comment := comment\<rparr> else s)"
    by (simp add: fun_eq_iff set_decision_def)
  then show ?thesis by (simp add: decided_db_def steps_of_write_decision)
qed

lemma decided_db_requests [simp]:
  "ap_requests (decided_db db i n c t comment a nn) = with_request db i (closing_status a)"
  "ap_request_seq (decided_db db i n c t comment a nn) = ap_request_seq db"
  "ap_notes (decided_db db i n c t comment a nn) = nn"
  "find_request (decided_db db i n c t comment a nn) j =
     map_option (\<lambda>r. if j = i then bumped (closing_status a) r else r) (find_request db j)"
  using find_with_request [of db i "closing_status a" j]
  by (simp_all add: decided_db_def write_decision_def find_request_def)

lemma decided_db_steps:
  "s \<in> set (ap_steps (decided_db db i n c t comment a nn)) \<Longrightarrow> \<exists>s'\<in>set (ap_steps db). as_request_id s = as_request_id s'"
  by (auto simp: decided_db_def write_decision_def)

lemma closing_status_name:
  assumes "abs_decide a actor d = Some a'" and "ar_status_code r = status_name a"
  shows "ar_status_code (bumped (closing_status a') r) = status_name a'"
  by (rule abs_decide_Some [OF assms(1)]) (use assms(2) in \<open>auto simp: closing_status_def split: approval.splits if_splits\<close>)

lemma decided_db_ok:
  assumes ok: "approvals_ok db" and r: "find_request db i = Some r" and step: "abs_decide (abs_of db i) actor d = Some a'"
    and a': "abs_steps (map (set_decision n (decision_code d) t comment) (steps_of db i)) = a'"
    and sok: "steps_ok (map (set_decision n (decision_code d) t comment) (steps_of db i))" and nn: "notes_ok nn"
  shows "approvals_ok (decided_db db i n (decision_code d) t comment a' nn)"
proof -
  let ?db = "decided_db db i n (decision_code d) t comment a' nn" and ?b = "\<lambda>q. if ar_id q = i then bumped (closing_status a') q else q"
  have req: "ap_requests ?db = map ?b (ap_requests db)" by (simp add: with_request_def)
  have id: "ar_id (?b q) = ar_id q" for q by simp
  have "abs_of ?db i = a'" using a' by (simp add: abs_of_def steps_of_decided)
  moreover have "abs_of ?db j = abs_of db j" if "j \<noteq> i" for j using that by (simp add: abs_of_def steps_of_decided)
  ultimately have row: "steps_ok (steps_of ?db (ar_id (?b q))) \<and> ar_status_code (?b q) = status_name (abs_of ?db (ar_id (?b q)))"
    if "q \<in> set (ap_requests db)" for q
    using ok that sok closing_status_name [OF step, of q] by (auto simp: approvals_ok_def steps_of_decided)
  have pending: "ar_status_code q = ''PENDING''" if "q \<in> set (ap_requests db)" "ar_status_code (?b q) = ''PENDING''" for q
    using that by (auto simp: closing_status_def split: approval.splits if_splits)
  have unique: "?b q = ?b p" if q: "q \<in> set (ap_requests db)" and p: "p \<in> set (ap_requests db)"
    and "ar_status_code (?b q) = ''PENDING''" "ar_status_code (?b p) = ''PENDING''"
    and same: "same_target (ar_target_type_code (?b p)) (ar_target_id (?b p)) (ar_type_code (?b p)) (?b q)" for q p
  proof -
    have "same_target (ar_target_type_code p) (ar_target_id p) (ar_type_code p) q" using same by (simp split: if_splits)
    with pending [OF q] pending [OF p] that(3,4) ok q p have "q = p" unfolding approvals_ok_def by blast
    then show ?thesis by simp
  qed
  have "map ar_id (map ?b (ap_requests db)) = map ar_id (ap_requests db)" by simp
  then have "distinct (map ar_id (map ?b (ap_requests db)))" using ok unfolding approvals_ok_def by metis
  moreover have "\<forall>s\<in>set (ap_steps ?db). as_request_id s < ap_request_seq db"
    using ok decided_db_steps [of _ db i n "decision_code d" t comment a' nn] by (fastforce simp: approvals_ok_def)
  moreover have "\<forall>q\<in>set (map ?b (ap_requests db)). ar_id q < ap_request_seq db" using ok by (auto simp: approvals_ok_def)
  moreover have "\<forall>q\<in>set (map ?b (ap_requests db)). steps_ok (steps_of ?db (ar_id q)) \<and> ar_status_code q = status_name (abs_of ?db (ar_id q))"
    using row by (simp only: set_map ball_simps) blast
  moreover have "\<forall>q\<in>set (map ?b (ap_requests db)). \<forall>p\<in>set (map ?b (ap_requests db)).
      ar_status_code q = ''PENDING'' \<and> ar_status_code p = ''PENDING'' \<and>
      same_target (ar_target_type_code p) (ar_target_id p) (ar_type_code p) q \<longrightarrow> q = p"
    using unique by (simp only: set_map ball_simps) blast
  ultimately show ?thesis using nn unfolding approvals_ok_def req by simp
qed

lemma decide_only_if:
  assumes ok: "approvals_ok db" and run: "decide names db i version actor d comment t = Inr out"
  shows "\<exists>r a'. find_request db i = Some r \<and> version = ar_version_no r \<and> abs_decide (abs_of db i) actor d = Some a'"
proof -
  from run obtain r where r: "find_request db i = Some r" by (auto simp: decide_def split: option.splits)
  obtain tr where "find_transition TRANSITIONS APPROVAL_STATUS_COLUMN (approval_action d) = Some tr"
    using approval_transition by blast
  with run r have pending: "ar_status_code r = ''PENDING''" and version: "version = ar_version_no r"
    and cs: "\<exists>c. currentStep (step_rows db i) = Some c \<and> sr_approverId c = actor"
    unfolding decide_def r option.case approval_action_def [symmetric] assert_approval
    by (auto simp: res_simps assertUpdated_def Let_def split: if_splits option.splits)
  have rin: "r \<in> set (ap_requests db)" "ar_id r = i" using r by (auto simp: find_request_def dest: find_key)
  then have status: "status_name (abs_of db i) = ''PENDING''" using ok pending by (auto simp: approvals_ok_def)
  from cs obtain cur where "find (\<lambda>s. \<not> decided s) (steps_of db i) = Some cur" "as_approver_id cur = actor"
    by (auto simp: currentStep_rows)
  then obtain rest where drop: "dropWhile decided (steps_of db i) = cur # rest" and "as_approver_id cur = actor"
    by (auto simp: find_undecided split: list.splits)
  then have "\<exists>over. abs_of db i = Waiting over (actor # map as_approver_id rest)"
    using status by (auto simp: abs_of_def abs_steps_def Let_def split: if_splits)
  then have "\<exists>a'. abs_decide (abs_of db i) actor d = Some a'" by (cases d) auto
  with r version show ?thesis by blast
qed

section \<open>What raising a request changes\<close>

lemma expanded_steps:
  assumes "map_res (expanded_step i) (zip [k..<k + length rows] rows) = Inr data"
  shows "map as_step_no data = [k + 1..<k + 1 + length rows] \<and> (\<forall>s\<in>set data. as_request_id s = i \<and> as_decision_code s = None)"
  using assms
proof (induction rows arbitrary: k data)
  case Nil
  then show ?case by simp
next
  case (Cons x rows)
  have "zip [k..<k + length (x # rows)] (x # rows) = (k, x) # zip [Suc k..<Suc k + length rows] rows"
    by (simp add: upt_conv_Cons del: upt_Suc)
  with Cons.prems obtain s data' where s: "expanded_step i (k, x) = Inr s" "data = s # data'"
    "map_res (expanded_step i) (zip [Suc k..<Suc k + length rows] rows) = Inr data'"
    by (auto simp: res_simps simp del: upt_Suc)
  have "as_step_no s = k + 1" "as_request_id s = i" "as_decision_code s = None"
    using s(1) by (auto simp: expanded_step_def split: option.splits if_splits)
  moreover have "[k + 1..<k + 1 + length (x # rows)] = (k + 1) # [Suc k + 1..<Suc k + 1 + length rows]"
    by (simp add: upt_conv_Cons del: upt_Suc)
  ultimately show ?case using Cons.IH [OF s(3)] s(2) by (simp del: upt_Suc)
qed

lemma fresh_steps_ok:
  assumes "map as_step_no data = [1..<1 + length data]" and "data \<noteq> []" and "\<forall>s\<in>set data. as_decision_code s = None"
  shows "steps_ok data \<and> abs_steps data = Waiting [] (map as_approver_id data)"
proof -
  have "takeWhile decided data = []" "dropWhile decided data = data"
    using assms(2,3) by (cases data; simp add: decided_def)+
  with assms show ?thesis by (simp add: steps_ok_def abs_steps_def decided_def)
qed

lemma request_approval_effect:
  assumes ok: "approvals_ok db" and run: "request_approval names db input t = Inr (i, db')"
  shows "approvals_ok db' \<and> i = ap_request_seq db \<and>
    (\<exists>r. find_request db' i = Some r \<and> ar_version_no r = 1 \<and>
       same_target (ri_targetTypeCode input) (ri_targetId input) (ri_approvalTypeCode input) r) \<and>
    (\<exists>left. left \<noteq> [] \<and> abs_of db' i = Waiting [] left) \<and>
    (\<forall>j r. find_request db j = Some r \<longrightarrow> find_request db' j = Some r \<and> abs_of db' j = abs_of db j)"
proof -
  from run obtain route db1 db2 where free: "assertNoOpenRequest db (ri_targetTypeCode input) (ri_targetId input) (ri_approvalTypeCode input) = Inr ()"
    and c: "create_request db input t = Inr (i, db1)" and e: "expandSteps db1 route i = Inr db2"
    and n: "notifyCurrentStep names db2 i t = Inr db'"
    by (auto simp: request_approval_def res_simps split: if_splits)
  obtain req where i: "i = ap_request_seq db" and db1: "db1 = db\<lparr>ap_requests := ap_requests db @ [req], ap_request_seq := ap_request_seq db + 1\<rparr>"
    and req: "ar_id req = i" "ar_status_code req = ''PENDING''" "ar_version_no req = 1"
      "same_target (ri_targetTypeCode input) (ri_targetId input) (ri_approvalTypeCode input) req"
    using c by (auto simp: create_request_def same_target_def split: if_splits)
  obtain data where db2: "db2 = db1\<lparr>ap_steps := ap_steps db1 @ data\<rparr>"
    and data: "map_res (expanded_step i) (zip [0..<length (route_steps db1 route)] (route_steps db1 route)) = Inr data"
    and rows: "route_steps db1 route \<noteq> []"
    using e by (auto simp: expandSteps_def Let_def res_simps split: if_splits)
  note ex = expanded_steps [of i 0 "route_steps db1 route" data] data
  have len: "length data = length (route_steps db1 route)" using map_res_length [OF data] by simp
  have numbered: "map as_step_no data = [1..<1 + length data]" "\<forall>s\<in>set data. as_request_id s = i \<and> as_decision_code s = None"
    using ex len by auto
  have ne: "data \<noteq> []" using rows len by fastforce
  have fresh: "steps_ok data \<and> abs_steps data = Waiting [] (map as_approver_id data)"
    using fresh_steps_ok [OF numbered(1) ne] numbered(2) by blast
  have old: "as_request_id s < i" if "s \<in> set (ap_steps db)" for s using ok that i by (auto simp: approvals_ok_def)
  have new_steps: "steps_of db2 i = data"
  proof -
    have "filter (\<lambda>s. as_request_id s = i) (ap_steps db) = []" using old by (auto simp: filter_empty_conv)
    moreover have "filter (\<lambda>s. as_request_id s = i) data = data" using numbered(2) by simp
    moreover have "sort_key as_step_no data = data" using numbered(1) by (intro sort_key_id_if_sorted) (simp only: sorted_upt)
    ultimately show ?thesis by (simp add: steps_of_def db2 db1)
  qed
  have old_steps: "steps_of db2 j = steps_of db j" if "j \<noteq> i" for j
    using that numbered(2) by (auto simp: steps_of_def db2 db1 filter_empty_conv)
  obtain nn where db': "db' = db2\<lparr>ap_notes := nn\<rparr>" "notes_ok nn"
  proof -
    have "find_request db2 i \<noteq> None" using req(1) by (auto simp: find_request_def db2 db1 find_None_iff)
    moreover have "notes_ok (ap_notes db2)" using ok by (simp add: approvals_ok_def db2 db1)
    ultimately show ?thesis using notifyCurrentStep_effect [of db2 i _ names t] n that by auto
  qed
  have ids: "ar_id r < i" if "r \<in> set (ap_requests db)" for r using ok that i by (auto simp: approvals_ok_def)
  have abs: "abs_of db' j = (if j = i then abs_steps data else abs_of db j)" for j
    using new_steps old_steps by (simp add: abs_of_def db')
  have st: "steps_of db' j = (if j = i then data else steps_of db j)" for j
    using new_steps old_steps by (simp add: db')
  have no_open: "\<not> (same_target (ri_targetTypeCode input) (ri_targetId input) (ri_approvalTypeCode input) r \<and> ar_status_code r = ''PENDING'')"
    if "r \<in> set (ap_requests db)" for r
    using free that by (auto simp: assertNoOpenRequest_def find_None_iff split: option.splits)
  have "approvals_ok db'"
    unfolding approvals_ok_def
  proof (intro conjI)
    show "distinct (map ar_id (ap_requests db'))" using ok ids req(1) by (force simp: db' db2 db1 approvals_ok_def)
    show "\<forall>r\<in>set (ap_requests db'). ar_id r < ap_request_seq db'" using ids req(1) i by (force simp: db' db2 db1)
    show "\<forall>s\<in>set (ap_steps db'). as_request_id s < ap_request_seq db'" using old numbered(2) i by (force simp: db' db2 db1)
    show "\<forall>r\<in>set (ap_requests db'). steps_ok (steps_of db' (ar_id r)) \<and> ar_status_code r = status_name (abs_of db' (ar_id r))"
    proof
      fix r
      assume "r \<in> set (ap_requests db')"
      then consider "r = req" | "r \<in> set (ap_requests db)" "ar_id r \<noteq> i" using ids by (auto simp: db' db2 db1)
      then show "steps_ok (steps_of db' (ar_id r)) \<and> ar_status_code r = status_name (abs_of db' (ar_id r))"
      proof cases
        case 1
        then show ?thesis using fresh req(1,2) by (simp add: abs st)
      next
        case 2
        then show ?thesis using ok by (simp add: abs st approvals_ok_def)
      qed
    qed
    show "\<forall>r\<in>set (ap_requests db'). \<forall>q\<in>set (ap_requests db').
        ar_status_code r = ''PENDING'' \<and> ar_status_code q = ''PENDING'' \<and>
        same_target (ar_target_type_code q) (ar_target_id q) (ar_type_code q) r \<longrightarrow> r = q"
      using ok no_open req(4) by (auto simp: db' db2 db1 approvals_ok_def same_target_def)
    show "notes_ok (ap_notes db')" using db'(2) by (simp add: db'(1))
  qed
  moreover have "find_request db' i = Some req"
  proof -
    have "find (\<lambda>r. ar_id r = i) (ap_requests db) = None" using ids by (auto simp: find_None_iff)
    then show ?thesis using req(1) by (simp add: find_request_def db' db2 db1 find_append)
  qed
  moreover have "find_request db' j = Some r \<and> abs_of db' j = abs_of db j" if "find_request db j = Some r" for j r
  proof -
    have "r \<in> set (ap_requests db)" "ar_id r = j" using that by (auto simp: find_request_def dest: find_key)
    then have "j \<noteq> i" using ids by auto
    then show ?thesis using that by (simp add: abs) (simp add: find_request_def db' db2 db1 find_append)
  qed
  moreover have "abs_of db' i = Waiting [] (map as_approver_id data)" using abs fresh by simp
  moreover have "map as_approver_id data \<noteq> []" using ne by simp
  ultimately show ?thesis using i req(3,4) by blast
qed

section \<open>Properties\<close>

lemma decide_effect:
  assumes ok: "approvals_ok db" and run: "decide names db i version actor d comment t = Inr (res, db')"
  shows "abs_decide (abs_of db i) actor d = Some (abs_of db' i) \<and> dr_statusCode res = status_name (abs_of db' i) \<and>
    approvals_ok db' \<and>
    (\<exists>r'. find_request db' i = Some r' \<and> ar_version_no r' = version + 1 \<and> ar_status_code r' = status_name (abs_of db' i)) \<and>
    (\<forall>j. j \<noteq> i \<longrightarrow> find_request db' j = find_request db j \<and> abs_of db' j = abs_of db j)"
proof -
  obtain r a' where r: "find_request db i = Some r" "version = ar_version_no r" "abs_decide (abs_of db i) actor d = Some a'"
    using decide_only_if [OF ok run] by blast
  obtain res' n nn where d: "decide names db i (ar_version_no r) actor d comment t =
      Inr (res', decided_db db i n (decision_code d) t comment a' nn)"
    "notes_ok nn" "dr_statusCode res' = status_name a'" "dr_versionNo res' = ar_version_no r + 1"
    "abs_steps (map (set_decision n (decision_code d) t comment) (steps_of db i)) = a'"
    "steps_ok (map (set_decision n (decision_code d) t comment) (steps_of db i))"
    using decide_runs [OF ok r(1,3), of names comment t] by blast
  with run r(2) have db': "db' = decided_db db i n (decision_code d) t comment a' nn" "res = res'" by auto
  have "abs_of db' i = a'" using d(5) by (simp add: abs_of_def db' steps_of_decided)
  moreover have "abs_of db' j = abs_of db j \<and> find_request db' j = find_request db j" if "j \<noteq> i" for j
    using that by (cases "find_request db j") (simp_all add: abs_of_def db' steps_of_decided)
  moreover have "approvals_ok db'" using decided_db_ok [OF ok r(1,3) d(5,6,2)] by (simp add: db')
  moreover have "ar_status_code r = status_name (abs_of db i)"
    using ok r(1) by (auto simp: approvals_ok_def find_request_def dest!: find_key)
  then have "ar_status_code (bumped (closing_status a') r) = status_name a'" by (rule closing_status_name [OF r(3)])
  moreover have "find_request db' i = Some (bumped (closing_status a') r)" using r(1) by (simp add: db')
  ultimately show ?thesis using r(2,3) d(3) by (simp add: db'(2))
qed


inductive approval_run :: "(code \<Rightarrow> string) \<Rightarrow> approval_db \<Rightarrow> approval_db \<Rightarrow> bool" for names where
  start: "approval_run names db db"
| raised: "approval_run names db db' \<Longrightarrow> request_approval names db' input t = Inr (i, db'') \<Longrightarrow> approval_run names db db''"
| approved: "approval_run names db db' \<Longrightarrow> approve names db' i version actor comment t = Inr (res, db'') \<Longrightarrow> approval_run names db db''"
| rejected: "approval_run names db db' \<Longrightarrow> reject names db' i version actor why t = Inr (res, db'') \<Longrightarrow> approval_run names db db''"

definition is_over :: "approval \<Rightarrow> bool" where
  "is_over a = (case a of Waiting over left \<Rightarrow> False | _ \<Rightarrow> True)"

lemma over_not_decided: "is_over a \<Longrightarrow> abs_decide a actor d = None"
  by (cases a) (auto simp: is_over_def)

lemma decision_keeps_over:
  assumes "approvals_ok db" and "decide names db i version actor d comment t = Inr (res, db')"
    and "is_over (abs_of db j)" and "find_request db j = Some r"
  shows "find_request db' j = Some r \<and> abs_of db' j = abs_of db j"
  using decide_effect [OF assms(1,2)] over_not_decided [OF assms(3)] assms(4) by (cases "j = i") auto

lemma approval_run_keeps:
  assumes "approval_run names db db'" and "approvals_ok db"
  shows "approvals_ok db' \<and> (\<forall>j r. is_over (abs_of db j) \<and> find_request db j = Some r \<longrightarrow>
    find_request db' j = Some r \<and> abs_of db' j = abs_of db j)"
  using assms
proof (induction rule: approval_run.induct)
  case (start db)
  then show ?case by simp
next
  case (raised db db' input t i db'')
  then show ?case using request_approval_effect [of db' names input t i db''] by auto
next
  case (approved db db' i version actor comment t res db'')
  then have d: "decide names db' i version actor APPROVE comment t = Inr (res, db'')" and ok: "approvals_ok db'"
    by (simp_all add: approve_def)
  show ?case using approved.IH [OF approved.prems] decide_effect [OF ok d] decision_keeps_over [OF ok d] by metis
next
  case (rejected db db' i version actor why t res db'')
  then have d: "decide names db' i version actor REJECT (Some why) t = Inr (res, db'')" and ok: "approvals_ok db'"
    by (simp_all add: reject_def)
  show ?case using rejected.IH [OF rejected.prems] decide_effect [OF ok d] decision_keeps_over [OF ok d] by metis
qed

text \<open>C9. One open request per document and type, and a decision is final. From consistent tables, after any
  sequence of requests, approvals and rejections no document has two pending requests of one type, the
  stored status of every request is the one its steps stand for, and a request that was once granted or
  refused has kept its row, its status and its decisions.\<close>
theorem one_open_request:
  assumes "approval_run names db db'" and "approvals_ok db"
  shows "(\<forall>r\<in>set (ap_requests db'). \<forall>q\<in>set (ap_requests db'). ar_status_code r = ''PENDING'' \<and> ar_status_code q = ''PENDING'' \<and>
      same_target (ar_target_type_code q) (ar_target_id q) (ar_type_code q) r \<longrightarrow> r = q) \<and>
    (\<forall>r\<in>set (ap_requests db'). ar_status_code r = status_name (abs_of db' (ar_id r))) \<and>
    (\<forall>j r. is_over (abs_of db j) \<and> find_request db j = Some r \<longrightarrow>
      find_request db' j = Some r \<and> abs_of db' j = abs_of db j)"
proof -
  have ok: "approvals_ok db'" and final: "\<forall>j r. is_over (abs_of db j) \<and> find_request db j = Some r \<longrightarrow>
      find_request db' j = Some r \<and> abs_of db' j = abs_of db j"
    using approval_run_keeps [OF assms] by blast+
  from ok final show ?thesis unfolding approvals_ok_def by (intro conjI) (blast, blast, assumption)
qed

definition demo_approvals :: "approval_request list \<Rightarrow> approval_step list \<Rightarrow> approval_db" where
  "demo_approvals rs steps =
     \<lparr>ap_requests = rs, ap_steps = steps,
      ap_routes = [\<lparr>rt_id = 1, rt_type_code = ''PURCHASE_ORDER'', rt_business_unit_id = None, rt_is_active = True\<rparr>],
      ap_route_steps = [\<lparr>rs_route_id = 1, rs_step_no = 10, rs_approver_type_code = ''USER'', rs_approver_user_id = Some 7\<rparr>,
                        \<lparr>rs_route_id = 1, rs_step_no = 20, rs_approver_type_code = ''USER'', rs_approver_user_id = Some 8\<rparr>],
      ap_workers = [], ap_request_seq = 5, ap_notes = demo_notes\<lparr>nd_users := [], nd_department_settings := []\<rparr>\<rparr>"

definition demo_steps :: "approval_step list" where
  "demo_steps =
     [\<lparr>as_request_id = 4, as_step_no = 1, as_approver_id = 7, as_decision_code = None, as_decision_at = None, as_comment = None\<rparr>,
      \<lparr>as_request_id = 4, as_step_no = 2, as_approver_id = 8, as_decision_code = None, as_decision_at = None, as_comment = None\<rparr>]"

definition demo_request :: approval_request where
  "demo_request =
     \<lparr>ar_id = 4, ar_no = ''AP-4'', ar_type_code = ''PURCHASE_ORDER'', ar_target_type_code = ''PURCHASE_ORDER'', ar_target_id = 9,
      ar_requested_by = Some 7, ar_requested_worker_id = None, ar_requested_at = 0, ar_status_code = ''PENDING'',
      ar_reason = ''x'', ar_version_no = 1\<rparr>"

lemma demo_approvals_ok: "approvals_ok (demo_approvals [demo_request] demo_steps)" "approvals_ok (demo_approvals [] [])"
proof -
  have "notes_ok (demo_notes\<lparr>nd_users := [], nd_department_settings := []\<rparr>)"
    by (simp add: notes_ok_def settings_ok_def rows_ok_def demo_notes_def)
  then show "approvals_ok (demo_approvals [demo_request] demo_steps)" "approvals_ok (demo_approvals [] [])"
    by (simp_all add: approvals_ok_def demo_approvals_def demo_request_def demo_steps_def steps_of_def abs_of_def abs_steps_def
        steps_ok_def decided_def)
qed


definition demo_approval_input :: ApprovalRequestInput where
  "demo_approval_input =
     \<lparr>ri_approvalRequestNo = ''AP-5'', ri_approvalTypeCode = ''PURCHASE_ORDER'', ri_targetTypeCode = ''PURCHASE_ORDER'',
      ri_targetId = 9, ri_businessUnitId = None, ri_requestedBy = Some 7, ri_requestedWorkerId = None, ri_reason = ''x''\<rparr>"

theorem one_open_request_witness:
  "\<exists>db'. approval_run (\<lambda>c. c) (demo_approvals [] []) db' \<and> length (ap_requests db') = 1 \<and>
    (\<forall>r\<in>set (ap_requests db'). ar_status_code r = status_name (abs_of db' (ar_id r)))"
proof -
  have "(case request_approval (\<lambda>c. c) (demo_approvals [] []) demo_approval_input 0 of
      Inl e \<Rightarrow> False | Inr (i, db') \<Rightarrow> length (ap_requests db') = 1)"
    by code_simp
  then obtain i db' where e: "request_approval (\<lambda>c. c) (demo_approvals [] []) demo_approval_input 0 = Inr (i, db')"
    "length (ap_requests db') = 1"
    by (auto split: sum.splits)
  have run: "approval_run (\<lambda>c. c) (demo_approvals [] []) db'" by (rule raised [OF approval_run.start e(1)])
  from one_open_request [OF run demo_approvals_ok(2)] run e(2) show ?thesis by (intro exI [of _ db']) simp
qed

end
