(* ===== verification/Lot_Tables.thy ===== *)
theory Lot_Tables
  imports Js_Containers Api_Errors
begin

text \<open>
  The tables of the LOT core (\<open>src/core/lot\<close>): LOTs, their holds, the histories of the two status axes, the
  genealogy rows and the production and receipt rows the core reads. A table is the list of its rows in id
  order; a column no modelled code reads or writes is left out.
\<close>

section \<open>Rows\<close>

record lot_row =
  lot_id :: id
  lot_no :: string
  lot_item_id :: id
  lot_type_code :: code
  lot_plant_id :: id
  initial_qty :: decimal
  lot_uom_id :: id
  manufactured_at :: "int option"
  expiry_date :: "int option"
  source_type_code :: code
  source_id :: id
  lot_status_code :: code
  lifecycle_status_code :: "code option"
  parent_lot_id :: "id option"
  lot_remarks :: "string option"
  lot_created_by :: "id option"
  lot_version_no :: int
  lot_bom_id :: "id option"
  lot_bom_version :: "int option"
  work_order_lot_seq :: "nat option"

record lot_hold =
  hold_id :: id
  hold_lot_id :: id
  hold_reason_code :: code
  hold_status_code :: code
  hold_qty :: "decimal option"
  hold_uom_id :: "id option"
  release_condition :: "string option"
  target_lot_status_code :: "code option"
  hold_remarks :: "string option"
  held_by :: "id option"
  held_worker_id :: "id option"
  held_at :: int
  hold_created_by :: "id option"
  released_at :: "int option"
  released_by :: "id option"
  released_worker_id :: "id option"
  release_reason_code :: "code option"
  release_target_lot_status_code :: "code option"

record lifecycle_event =
  le_lot_id :: id
  le_from :: code
  le_to :: code
  le_transition_code :: code
  le_source_type_code :: code
  le_source_id :: id
  le_changed_at :: int

record status_event =
  se_lot_id :: id
  se_previous :: code
  se_new :: code
  se_transition_code :: code
  se_reason_code :: "code option"
  se_reason :: "string option"
  se_source_type_code :: "code option"
  se_source_id :: "id option"
  se_changed_at :: int
  se_changed_by :: "id option"
  se_changed_worker_id :: "id option"

record lot_relation =
  lr_source :: id
  lr_target :: id
  lr_type_code :: code
  lr_qty :: decimal
  lr_uom_id :: id
  lr_event_type_code :: code
  lr_event_id :: id
  lr_method_code :: code
  lr_accuracy_code :: code
  lr_occurred_at :: int
  lr_created_by :: "id option"

record consumption =
  mc_id :: id
  mc_work_order_id :: id
  mc_item_id :: id
  mc_lot_id :: id
  mc_occurred_at :: int
  mc_corrects_id :: "id option"

record production_result =
  pr_id :: id
  pr_work_order_id :: id
  pr_occurred_at :: int
  pr_corrects_id :: "id option"

record result_allocation =
  ra_result_id :: id
  ra_lot_id :: id
  ra_allocated_qty :: decimal
  ra_uom_id :: id

record inspection_request =
  ir_id :: id
  ir_no :: string
  ir_type_code :: code
  ir_plan_version_id :: "id option"
  ir_target_type_code :: code
  ir_target_id :: id
  ir_item_id :: id
  ir_lot_id :: "id option"
  ir_target_qty :: decimal
  ir_uom_id :: id
  ir_status_code :: code
  ir_skip_basis_code :: "code option"
  ir_requested_at :: int
  ir_created_by :: "id option"
  ir_updated_by :: "id option"
  ir_version_no :: int

record inspection_plan =
  ip_id :: id
  ip_item_id :: "id option"
  ip_type_code :: code
  ip_is_active :: bool
  ip_default_skip :: bool

record inspection_plan_version =
  pv_id :: id
  pv_plan_id :: id
  pv_plan_version :: int
  pv_status_code :: code
  pv_effective_from :: int
  pv_effective_to :: "int option"

record inbound_line =
  il_id :: id
  il_lot_id :: "id option"

record external_identifier =
  xi_lot_id :: id
  xi_type_code :: code
  xi_identifier :: string
  xi_partner_id :: "id option"
  xi_system_code :: "code option"
  xi_created_by :: "id option"

record audit_row =
  au_target_type_code :: code
  au_target_id :: id
  au_event_type_code :: code
  au_terminal_id :: id
  au_worker_id :: id
  au_correlation_id :: string
  au_operation_key :: string

record active_worker =
  aw_id :: id
  aw_no :: string
  aw_plant_id :: id

record active_terminal =
  at_id :: id
  at_plant_id :: id

record lot_db =
  lots :: "lot_row list"
  lot_seq :: id
  lot_holds :: "lot_hold list"
  hold_seq :: id
  lifecycle_history :: "lifecycle_event list"
  status_events :: "status_event list"
  lot_relations :: "lot_relation list"
  consumptions :: "consumption list"
  production_results :: "production_result list"
  result_allocations :: "result_allocation list"
  inspection_requests :: "inspection_request list"
  inspection_request_seq :: id
  inspection_plans :: "inspection_plan list"
  inspection_plan_versions :: "inspection_plan_version list"
  inbound_lines :: "inbound_line list"
  external_identifiers :: "external_identifier list"
  item_codes :: "(id \<times> string) list"
  partner_codes :: "(id \<times> string) list"
  active_workers :: "active_worker list"
  active_terminals :: "active_terminal list"
  lot_audits :: "audit_row list"

definition empty_lot_db :: lot_db where
  "empty_lot_db = \<lparr>lots = [], lot_seq = 1, lot_holds = [], hold_seq = 1, lifecycle_history = [], status_events = [],
     lot_relations = [], consumptions = [], production_results = [], result_allocations = [], inspection_requests = [],
     inspection_request_seq = 1, inspection_plans = [], inspection_plan_versions = [], inbound_lines = [],
     external_identifiers = [], item_codes = [], partner_codes = [], active_workers = [], active_terminals = [],
     lot_audits = []\<rparr>"

definition WORK_ORDER_LOT_SOURCE :: code where
  "WORK_ORDER_LOT_SOURCE = ''WORK_ORDER''"

definition LOT_SPLIT_SOURCE :: code where
  "LOT_SPLIT_SOURCE = ''LOT_SPLIT''"

section \<open>Statements\<close>

definition find_lot :: "lot_db \<Rightarrow> id \<Rightarrow> lot_row option" where
  "find_lot db i = find (\<lambda>l. lot_id l = i) (lots db)"

text \<open>\<open>UPDATE trace.lot \<dots> WHERE lot_id = i\<close>.\<close>

definition update_lot :: "id \<Rightarrow> (lot_row \<Rightarrow> lot_row) \<Rightarrow> lot_db \<Rightarrow> lot_db" where
  "update_lot i f db = db\<lparr>lots := map (\<lambda>l. if lot_id l = i then f l else l) (lots db)\<rparr>"

text \<open>A \<open>numeric(20,6)\<close> column rounds what is written to millionths.\<close>

definition to_scale :: "decimal \<Rightarrow> decimal" where
  "to_scale q = of_int (round (q * 1000000)) / 1000000"

definition scaled :: "decimal \<Rightarrow> bool" where
  "scaled q \<longleftrightarrow> to_scale q = q"

text \<open>\<open>INSERT INTO trace.lot\<close> with its checks (number, quantity, BOM snapshot, slot number) and \<open>uq_lot\<close>; the row
  comes without its id.\<close>

definition create_lot :: "lot_row \<Rightarrow> lot_db \<Rightarrow> (id \<times> lot_db) res" where
  "create_lot row db =
     (let new = row\<lparr>lot_id := lot_seq db, initial_qty := to_scale (initial_qty row)\<rparr> in
      if initial_qty new \<le> 0 \<or> (lot_bom_id new = None) \<noteq> (lot_bom_version new = None) \<or>
         work_order_lot_seq new = Some 0 \<or> lot_no new = []
      then Inl (DbError OtherDriverError)
      else if \<exists>l \<in> set (lots db). lot_plant_id l = lot_plant_id new \<and> lot_no l = lot_no new
      then Inl (DbError (P2002 [''plant_id'', ''lot_no'']))
      else Inr (lot_seq db, db\<lparr>lots := lots db @ [new], lot_seq := lot_seq db + 1\<rparr>))"

text \<open>The rows of a set of ids, in id order.\<close>

definition lots_in :: "lot_db \<Rightarrow> id list \<Rightarrow> lot_row list" where
  "lots_in db ids = filter (\<lambda>l. lot_id l \<in> set ids) (lots db)"

end
