(* ===== verification/Lot_Genealogy.thy ===== *)
theory Lot_Genealogy
  imports Lot_Tables
begin

text \<open>
  \<open>src/core/lot/lot-genealogy.ts\<close>: which material LOT a production LOT is made of, from the times of input. The
  windows of use per material, the LOTs whose window meets the time of a result, the relation rows a result
  leaves, and \<open>trace/lot/lot-impact.service.ts\<close>, which reads them for a recall. The relation table refuses
  cycles and self relations (its trigger and checks), and skips duplicates (its unique index).
\<close>

section \<open>Windows\<close>

record InputWindow =
  w_itemId :: id
  w_lotId :: id
  w_from :: int
  w_to :: "int option"

definition input_order :: "consumption \<Rightarrow> consumption \<Rightarrow> int" where
  "input_order a b = or_else (mc_occurred_at a - mc_occurred_at b) (mc_id a - mc_id b)"

definition effective_inputs :: "consumption list \<Rightarrow> consumption list" where
  "effective_inputs rows =
     (let corrected = List.map_filter mc_corrects_id rows in
      js_sort (by_number input_order) (filter (\<lambda>row. mc_id row \<notin> set corrected) rows))"

text \<open>The loop keeps the windows made so far and, per item, the position of its open window. The position
  stands for the window object that the code's map and array share, so that closing it shows in both.\<close>

type_synonym window_state = "InputWindow list \<times> (id \<times> nat) list"

definition open_window :: "consumption \<Rightarrow> InputWindow" where
  "open_window row = \<lparr>w_itemId = mc_item_id row, w_lotId = mc_lot_id row, w_from = mc_occurred_at row, w_to = None\<rparr>"

definition window_step :: "consumption \<Rightarrow> window_state \<Rightarrow> window_state" where
  "window_step row st =
     (let windows = fst st; opened = snd st in
      case map_of opened (mc_item_id row) of
        None \<Rightarrow> (windows @ [open_window row], AList.update (mc_item_id row) (length windows) opened)
      | Some k \<Rightarrow>
          if w_lotId (windows ! k) = mc_lot_id row then (windows, opened)
          else (windows[k := (windows ! k)\<lparr>w_to := Some (mc_occurred_at row)\<rparr>] @ [open_window row],
                AList.update (mc_item_id row) (length windows) opened))"

definition inputWindows :: "consumption list \<Rightarrow> InputWindow list" where
  "inputWindows rows = fst (fold window_step (effective_inputs rows) ([], []))"

definition lotsBetween :: "InputWindow list \<Rightarrow> int option \<Rightarrow> int \<Rightarrow> InputWindow list" where
  "lotsBetween windows after until =
     filter (\<lambda>w. w_from w \<le> until \<and>
        (case w_to w of None \<Rightarrow> True | Some e \<Rightarrow> (case after of None \<Rightarrow> True | Some a \<Rightarrow> a < e))) windows"

definition lotsAt :: "InputWindow list \<Rightarrow> int \<Rightarrow> InputWindow list" where
  "lotsAt windows time =
     filter (\<lambda>w. w_from w \<le> time \<and> (case w_to w of None \<Rightarrow> True | Some e \<Rightarrow> time \<le> e)) windows"

section \<open>What is in use at a time\<close>

text \<open>The reference: the LOT in use for an item is the one of its last input so far.\<close>

definition in_use_of :: "consumption list \<Rightarrow> id \<Rightarrow> int \<Rightarrow> id option" where
  "in_use_of rows item time =
     (let past = filter (\<lambda>r. mc_item_id r = item \<and> mc_occurred_at r \<le> time) rows in
      if past = [] then None else Some (mc_lot_id (last past)))"

definition in_use :: "consumption list \<Rightarrow> id \<Rightarrow> int \<Rightarrow> id option" where
  "in_use rows = in_use_of (effective_inputs rows)"

definition covers :: "InputWindow \<Rightarrow> id \<Rightarrow> int \<Rightarrow> bool" where
  "covers w item time \<longleftrightarrow>
     w_itemId w = item \<and> w_from w \<le> time \<and> (case w_to w of None \<Rightarrow> True | Some e \<Rightarrow> time < e)"

lemma in_use_of_snoc:
  "in_use_of (rows @ [r]) item time =
     (if mc_item_id r = item \<and> mc_occurred_at r \<le> time then Some (mc_lot_id r) else in_use_of rows item time)"
  by (simp add: in_use_of_def Let_def)

text \<open>What the loop keeps: at most one open window per item, its LOT is that of the last input, every closed
  window ended by now, and the windows cover exactly the uses.\<close>

definition windows_ok :: "consumption list \<Rightarrow> int \<Rightarrow> window_state \<Rightarrow> bool" where
  "windows_ok rows now st \<longleftrightarrow>
     (\<forall>item k. map_of (snd st) item = Some k \<longrightarrow>
        k < length (fst st) \<and> w_itemId (fst st ! k) = item \<and> w_to (fst st ! k) = None \<and>
        (\<forall>time. now \<le> time \<longrightarrow> in_use_of rows item time = Some (w_lotId (fst st ! k)))) \<and>
     (\<forall>m < length (fst st). map_of (snd st) (w_itemId (fst st ! m)) \<noteq> None \<and>
        (map_of (snd st) (w_itemId (fst st ! m)) \<noteq> Some m \<longrightarrow> (\<exists>e \<le> now. w_to (fst st ! m) = Some e))) \<and>
     (\<forall>item time lot. (\<exists>w \<in> set (fst st). covers w item time \<and> w_lotId w = lot) \<longleftrightarrow>
        in_use_of rows item time = Some lot)"

lemma windows_okD:
  assumes "windows_ok rows now (W, O')"
  shows "\<And>item k. map_of O' item = Some k \<Longrightarrow> k < length W \<and> w_itemId (W ! k) = item \<and> w_to (W ! k) = None \<and>
        (\<forall>time. now \<le> time \<longrightarrow> in_use_of rows item time = Some (w_lotId (W ! k)))"
    and "\<And>m. m < length W \<Longrightarrow> map_of O' (w_itemId (W ! m)) \<noteq> None \<and>
        (map_of O' (w_itemId (W ! m)) \<noteq> Some m \<longrightarrow> (\<exists>e \<le> now. w_to (W ! m) = Some e))"
    and "\<And>item time lot. (\<exists>w \<in> set W. covers w item time \<and> w_lotId w = lot) \<longleftrightarrow> in_use_of rows item time = Some lot"
  using assms unfolding windows_ok_def fst_conv snd_conv by blast+

lemma windows_ok_later:
  assumes "windows_ok rows now (W, O')" and "now \<le> later" and "in_use_of rows' = in_use_of rows"
  shows "windows_ok rows' later (W, O')"
  using windows_okD [OF assms(1)] order_trans [OF assms(2)] order_trans [OF _ assms(2)]
  unfolding windows_ok_def fst_conv snd_conv assms(3) by blast

lemma ex_nth: "(\<exists>w \<in> set W. P w) \<longleftrightarrow> (\<exists>m < length W. P (W ! m))"
  by (metis in_set_conv_nth)

lemma window_same_lot:
  assumes ok: "windows_ok rows now (W, O')" and late: "now \<le> mc_occurred_at r"
    and k: "map_of O' (mc_item_id r) = Some k" "w_lotId (W ! k) = mc_lot_id r"
  shows "windows_ok (rows @ [r]) (mc_occurred_at r) (W, O')"
proof -
  have "in_use_of rows (mc_item_id r) time = Some (mc_lot_id r)" if "mc_occurred_at r \<le> time" for time
    using windows_okD(1) [OF ok k(1)] k(2) order_trans [OF late that] by auto
  then have "in_use_of (rows @ [r]) = in_use_of rows" by (intro ext) (auto simp: in_use_of_snoc)
  with ok late show ?thesis by (rule windows_ok_later)
qed

lemma window_first:
  assumes ok: "windows_ok rows now (W, O')" and late: "now \<le> mc_occurred_at r"
    and none: "map_of O' (mc_item_id r) = None"
  shows "windows_ok (rows @ [r]) (mc_occurred_at r) (W @ [open_window r], AList.update (mc_item_id r) (length W) O')"
proof -
  let ?j = "mc_item_id r" and ?T = "mc_occurred_at r"
  note I1 = windows_okD(1) [OF ok] and I2 = windows_okD(2) [OF ok] and I3 = windows_okD(3) [OF ok]
  have no: "w_itemId w \<noteq> ?j" if "w \<in> set W" for w
    using I2 none that by (metis in_set_conv_nth)
  then have unused: "in_use_of rows ?j time = None" for time
    using I3 [of ?j time] by (cases "in_use_of rows ?j time") (auto simp: covers_def)
  show ?thesis unfolding windows_ok_def fst_conv snd_conv
  proof (intro conjI allI impI)
    fix item k assume k: "map_of (AList.update ?j (length W) O') item = Some k"
    then show "k < length (W @ [open_window r])" "w_itemId ((W @ [open_window r]) ! k) = item"
      "w_to ((W @ [open_window r]) ! k) = None"
      using I1 [of item k] by (auto simp: update_conv' open_window_def nth_append split: if_splits)
    fix time assume "?T \<le> time"
    with k I1 [of item k] late
    show "in_use_of (rows @ [r]) item time = Some (w_lotId ((W @ [open_window r]) ! k))"
      by (auto simp: update_conv' open_window_def nth_append in_use_of_snoc split: if_splits)
  next
    fix m assume m: "m < length (W @ [open_window r])"
    show "map_of (AList.update ?j (length W) O') (w_itemId ((W @ [open_window r]) ! m)) \<noteq> None"
      using m I2 [of m] by (auto simp: update_conv' nth_append open_window_def less_Suc_eq)
    assume other: "map_of (AList.update ?j (length W) O') (w_itemId ((W @ [open_window r]) ! m)) \<noteq> Some m"
    then have "m < length W" using m by (auto simp: update_conv' nth_append open_window_def less_Suc_eq)
    moreover from this have "w_itemId (W ! m) \<noteq> ?j" using no nth_mem by blast
    ultimately show "\<exists>e \<le> ?T. w_to ((W @ [open_window r]) ! m) = Some e"
      using other I2 [of m] late by (auto simp: update_conv' nth_append intro: order_trans)
  next
    fix item time lot
    show "(\<exists>w \<in> set (W @ [open_window r]). covers w item time \<and> w_lotId w = lot) \<longleftrightarrow>
        in_use_of (rows @ [r]) item time = Some lot"
      using I3 [of item time lot] unused [of time] by (auto simp: in_use_of_snoc covers_def open_window_def)
  qed
qed

lemma window_change:
  assumes ok: "windows_ok rows now (W, O')" and late: "now \<le> mc_occurred_at r"
    and k: "map_of O' (mc_item_id r) = Some k"
  shows "windows_ok (rows @ [r]) (mc_occurred_at r)
    (W[k := (W ! k)\<lparr>w_to := Some (mc_occurred_at r)\<rparr>] @ [open_window r], AList.update (mc_item_id r) (length W) O')"
proof -
  let ?j = "mc_item_id r" and ?T = "mc_occurred_at r"
  let ?u = "(W ! k)\<lparr>w_to := Some ?T\<rparr>"
  let ?V = "W[k := ?u]"
  note I1 = windows_okD(1) [OF ok] and I2 = windows_okD(2) [OF ok] and I3 = windows_okD(3) [OF ok]
  have kk: "k < length W" "w_itemId (W ! k) = ?j" "w_to (W ! k) = None" using I1 [OF k] by auto
  have V: "w_itemId (?V ! m) = w_itemId (W ! m)" "w_lotId (?V ! m) = w_lotId (W ! m)"
    "w_to (?V ! m) = (if m = k then Some ?T else w_to (W ! m))" if "m < length W" for m
    using that kk(1) by (auto simp: nth_list_update)
  show ?thesis unfolding windows_ok_def fst_conv snd_conv
  proof (intro conjI allI impI)
    fix item n assume n: "map_of (AList.update ?j (length W) O') item = Some n"
    have other: "item \<noteq> ?j \<Longrightarrow> n \<noteq> k \<and> n < length W \<and> w_itemId (W ! n) = item \<and> w_to (W ! n) = None"
      using n I1 [of item n] kk by (auto simp: update_conv')
    show "n < length (?V @ [open_window r])" "w_itemId ((?V @ [open_window r]) ! n) = item"
      "w_to ((?V @ [open_window r]) ! n) = None"
      using n other by (auto simp: update_conv' open_window_def nth_append split: if_splits)
    fix time assume "?T \<le> time"
    with n other I1 [of item n] late
    show "in_use_of (rows @ [r]) item time = Some (w_lotId ((?V @ [open_window r]) ! n))"
      by (auto simp: update_conv' open_window_def nth_append in_use_of_snoc split: if_splits)
  next
    fix m assume m: "m < length (?V @ [open_window r])"
    show "map_of (AList.update ?j (length W) O') (w_itemId ((?V @ [open_window r]) ! m)) \<noteq> None"
      using m I2 [of m] V(1) [of m] by (auto simp: update_conv' nth_append open_window_def less_Suc_eq)
    assume other: "map_of (AList.update ?j (length W) O') (w_itemId ((?V @ [open_window r]) ! m)) \<noteq> Some m"
    then have m': "m < length W" using m by (auto simp: update_conv' nth_append open_window_def less_Suc_eq)
    show "\<exists>e \<le> ?T. w_to ((?V @ [open_window r]) ! m) = Some e"
    proof (cases "m = k")
      case True
      then show ?thesis using m' V(3) [of m] by (simp add: nth_append)
    next
      case False
      then have "map_of O' (w_itemId (W ! m)) \<noteq> Some m"
        using other m' k V(1) [OF m'] by (auto simp: update_conv' nth_append split: if_splits)
      then show ?thesis using False m' I2 [of m] V(3) [OF m'] late by (auto simp: nth_append intro: order_trans)
    qed
  next
    fix item time lot
    have "(\<exists>w \<in> set ?V. covers w item time \<and> w_lotId w = lot) \<longleftrightarrow>
        (\<exists>w \<in> set W. covers w item time \<and> w_lotId w = lot) \<and> \<not> (item = ?j \<and> ?T \<le> time)"
    proof -
      have "covers (?V ! m) item time \<longleftrightarrow> covers (W ! m) item time \<and> \<not> (item = ?j \<and> ?T \<le> time)" if m: "m < length W" for m
      proof (cases "m = k")
        case True
        then show ?thesis using kk by (auto simp: covers_def)
      next
        case False
        then have "w_itemId (W ! m) = ?j \<Longrightarrow> \<exists>e \<le> now. w_to (W ! m) = Some e" using I2 [OF m] k by auto
        with False late show ?thesis by (auto simp: covers_def)
      qed
      then show ?thesis unfolding ex_nth using V(2) by auto
    qed
    then show "(\<exists>w \<in> set (?V @ [open_window r]). covers w item time \<and> w_lotId w = lot) \<longleftrightarrow>
        in_use_of (rows @ [r]) item time = Some lot"
      using I3 [of item time lot] by (auto simp: in_use_of_snoc covers_def open_window_def)
  qed
qed

lemma window_step_keeps:
  assumes "windows_ok rows now st" and "now \<le> mc_occurred_at r"
  shows "windows_ok (rows @ [r]) (mc_occurred_at r) (window_step r st)"
proof -
  obtain W O' where st: "st = (W, O')" by (cases st) blast
  show ?thesis
  proof (cases "map_of O' (mc_item_id r)")
    case None
    with window_first [OF assms [unfolded st]] show ?thesis by (simp add: st window_step_def)
  next
    case (Some k)
    with window_same_lot [OF assms [unfolded st] Some] window_change [OF assms [unfolded st] Some]
    show ?thesis by (simp add: st window_step_def)
  qed
qed

lemma windows_fold:
  "windows_ok rows now st \<Longrightarrow> sorted_wrt (\<lambda>a b. mc_occurred_at a \<le> mc_occurred_at b) more_rows \<Longrightarrow>
   \<forall>r \<in> set more_rows. now \<le> mc_occurred_at r \<Longrightarrow>
   \<exists>later. windows_ok (rows @ more_rows) later (fold window_step more_rows st)"
proof (induction more_rows arbitrary: rows now st)
  case Nil
  then show ?case by auto
next
  case (Cons r rs)
  have "windows_ok (rows @ [r]) (mc_occurred_at r) (window_step r st)"
    using Cons.prems by (intro window_step_keeps) auto
  from Cons.IH [OF this] Cons.prems show ?case by simp
qed

interpretation input_order: number_comparison input_order
  unfolding input_order_def by (rule or_else_comparison; rule difference_comparison)

interpretation input_sort: comparison "by_number input_order"
  by (rule input_order.by_number_comparison)

lemma inputs_in_time_order: "sorted_wrt (\<lambda>a b. mc_occurred_at a \<le> mc_occurred_at b) (effective_inputs rows)"
proof -
  have "by_number input_order a b \<Longrightarrow> mc_occurred_at a \<le> mc_occurred_at b" for a b
    by (auto simp: by_number_def input_order_def or_else_def split: if_splits)
  then show ?thesis unfolding effective_inputs_def Let_def by (rule sorted_wrt_mono_rel [OF _ input_sort.sorted_js_sort])
qed

lemma windows_ok_initial: "windows_ok [] now ([], [])"
  by (simp add: windows_ok_def in_use_of_def)

lemma windows_exact:
  "(\<exists>w \<in> set (inputWindows rows). covers w item time \<and> w_lotId w = lot) \<longleftrightarrow> in_use rows item time = Some lot"
proof -
  let ?rows = "effective_inputs rows"
  let ?now = "Min (insert 0 (mc_occurred_at ` set ?rows))"
  have "\<exists>later. windows_ok ([] @ ?rows) later (fold window_step ?rows ([], []))"
    by (rule windows_fold [OF windows_ok_initial [of ?now] inputs_in_time_order]) auto
  then obtain later where "windows_ok ?rows later (fst (fold window_step ?rows ([], [])), snd (fold window_step ?rows ([], [])))"
    by auto
  from windows_okD(3) [OF this] show ?thesis by (simp add: inputWindows_def in_use_def)
qed

section \<open>Relation rows\<close>

definition CONSUMED_RELATION :: code where
  "CONSUMED_RELATION = ''CONSUMED''"

definition PRODUCTION_RESULT_EVENT :: code where
  "PRODUCTION_RESULT_EVENT = ''PRODUCTION_RESULT''"

definition edges :: "lot_relation list \<Rightarrow> (id \<times> id) set" where
  "edges rels = set (map (\<lambda>r. (lr_source r, lr_target r)) rels)"

text \<open>The columns of \<open>uq_lot_relation\<close>.\<close>

definition relation_key :: "lot_relation \<Rightarrow> id \<times> id \<times> code \<times> code \<times> id" where
  "relation_key r = (lr_source r, lr_target r, lr_type_code r, lr_event_type_code r, lr_event_id r)"

text \<open>The trigger \<open>check_lot_relation_cycle\<close>: the recursive query collects every ancestor of the source.\<close>

definition check_lot_relation_cycle :: "lot_relation list \<Rightarrow> lot_relation \<Rightarrow> bool" where
  "check_lot_relation_cycle rels new \<longleftrightarrow> (lr_target new, lr_source new) \<notin> (edges rels)\<^sup>+"

text \<open>One row of an insert: the trigger and the checks come first, then the duplicate is skipped.\<close>

definition insert_relation :: "lot_relation \<Rightarrow> lot_relation list \<Rightarrow> lot_relation list res" where
  "insert_relation new rels =
     (if \<not> check_lot_relation_cycle rels new \<or> lr_source new = lr_target new \<or> lr_qty new \<le> 0
      then Inl (DbError OtherDriverError)
      else if relation_key new \<in> relation_key ` set rels then Inr rels
      else Inr (rels @ [new]))"

section \<open>Recording a result\<close>

definition latest_time :: "int list \<Rightarrow> int option" where
  "latest_time ts = (case ts of [] \<Rightarrow> None | t # more_ts \<Rightarrow> Some (fold max more_ts t))"

definition previous_result_time :: "lot_db \<Rightarrow> production_result \<Rightarrow> int option" where
  "previous_result_time db r =
     latest_time (map pr_occurred_at (filter (\<lambda>p. pr_work_order_id p = pr_work_order_id r \<and> pr_corrects_id p = None \<and>
        pr_occurred_at p < pr_occurred_at r \<and> pr_id p \<noteq> pr_id r) (production_results db)))"

definition allocations_of :: "lot_db \<Rightarrow> id \<Rightarrow> result_allocation list" where
  "allocations_of db rid = filter (\<lambda>a. ra_result_id a = rid) (result_allocations db)"

definition inputs_of :: "lot_db \<Rightarrow> id \<Rightarrow> consumption list" where
  "inputs_of db wo = filter (\<lambda>c. mc_work_order_id c = wo) (consumptions db)"

definition genealogy_row :: "production_result \<Rightarrow> id option \<Rightarrow> result_allocation \<Rightarrow> id \<Rightarrow> lot_relation" where
  "genealogy_row r by_user a material =
     \<lparr>lr_source = material, lr_target = ra_lot_id a, lr_type_code = CONSUMED_RELATION, lr_qty = ra_allocated_qty a,
      lr_uom_id = ra_uom_id a, lr_event_type_code = PRODUCTION_RESULT_EVENT, lr_event_id = pr_id r,
      lr_method_code = ''INPUT_TIME_WINDOW'', lr_accuracy_code = ''ESTIMATED'', lr_occurred_at = pr_occurred_at r,
      lr_created_by = by_user\<rparr>"

definition genealogy_rows :: "lot_db \<Rightarrow> production_result \<Rightarrow> id option \<Rightarrow> lot_relation list" where
  "genealogy_rows db r by_user =
     (let materials = lotsBetween (inputWindows (inputs_of db (pr_work_order_id r))) (previous_result_time db r) (pr_occurred_at r)
      in concat (map (\<lambda>a. map (genealogy_row r by_user a)
           (filter (\<lambda>m. m \<noteq> ra_lot_id a) (js_set (map w_lotId materials)))) (allocations_of db (pr_id r))))"

definition recordResultGenealogyWithin :: "lot_db \<Rightarrow> id \<Rightarrow> id option \<Rightarrow> (nat \<times> lot_db) res" where
  "recordResultGenealogyWithin db rid createdBy =
     (case find (\<lambda>r. pr_id r = rid) (production_results db) of
        None \<Rightarrow> Inl (DbError P2025)
      | Some r \<Rightarrow>
          if allocations_of db rid = [] then Inr (0, db)
          else bind_res (fold_res insert_relation (genealogy_rows db r createdBy) (lot_relations db)) (\<lambda>rels.
            Inr (length rels - length (lot_relations db), db\<lparr>lot_relations := rels\<rparr>)))"

definition late_results :: "lot_db \<Rightarrow> id \<Rightarrow> int \<Rightarrow> id list" where
  "late_results db wo occurredAt =
     map pr_id (filter (\<lambda>r. pr_work_order_id r = wo \<and> pr_corrects_id r = None \<and> occurredAt \<le> pr_occurred_at r \<and>
        allocations_of db (pr_id r) \<noteq> []) (production_results db))"

definition recordLateInputGenealogyWithin :: "lot_db \<Rightarrow> id \<Rightarrow> int \<Rightarrow> id option \<Rightarrow> lot_db res" where
  "recordLateInputGenealogyWithin db wo occurredAt createdBy =
     fold_res (\<lambda>rid u. bind_res (recordResultGenealogyWithin u rid createdBy) (\<lambda>(n, v). Inr v))
       (late_results db wo occurredAt) db"

section \<open>Recall\<close>

definition tracedWorkOrders :: "lot_db \<Rightarrow> id list \<Rightarrow> id list" where
  "tracedWorkOrders db ids =
     (if ids = [] then []
      else js_set (List.map_filter (\<lambda>r. if lr_type_code r \<noteq> CONSUMED_RELATION then None
             else case find_lot db (lr_target r) of
                    None \<Rightarrow> None
                  | Some l \<Rightarrow> if source_type_code l = WORK_ORDER_LOT_SOURCE \<and> source_id l \<in> set ids
                      then Some (source_id l) else None) (lot_relations db)))"

datatype TraceBasis = LOT_GENEALOGY_ESTIMATE | WORK_ORDER_ESTIMATE

record AffectedProductionLots =
  ap_basis :: TraceBasis
  ap_workOrders :: "id list"
  ap_items :: "lot_row list"

definition affected_order :: "lot_row \<Rightarrow> lot_row \<Rightarrow> int" where
  "affected_order a b = or_else (source_id a - source_id b) (lot_id a - lot_id b)"

definition affectedProductionLots :: "lot_db \<Rightarrow> id \<Rightarrow> AffectedProductionLots res" where
  "affectedProductionLots db lotId =
     (case find_lot db lotId of
        None \<Rightarrow> Inl (HttpException NOT_FOUND)
      | Some l \<Rightarrow>
          let ids = js_sort (\<le>) (remdups (map mc_work_order_id (filter (\<lambda>c. mc_lot_id c = lotId) (consumptions db))));
              traced = tracedWorkOrders db ids;
              legacy = filter (\<lambda>i. i \<notin> set traced) ids;
              related = (if traced = [] then [] else map lr_target
                (filter (\<lambda>r. lr_source r = lotId \<and> lr_type_code r = CONSUMED_RELATION) (lot_relations db)));
              found = (if ids = [] then [] else js_sort (by_number affected_order)
                (filter (\<lambda>p. source_type_code p = WORK_ORDER_LOT_SOURCE \<and>
                   (source_id p \<in> set legacy \<or> source_id p \<in> set traced \<and> lot_id p \<in> set related)) (lots db)))
          in Inr \<lparr>ap_basis = (if legacy = [] then LOT_GENEALOGY_ESTIMATE else WORK_ORDER_ESTIMATE),
                  ap_workOrders = ids, ap_items = found\<rparr>)"

section \<open>Relation rows form an acyclic graph\<close>

definition relations_ok :: "lot_relation list \<Rightarrow> bool" where
  "relations_ok rels \<longleftrightarrow>
     acyclic (edges rels) \<and> distinct (map relation_key rels) \<and> (\<forall>r \<in> set rels. 0 < lr_qty r)"

lemma insert_relation_effect:
  assumes "insert_relation new rels = Inr rels'"
  shows "(rels' = rels \<or> rels' = rels @ [new]) \<and> relation_key new \<in> relation_key ` set rels' \<and>
    lr_source new \<noteq> lr_target new \<and> 0 < lr_qty new \<and> (lr_target new, lr_source new) \<notin> (edges rels)\<^sup>+"
  using assms by (auto simp: insert_relation_def check_lot_relation_cycle_def split: if_splits)

lemma insert_relation_keeps:
  assumes "insert_relation new rels = Inr rels'" and "relations_ok rels"
  shows "relations_ok rels'"
proof (cases "rels' = rels")
  case False
  with assms(1) have app: "rels' = rels @ [new]" and key: "relation_key new \<notin> relation_key ` set rels"
    and no: "(lr_target new, lr_source new) \<notin> (edges rels)\<^sup>+" "lr_source new \<noteq> lr_target new" "0 < lr_qty new"
    by (auto simp: insert_relation_def check_lot_relation_cycle_def split: if_splits)
  have "edges rels' = insert (lr_source new, lr_target new) (edges rels)" by (auto simp: app edges_def)
  moreover have "(lr_target new, lr_source new) \<notin> (edges rels)\<^sup>*" using no by (auto simp: rtrancl_eq_or_trancl)
  ultimately show ?thesis
    using assms(2) key no(3) by (auto simp: relations_ok_def app acyclic_insert)
qed (use assms(2) in simp)

lemma insert_relations_keep [preserves]:
  "fold_res insert_relation data rels = Inr rels' \<Longrightarrow> relations_ok rels \<Longrightarrow> relations_ok rels'"
  by (rule fold_res_invariant [where P = relations_ok]) (auto intro: insert_relation_keeps)

lemma insert_relations_extend:
  assumes "fold_res insert_relation data rels = Inr rels'"
  shows "prefix rels rels'"
proof (rule fold_res_invariant [OF assms, where P = "prefix rels"])
  fix x u v assume "insert_relation x u = Inr v" and "prefix rels u"
  then show "prefix rels v" using insert_relation_effect [of x u v] by (auto intro: prefix_order.trans)
qed simp

lemma insert_relations_present:
  assumes "fold_res insert_relation data rels = Inr rels'" and "x \<in> set data"
  shows "relation_key x \<in> relation_key ` set rels' \<and> lr_source x \<noteq> lr_target x \<and> 0 < lr_qty x"
proof -
  from fold_res_visits [OF assms] obtain u v post where
      "insert_relation x u = Inr v" "fold_res insert_relation post v = Inr rels'" by metis
  then show ?thesis
    using insert_relation_effect [of x u v] set_mono_prefix [OF insert_relations_extend [of post v rels']] by blast
qed

lemma key_present:
  assumes "relation_key x \<in> relation_key ` set rels"
  obtains r where "r \<in> set rels" and "lr_source r = lr_source x" and "lr_target r = lr_target x"
    and "lr_type_code r = lr_type_code x"
  using assms that by (auto simp: relation_key_def)

text \<open>Rows that are there already change nothing.\<close>

lemma insert_relations_again:
  assumes "relations_ok rels" and "\<forall>x \<in> set data. relation_key x \<in> relation_key ` set rels \<and> lr_source x \<noteq> lr_target x \<and> 0 < lr_qty x"
  shows "fold_res insert_relation data rels = Inr rels"
  using assms(2)
proof (induction data)
  case (Cons x data)
  from Cons.prems have x: "relation_key x \<in> relation_key ` set rels" "lr_source x \<noteq> lr_target x" "0 < lr_qty x" by auto
  have "(lr_source x, lr_target x) \<in> edges rels" by (rule key_present [OF x(1)]) (simp add: edges_def image_iff, metis)
  then have "(lr_target x, lr_source x) \<notin> (edges rels)\<^sup>+"
    using assms(1) by (metis acyclic_def relations_ok_def trancl_into_trancl)
  with x have "insert_relation x rels = Inr rels" by (simp add: insert_relation_def check_lot_relation_cycle_def)
  with Cons show ?case by simp
qed simp

lemma record_effect:
  assumes "recordResultGenealogyWithin db rid by_user = Inr (n, db')"
  obtains rels r where "find (\<lambda>r. pr_id r = rid) (production_results db) = Some r"
    and "db' = db\<lparr>lot_relations := rels\<rparr>" and "prefix (lot_relations db) rels"
    and "fold_res insert_relation (genealogy_rows db r by_user) (lot_relations db) = Inr rels"
    and "n = length rels - length (lot_relations db)"
proof -
  from assms obtain r where r: "find (\<lambda>r. pr_id r = rid) (production_results db) = Some r"
    by (auto simp: recordResultGenealogyWithin_def split: option.splits)
  then have "pr_id r = rid" using find_key by metis
  then have none: "genealogy_rows db r by_user = []" if "allocations_of db rid = []" using that by (simp add: genealogy_rows_def)
  show ?thesis
  proof (cases "allocations_of db rid = []")
    case True
    with assms r have "db' = db" "n = 0" by (auto simp: recordResultGenealogyWithin_def)
    then show ?thesis using that [OF r, of "lot_relations db"] none [OF True] by simp
  next
    case False
    with assms r obtain rels where "fold_res insert_relation (genealogy_rows db r by_user) (lot_relations db) = Inr rels"
      "db' = db\<lparr>lot_relations := rels\<rparr>" "n = length rels - length (lot_relations db)"
      by (auto simp: recordResultGenealogyWithin_def res_simps)
    then show ?thesis using that [OF r, of rels] insert_relations_extend by blast
  qed
qed


section \<open>What a recorded result covers\<close>

definition made_from :: "lot_db \<Rightarrow> production_result \<Rightarrow> id \<Rightarrow> int \<Rightarrow> id \<Rightarrow> bool" where
  "made_from db r item time lot \<longleftrightarrow>
     in_use (inputs_of db (pr_work_order_id r)) item time = Some lot \<and> time \<le> pr_occurred_at r \<and>
     (\<forall>p. previous_result_time db r = Some p \<longrightarrow> p < time)"

definition related :: "lot_db \<Rightarrow> id \<Rightarrow> id \<Rightarrow> bool" where
  "related db material lot \<longleftrightarrow>
     (\<exists>rel \<in> set (lot_relations db). lr_source rel = material \<and> lr_target rel = lot \<and> lr_type_code rel = CONSUMED_RELATION)"

lemma genealogy_rows_cover:
  assumes "made_from db r item time lot" and "a \<in> set (allocations_of db (pr_id r))" and "ra_lot_id a \<noteq> lot"
  shows "genealogy_row r by_user a lot \<in> set (genealogy_rows db r by_user)"
proof -
  let ?W = "inputWindows (inputs_of db (pr_work_order_id r))"
  from assms(1) obtain w where w: "w \<in> set ?W" "covers w item time" "w_lotId w = lot"
    using windows_exact by (metis made_from_def)
  then have "w \<in> set (lotsBetween ?W (previous_result_time db r) (pr_occurred_at r))"
    using assms(1) by (auto simp: lotsBetween_def covers_def made_from_def split: option.splits)
  with w(3) assms(2,3) show ?thesis by (force simp: genealogy_rows_def)
qed

lemma record_covers:
  assumes "recordResultGenealogyWithin db rid by_user = Inr (n, db')"
    and "find (\<lambda>r. pr_id r = rid) (production_results db) = Some r" and "made_from db r item time lot"
    and "a \<in> set (allocations_of db rid)" and "ra_lot_id a \<noteq> lot"
  shows "related db' lot (ra_lot_id a)"
proof (rule record_effect [OF assms(1)])
  fix rels r' assume r': "find (\<lambda>r. pr_id r = rid) (production_results db) = Some r'"
    and db': "db' = db\<lparr>lot_relations := rels\<rparr>"
    and ins: "fold_res insert_relation (genealogy_rows db r' by_user) (lot_relations db) = Inr rels"
  with assms(2) have same: "r' = r" by simp
  have "pr_id r = rid" using find_key [OF assms(2)] by blast
  then have "genealogy_row r by_user a lot \<in> set (genealogy_rows db r by_user)"
    using assms(3-5) by (intro genealogy_rows_cover) auto
  then have "relation_key (genealogy_row r by_user a lot) \<in> relation_key ` set rels"
    using insert_relations_present [OF ins] same by blast
  then show "related db' lot (ra_lot_id a)"
    by (rule key_present) (auto simp: related_def db' genealogy_row_def)
qed

lemma record_frame [frame]:
  assumes "recordResultGenealogyWithin db rid by_user = Inr (n, db')"
  shows "production_results db' = production_results db \<and> result_allocations db' = result_allocations db \<and>
    consumptions db' = consumptions db \<and> lots db' = lots db"
  by (rule record_effect [OF assms]) simp

lemma record_keeps_related:
  assumes "recordResultGenealogyWithin db rid by_user = Inr (n, db')" and "related db lot p"
  shows "related db' lot p"
  by (rule record_effect [OF assms(1)]) (use assms(2) in \<open>auto simp: related_def dest: set_mono_prefix\<close>)

lemma record_keeps_relations:
  assumes "recordResultGenealogyWithin db rid by_user = Inr (n, db')" and "relations_ok (lot_relations db)"
  shows "relations_ok (lot_relations db')"
  by (rule record_effect [OF assms(1)]) (use assms(2) in \<open>auto intro: insert_relations_keep\<close>)

lemma same_reads:
  assumes "production_results db' = production_results db" and "result_allocations db' = result_allocations db"
    and "consumptions db' = consumptions db"
  shows "made_from db' = made_from db" "allocations_of db' = allocations_of db"
    "previous_result_time db' = previous_result_time db" "genealogy_rows db' = genealogy_rows db"
    "late_results db' = late_results db"
  using assms by (auto simp: made_from_def allocations_of_def previous_result_time_def genealogy_rows_def
      inputs_of_def late_results_def fun_eq_iff)

text \<open>C29. Recording a result only adds relation rows; the relation graph stays acyclic and free of duplicates, and
  recording the same result once more adds nothing and cannot fail.\<close>
theorem genealogy_acyclic_and_idempotent:
  assumes "recordResultGenealogyWithin db rid by_user = Inr (n, db')" and "relations_ok (lot_relations db)"
  shows "prefix (lot_relations db) (lot_relations db') \<and> acyclic (edges (lot_relations db')) \<and>
    distinct (map relation_key (lot_relations db')) \<and> recordResultGenealogyWithin db' rid by_user = Inr (0, db')"
proof (rule record_effect [OF assms(1)])
  fix rels r assume r: "find (\<lambda>r. pr_id r = rid) (production_results db) = Some r"
    and db': "db' = db\<lparr>lot_relations := rels\<rparr>" and pre: "prefix (lot_relations db) rels"
    and ins: "fold_res insert_relation (genealogy_rows db r by_user) (lot_relations db) = Inr rels"
  have ok: "relations_ok rels" using insert_relations_keep [OF ins assms(2)] .
  have "genealogy_rows db' = genealogy_rows db" by (rule same_reads) (simp_all add: db')
  moreover have "fold_res insert_relation (genealogy_rows db r by_user) rels = Inr rels"
    by (rule insert_relations_again [OF ok]) (use insert_relations_present [OF ins] in blast)
  ultimately have "recordResultGenealogyWithin db' rid by_user = Inr (0, db')"
    using r by (simp add: recordResultGenealogyWithin_def db')
  with pre ok show ?thesis by (simp add: db' relations_ok_def)
qed

lemma late_step:
  "bind_res (recordResultGenealogyWithin u rid by_user) (\<lambda>(n, v). Inr v) = Inr v \<longleftrightarrow>
     (\<exists>n. recordResultGenealogyWithin u rid by_user = Inr (n, v))"
  by (auto simp: res_simps)

text \<open>C30. After a late input is recorded, every production LOT of every original result at or after the input's
  time is related to each material LOT that was in use during the result's interval, by the inputs now known.\<close>
theorem late_input_covers:
  assumes rec: "recordLateInputGenealogyWithin db wo occurredAt by_user = Inr db'"
    and keys: "distinct (map pr_id (production_results db))"
    and r: "r \<in> set (production_results db)" "pr_work_order_id r = wo" "pr_corrects_id r = None" "occurredAt \<le> pr_occurred_at r"
    and a: "a \<in> set (allocations_of db (pr_id r))" "ra_lot_id a \<noteq> lot"
    and made: "made_from db r item time lot"
  shows "related db' lot (ra_lot_id a)"
proof -
  let ?step = "\<lambda>rid u. bind_res (recordResultGenealogyWithin u rid by_user) (\<lambda>(n, v). Inr v)"
  let ?same = "\<lambda>u. production_results u = production_results db \<and> result_allocations u = result_allocations db \<and>
    consumptions u = consumptions db"
  have run: "fold_res ?step (late_results db wo occurredAt) db = Inr db'"
    using rec by (simp add: recordLateInputGenealogyWithin_def)
  have "allocations_of db (pr_id r) \<noteq> []" using a(1) by auto
  then have mem: "pr_id r \<in> set (late_results db wo occurredAt)" using r by (auto simp: late_results_def)
  obtain u v pre post where before: "fold_res ?step pre db = Inr u" and step: "?step (pr_id r) u = Inr v"
      and after: "fold_res ?step post v = Inr db'" and "set pre \<subseteq> set (late_results db wo occurredAt)"
      and "set post \<subseteq> set (late_results db wo occurredAt)"
    by (rule fold_res_visits [OF run mem])
  have same: "?same u"
    by (rule fold_res_invariant [OF before, where P = ?same])
       (use record_frame in \<open>auto simp: late_step\<close>)
  from step obtain n where n: "recordResultGenealogyWithin u (pr_id r) by_user = Inr (n, v)" by (auto simp: late_step)
  have "find (\<lambda>x. pr_id x = pr_id r) (production_results u) = Some r"
    using find_by_key [OF keys r(1)] same by simp
  moreover have "made_from u r item time lot" "a \<in> set (allocations_of u (pr_id r))"
    using same_reads(1,2) [of u db] same made a(1) by auto
  ultimately have "related v lot (ra_lot_id a)" using record_covers [OF n] a(2) by blast
  then show ?thesis
    by (rule fold_res_invariant [OF after, where P = "\<lambda>x. related x lot (ra_lot_id a)"])
       (use record_keeps_related in \<open>auto simp: late_step\<close>)
qed

lemma in_use_consumed:
  assumes "in_use rows item time = Some lot"
  obtains c where "c \<in> set rows" and "mc_lot_id c = lot"
proof -
  let ?past = "filter (\<lambda>r. mc_item_id r = item \<and> mc_occurred_at r \<le> time) (effective_inputs rows)"
  from assms have "?past \<noteq> []" "mc_lot_id (last ?past) = lot"
    by (auto simp: in_use_def in_use_of_def Let_def split: if_splits)
  moreover from this have "last ?past \<in> set (effective_inputs rows)" using last_in_set [of ?past] by auto
  ultimately show ?thesis using that by (auto simp: effective_inputs_def)
qed

lemma related_is_affected:
  assumes "related db material p" and c: "c \<in> set (consumptions db)" "mc_lot_id c = material" "mc_work_order_id c = wo"
    and "find_lot db material \<noteq> None" and q: "find_lot db p = Some q" "source_type_code q = WORK_ORDER_LOT_SOURCE" "source_id q = wo"
  shows "\<exists>v. affectedProductionLots db material = Inr v \<and> q \<in> set (ap_items v) \<and> wo \<in> set (ap_workOrders v)"
proof -
  define ids where "ids = js_sort (\<le>) (remdups (map mc_work_order_id (filter (\<lambda>c. mc_lot_id c = material) (consumptions db))))"
  have wo: "wo \<in> set ids" using c by (auto simp: ids_def)
  then have ne: "ids \<noteq> []" by auto
  have ql: "q \<in> set (lots db)" "lot_id q = p" using find_key [of lot_id p "lots db" q] q(1) by (auto simp: find_lot_def)
  obtain rel where rel: "rel \<in> set (lot_relations db)" "lr_source rel = material" "lr_target rel = p" "lr_type_code rel = CONSUMED_RELATION"
    using assms(1) by (auto simp: related_def)
  have "wo \<in> set (tracedWorkOrders db ids)"
    using rel q wo ne unfolding tracedWorkOrders_def by (auto simp: List.map_filter_def image_iff intro!: bexI [of _ rel])
  with rel wo ne ql q assms(5) show ?thesis
    unfolding affectedProductionLots_def ids_def [symmetric] Let_def by (auto simp: image_iff intro!: bexI [of _ rel])
qed

text \<open>C16. A recall misses no production LOT. Once the result that made a production LOT is recorded, the list of
  production LOTs affected by a material LOT contains it whenever that material LOT was in use at some moment of the
  result's interval.\<close>
theorem recall_finds_lot:
  assumes rec: "recordResultGenealogyWithin db rid by_user = Inr (n, db')"
    and r: "find (\<lambda>r. pr_id r = rid) (production_results db) = Some r" and made: "made_from db r item time material"
    and a: "a \<in> set (allocations_of db rid)" "ra_lot_id a \<noteq> material" and known: "find_lot db material \<noteq> None"
    and q: "find_lot db (ra_lot_id a) = Some q" "source_type_code q = WORK_ORDER_LOT_SOURCE" "source_id q = pr_work_order_id r"
  shows "\<exists>v. affectedProductionLots db' material = Inr v \<and> q \<in> set (ap_items v) \<and>
    pr_work_order_id r \<in> set (ap_workOrders v)"
proof -
  have "related db' material (ra_lot_id a)" using record_covers [OF rec r made a] .
  moreover obtain c where "c \<in> set (inputs_of db (pr_work_order_id r))" "mc_lot_id c = material"
    using made in_use_consumed unfolding made_from_def by metis
  then have "c \<in> set (consumptions db')" "mc_work_order_id c = pr_work_order_id r" "mc_lot_id c = material"
    using record_frame [OF rec] by (auto simp: inputs_of_def)
  moreover have "find_lot db' = find_lot db" using record_frame [OF rec] by (simp add: find_lot_def fun_eq_iff)
  ultimately show ?thesis using related_is_affected [of db' material "ra_lot_id a" c] known q by auto
qed

section \<open>Witnesses\<close>

text \<open>Work order 7 uses LOT 1 of item 10 from time 100 and LOT 2 from time 200; result 5 at 150 made LOT 50.\<close>

definition traced_lot :: "id \<Rightarrow> code \<Rightarrow> id \<Rightarrow> lot_row" where
  "traced_lot i source_type source = \<lparr>lot_id = i, lot_no = [], lot_item_id = 10, lot_type_code = ''RAW'', lot_plant_id = 1,
     initial_qty = 5, lot_uom_id = 1, manufactured_at = None, expiry_date = None, source_type_code = source_type,
     source_id = source, lot_status_code = ''NORMAL'', lifecycle_status_code = None, parent_lot_id = None,
     lot_remarks = None, lot_created_by = None, lot_version_no = 1, lot_bom_id = None, lot_bom_version = None,
     work_order_lot_seq = None\<rparr>"

definition traced_result :: production_result where
  "traced_result = \<lparr>pr_id = 5, pr_work_order_id = 7, pr_occurred_at = 150, pr_corrects_id = None\<rparr>"

definition traced_allocation :: result_allocation where
  "traced_allocation = \<lparr>ra_result_id = 5, ra_lot_id = 50, ra_allocated_qty = 3, ra_uom_id = 1\<rparr>"

definition traced_db :: lot_db where
  "traced_db = empty_lot_db\<lparr>lots := [traced_lot 1 ''INBOUND_RECEIPT_LINE'' 3, traced_lot 2 ''INBOUND_RECEIPT_LINE'' 4,
       traced_lot 50 ''WORK_ORDER'' 7], lot_seq := 51,
     consumptions := [\<lparr>mc_id = 1, mc_work_order_id = 7, mc_item_id = 10, mc_lot_id = 1, mc_occurred_at = 100, mc_corrects_id = None\<rparr>,
       \<lparr>mc_id = 2, mc_work_order_id = 7, mc_item_id = 10, mc_lot_id = 2, mc_occurred_at = 200, mc_corrects_id = None\<rparr>],
     production_results := [traced_result], result_allocations := [traced_allocation]\<rparr>"

definition traced_rows :: "lot_relation list" where
  "traced_rows = [genealogy_row traced_result None traced_allocation 1]"

lemma traced_genealogy: "genealogy_rows traced_db traced_result None = traced_rows"
  by code_simp

lemma traced_recorded: "recordResultGenealogyWithin traced_db 5 None = Inr (1, traced_db\<lparr>lot_relations := traced_rows\<rparr>)"
proof -
  have found: "find (\<lambda>r. pr_id r = 5) (production_results traced_db) = Some traced_result"
    "allocations_of traced_db 5 = [traced_allocation]" "lot_relations traced_db = []"
    by (simp_all add: traced_db_def empty_lot_db_def traced_result_def traced_allocation_def allocations_of_def)
  have "insert_relation (genealogy_row traced_result None traced_allocation 1) [] =
      Inr [genealogy_row traced_result None traced_allocation 1]"
    by (simp add: insert_relation_def check_lot_relation_cycle_def edges_def genealogy_row_def traced_allocation_def)
  then show ?thesis
    using found traced_genealogy by (simp add: recordResultGenealogyWithin_def traced_rows_def)
qed

lemma traced_made_from: "made_from traced_db traced_result 10 120 1"
proof -
  have "in_use (inputs_of traced_db 7) 10 120 = Some 1" by code_simp
  moreover have "previous_result_time traced_db traced_result = None" by code_simp
  ultimately show ?thesis by (simp add: made_from_def traced_result_def)
qed

theorem genealogy_acyclic_and_idempotent_witness:
  "recordResultGenealogyWithin (traced_db\<lparr>lot_relations := traced_rows\<rparr>) 5 None = Inr (0, traced_db\<lparr>lot_relations := traced_rows\<rparr>)"
proof -
  have "relations_ok (lot_relations traced_db)" by (simp add: relations_ok_def traced_db_def empty_lot_db_def edges_def acyclic_def)
  from genealogy_acyclic_and_idempotent [OF traced_recorded this] show ?thesis by (elim conjE)
qed

lemma traced_late: "recordLateInputGenealogyWithin traced_db 7 100 None = Inr (traced_db\<lparr>lot_relations := traced_rows\<rparr>)"
proof -
  have "late_results traced_db 7 100 = [5]" by code_simp
  then show ?thesis by (simp add: recordLateInputGenealogyWithin_def traced_recorded)
qed

theorem late_input_covers_witness: "related (traced_db\<lparr>lot_relations := traced_rows\<rparr>) 1 50"
proof -
  have "traced_allocation \<in> set (allocations_of traced_db (pr_id traced_result))" by code_simp
  then show ?thesis
    using late_input_covers [OF traced_late, of traced_result traced_allocation 1 10 120] traced_made_from
    by (simp add: traced_db_def traced_result_def traced_allocation_def)
qed

theorem recall_finds_lot_witness:
  "\<exists>v. affectedProductionLots (traced_db\<lparr>lot_relations := traced_rows\<rparr>) 1 = Inr v \<and> map lot_id (ap_items v) = [50]"
proof -
  have facts: "find (\<lambda>r. pr_id r = 5) (production_results traced_db) = Some traced_result"
    "traced_allocation \<in> set (allocations_of traced_db 5)" "ra_lot_id traced_allocation \<noteq> 1"
    "find_lot traced_db 1 \<noteq> None" "find_lot traced_db (ra_lot_id traced_allocation) = Some (traced_lot 50 ''WORK_ORDER'' 7)"
    by (simp_all add: traced_db_def empty_lot_db_def traced_result_def traced_allocation_def allocations_of_def find_lot_def traced_lot_def)
  have "\<exists>v. affectedProductionLots (traced_db\<lparr>lot_relations := traced_rows\<rparr>) 1 = Inr v \<and>
      traced_lot 50 ''WORK_ORDER'' 7 \<in> set (ap_items v) \<and> pr_work_order_id traced_result \<in> set (ap_workOrders v)"
    by (rule recall_finds_lot [OF traced_recorded facts(1) traced_made_from facts(2,3,4,5)])
       (simp_all add: traced_lot_def WORK_ORDER_LOT_SOURCE_def traced_result_def)
  moreover have "(case affectedProductionLots (traced_db\<lparr>lot_relations := traced_rows\<rparr>) 1 of Inl e \<Rightarrow> False
      | Inr v \<Rightarrow> map lot_id (ap_items v) = [50])" by code_simp
  ultimately show ?thesis by (auto split: sum.splits)
qed

end
