(* ===== verification/Lot_Status.thy ===== *)
theory Lot_Status
  imports Lot_Genealogy Document_State Js_Strings
begin

text \<open>
  The two status axes and the holds of a LOT: \<open>lot-lifecycle.service.ts\<close>, \<open>lot-quality-status.service.ts\<close>,
  \<open>lot-hold.service.ts\<close>, \<open>pqc-release.ts\<close> and \<open>lot-split.ts\<close> of \<open>src/core/lot\<close>. A move takes the LOTs whose
  status the transition accepts and skips the others; both axes leave a history row per moved LOT. A release
  closes the targeted holds, leaves a hold for the rest of a partial release and counts what is still open.
\<close>

section \<open>Moving LOTs\<close>

record LotMoveResult =
  movedLotIds :: "id list"
  skippedLotIds :: "id list"

definition no_moves :: LotMoveResult where
  "no_moves = \<lparr>movedLotIds = [], skippedLotIds = []\<rparr>"

text \<open>The loop both services run over the rows they found: a LOT outside \<open>from\<close> is skipped, another is written
  and counted as moved.\<close>

definition move_step ::
  "(lot_row \<Rightarrow> bool) \<Rightarrow> (lot_row \<Rightarrow> lot_db \<Rightarrow> lot_db res) \<Rightarrow> lot_row \<Rightarrow> LotMoveResult \<times> lot_db \<Rightarrow>
     (LotMoveResult \<times> lot_db) res" where
  "move_step accepts save l st =
     (if accepts l
      then bind_res (save l (snd st)) (\<lambda>db. Inr ((fst st)\<lparr>movedLotIds := movedLotIds (fst st) @ [lot_id l]\<rparr>, db))
      else Inr ((fst st)\<lparr>skippedLotIds := skippedLotIds (fst st) @ [lot_id l]\<rparr>, snd st))"

definition not_found :: "id list \<Rightarrow> lot_row list \<Rightarrow> id list" where
  "not_found ids rows = filter (\<lambda>i. i \<notin> lot_id ` set rows) ids"

record LotMoveInput =
  lm_lotIds :: "id list"
  lm_action :: ActionName
  lm_sourceDocumentTypeCode :: code
  lm_sourceDocumentId :: id
  lm_changedAt :: int

definition LIFECYCLE_COLUMN :: StateColumn where
  "LIFECYCLE_COLUMN = ''trace.lot.lifecycle_status_code''"

definition QUALITY_COLUMN :: StateColumn where
  "QUALITY_COLUMN = ''trace.lot.status_code''"

definition lifecycle_accepts :: "Transition \<Rightarrow> lot_row \<Rightarrow> bool" where
  "lifecycle_accepts t l = (case lifecycle_status_code l of None \<Rightarrow> False | Some s \<Rightarrow> s \<in> set (tr_from t))"

text \<open>The update and the history row, with the table's check that a transition changes the status.\<close>

definition lifecycle_save :: "Transition \<Rightarrow> code \<Rightarrow> LotMoveInput \<Rightarrow> lot_row \<Rightarrow> lot_db \<Rightarrow> lot_db res" where
  "lifecycle_save t code' input l db =
     (let from_status = the (lifecycle_status_code l) in
      if from_status = tr_to t then Inl (DbError OtherDriverError)
      else Inr ((update_lot (lot_id l) (\<lambda>r. r\<lparr>lifecycle_status_code := Some (tr_to t), lot_version_no := lot_version_no r + 1\<rparr>) db)
        \<lparr>lifecycle_history := lifecycle_history db @
          [\<lparr>le_lot_id = lot_id l, le_from = from_status, le_to = tr_to t, le_transition_code = code',
            le_source_type_code = lm_sourceDocumentTypeCode input, le_source_id = lm_sourceDocumentId input,
            le_changed_at = lm_changedAt input\<rparr>]\<rparr>))"

definition moveLifecycle :: "lot_db \<Rightarrow> LotMoveInput \<Rightarrow> (LotMoveResult \<times> lot_db) res" where
  "moveLifecycle db input =
     (case find_transition TRANSITIONS LIFECYCLE_COLUMN (lm_action input) of
        None \<Rightarrow> Inl InternalError
      | Some t \<Rightarrow>
          (case transitionCode t of
             None \<Rightarrow> Inl InternalError
           | Some code' \<Rightarrow>
               if lm_lotIds input = [] then Inr (no_moves, db)
               else let rows = lots_in db (lm_lotIds input) in
                 fold_res (move_step (lifecycle_accepts t) (lifecycle_save t code' input)) rows
                   (no_moves\<lparr>skippedLotIds := not_found (lm_lotIds input) rows\<rparr>, db)))"

record LotQualityMoveContext =
  qc_changedBy :: "id option"
  qc_changedWorkerId :: "id option"
  qc_changedAt :: int
  qc_sourceDocumentTypeCode :: "code option"
  qc_sourceDocumentId :: "id option"
  qc_sourceDocumentIdByLot :: "(id \<times> id) list option"
  qc_reasonCode :: "code option"
  qc_reason :: "string option"
  qc_transitionCode :: "code option"

definition source_id_of :: "LotQualityMoveContext \<Rightarrow> id \<Rightarrow> id option" where
  "source_id_of ctx lotId =
     (case (case qc_sourceDocumentIdByLot ctx of None \<Rightarrow> None | Some m \<Rightarrow> map_of m lotId) of
        Some i \<Rightarrow> Some i | None \<Rightarrow> qc_sourceDocumentId ctx)"

definition quality_accepts :: "Transition \<Rightarrow> lot_row \<Rightarrow> bool" where
  "quality_accepts t l \<longleftrightarrow> lot_status_code l \<in> set (tr_from t)"

text \<open>The update and the event, with the check that type and id of the source are set together.\<close>

definition quality_save :: "Transition \<Rightarrow> code \<Rightarrow> LotQualityMoveContext \<Rightarrow> lot_row \<Rightarrow> lot_db \<Rightarrow> lot_db res" where
  "quality_save t code' ctx l db =
     (if (qc_sourceDocumentTypeCode ctx = None) \<noteq> (source_id_of ctx (lot_id l) = None) then Inl (DbError OtherDriverError)
      else Inr ((update_lot (lot_id l) (\<lambda>r. r\<lparr>lot_status_code := tr_to t, lot_version_no := lot_version_no r + 1\<rparr>) db)
        \<lparr>status_events := status_events db @
          [\<lparr>se_lot_id = lot_id l, se_previous = lot_status_code l, se_new = tr_to t, se_transition_code = code',
            se_reason_code = qc_reasonCode ctx, se_reason = qc_reason ctx,
            se_source_type_code = qc_sourceDocumentTypeCode ctx, se_source_id = source_id_of ctx (lot_id l),
            se_changed_at = qc_changedAt ctx, se_changed_by = qc_changedBy ctx,
            se_changed_worker_id = qc_changedWorkerId ctx\<rparr>]\<rparr>))"

definition or_code :: "code option \<Rightarrow> code option \<Rightarrow> code option" where
  "or_code a b = (case a of None \<Rightarrow> b | Some c \<Rightarrow> Some c)"

definition moveQuality ::
  "lot_db \<Rightarrow> id list \<Rightarrow> ActionName \<Rightarrow> LotQualityMoveContext \<Rightarrow> (LotMoveResult \<times> lot_db) res" where
  "moveQuality db lotIds action ctx =
     (if (qc_changedBy ctx = None) = (qc_changedWorkerId ctx = None) then Inl InternalError
      else case find_transition TRANSITIONS QUALITY_COLUMN action of
        None \<Rightarrow> Inl InternalError
      | Some t \<Rightarrow>
          (case or_code (transitionCode t) (qc_transitionCode ctx) of
             None \<Rightarrow> Inl InternalError
           | Some code' \<Rightarrow>
               if qc_sourceDocumentTypeCode ctx \<noteq> None \<and> (\<exists>i \<in> set lotIds. source_id_of ctx i = None) then Inl InternalError
               else if lotIds = [] then Inr (no_moves, db)
               else let rows = lots_in db lotIds in
                 fold_res (move_step (quality_accepts t) (quality_save t code' ctx)) rows
                   (no_moves\<lparr>skippedLotIds := not_found lotIds rows\<rparr>, db)))"

section \<open>Holds\<close>

record LotHoldActor =
  ha_by :: "id option"
  ha_workerId :: "id option"
  ha_at :: int

record LotHoldInput =
  hi_lotId :: id
  hi_reasonCode :: code
  hi_holdQty :: "decimal option"
  hi_uomId :: "id option"
  hi_releaseCondition :: "string option"
  hi_targetLotStatusCode :: "code option"
  hi_remarks :: "string option"

record LotHoldReleaseTarget =
  ht_lotId :: id
  ht_lotHoldIds :: "id list option"
  ht_reasonCode :: "code option"

record LotHoldReleaseInput =
  hr_releaseReasonCode :: code
  hr_releaseTargetLotStatusCode :: "code option"
  hr_remarks :: "string option option"
  hr_releaseQty :: "decimal option"

definition HOLD_STATUS :: code where
  "HOLD_STATUS = ''HELD''"

text \<open>\<open>SELECT \<dots> FOR UPDATE\<close> in id order; what the lock protects from is another transaction.\<close>

definition lockLotsWithin :: "lot_db \<Rightarrow> id list \<Rightarrow> lot_row list" where
  "lockLotsWithin db lotIds = lots_in db lotIds"

definition assertLocked :: "lot_row list \<Rightarrow> id \<Rightarrow> unit res" where
  "assertLocked locked lotId = guard_res (lotId \<in> lot_id ` set locked) InternalError"

text \<open>\<open>INSERT INTO trace.lot_hold\<close>: a quantity is stored in millionths, is not negative and comes with its unit.\<close>

definition create_hold :: "lot_hold \<Rightarrow> lot_db \<Rightarrow> (lot_hold \<times> lot_db) res" where
  "create_hold row db =
     (let new = row\<lparr>hold_id := hold_seq db, hold_qty := map_option to_scale (hold_qty row)\<rparr> in
      if (hold_qty new = None) \<noteq> (hold_uom_id new = None) \<or> (case hold_qty new of None \<Rightarrow> False | Some q \<Rightarrow> q < 0) \<or>
         held_by new = None \<and> held_worker_id new = None
      then Inl (DbError OtherDriverError)
      else Inr (new, db\<lparr>lot_holds := lot_holds db @ [new], hold_seq := hold_seq db + 1\<rparr>))"

definition hold_row :: "LotHoldInput \<Rightarrow> LotHoldActor \<Rightarrow> lot_hold" where
  "hold_row input actor =
     \<lparr>hold_id = 0, hold_lot_id = hi_lotId input, hold_reason_code = hi_reasonCode input, hold_status_code = HOLD_STATUS,
      hold_qty = hi_holdQty input, hold_uom_id = hi_uomId input, release_condition = hi_releaseCondition input,
      target_lot_status_code = hi_targetLotStatusCode input, hold_remarks = hi_remarks input, held_by = ha_by actor,
      held_worker_id = ha_workerId actor, held_at = ha_at actor, hold_created_by = ha_by actor, released_at = None,
      released_by = None, released_worker_id = None, release_reason_code = None, release_target_lot_status_code = None\<rparr>"

definition holdWithin ::
  "lot_db \<Rightarrow> lot_row list \<Rightarrow> LotHoldInput list \<Rightarrow> LotHoldActor \<Rightarrow> (lot_hold list \<times> lot_db) res" where
  "holdWithin db locked inputs actor =
     fold_res (\<lambda>input st.
       bind_res (assertLocked locked (hi_lotId input)) (\<lambda>_.
       bind_res (create_hold (hold_row input actor) (snd st)) (\<lambda>(row, db'). Inr (fst st @ [row], db'))))
       inputs ([], db)"

definition open_hold :: "id \<Rightarrow> lot_hold \<Rightarrow> bool" where
  "open_hold lotId h \<longleftrightarrow> hold_lot_id h = lotId \<and> released_at h = None"

definition targeted :: "LotHoldReleaseTarget \<Rightarrow> lot_hold \<Rightarrow> bool" where
  "targeted target h \<longleftrightarrow>
     (case ht_reasonCode target of None \<Rightarrow> True | Some r \<Rightarrow> hold_reason_code h = r) \<and>
     (case ht_lotHoldIds target of None \<Rightarrow> True | Some ids \<Rightarrow> hold_id h \<in> set ids)"

definition target_holds :: "lot_db \<Rightarrow> LotHoldReleaseTarget \<Rightarrow> lot_hold list" where
  "target_holds db target = filter (\<lambda>h. open_hold (ht_lotId target) h \<and> targeted target h) (lot_holds db)"

definition remainderQty :: "decimal option \<Rightarrow> decimal option \<Rightarrow> decimal option" where
  "remainderQty holdQty releaseQty =
     (case (holdQty, releaseQty) of
        (Some q, Some r) \<Rightarrow> if q - r \<le> 0 then None else Some (q - r)
      | _ \<Rightarrow> None)"

definition closed_hold :: "LotHoldReleaseInput \<Rightarrow> LotHoldActor \<Rightarrow> lot_hold \<Rightarrow> lot_hold" where
  "closed_hold input actor h =
     h\<lparr>released_at := Some (ha_at actor), released_by := ha_by actor, released_worker_id := ha_workerId actor,
       release_reason_code := Some (hr_releaseReasonCode input),
       release_target_lot_status_code := hr_releaseTargetLotStatusCode input,
       hold_remarks := (case hr_remarks input of None \<Rightarrow> hold_remarks h | Some m \<Rightarrow> m)\<rparr>"

text \<open>\<open>UPDATE trace.lot_hold\<close> with the checks on a closed row.\<close>

definition close_hold :: "LotHoldReleaseInput \<Rightarrow> LotHoldActor \<Rightarrow> lot_hold \<Rightarrow> lot_db \<Rightarrow> (lot_hold \<times> lot_db) res" where
  "close_hold input actor h db =
     (let closed = closed_hold input actor h in
      if ha_at actor < held_at h \<or> ha_by actor = None \<and> ha_workerId actor = None then Inl (DbError OtherDriverError)
      else Inr (closed, db\<lparr>lot_holds := map (\<lambda>x. if hold_id x = hold_id h then closed else x) (lot_holds db)\<rparr>))"

definition rest_row :: "lot_hold \<Rightarrow> decimal \<Rightarrow> LotHoldActor \<Rightarrow> lot_hold" where
  "rest_row h rest actor =
     h\<lparr>hold_qty := Some rest, held_by := ha_by actor, held_worker_id := ha_workerId actor, held_at := ha_at actor,
       hold_created_by := ha_by actor, released_at := None, released_by := None, released_worker_id := None,
       release_reason_code := None, release_target_lot_status_code := None\<rparr>"

definition release_step ::
  "LotHoldReleaseInput \<Rightarrow> LotHoldActor \<Rightarrow> lot_hold \<Rightarrow> lot_hold list \<times> lot_db \<Rightarrow> (lot_hold list \<times> lot_db) res" where
  "release_step input actor h st =
     bind_res (close_hold input actor h (snd st)) (\<lambda>(closed, db).
       case remainderQty (hold_qty h) (hr_releaseQty input) of
         None \<Rightarrow> Inr (fst st @ [closed], db)
       | Some rest \<Rightarrow> bind_res (create_hold (rest_row h rest actor) db) (\<lambda>(_, db'). Inr (fst st @ [closed], db')))"

definition open_count :: "lot_db \<Rightarrow> id \<Rightarrow> nat" where
  "open_count db lotId = length (filter (open_hold lotId) (lot_holds db))"

definition releaseWithin ::
  "lot_db \<Rightarrow> lot_row list \<Rightarrow> LotHoldReleaseTarget \<Rightarrow> LotHoldReleaseInput \<Rightarrow> LotHoldActor \<Rightarrow>
     ((lot_hold list \<times> nat) \<times> lot_db) res" where
  "releaseWithin db locked target input actor =
     bind_res (assertLocked locked (ht_lotId target)) (\<lambda>_.
       let holds = target_holds db target in
       bind_res (guard_res (hr_releaseQty input = None \<or> length holds = 1) InternalError) (\<lambda>_.
       bind_res (fold_res (release_step input actor) holds ([], db)) (\<lambda>(released, db').
         Inr ((released, open_count db' (ht_lotId target)), db'))))"

section \<open>Release after inspection\<close>

definition pqcAcceptanceExceeded :: "decimal \<Rightarrow> decimal option \<Rightarrow> bool" where
  "pqcAcceptanceExceeded rejectedQty acceptanceNumber \<longleftrightarrow>
     (case acceptanceNumber of None \<Rightarrow> False | Some n \<Rightarrow> n < rejectedQty)"

definition lotsFreeOfOpenHolds :: "lot_db \<Rightarrow> id list \<Rightarrow> id list" where
  "lotsFreeOfOpenHolds db lotIds =
     (let held = map hold_lot_id (filter (\<lambda>h. hold_lot_id h \<in> set lotIds \<and> released_at h = None) (lot_holds db)) in
      filter (\<lambda>i. i \<notin> set held) lotIds)"

section \<open>Splitting\<close>

record LotSplitInput =
  sp_parentLotId :: id
  sp_qty :: decimal
  sp_sourceEventTypeCode :: code
  sp_sourceEventId :: id
  sp_occurredAt :: int
  sp_createdBy :: "id option"

definition split_no :: "lot_row \<Rightarrow> nat \<Rightarrow> string" where
  "split_no parent n = lot_no parent @ ''-S'' @ show_nat n"

definition split_child :: "lot_row \<Rightarrow> LotSplitInput \<Rightarrow> string \<Rightarrow> lot_row" where
  "split_child parent input no =
     \<lparr>lot_id = 0, lot_no = no, lot_item_id = lot_item_id parent, lot_type_code = lot_type_code parent,
      lot_plant_id = lot_plant_id parent, initial_qty = sp_qty input, lot_uom_id = lot_uom_id parent,
      manufactured_at = manufactured_at parent, expiry_date = expiry_date parent, source_type_code = LOT_SPLIT_SOURCE,
      source_id = sp_parentLotId input, lot_status_code = lot_status_code parent, lifecycle_status_code = None,
      parent_lot_id = Some (sp_parentLotId input), lot_remarks = None, lot_created_by = sp_createdBy input,
      lot_version_no = 1, lot_bom_id = lot_bom_id parent, lot_bom_version = lot_bom_version parent,
      work_order_lot_seq = None\<rparr>"

definition split_relation :: "lot_row \<Rightarrow> LotSplitInput \<Rightarrow> id \<Rightarrow> lot_relation" where
  "split_relation parent input child =
     \<lparr>lr_source = sp_parentLotId input, lr_target = child, lr_type_code = ''SPLIT'', lr_qty = sp_qty input,
      lr_uom_id = lot_uom_id parent, lr_event_type_code = sp_sourceEventTypeCode input, lr_event_id = sp_sourceEventId input,
      lr_method_code = ''EXACT'', lr_accuracy_code = ''EXACT'', lr_occurred_at = sp_occurredAt input,
      lr_created_by = sp_createdBy input\<rparr>"

text \<open>A plain insert: a duplicate key is an error.\<close>

definition create_relation :: "lot_relation \<Rightarrow> lot_relation list \<Rightarrow> lot_relation list res" where
  "create_relation new rels =
     bind_res (insert_relation new rels) (\<lambda>rels'.
       if relation_key new \<in> relation_key ` set rels
       then Inl (DbError (P2002 [''source_lot_id'', ''target_lot_id'', ''relation_type_code'', ''source_event_type_code'', ''source_event_id'']))
       else Inr rels')"

definition splitLotWithin :: "lot_db \<Rightarrow> LotSplitInput \<Rightarrow> ((id \<times> string) \<times> lot_db) res" where
  "splitLotWithin db input =
     (case find_lot db (sp_parentLotId input) of
        None \<Rightarrow> Inl (DbError P2025)
      | Some parent \<Rightarrow>
          let siblings = length (filter (\<lambda>l. parent_lot_id l = Some (sp_parentLotId input)) (lots db));
              no = split_no parent (siblings + 1) in
          bind_res (create_lot (split_child parent input no) db) (\<lambda>(child, db1).
          bind_res (create_relation (split_relation parent input child) (lot_relations db1)) (\<lambda>rels.
            Inr ((child, no), db1\<lparr>lot_relations := rels\<rparr>))))"

section \<open>What a move does\<close>

lemma move_step_simps:
  "accepts l \<Longrightarrow> move_step accepts save l (r, db) =
     bind_res (save l db) (\<lambda>db. Inr (r\<lparr>movedLotIds := movedLotIds r @ [lot_id l]\<rparr>, db))"
  "\<not> accepts l \<Longrightarrow> move_step accepts save l (r, db) = Inr (r\<lparr>skippedLotIds := skippedLotIds r @ [lot_id l]\<rparr>, db)"
  by (simp_all add: move_step_def)

lemma move_loop:
  "fold_res (move_step accepts save) rows (r, db) =
     bind_res (fold_res save (filter accepts rows) db) (\<lambda>db'.
       Inr (r\<lparr>movedLotIds := movedLotIds r @ map lot_id (filter accepts rows),
              skippedLotIds := skippedLotIds r @ map lot_id (filter (\<lambda>l. \<not> accepts l) rows)\<rparr>, db'))"
proof (induction rows arbitrary: r db)
  case (Cons l rows)
  show ?case
  proof (cases "accepts l")
    case True
    then show ?thesis by (cases "save l db") (simp_all add: move_step_simps Cons.IH)
  next
    case False
    then show ?thesis by (simp add: move_step_simps Cons.IH)
  qed
qed simp

definition update_lots :: "id set \<Rightarrow> (lot_row \<Rightarrow> lot_row) \<Rightarrow> lot_db \<Rightarrow> lot_db" where
  "update_lots ids f db = db\<lparr>lots := map (\<lambda>l. if lot_id l \<in> ids then f l else l) (lots db)\<rparr>"

lemma update_lots_insert:
  assumes "i \<notin> ids" and "\<And>l. lot_id (f l) = lot_id l"
  shows "update_lots ids f (update_lot i f db) = update_lots (insert i ids) f db"
  using assms by (auto simp: update_lots_def update_lot_def)

lemma update_lots_empty: "update_lots {} f db = db"
  by (simp add: update_lots_def)

definition to_quality :: "Transition \<Rightarrow> lot_row \<Rightarrow> lot_row" where
  "to_quality t r = r\<lparr>lot_status_code := tr_to t, lot_version_no := lot_version_no r + 1\<rparr>"

definition to_lifecycle :: "Transition \<Rightarrow> lot_row \<Rightarrow> lot_row" where
  "to_lifecycle t r = r\<lparr>lifecycle_status_code := Some (tr_to t), lot_version_no := lot_version_no r + 1\<rparr>"

definition quality_event :: "Transition \<Rightarrow> code \<Rightarrow> LotQualityMoveContext \<Rightarrow> lot_row \<Rightarrow> status_event" where
  "quality_event t code' ctx l =
     \<lparr>se_lot_id = lot_id l, se_previous = lot_status_code l, se_new = tr_to t, se_transition_code = code',
      se_reason_code = qc_reasonCode ctx, se_reason = qc_reason ctx, se_source_type_code = qc_sourceDocumentTypeCode ctx,
      se_source_id = source_id_of ctx (lot_id l), se_changed_at = qc_changedAt ctx, se_changed_by = qc_changedBy ctx,
      se_changed_worker_id = qc_changedWorkerId ctx\<rparr>"

definition lifecycle_event_of :: "Transition \<Rightarrow> code \<Rightarrow> LotMoveInput \<Rightarrow> lot_row \<Rightarrow> lifecycle_event" where
  "lifecycle_event_of t code' input l =
     \<lparr>le_lot_id = lot_id l, le_from = the (lifecycle_status_code l), le_to = tr_to t, le_transition_code = code',
      le_source_type_code = lm_sourceDocumentTypeCode input, le_source_id = lm_sourceDocumentId input,
      le_changed_at = lm_changedAt input\<rparr>"

lemma quality_saves:
  "fold_res (quality_save t code' ctx) rows db = Inr db' \<Longrightarrow> distinct (map lot_id rows) \<Longrightarrow>
   db' = (update_lots (lot_id ` set rows) (to_quality t) db)\<lparr>status_events := status_events db @ map (quality_event t code' ctx) rows\<rparr>"
proof (induction rows arbitrary: db)
  case Nil
  then show ?case by (simp add: update_lots_def)
next
  case (Cons l rows)
  from Cons.prems obtain u where u: "quality_save t code' ctx l db = Inr u" "fold_res (quality_save t code' ctx) rows u = Inr db'"
    by (auto simp: res_simps)
  then have "u = (update_lot (lot_id l) (to_quality t) db)\<lparr>status_events := status_events db @ [quality_event t code' ctx l]\<rparr>"
    by (auto simp: quality_save_def quality_event_def to_quality_def [abs_def] update_lot_def Let_def split: if_splits)
  with Cons.IH [OF u(2)] Cons.prems(2) show ?case
    by (auto simp: update_lots_def update_lot_def to_quality_def)
qed

lemma lifecycle_saves:
  "tr_to t \<notin> set (tr_from t) \<Longrightarrow> \<forall>l \<in> set rows. lifecycle_accepts t l \<Longrightarrow> distinct (map lot_id rows) \<Longrightarrow>
   fold_res (lifecycle_save t code' input) rows db =
     Inr ((update_lots (lot_id ` set rows) (to_lifecycle t) db)\<lparr>lifecycle_history := lifecycle_history db @ map (lifecycle_event_of t code' input) rows\<rparr>)"
proof (induction rows arbitrary: db)
  case Nil
  then show ?case by (simp add: update_lots_def)
next
  case (Cons l rows)
  then have "the (lifecycle_status_code l) \<noteq> tr_to t" by (auto simp: lifecycle_accepts_def split: option.splits)
  then have "lifecycle_save t code' input l db =
      Inr ((update_lot (lot_id l) (to_lifecycle t) db)\<lparr>lifecycle_history := lifecycle_history db @ [lifecycle_event_of t code' input l]\<rparr>)"
    by (simp add: lifecycle_save_def lifecycle_event_of_def to_lifecycle_def [abs_def] update_lot_def)
  with Cons show ?case by (auto simp: update_lots_def update_lot_def to_lifecycle_def)
qed

definition lot_ids_ok :: "lot_db \<Rightarrow> bool" where
  "lot_ids_ok db \<longleftrightarrow> id_column (lot_seq db) (map lot_id (lots db))"

lemma distinct_filter_ids: "distinct (map lot_id xs) \<Longrightarrow> distinct (map lot_id (filter P xs))"
  by (induction xs) auto

lemma distinct_lots_in: "lot_ids_ok db \<Longrightarrow> distinct (map lot_id (filter P (lots_in db ids)))"
  unfolding lots_in_def lot_ids_ok_def by (intro distinct_filter_ids id_column_distinct)

lemma moveQuality_effect:
  assumes "moveQuality db ids action ctx = Inr (r, db')" and "lot_ids_ok db"
  obtains t code' where "find_transition TRANSITIONS QUALITY_COLUMN action = Some t"
    and "or_code (transitionCode t) (qc_transitionCode ctx) = Some code'"
    and "movedLotIds r = map lot_id (filter (quality_accepts t) (lots_in db ids))"
    and "skippedLotIds r = not_found ids (lots_in db ids) @ map lot_id (filter (\<lambda>l. \<not> quality_accepts t l) (lots_in db ids))"
    and "db' = (update_lots (set (movedLotIds r)) (to_quality t) db)
      \<lparr>status_events := status_events db @ map (quality_event t code' ctx) (filter (quality_accepts t) (lots_in db ids))\<rparr>"
proof -
  from assms(1) obtain t code' where t: "find_transition TRANSITIONS QUALITY_COLUMN action = Some t"
    and c: "or_code (transitionCode t) (qc_transitionCode ctx) = Some code'"
    by (auto simp: moveQuality_def split: if_splits option.splits)
  show ?thesis
  proof (cases "ids = []")
    case True
    with assms(1) t c have "r = no_moves" "db' = db" by (auto simp: moveQuality_def split: if_splits)
    then show ?thesis using that [OF t c] True by (simp add: no_moves_def lots_in_def not_found_def update_lots_empty)
  next
    case False
    let ?rows = "lots_in db ids" and ?ok = "filter (quality_accepts t) (lots_in db ids)"
    from assms(1) t c False have "fold_res (move_step (quality_accepts t) (quality_save t code' ctx)) ?rows
        (no_moves\<lparr>skippedLotIds := not_found ids ?rows\<rparr>, db) = Inr (r, db')"
      by (auto simp: moveQuality_def Let_def split: if_splits)
    then have save: "fold_res (quality_save t code' ctx) ?ok db = Inr db'"
      and moved: "movedLotIds r = map lot_id ?ok"
      and skipped: "skippedLotIds r = not_found ids ?rows @ map lot_id (filter (\<lambda>l. \<not> quality_accepts t l) ?rows)"
      by (auto simp: move_loop res_simps no_moves_def)
    from quality_saves [OF save distinct_lots_in [OF assms(2)]] show ?thesis
      by (intro that [OF t c moved skipped]) (simp add: moved)
  qed
qed

text \<open>A registered lifecycle action has a code and never ends where it starts, so a move along this axis cannot fail.\<close>

lemma lifecycle_actions_sound:
  assumes "find_transition TRANSITIONS LIFECYCLE_COLUMN action = Some t"
  shows "transitionCode t \<noteq> None \<and> tr_to t \<notin> set (tr_from t)"
proof -
  have "map_of TRANSITIONS LIFECYCLE_COLUMN = Some lot_lifecycle_actions" unfolding LIFECYCLE_COLUMN_def by code_simp
  with assms have "(action, t) \<in> set lot_lifecycle_actions" by (auto simp: find_transition_def dest: map_of_SomeD)
  moreover have "list_all (\<lambda>(a, t). transitionCode t \<noteq> None \<and> tr_to t \<notin> set (tr_from t)) lot_lifecycle_actions" by code_simp
  ultimately show ?thesis unfolding list_all_iff by blast
qed

lemma moveLifecycle_effect:
  assumes "find_transition TRANSITIONS LIFECYCLE_COLUMN (lm_action input) = Some t" and "lot_ids_ok db"
  obtains code' where "transitionCode t = Some code'"
    and "moveLifecycle db input =
      (let rows = lots_in db (lm_lotIds input); ok = filter (lifecycle_accepts t) rows in
       Inr (\<lparr>movedLotIds = map lot_id ok,
             skippedLotIds = not_found (lm_lotIds input) rows @ map lot_id (filter (\<lambda>l. \<not> lifecycle_accepts t l) rows)\<rparr>,
            (update_lots (lot_id ` set ok) (to_lifecycle t) db)
              \<lparr>lifecycle_history := lifecycle_history db @ map (lifecycle_event_of t code' input) ok\<rparr>))"
proof -
  from lifecycle_actions_sound [OF assms(1)] obtain code' where c: "transitionCode t = Some code'" and to': "tr_to t \<notin> set (tr_from t)"
    by auto
  let ?rows = "lots_in db (lm_lotIds input)"
  let ?ok = "filter (lifecycle_accepts t) ?rows"
  have "fold_res (lifecycle_save t code' input) ?ok db = Inr ((update_lots (lot_id ` set ?ok) (to_lifecycle t) db)
      \<lparr>lifecycle_history := lifecycle_history db @ map (lifecycle_event_of t code' input) ?ok\<rparr>)"
    by (rule lifecycle_saves [OF to']) (auto simp: assms distinct_lots_in)
  then show ?thesis
    using that [OF c] assms(1) c
    by (cases "lm_lotIds input = []")
       (auto simp: moveLifecycle_def move_loop Let_def no_moves_def lots_in_def not_found_def update_lots_def)
qed

lemma same_lot:
  assumes "lot_ids_ok db" and "l \<in> set (lots db)" and "l' \<in> set (lots db)" and "lot_id l = lot_id l'"
  shows "l = l'"
  using assms id_column_distinct [of "lot_seq db" "map lot_id (lots db)"] by (auto simp: lot_ids_ok_def distinct_map inj_on_def)

text \<open>Moving LOTs along the lifecycle axis with a registered action always succeeds; every requested LOT is
  either moved or skipped, moved are exactly the ones whose status the action accepts, they end in its target status,
  and each leaves one history row.\<close>
theorem lifecycle_move_partitions:
  assumes "find_transition TRANSITIONS LIFECYCLE_COLUMN (lm_action input) = Some t" and "lot_ids_ok db"
  shows "\<exists>r db'. moveLifecycle db input = Inr (r, db') \<and>
    set (movedLotIds r) \<union> set (skippedLotIds r) = set (lm_lotIds input) \<and> set (movedLotIds r) \<inter> set (skippedLotIds r) = {} \<and>
    (\<forall>l \<in> set (lots db). lot_id l \<in> set (movedLotIds r) \<longleftrightarrow> lot_id l \<in> set (lm_lotIds input) \<and> lifecycle_accepts t l) \<and>
    (\<forall>l \<in> set (lots db'). lot_id l \<in> set (movedLotIds r) \<longrightarrow> lifecycle_status_code l = Some (tr_to t)) \<and>
    map le_lot_id (drop (length (lifecycle_history db)) (lifecycle_history db')) = movedLotIds r"
proof -
  from moveLifecycle_effect [OF assms] obtain code' where run: "moveLifecycle db input =
      (let rows = lots_in db (lm_lotIds input); ok = filter (lifecycle_accepts t) rows in
       Inr (\<lparr>movedLotIds = map lot_id ok,
             skippedLotIds = not_found (lm_lotIds input) rows @ map lot_id (filter (\<lambda>l. \<not> lifecycle_accepts t l) rows)\<rparr>,
            (update_lots (lot_id ` set ok) (to_lifecycle t) db)
              \<lparr>lifecycle_history := lifecycle_history db @ map (lifecycle_event_of t code' input) ok\<rparr>))" by metis
  let ?rows = "lots_in db (lm_lotIds input)"
  define r where "r = \<lparr>movedLotIds = map lot_id (filter (lifecycle_accepts t) ?rows),
    skippedLotIds = not_found (lm_lotIds input) ?rows @ map lot_id (filter (\<lambda>l. \<not> lifecycle_accepts t l) ?rows)\<rparr>"
  define db' where "db' = (update_lots (lot_id ` set (filter (lifecycle_accepts t) ?rows)) (to_lifecycle t) db)
    \<lparr>lifecycle_history := lifecycle_history db @ map (lifecycle_event_of t code' input) (filter (lifecycle_accepts t) ?rows)\<rparr>"
  have moved: "lot_id l \<in> set (movedLotIds r) \<longleftrightarrow> lot_id l \<in> set (lm_lotIds input) \<and> lifecycle_accepts t l"
    if "l \<in> set (lots db)" for l
    using same_lot [OF assms(2) that] that by (auto simp: r_def lots_in_def)
  have "moveLifecycle db input = Inr (r, db')" using run by (simp add: r_def db'_def Let_def)
  moreover have "set (movedLotIds r) \<union> set (skippedLotIds r) = set (lm_lotIds input)"
    by (auto simp: r_def lots_in_def not_found_def)
  moreover have "set (movedLotIds r) \<inter> set (skippedLotIds r) = {}"
    using same_lot [OF assms(2)] by (auto simp: r_def lots_in_def not_found_def)
  moreover have "\<forall>l \<in> set (lots db'). lot_id l \<in> set (movedLotIds r) \<longrightarrow> lifecycle_status_code l = Some (tr_to t)"
    by (auto simp: r_def db'_def update_lots_def to_lifecycle_def)
  moreover have "map le_lot_id (drop (length (lifecycle_history db)) (lifecycle_history db')) = movedLotIds r"
    by (simp add: r_def db'_def lifecycle_event_of_def comp_def)
  ultimately show ?thesis using moved by blast
qed

section \<open>What a release leaves open\<close>

definition hold_ids_ok :: "lot_db \<Rightarrow> bool" where
  "hold_ids_ok db \<longleftrightarrow> id_column (hold_seq db) (map hold_id (lot_holds db))"

definition close_ids :: "id set \<Rightarrow> (lot_hold \<Rightarrow> lot_hold) \<Rightarrow> lot_db \<Rightarrow> lot_db" where
  "close_ids ids f db = db\<lparr>lot_holds := map (\<lambda>x. if hold_id x \<in> ids then f x else x) (lot_holds db)\<rparr>"

lemma closed_hold_id [simp]:
  "hold_id (closed_hold input actor h) = hold_id h" "hold_lot_id (closed_hold input actor h) = hold_lot_id h"
  "hold_qty (closed_hold input actor h) = hold_qty h" "released_at (closed_hold input actor h) = Some (ha_at actor)"
  by (simp_all add: closed_hold_def)

lemma same_hold:
  "hold_ids_ok db \<Longrightarrow> h \<in> set (lot_holds db) \<Longrightarrow> h' \<in> set (lot_holds db) \<Longrightarrow> hold_id h = hold_id h' \<Longrightarrow> h = h'"
  using id_column_distinct [of "hold_seq db" "map hold_id (lot_holds db)"] by (auto simp: hold_ids_ok_def distinct_map inj_on_def)

lemma close_hold_effect:
  assumes "close_hold input actor h db = Inr (ch, db')" and "hold_ids_ok db" and "h \<in> set (lot_holds db)"
  shows "ch = closed_hold input actor h \<and> db' = close_ids {hold_id h} (closed_hold input actor) db \<and> held_at h \<le> ha_at actor"
proof -
  have "map (\<lambda>x. if hold_id x = hold_id h then closed_hold input actor h else x) (lot_holds db) =
      map (\<lambda>x. if hold_id x = hold_id h then closed_hold input actor x else x) (lot_holds db)"
    using same_hold [OF assms(2) _ assms(3)] by auto
  with assms(1) show ?thesis by (auto simp: close_hold_def close_ids_def Let_def split: if_splits)
qed

lemma close_ids_keep: "hold_ids_ok db \<Longrightarrow> (\<And>x. hold_id (f x) = hold_id x) \<Longrightarrow> hold_ids_ok (close_ids ids f db)"
proof -
  assume "hold_ids_ok db" and "\<And>x. hold_id (f x) = hold_id x"
  moreover from this(2) have "map hold_id (lot_holds (close_ids ids f db)) = map hold_id (lot_holds db)" by (auto simp: close_ids_def)
  moreover have "hold_seq (close_ids ids f db) = hold_seq db" by (simp add: close_ids_def)
  ultimately show ?thesis by (simp add: hold_ids_ok_def)
qed

lemma release_step_pair:
  "release_step input actor h (rs, db) =
     bind_res (close_hold input actor h db) (\<lambda>(ch, db).
       case remainderQty (hold_qty h) (hr_releaseQty input) of
         None \<Rightarrow> Inr (rs @ [ch], db)
       | Some rest \<Rightarrow> bind_res (create_hold (rest_row h rest actor) db) (\<lambda>(_, db'). Inr (rs @ [ch], db')))"
  unfolding release_step_def fst_conv snd_conv ..

lemma no_remainder [simp]: "remainderQty q None = None"
  by (cases q) (simp_all add: remainderQty_def)

lemma release_all_holds:
  "hr_releaseQty input = None \<Longrightarrow> fold_res (release_step input actor) holds (rs, db) = Inr (rs', db') \<Longrightarrow> hold_ids_ok db \<Longrightarrow>
   set holds \<subseteq> set (lot_holds db) \<Longrightarrow> distinct (map hold_id holds) \<Longrightarrow>
   rs' = rs @ map (closed_hold input actor) holds \<and> db' = close_ids (hold_id ` set holds) (closed_hold input actor) db"
proof (induction holds arbitrary: rs db)
  case Nil
  then show ?case by (simp add: close_ids_def)
next
  case (Cons h holds)
  from Cons.prems(1,2) obtain ch u where u: "close_hold input actor h db = Inr (ch, u)"
    and run: "fold_res (release_step input actor) holds (rs @ [ch], u) = Inr (rs', db')"
    by (auto simp: release_step_pair res_simps)
  from close_hold_effect [OF u Cons.prems(3)] Cons.prems(4)
  have c: "ch = closed_hold input actor h" and eq: "u = close_ids {hold_id h} (closed_hold input actor) db" by auto
  have "hold_ids_ok u" unfolding eq using Cons.prems(3) by (rule close_ids_keep) simp
  moreover have "set holds \<subseteq> set (lot_holds u)"
    using Cons.prems(4,5) by (force simp: eq close_ids_def image_iff)
  ultimately have "rs' = (rs @ [ch]) @ map (closed_hold input actor) holds \<and>
      db' = close_ids (hold_id ` set holds) (closed_hold input actor) u"
    using Cons.IH [OF Cons.prems(1) run] Cons.prems(5) by simp
  moreover have "close_ids (hold_id ` set holds) (closed_hold input actor) u = close_ids (hold_id ` set (h # holds)) (closed_hold input actor) db"
    using Cons.prems(5) by (auto simp: eq close_ids_def)
  ultimately show ?case by (simp add: c)
qed

text \<open>The rest of a partial release is a new open hold.\<close>

lemma release_one_hold:
  assumes "fold_res (release_step input actor) [h] ([], db) = Inr (rs, db')" and "hold_ids_ok db" and "h \<in> set (lot_holds db)"
  shows "rs = [closed_hold input actor h] \<and>
    (case remainderQty (hold_qty h) (hr_releaseQty input) of
       None \<Rightarrow> db' = close_ids {hold_id h} (closed_hold input actor) db
     | Some q \<Rightarrow> lot_holds db' = lot_holds (close_ids {hold_id h} (closed_hold input actor) db) @
          [(rest_row h q actor)\<lparr>hold_id := hold_seq db, hold_qty := Some (to_scale q)\<rparr>] \<and>
        hold_seq db' = hold_seq db + 1 \<and> db' = (close_ids {hold_id h} (closed_hold input actor) db)\<lparr>lot_holds := lot_holds db', hold_seq := hold_seq db'\<rparr>)"
proof -
  from assms(1) obtain ch u where u: "close_hold input actor h db = Inr (ch, u)"
    by (auto simp: release_step_pair res_simps)
  from close_hold_effect [OF this assms(2,3)] have c: "ch = closed_hold input actor h"
    and eq: "u = close_ids {hold_id h} (closed_hold input actor) db" by auto
  have "hold_seq u = hold_seq db" by (simp add: eq close_ids_def)
  with assms(1) u c show ?thesis
    by (cases "remainderQty (hold_qty h) (hr_releaseQty input)")
       (auto simp: release_step_pair res_simps create_hold_def Let_def rest_row_def eq [symmetric] split: if_splits)
qed

lemma target_holds_open: "h \<in> set (target_holds db target) \<Longrightarrow> h \<in> set (lot_holds db) \<and> open_hold (ht_lotId target) h"
  by (auto simp: target_holds_def)

lemma filter_replaced: "(\<And>x. \<not> P (f x)) \<Longrightarrow> filter P (map (\<lambda>x. if x \<in> A then f x else x) xs) = filter (\<lambda>x. P x \<and> x \<notin> A) xs"
  by (induction xs) auto

lemma open_after_close:
  assumes "hold_ids_ok db" and "set holds \<subseteq> set (lot_holds db)"
  shows "filter (open_hold lotId) (lot_holds (close_ids (hold_id ` set holds) (closed_hold input actor) db)) =
    filter (\<lambda>h. open_hold lotId h \<and> h \<notin> set holds) (lot_holds db)"
proof -
  have "map (\<lambda>x. if hold_id x \<in> hold_id ` set holds then closed_hold input actor x else x) (lot_holds db) =
      map (\<lambda>x. if x \<in> set holds then closed_hold input actor x else x) (lot_holds db)"
  proof (rule map_cong [OF refl])
    fix x assume x: "x \<in> set (lot_holds db)"
    then have "hold_id x \<in> hold_id ` set holds \<longleftrightarrow> x \<in> set holds" using same_hold [OF assms(1) x] assms(2) by auto
    then show "(if hold_id x \<in> hold_id ` set holds then closed_hold input actor x else x) =
      (if x \<in> set holds then closed_hold input actor x else x)" by simp
  qed
  then have "lot_holds (close_ids (hold_id ` set holds) (closed_hold input actor) db) =
      map (\<lambda>x. if x \<in> set holds then closed_hold input actor x else x) (lot_holds db)" by (simp only: close_ids_def) simp
  then show ?thesis by (simp only:) (rule filter_replaced, simp add: open_hold_def)
qed

definition rest_holds :: "lot_db \<Rightarrow> LotHoldReleaseTarget \<Rightarrow> LotHoldReleaseInput \<Rightarrow> LotHoldActor \<Rightarrow> lot_hold list" where
  "rest_holds db target input actor =
     (case target_holds db target of
        [h] \<Rightarrow> (case remainderQty (hold_qty h) (hr_releaseQty input) of
                 None \<Rightarrow> []
               | Some q \<Rightarrow> [(rest_row h q actor)\<lparr>hold_id := hold_seq db, hold_qty := Some (to_scale q)\<rparr>])
      | _ \<Rightarrow> [])"

lemma releaseWithin_effect:
  assumes "releaseWithin db locked target input actor = Inr ((released, n), db')" and "hold_ids_ok db"
  shows "lot_holds db' = lot_holds (close_ids (hold_id ` set (target_holds db target)) (closed_hold input actor) db) @
      rest_holds db target input actor \<and>
    released = map (closed_hold input actor) (target_holds db target) \<and> n = open_count db' (ht_lotId target) \<and>
    hold_seq db' = hold_seq db + int (length (rest_holds db target input actor)) \<and>
    db' = db\<lparr>lot_holds := lot_holds db', hold_seq := hold_seq db'\<rparr>"
proof -
  let ?T = "target_holds db target"
  from assms(1) have run: "fold_res (release_step input actor) ?T ([], db) = Inr (released, db')"
    and n: "n = open_count db' (ht_lotId target)" and guard: "hr_releaseQty input = None \<or> length ?T = 1"
    by (auto simp: releaseWithin_def res_simps Let_def)
  have sub: "set ?T \<subseteq> set (lot_holds db)" using target_holds_open by blast
  have dist: "distinct (map hold_id ?T)"
    using assms(2) by (auto simp: target_holds_def hold_ids_ok_def distinct_map_filter dest: id_column_distinct)
  show ?thesis
  proof (cases "hr_releaseQty input = None")
    case True
    then have "rest_holds db target input actor = []" by (simp add: rest_holds_def split: list.splits)
    with release_all_holds [OF True run assms(2) sub dist] n show ?thesis by (simp add: close_ids_def)
  next
    case False
    with guard obtain h where T: "?T = [h]" by (cases ?T) auto
    with sub run release_one_hold [of input actor h db released db'] assms(2) n
    show ?thesis by (cases "remainderQty (hold_qty h) (hr_releaseQty input)") (auto simp: rest_holds_def close_ids_def)
  qed
qed

lemma scaled_iff: "scaled q \<longleftrightarrow> (\<exists>m. q = of_int m / 1000000)"
proof
  show "scaled q \<Longrightarrow> \<exists>m. q = of_int m / 1000000" unfolding scaled_def to_scale_def by metis
qed (auto simp: scaled_def to_scale_def)

lemma scaled_minus: "scaled a \<Longrightarrow> scaled b \<Longrightarrow> scaled (a - b)"
  unfolding scaled_iff by (metis diff_divide_distrib of_int_diff)

definition qty_of :: "lot_hold \<Rightarrow> decimal" where
  "qty_of h = (case hold_qty h of None \<Rightarrow> 0 | Some q \<Rightarrow> q)"

definition held_qty :: "lot_db \<Rightarrow> id \<Rightarrow> decimal" where
  "held_qty db lotId = sum_list (map qty_of (filter (open_hold lotId) (lot_holds db)))"

definition qtys_scaled :: "lot_db \<Rightarrow> bool" where
  "qtys_scaled db \<longleftrightarrow> (\<forall>h \<in> set (lot_holds db). \<forall>q. hold_qty h = Some q \<longrightarrow> scaled q)"

definition released_qty :: "LotHoldReleaseInput \<Rightarrow> lot_hold \<Rightarrow> decimal" where
  "released_qty input h = (case hr_releaseQty input of None \<Rightarrow> qty_of h | Some r \<Rightarrow> if hold_qty h = None then 0 else min (qty_of h) r)"

lemma sum_filter_split:
  "sum_list (map f (filter P xs)) =
     sum_list (map f (filter (\<lambda>x. P x \<and> \<not> Q x) xs)) + (sum_list (map f (filter (\<lambda>x. P x \<and> Q x) xs)) :: decimal)"
  by (induction xs) auto

lemma rest_holds_cases:
  obtains (none) "rest_holds db target input actor = []"
  | (rest) h q where "target_holds db target = [h]" and "remainderQty (hold_qty h) (hr_releaseQty input) = Some q"
      and "rest_holds db target input actor = [(rest_row h q actor)\<lparr>hold_id := hold_seq db, hold_qty := Some (to_scale q)\<rparr>]"
proof (cases "\<exists>h q. target_holds db target = [h] \<and> remainderQty (hold_qty h) (hr_releaseQty input) = Some q")
  case True
  with rest show ?thesis by (auto simp: rest_holds_def)
next
  case False
  then have "rest_holds db target input actor = []" unfolding rest_holds_def by (auto split: list.split option.split)
  then show ?thesis by (rule none)
qed

lemma rest_holds_open: "h \<in> set (rest_holds db target input actor) \<Longrightarrow> open_hold (ht_lotId target) h"
proof (cases db target input actor rule: rest_holds_cases)
  case (rest h' q)
  moreover have "hold_lot_id h' = ht_lotId target" using target_holds_open [of h' db target] rest(1) by (simp add: open_hold_def)
  moreover assume "h \<in> set (rest_holds db target input actor)"
  ultimately show ?thesis by (simp add: open_hold_def rest_row_def)
qed simp

lemma open_after_release:
  assumes "releaseWithin db locked target input actor = Inr ((released, n), db')" and "hold_ids_ok db"
  shows "filter (open_hold lotId) (lot_holds db') =
    filter (\<lambda>h. open_hold lotId h \<and> \<not> (lotId = ht_lotId target \<and> targeted target h)) (lot_holds db) @
    (if lotId = ht_lotId target then rest_holds db target input actor else [])"
proof -
  let ?T = "target_holds db target"
  have new: "filter (open_hold lotId) (rest_holds db target input actor) =
      (if lotId = ht_lotId target then rest_holds db target input actor else [])"
    using rest_holds_open [of _ db target input actor] by (auto simp: filter_id_conv filter_empty_conv open_hold_def)
  have "h \<notin> set ?T \<longleftrightarrow> \<not> (lotId = ht_lotId target \<and> targeted target h)" if "h \<in> set (lot_holds db)" "open_hold lotId h" for h
    using that by (auto simp: target_holds_def open_hold_def)
  then have "filter (\<lambda>h. open_hold lotId h \<and> h \<notin> set ?T) (lot_holds db) =
      filter (\<lambda>h. open_hold lotId h \<and> \<not> (lotId = ht_lotId target \<and> targeted target h)) (lot_holds db)"
    by (intro filter_cong refl) auto
  moreover have "set ?T \<subseteq> set (lot_holds db)" using target_holds_open by blast
  ultimately show ?thesis
    using releaseWithin_effect [OF assms] open_after_close [OF assms(2), of ?T lotId] new by simp
qed

lemma scaled_to_scale [simp]: "scaled q \<Longrightarrow> to_scale q = q"
  by (simp add: scaled_def)

lemma release_amounts:
  assumes run: "releaseWithin db locked target input actor = Inr ((released, n), db')" and ok: "hold_ids_ok db" "qtys_scaled db"
    and q: "\<And>r. hr_releaseQty input = Some r \<Longrightarrow> scaled r"
  shows "sum_list (map qty_of (rest_holds db target input actor)) =
    sum_list (map qty_of (target_holds db target)) - sum_list (map (released_qty input) (target_holds db target))"
proof (cases db target input actor rule: rest_holds_cases)
  case none
  have "released_qty input h = qty_of h" if "h \<in> set (target_holds db target)" for h
  proof (cases "hr_releaseQty input")
    case (Some r)
    with run have "length (target_holds db target) = 1" by (auto simp: releaseWithin_def res_simps Let_def)
    with that have T: "target_holds db target = [h]" by (cases "target_holds db target") auto
    with none have "remainderQty (hold_qty h) (hr_releaseQty input) = None"
      by (auto simp: rest_holds_def split: option.splits)
    with Some show ?thesis by (auto simp: released_qty_def qty_of_def remainderQty_def split: option.splits if_splits)
  qed (simp add: released_qty_def)
  then have "map (released_qty input) (target_holds db target) = map qty_of (target_holds db target)" by simp
  then show ?thesis unfolding none by (simp only:) simp
next
  case (rest h p)
  from rest(2) obtain k r where k: "hold_qty h = Some k" "hr_releaseQty input = Some r" "p = k - r" "0 < k - r"
    by (auto simp: remainderQty_def split: option.splits if_splits)
  have "h \<in> set (lot_holds db)" using target_holds_open [of h db target] rest(1) by simp
  then have "scaled k" using ok(2) k(1) by (auto simp: qtys_scaled_def)
  then have "to_scale p = p" using q [OF k(2)] k(3) by (simp add: scaled_minus)
  with rest k show ?thesis by (simp add: qty_of_def released_qty_def)
qed

text \<open>C31. A release closes exactly the targeted open holds; the open quantity of the LOT falls by what was released
  (all of a hold, or for a partial release the smaller of the two quantities); no other LOT's holds change; and the
  returned count is 0 only if no hold of the LOT is open any more.\<close>
theorem release_accounts:
  assumes run: "releaseWithin db locked target input actor = Inr ((released, n), db')" and ok: "hold_ids_ok db" "qtys_scaled db"
    and q: "\<And>r. hr_releaseQty input = Some r \<Longrightarrow> scaled r"
  shows "map hold_id released = map hold_id (target_holds db target) \<and> (\<forall>h \<in> set released. released_at h \<noteq> None) \<and>
    held_qty db' (ht_lotId target) = held_qty db (ht_lotId target) - sum_list (map (released_qty input) (target_holds db target)) \<and>
    (\<forall>other. other \<noteq> ht_lotId target \<longrightarrow> filter (open_hold other) (lot_holds db') = filter (open_hold other) (lot_holds db)) \<and>
    (n = 0 \<longleftrightarrow> (\<forall>h \<in> set (lot_holds db'). \<not> open_hold (ht_lotId target) h))"
proof -
  note eff = releaseWithin_effect [OF run ok(1)] and left = open_after_release [OF run ok(1)]
  have "held_qty db (ht_lotId target) = sum_list (map qty_of (filter (\<lambda>h. open_hold (ht_lotId target) h \<and> \<not> targeted target h) (lot_holds db))) +
      sum_list (map qty_of (target_holds db target))"
    unfolding held_qty_def target_holds_def by (rule sum_filter_split)
  moreover have "held_qty db' (ht_lotId target) =
      sum_list (map qty_of (filter (\<lambda>h. open_hold (ht_lotId target) h \<and> \<not> targeted target h) (lot_holds db))) +
      sum_list (map qty_of (rest_holds db target input actor))"
    unfolding held_qty_def left by simp
  ultimately have held: "held_qty db' (ht_lotId target) =
      held_qty db (ht_lotId target) - sum_list (map (released_qty input) (target_holds db target))"
    using release_amounts [OF run ok q] by simp
  have count: "n = 0 \<longleftrightarrow> (\<forall>h \<in> set (lot_holds db'). \<not> open_hold (ht_lotId target) h)"
    using eff [THEN conjunct2, THEN conjunct2, THEN conjunct1] by (simp only: open_count_def length_0_conv filter_empty_conv)
  have "map hold_id released = map hold_id (target_holds db target)" "\<forall>h \<in> set released. released_at h \<noteq> None"
    using eff by auto
  with held count left show ?thesis by simp
qed

section \<open>What a hold does\<close>

definition new_hold :: "LotHoldInput \<Rightarrow> LotHoldActor \<Rightarrow> id \<Rightarrow> lot_hold" where
  "new_hold input actor i = (hold_row input actor)\<lparr>hold_id := i, hold_qty := map_option to_scale (hi_holdQty input)\<rparr>"

lemma new_hold_simps [simp]:
  "hold_id (new_hold input actor i) = i" "hold_lot_id (new_hold input actor i) = hi_lotId input"
  "released_at (new_hold input actor i) = None" "hold_qty (new_hold input actor i) = map_option to_scale (hi_holdQty input)"
  "held_at (new_hold input actor i) = ha_at actor" "hold_reason_code (new_hold input actor i) = hi_reasonCode input"
  by (simp_all add: new_hold_def hold_row_def)

lemma create_hold_effect:
  "create_hold row db = Inr (new, db') \<Longrightarrow> new = row\<lparr>hold_id := hold_seq db, hold_qty := map_option to_scale (hold_qty row)\<rparr> \<and>
     db' = db\<lparr>lot_holds := lot_holds db @ [new], hold_seq := hold_seq db + 1\<rparr>"
  by (auto simp: create_hold_def Let_def split: if_splits)

definition holds_added :: "LotHoldInput list \<Rightarrow> LotHoldActor \<Rightarrow> lot_hold list \<Rightarrow> lot_db \<Rightarrow> lot_db \<Rightarrow> bool" where
  "holds_added inputs actor rows db db' \<longleftrightarrow>
     rows = map (\<lambda>(k, input). new_hold input actor (hold_seq db + int k)) (zip [0..<length inputs] inputs) \<and>
     db' = db\<lparr>lot_holds := lot_holds db @ rows, hold_seq := hold_seq db + int (length inputs)\<rparr>"

lemma holds_added_snoc:
  assumes "holds_added inputs actor rows db u" and "create_hold (hold_row x actor) u = Inr (row, v)"
  shows "holds_added (inputs @ [x]) actor (rows @ [row]) db v"
proof -
  from create_hold_effect [OF assms(2)] have "row = new_hold x actor (hold_seq u)"
    and "v = u\<lparr>lot_holds := lot_holds u @ [row], hold_seq := hold_seq u + 1\<rparr>"
    by (auto simp: new_hold_def hold_row_def)
  with assms(1) show ?thesis by (simp add: holds_added_def)
qed

lemma holdWithin_effect:
  assumes "holdWithin db locked inputs actor = Inr (rows, db')"
  shows "holds_added inputs actor rows db db' \<and> hi_lotId ` set inputs \<subseteq> lot_id ` set locked"
proof -
  let ?f = "\<lambda>input st. bind_res (assertLocked locked (hi_lotId input)) (\<lambda>_.
       bind_res (create_hold (hold_row input actor) (snd st)) (\<lambda>(row, db'). Inr (fst st @ [row], db')))"
  have "fold_res ?f xs ([], db) = Inr (rows, db') \<Longrightarrow> holds_added xs actor rows db db' \<and> hi_lotId ` set xs \<subseteq> lot_id ` set locked"
    for xs rows db'
  proof (induction xs arbitrary: rows db' rule: rev_induct)
    case Nil
    then show ?case by (simp add: holds_added_def)
  next
    case (snoc x xs)
    then obtain rs u row where u: "fold_res ?f xs ([], db) = Inr (rs, u)" "hi_lotId x \<in> lot_id ` set locked"
      "create_hold (hold_row x actor) u = Inr (row, db')" "rows = rs @ [row]"
      by (auto simp: fold_res_append res_simps assertLocked_def)
    with snoc.IH [OF u(1)] holds_added_snoc [of xs actor rs db u x row db'] show ?case by auto
  qed
  from this [of inputs rows db'] assms show ?thesis by (simp add: holdWithin_def)
qed

lemma holds_added_rows:
  assumes "holds_added inputs actor rows db db'"
  shows "map hold_lot_id rows = map hi_lotId inputs" and "h \<in> set rows \<Longrightarrow> \<exists>x \<in> set inputs. \<exists>i. h = new_hold x actor i"
proof -
  show "map hold_lot_id rows = map hi_lotId inputs"
    using assms by (auto simp: holds_added_def comp_def split_def intro: nth_equalityI)
  show "h \<in> set rows \<Longrightarrow> \<exists>x \<in> set inputs. \<exists>i. h = new_hold x actor i"
    using assms by (auto simp: holds_added_def dest: set_zip_rightD)
qed

lemma id_column_upto: "id_column n ids \<Longrightarrow> id_column (n + int k) (ids @ map (\<lambda>j. n + int j) [0..<k])"
proof (induction k)
  case (Suc k)
  then have "id_column (n + int k + 1) ((ids @ map (\<lambda>j. n + int j) [0..<k]) @ [n + int k])" by (intro id_column_append) auto
  then show ?case by (simp add: add.commute add.left_commute)
qed simp

lemma holds_added_ids: "holds_added inputs actor rows db db' \<Longrightarrow> hold_ids_ok db \<Longrightarrow> hold_ids_ok db'"
proof -
  assume *: "holds_added inputs actor rows db db'" and "hold_ids_ok db"
  have "map hold_id rows = map (\<lambda>j. hold_seq db + int j) [0..<length inputs]"
    using * by (auto simp: holds_added_def comp_def split_def intro: nth_equalityI)
  with * \<open>hold_ids_ok db\<close> id_column_upto [of "hold_seq db" "map hold_id (lot_holds db)" "length inputs"]
  show ?thesis by (auto simp: hold_ids_ok_def holds_added_def)
qed

lemma releaseWithin_ids:
  assumes "releaseWithin db locked target input actor = Inr ((released, n), db')" and "hold_ids_ok db"
  shows "hold_ids_ok db'"
proof -
  note eff = releaseWithin_effect [OF assms]
  have "map hold_id (lot_holds (close_ids A (closed_hold input actor) db)) = map hold_id (lot_holds db)" for A
    by (auto simp: close_ids_def)
  with eff show ?thesis
    using assms(2) id_column_append [of "hold_seq db" "map hold_id (lot_holds db)"]
    by (cases db target input actor rule: rest_holds_cases) (auto simp: hold_ids_ok_def)
qed

lemma singleton_list: "set xs = {x} \<Longrightarrow> distinct xs \<Longrightarrow> xs = [x]"
proof (cases xs)
  case (Cons y ys)
  assume "set xs = {x}" "distinct xs"
  with Cons have "y = x" "set ys \<subseteq> {x}" "x \<notin> set ys" by auto
  then have "ys = []" by (cases ys) auto
  with Cons \<open>y = x\<close> show ?thesis by simp
qed simp

lemma release_one_id:
  assumes "releaseWithin db locked \<lparr>ht_lotId = hold_lot_id h, ht_lotHoldIds = Some [hold_id h], ht_reasonCode = None\<rparr> input actor =
      Inr ((released, n), db')"
    and "hold_ids_ok db" and "h \<in> set (lot_holds db)" and "released_at h = None"
  shows "target_holds db \<lparr>ht_lotId = hold_lot_id h, ht_lotHoldIds = Some [hold_id h], ht_reasonCode = None\<rparr> = [h]"
    and "find (\<lambda>x. hold_id x = hold_id h) (lot_holds db') = Some (closed_hold input actor h)"
proof -
  let ?T = "\<lparr>ht_lotId = hold_lot_id h, ht_lotHoldIds = Some [hold_id h], ht_reasonCode = None\<rparr>"
  have d: "distinct (lot_holds db)" using assms(2) by (auto simp: hold_ids_ok_def distinct_map dest!: id_column_distinct)
  have "set (target_holds db ?T) = {h}"
    using assms(3,4) same_hold [OF assms(2) _ assms(3)] by (auto simp: target_holds_def targeted_def open_hold_def)
  moreover have "distinct (target_holds db ?T)" using d by (simp add: target_holds_def)
  ultimately show T: "target_holds db ?T = [h]" by (rule singleton_list)
  have mem: "closed_hold input actor h \<in> set (lot_holds db')"
    using releaseWithin_effect [OF assms(1,2)] assms(3) by (force simp: T close_ids_def)
  have "distinct (map hold_id (lot_holds db'))"
    using releaseWithin_ids [OF assms(1,2)] by (auto simp: hold_ids_ok_def dest: id_column_distinct)
  from find_by_key [OF this mem] show "find (\<lambda>x. hold_id x = hold_id h) (lot_holds db') = Some (closed_hold input actor h)" by simp
qed

section \<open>A held LOT\<close>

definition held_lot :: lot_row where
  "held_lot = \<lparr>lot_id = 1, lot_no = ''L1'', lot_item_id = 10, lot_type_code = ''RAW'', lot_plant_id = 1,
     initial_qty = 5, lot_uom_id = 1, manufactured_at = None, expiry_date = None, source_type_code = ''INBOUND_RECEIPT_LINE'',
     source_id = 3, lot_status_code = ''INSPECTION_PENDING'', lifecycle_status_code = Some ''WAITING'', parent_lot_id = None,
     lot_remarks = None, lot_created_by = None, lot_version_no = 1, lot_bom_id = None, lot_bom_version = None,
     work_order_lot_seq = None\<rparr>"

definition sample_hold :: "id \<Rightarrow> decimal option \<Rightarrow> lot_hold" where
  "sample_hold i qty =
     (hold_row \<lparr>hi_lotId = 1, hi_reasonCode = ''SUSPECT'', hi_holdQty = qty, hi_uomId = map_option (\<lambda>_. 1) qty,
        hi_releaseCondition = None, hi_targetLotStatusCode = None, hi_remarks = None\<rparr>
       \<lparr>ha_by = Some 9, ha_workerId = None, ha_at = 100\<rparr>)\<lparr>hold_id := i\<rparr>"

definition held_db :: lot_db where
  "held_db = empty_lot_db\<lparr>lots := [held_lot], lot_seq := 2, lot_holds := [sample_hold 1 (Some 3), sample_hold 2 None],
     hold_seq := 3\<rparr>"

lemma held_db_ok: "lot_ids_ok held_db" "hold_ids_ok held_db"
  by code_simp+

definition close_partly :: LotHoldReleaseInput where
  "close_partly = \<lparr>hr_releaseReasonCode = ''OK'', hr_releaseTargetLotStatusCode = None, hr_remarks = None, hr_releaseQty = Some 1\<rparr>"

definition first_hold :: LotHoldReleaseTarget where
  "first_hold = \<lparr>ht_lotId = 1, ht_lotHoldIds = Some [1], ht_reasonCode = None\<rparr>"

definition after_partial :: lot_db where
  "after_partial = held_db\<lparr>lot_holds :=
     [closed_hold close_partly \<lparr>ha_by = Some 9, ha_workerId = None, ha_at = 200\<rparr> (sample_hold 1 (Some 3)), sample_hold 2 None,
      (sample_hold 3 (Some 2))\<lparr>held_at := 200\<rparr>], hold_seq := 4\<rparr>"

lemma partial_example: "releaseWithin held_db [held_lot] first_hold close_partly \<lparr>ha_by = Some 9, ha_workerId = None, ha_at = 200\<rparr> =
    Inr (([closed_hold close_partly \<lparr>ha_by = Some 9, ha_workerId = None, ha_at = 200\<rparr> (sample_hold 1 (Some 3))], 2), after_partial)"
  by code_simp

lemma held_db_scaled: "qtys_scaled held_db" "hr_releaseQty close_partly = Some r \<Longrightarrow> scaled r"
  by (auto simp: qtys_scaled_def held_db_def sample_hold_def hold_row_def close_partly_def scaled_iff
      intro: exI [of _ 3000000] exI [of _ 1000000])

theorem release_accounts_witness: "held_qty after_partial 1 = held_qty held_db 1 - 1"
proof -
  have "map (released_qty close_partly) (target_holds held_db first_hold) = [1]" by code_simp
  then show ?thesis
    using release_accounts [OF partial_example held_db_ok(2) held_db_scaled] by (simp add: first_hold_def)
qed

definition first_result :: LotMoveInput where
  "first_result = \<lparr>lm_lotIds = [1, 2], lm_action = ''production-result-recorded'', lm_sourceDocumentTypeCode = ''PRODUCTION_RESULT'',
     lm_sourceDocumentId = 5, lm_changedAt = 300\<rparr>"

theorem lifecycle_move_partitions_witness:
  "\<exists>r db'. moveLifecycle held_db first_result = Inr (r, db') \<and> set (movedLotIds r) \<union> set (skippedLotIds r) = {1, 2}"
proof -
  have "case find_transition TRANSITIONS LIFECYCLE_COLUMN (lm_action first_result) of None \<Rightarrow> False | Some t \<Rightarrow> True" by code_simp
  then obtain t where t: "find_transition TRANSITIONS LIFECYCLE_COLUMN (lm_action first_result) = Some t"
    by (auto split: option.splits)
  have "set (lm_lotIds first_result) = {1, 2}" by (simp add: first_result_def)
  with lifecycle_move_partitions [OF t held_db_ok(1)] show ?thesis by auto
qed

end
