(* ===== verification/Lot_Number.thy ===== *)
theory Lot_Number
  imports Message_Format
begin

text \<open>
  \<open>src/core/lot/lot-number.ts\<close> and the two generators of \<open>lot-registry.service.ts\<close>: the 34 characters of a
  production LOT number, the five segments of a material LOT number with its printer and its parser, and the
  slot quantities of a work order. A JavaScript number is its exact value; \<open>NonFinite\<close> stands for the
  infinities and NaN. The text of a number from \<open>10 ^ 21\<close> on (exponent notation) and the bytes of
  \<open>randomBytes\<close> are parameters.
\<close>

section \<open>Splitting and joining\<close>

fun js_split :: "char \<Rightarrow> string \<Rightarrow> string list" where
  "js_split sep [] = [[]]"
| "js_split sep (c # s) =
     (if c = sep then [] # js_split sep s
      else case js_split sep s of [] \<Rightarrow> [[c]] | p # ps \<Rightarrow> (c # p) # ps)"

fun js_join :: "char \<Rightarrow> string list \<Rightarrow> string" where
  "js_join sep [] = []"
| "js_join sep [p] = p"
| "js_join sep (p # q # ps) = p @ sep # js_join sep (q # ps)"

lemma js_split_plain: "sep \<notin> set p \<Longrightarrow> js_split sep p = [p]"
  by (induction p) auto

lemma js_split_segment: "sep \<notin> set p \<Longrightarrow> js_split sep (p @ sep # s) = p # js_split sep s"
  by (induction p) auto

lemma js_split_join:
  "ps \<noteq> [] \<Longrightarrow> \<forall>p \<in> set ps. sep \<notin> set p \<Longrightarrow> js_split sep (js_join sep ps) = ps"
  by (induction sep ps rule: js_join.induct) (simp_all add: js_split_plain js_split_segment)

section \<open>Production LOT numbers\<close>

definition ALPHABET :: string where
  "ALPHABET = ''ABCDEFGHJKLMNPQRSTUVWXYZ23456789''"

text \<open>One pass over the bytes of a \<open>randomBytes(length)\<close>: bytes from the limit on are dropped, and the pass
  stops when the text is long enough.\<close>

fun random_pass :: "nat \<Rightarrow> nat list \<Rightarrow> string \<Rightarrow> string" where
  "random_pass len [] out = out"
| "random_pass len (b # bytes) out =
     (if 256 - 256 mod length ALPHABET \<le> b then random_pass len bytes out
      else let out' = out @ [ALPHABET ! (b mod length ALPHABET)] in
           if length out' = len then out' else random_pass len bytes out')"

text \<open>The loop over the successive answers of \<open>randomBytes\<close>; \<open>None\<close> when they run out.\<close>

fun random_chars :: "nat \<Rightarrow> nat list list \<Rightarrow> string \<Rightarrow> string option" where
  "random_chars len chunks out =
     (if len \<le> length out then Some out
      else case chunks of [] \<Rightarrow> None | bytes # chs \<Rightarrow> random_chars len chs (random_pass len bytes out))"

declare random_chars.simps [simp del]

definition last_six :: "string \<Rightarrow> string" where
  "last_six s = drop (length s - 6) s"

definition compact_date :: "string \<Rightarrow> string" where
  "compact_date businessDate = filter (\<lambda>c. c \<noteq> CHR ''-'') businessDate"

definition mesLotNo :: "int \<Rightarrow> string \<Rightarrow> nat \<Rightarrow> nat list list \<Rightarrow> string option" where
  "mesLotNo plantId businessDate todaySeq chunks =
     map_option (\<lambda>rnd. ''M'' @ last_six (padStart (show_int plantId) 6 (CHR ''0'')) @ compact_date businessDate @
                       last_six (padStart (show_nat todaySeq) 6 (CHR ''0'')) @ rnd)
       (random_chars 13 chunks [])"

lemma alphabet_length: "length ALPHABET = 32"
  by (simp add: ALPHABET_def)

lemma random_pass_length:
  "list_all (\<lambda>b. b < 256) bytes \<Longrightarrow> length out < len \<Longrightarrow>
   length (random_pass len bytes out) = min len (length out + length bytes)"
  by (induction bytes arbitrary: out) (auto simp: alphabet_length Let_def)

lemma random_pass_set: "set (random_pass len bytes out) \<subseteq> set out \<union> set ALPHABET"
proof (induction bytes arbitrary: out)
  case (Cons b bytes)
  have "ALPHABET ! (b mod 32) \<in> set ALPHABET" by (rule nth_mem) (simp add: alphabet_length)
  with Cons [of out] Cons [of "out @ [ALPHABET ! (b mod 32)]"] show ?case
    by (auto simp: alphabet_length Let_def)
qed simp

text \<open>One answer of \<open>randomBytes\<close> is enough: the alphabet divides 256, so no byte is dropped.\<close>

lemma random_chars_one_chunk:
  assumes "list_all (\<lambda>b. b < 256) bytes" and "length bytes = n" and "0 < n"
  obtains s where "random_chars n (bytes # chs) [] = Some s" and "length s = n" and "set s \<subseteq> set ALPHABET"
proof -
  let ?s = "random_pass n bytes []"
  have len: "length ?s = n" using random_pass_length [of bytes "[]" n] assms by simp
  have "random_chars n (bytes # chs) [] = Some ?s"
    using assms(3) len by (simp add: random_chars.simps [of n "bytes # chs"] random_chars.simps [of n chs])
  with that len random_pass_set [of n bytes "[]"] show ?thesis by auto
qed

section \<open>Segments of a material LOT number\<close>

datatype js_number = Finite rat | NonFinite

datatype lot_format_error = SEGMENT | LENGTH

definition MATERIAL_LOT_SEPARATOR :: char where
  "MATERIAL_LOT_SEPARATOR = CHR ''|''"

definition MATERIAL_LOT_MAX_LENGTH :: nat where
  "MATERIAL_LOT_MAX_LENGTH = 64"

definition is_printable :: "char \<Rightarrow> bool" where
  "is_printable c \<longleftrightarrow> (let n = of_char c :: nat in 32 \<le> n \<and> n \<le> 126)"

definition assertMaterialLotSegment :: "string \<Rightarrow> lot_format_error + string" where
  "assertMaterialLotSegment v =
     (if v = [] \<or> MATERIAL_LOT_SEPARATOR \<in> set v \<or> \<not> list_all is_printable v then Inl SEGMENT else Inr v)"

text \<open>\<open>toFixed(6)\<close>: the nearest multiple of a millionth, the larger one of two.\<close>

definition millionths :: "rat \<Rightarrow> nat" where
  "millionths q = nat \<lfloor>q * 1000000 + 1 / 2\<rfloor>"

definition toFixed6 :: "(rat \<Rightarrow> string) \<Rightarrow> rat \<Rightarrow> string" where
  "toFixed6 big_text q =
     (if 10 ^ 21 \<le> q then big_text q
      else let k = padStart (show_nat (millionths q)) 7 (CHR ''0'') in
           take (length k - 6) k @ ''.'' @ drop (length k - 6) k)"

definition strip_zeros :: "string \<Rightarrow> string" where
  "strip_zeros s = rev (dropWhile (\<lambda>c. c = CHR ''0'') (rev s))"

definition strip_dot :: "string \<Rightarrow> string" where
  "strip_dot s = (if s \<noteq> [] \<and> last s = CHR ''.'' then butlast s else s)"

definition normalizeLotQty :: "(rat \<Rightarrow> string) \<Rightarrow> js_number \<Rightarrow> lot_format_error + string" where
  "normalizeLotQty big_text qty =
     (case qty of
        NonFinite \<Rightarrow> Inl SEGMENT
      | Finite q \<Rightarrow>
          if q \<le> 0 then Inl SEGMENT
          else let fixed = toFixed6 big_text q in
               Inr (if CHR ''.'' \<in> set fixed then strip_dot (strip_zeros fixed) else fixed))"

text \<open>\<open>Date.UTC\<close> on a month and a day that may be out of range, as a day number, and back.\<close>

definition days_of_civil :: "int \<Rightarrow> int \<Rightarrow> int \<Rightarrow> int" where
  "days_of_civil y m d =
     (let y' = (if m \<le> 2 then y - 1 else y);
          yoe = y' mod 400;
          doy = (153 * (if m \<le> 2 then m + 9 else m - 3) + 2) div 5 + d - 1
      in y' div 400 * 146097 + yoe * 365 + yoe div 4 - yoe div 100 + doy - 719468)"

definition make_day :: "int \<Rightarrow> int \<Rightarrow> int \<Rightarrow> int" where
  "make_day year month date = days_of_civil (year + month div 12) (month mod 12 + 1) 1 + date - 1"

definition isRealCalendarDate :: "nat \<Rightarrow> nat \<Rightarrow> nat \<Rightarrow> bool" where
  "isRealCalendarDate yy mm dy \<longleftrightarrow>
     civil_of_days (make_day (2000 + int yy) (int mm - 1) (int dy)) = (2000 + int yy, int mm, int dy)"

definition digits :: "nat \<Rightarrow> string \<Rightarrow> bool" where
  "digits n s \<longleftrightarrow> length s = n \<and> list_all is_digit s"

definition real_date_text :: "string \<Rightarrow> bool" where
  "real_date_text t \<longleftrightarrow>
     digits 6 t \<and> isRealCalendarDate (read_nat (take 2 t)) (read_nat (take 2 (drop 2 t))) (read_nat (drop 4 t))"

text \<open>\<open>/^\d{2}(\d{2})-(\d{2})-(\d{2})$/\<close> with its three groups one after the other.\<close>

definition short_date :: "string \<Rightarrow> string option" where
  "short_date s =
     (let t = take 2 (drop 2 s) @ take 2 (drop 5 s) @ drop 8 s in
      if length s = 10 \<and> list_all is_digit (take 2 s) \<and> list_all is_digit t \<and> s ! 4 = CHR ''-'' \<and> s ! 7 = CHR ''-''
      then Some t else None)"

definition materialLotDateSegment :: "string \<Rightarrow> lot_format_error + string" where
  "materialLotDateSegment businessDate =
     (case short_date businessDate of
        None \<Rightarrow> Inl SEGMENT
      | Some t \<Rightarrow> if real_date_text t then Inr t else Inl SEGMENT)"

definition materialLotSerialSegment :: "int \<Rightarrow> lot_format_error + string" where
  "materialLotSerialSegment serial =
     (if serial < 1 \<or> 9999 < serial then Inl SEGMENT else Inr (padStart (show_int serial) 4 (CHR ''0'')))"

section \<open>Printing and parsing\<close>

record material_lot_input =
  mli_itemCode :: string
  mli_qty :: js_number
  mli_businessDate :: string
  mli_supplierCode :: string

record MaterialLotSegments =
  mls_itemCode :: string
  mls_qty :: string
  mls_date :: string
  mls_supplierCode :: string
  mls_serial :: nat

definition materialLotPrefix :: "(rat \<Rightarrow> string) \<Rightarrow> material_lot_input \<Rightarrow> lot_format_error + string" where
  "materialLotPrefix big_text input =
     bind_res (assertMaterialLotSegment (mli_itemCode input)) (\<lambda>itemCode.
     bind_res (normalizeLotQty big_text (mli_qty input)) (\<lambda>qty.
     bind_res (materialLotDateSegment (mli_businessDate input)) (\<lambda>date.
     bind_res (assertMaterialLotSegment (mli_supplierCode input)) (\<lambda>supplierCode.
       let pre = js_join MATERIAL_LOT_SEPARATOR [itemCode, qty, date, supplierCode] @ [MATERIAL_LOT_SEPARATOR] in
       if MATERIAL_LOT_MAX_LENGTH < length pre + 4 then Inl LENGTH else Inr pre))))"

text \<open>\<open>/^\d+(\.\d+)?$/\<close>.\<close>

definition is_decimal_text :: "string \<Rightarrow> bool" where
  "is_decimal_text s \<longleftrightarrow>
     (let whole = takeWhile is_digit s; rest = dropWhile is_digit s in
      whole \<noteq> [] \<and> (rest = [] \<or> hd rest = CHR ''.'' \<and> tl rest \<noteq> [] \<and> list_all is_digit (tl rest)))"

definition parseMaterialLotNo :: "string \<Rightarrow> lot_format_error + MaterialLotSegments" where
  "parseMaterialLotNo lotNo =
     (case js_split MATERIAL_LOT_SEPARATOR lotNo of
        [itemCode, qty, date, supplierCode, serialText] \<Rightarrow>
          bind_res (assertMaterialLotSegment itemCode) (\<lambda>_.
          bind_res (assertMaterialLotSegment supplierCode) (\<lambda>_.
          bind_res (guard_res (is_decimal_text qty) SEGMENT) (\<lambda>_.
          bind_res (guard_res (real_date_text date) SEGMENT) (\<lambda>_.
          bind_res (guard_res (digits 4 serialText \<and> 1 \<le> read_nat serialText) SEGMENT) (\<lambda>_.
            Inr \<lparr>mls_itemCode = itemCode, mls_qty = qty, mls_date = date, mls_supplierCode = supplierCode,
                 mls_serial = read_nat serialText\<rparr>)))))
      | _ \<Rightarrow> Inl SEGMENT)"

definition materialMesLotNo :: "(rat \<Rightarrow> string) \<Rightarrow> material_lot_input \<Rightarrow> int \<Rightarrow> lot_format_error + string" where
  "materialMesLotNo big_text input serial =
     bind_res (materialLotPrefix big_text input) (\<lambda>pre.
     bind_res (materialLotSerialSegment serial) (\<lambda>no. Inr (pre @ no)))"

section \<open>Slot quantities\<close>

definition slotQtys :: "decimal \<Rightarrow> decimal \<Rightarrow> decimal list res" where
  "slotQtys orderQty lotSize =
     (if lotSize \<le> 0 then Inl (one (field ''lotSize'' ''INVALID''))
      else if orderQty \<le> lotSize then Inr [orderQty]
      else let slots = nat \<lceil>orderQty / lotSize\<rceil> in
           Inr (replicate (slots - 1) lotSize @ [orderQty - lotSize * of_nat (slots - 1)]))"

lemma calendar_examples:
  "isRealCalendarDate 24 2 29" "\<not> isRealCalendarDate 26 2 29" "\<not> isRealCalendarDate 26 13 1"
  "\<not> isRealCalendarDate 26 0 1" "\<not> isRealCalendarDate 26 1 0"
  by code_simp+

section \<open>Digits and quantities as text\<close>

lemma read_nat_append: "read_nat (s @ t) = read_nat s * 10 ^ length t + read_nat t"
proof (induction t rule: rev_induct)
  case (snoc c t)
  then show ?case by (simp flip: append_assoc add: algebra_simps)
qed simp

lemma strip_zeros_split: "s = strip_zeros s @ replicate (length s - length (strip_zeros s)) (CHR ''0'')"
proof -
  have "takeWhile (\<lambda>c. c = CHR ''0'') (rev s) @ dropWhile (\<lambda>c. c = CHR ''0'') (rev s) = rev s"
    by (rule takeWhile_dropWhile_id)
  moreover have "takeWhile (\<lambda>c. c = CHR ''0'') t = replicate (length t - length (dropWhile (\<lambda>c. c = CHR ''0'') t)) (CHR ''0'')"
    for t :: string
    by (induction t) (auto simp: Suc_diff_le length_dropWhile_le)
  ultimately have "rev s = replicate (length s - length (strip_zeros s)) (CHR ''0'') @ rev (strip_zeros s)"
    by (simp add: strip_zeros_def)
  from arg_cong [OF this, of rev] show ?thesis by simp
qed

lemma read_strip_zeros: "read_nat s = read_nat (strip_zeros s) * 10 ^ (length s - length (strip_zeros s))"
  using arg_cong [OF strip_zeros_split [of s], of read_nat] read_nat_zeros [of "length s - length (strip_zeros s)" "[]"]
  by (simp add: read_nat_append)

lemma strip_zeros_length: "length (strip_zeros s) \<le> length s"
  using length_dropWhile_le [of _ "rev s"] by (simp add: strip_zeros_def)

lemma strip_zeros_set: "c \<in> set (strip_zeros s) \<Longrightarrow> c \<in> set s"
  by (auto simp: strip_zeros_def dest: set_dropWhileD)

text \<open>Dropping the zeros and the dot of \<open>a.b\<close> leaves \<open>a\<close>, or \<open>a.b'\<close> with \<open>b'\<close> the rest of \<open>b\<close>.\<close>

lemma strip_fixed:
  assumes "CHR ''.'' \<notin> set b"
  shows "strip_dot (strip_zeros (a @ ''.'' @ b)) = (if strip_zeros b = [] then a else a @ ''.'' @ strip_zeros b)"
proof (cases "strip_zeros b = []")
  case True
  then have "dropWhile (\<lambda>c. c = CHR ''0'') (rev b @ CHR ''.'' # rev a) = CHR ''.'' # rev a"
    by (subst dropWhile_append2) (auto simp: strip_zeros_def)
  with True show ?thesis by (simp add: strip_zeros_def strip_dot_def)
next
  case False
  then obtain x where "x \<in> set (rev b)" and "\<not> x = CHR ''0''" by (auto simp: strip_zeros_def)
  then have "strip_zeros (a @ ''.'' @ b) = a @ ''.'' @ strip_zeros b"
    using dropWhile_append1 [of x "rev b" "\<lambda>c. c = CHR ''0''" "CHR ''.'' # rev a"] by (simp add: strip_zeros_def)
  moreover have "last (strip_zeros b) \<in> set b" using False by (auto intro: strip_zeros_set)
  ultimately show ?thesis using False assms by (auto simp: strip_dot_def)
qed

definition decimal_value :: "string \<Rightarrow> rat" where
  "decimal_value s =
     (let frac = tl (dropWhile is_digit s) in
      of_nat (read_nat (takeWhile is_digit s)) + of_nat (read_nat frac) / 10 ^ length frac)"

lemma dot_not_digit [simp]: "\<not> is_digit (CHR ''.'')" "\<not> is_digit (CHR ''|'')" "is_digit (CHR ''0'')"
  by (simp_all add: is_digit_def)

lemma whole_part:
  assumes "list_all is_digit a"
  shows "takeWhile is_digit (a @ CHR ''.'' # b) = a" "dropWhile is_digit (a @ CHR ''.'' # b) = CHR ''.'' # b"
    "takeWhile is_digit a = a" "dropWhile is_digit a = []"
  using assms by (induction a) auto

text \<open>The quantity segment is decimal text without the separator, and denotes the quantity in millionths.\<close>

lemma fixed_digits:
  assumes "q < 10 ^ 21"
  obtains a b where "toFixed6 big q = a @ ''.'' @ b" and "a \<noteq> []" and "length b = 6"
    and "list_all is_digit a" and "list_all is_digit b" and "read_nat (a @ b) = millionths q"
proof -
  define k where "k = padStart (show_nat (millionths q)) 7 (CHR ''0'')"
  have k: "list_all is_digit k" "7 \<le> length k" "read_nat k = millionths q"
    using show_nat_digits [of "millionths q"] by (simp_all add: k_def length_padStart) (auto simp: padStart_def list_all_iff)
  have "toFixed6 big q = take (length k - 6) k @ ''.'' @ drop (length k - 6) k"
    using assms by (simp add: toFixed6_def k_def Let_def)
  moreover have "take (length k - 6) k \<noteq> []" "length (drop (length k - 6) k) = 6"
    using k(2) by (auto simp: take_eq_Nil)
  moreover have "list_all is_digit (take (length k - 6) k)" "list_all is_digit (drop (length k - 6) k)"
    using k(1) by (auto simp: list_all_iff dest: in_set_takeD in_set_dropD)
  ultimately show ?thesis using that k(3) by simp
qed

lemma normalized_qty:
  assumes "normalizeLotQty big qty = Inr t" and "qty = Finite q" and "q < 10 ^ 21"
  shows "is_decimal_text t \<and> CHR ''|'' \<notin> set t \<and> decimal_value t = of_nat (millionths q) / 1000000"
proof -
  from fixed_digits [OF assms(3), of big] obtain a b where ab: "toFixed6 big q = a @ ''.'' @ b" "a \<noteq> []" "length b = 6"
    "list_all is_digit a" "list_all is_digit b" "read_nat (a @ b) = millionths q" by metis
  let ?b = "strip_zeros b"
  have dot: "CHR ''.'' \<notin> set b" using ab(5) by (auto simp: list_all_iff)
  have t: "t = (if ?b = [] then a else a @ ''.'' @ ?b)"
    using assms(1,2) ab(1) strip_fixed [OF dot, of a] by (simp add: normalizeLotQty_def split: if_splits)
  have bd: "list_all is_digit ?b" using ab(5) strip_zeros_set by (auto simp: list_all_iff)
  have dec: "is_decimal_text t"
    using ab(2) bd whole_part(1,2) [OF ab(4), of ?b] whole_part(3,4) [OF ab(4)]
    by (cases "?b = []") (simp_all add: t is_decimal_text_def Let_def del: takeWhile_eq_all_conv dropWhile_eq_Nil_conv)
  have plain: "CHR ''|'' \<notin> set t" using ab(4) bd by (auto simp: t list_all_iff)
  have len: "length ?b \<le> 6" using strip_zeros_length [of b] ab(3) by simp
  have whole: "takeWhile is_digit t = a" and frac: "tl (dropWhile is_digit t) = ?b"
    using ab(4) by (auto simp: t whole_part)
  have "(of_nat (read_nat b) :: rat) / 1000000 = of_nat (read_nat ?b) / 10 ^ length ?b"
  proof -
    have "(of_nat (read_nat b) :: rat) = of_nat (read_nat ?b) * 10 ^ (6 - length ?b)"
      using read_strip_zeros [of b] ab(3) by simp
    moreover have "(10 :: rat) ^ (6 - length ?b) / 1000000 = 1 / 10 ^ length ?b"
      using len power_add [of "10 :: rat" "6 - length ?b" "length ?b"] by (simp add: field_simps)
    ultimately show ?thesis by (simp add: field_simps)
  qed
  moreover have "(of_nat (millionths q) :: rat) = of_nat (read_nat a) * 1000000 + of_nat (read_nat b)"
    using ab(3,6) by (simp add: read_nat_append flip: ab(6))
  ultimately have "decimal_value t = of_nat (millionths q) / 1000000"
    unfolding decimal_value_def Let_def whole frac by (simp add: field_simps)
  with dec plain show ?thesis by blast
qed

section \<open>A printed number reads back\<close>

lemma assert_segment: "assertMaterialLotSegment v = Inr w \<Longrightarrow> w = v \<and> CHR ''|'' \<notin> set v \<and> assertMaterialLotSegment v = Inr v"
  by (auto simp: assertMaterialLotSegment_def MATERIAL_LOT_SEPARATOR_def split: if_splits)

lemma date_segment:
  "materialLotDateSegment s = Inr t \<Longrightarrow> real_date_text t \<and> CHR ''|'' \<notin> set t \<and> short_date s = Some t"
  by (auto simp: materialLotDateSegment_def real_date_text_def digits_def list_all_iff split: option.splits if_splits)

lemma serial_segment:
  assumes "materialLotSerialSegment serial = Inr t"
  shows "digits 4 t \<and> read_nat t = nat serial \<and> 1 \<le> serial \<and> CHR ''|'' \<notin> set t"
proof -
  have range: "1 \<le> serial" "serial \<le> 9999" and t: "t = padStart (show_nat (nat serial)) 4 (CHR ''0'')"
    using assms by (auto simp: materialLotSerialSegment_def show_int_def split: if_splits)
  have "length (show_nat (nat serial)) \<le> 4" using range by (subst length_show_nat) auto
  then have d: "digits 4 t"
    using show_nat_digits [of "nat serial"] by (auto simp: t digits_def length_padStart) (auto simp: padStart_def list_all_iff)
  then have "CHR ''|'' \<notin> set t" by (auto simp: digits_def list_all_iff)
  with d range show ?thesis by (simp add: t)
qed

lemma materialMesLotNo_segments:
  assumes "materialMesLotNo big input serial = Inr no"
  obtains qty date ser where "normalizeLotQty big (mli_qty input) = Inr qty"
    and "materialLotDateSegment (mli_businessDate input) = Inr date" and "materialLotSerialSegment serial = Inr ser"
    and "assertMaterialLotSegment (mli_itemCode input) = Inr (mli_itemCode input)"
    and "assertMaterialLotSegment (mli_supplierCode input) = Inr (mli_supplierCode input)"
    and "no = js_join (CHR ''|'') [mli_itemCode input, qty, date, mli_supplierCode input, ser]"
    and "length no \<le> 64"
proof -
  from assms obtain item qty date sup ser pre where
      p: "assertMaterialLotSegment (mli_itemCode input) = Inr item" "normalizeLotQty big (mli_qty input) = Inr qty"
      "materialLotDateSegment (mli_businessDate input) = Inr date"
      "assertMaterialLotSegment (mli_supplierCode input) = Inr sup" "materialLotSerialSegment serial = Inr ser"
      and pre: "pre = js_join (CHR ''|'') [item, qty, date, sup] @ [CHR ''|'']" "length pre + 4 \<le> 64" "no = pre @ ser"
    by (auto simp: materialMesLotNo_def materialLotPrefix_def MATERIAL_LOT_SEPARATOR_def MATERIAL_LOT_MAX_LENGTH_def
        Let_def res_simps split: if_splits)
  have "length ser = 4" using serial_segment [OF p(5)] by (simp add: digits_def)
  with pre p assert_segment [OF p(1)] assert_segment [OF p(4)] show ?thesis by (intro that) auto
qed

text \<open>C33. A material LOT number that the server prints is one the scanner path accepts, and reading it gives
  back every segment. The quantity on the label denotes the received quantity in millionths, the scale it is stored
  with.\<close>
theorem material_lot_no_reads_back:
  assumes "materialMesLotNo big input serial = Inr no" and "mli_qty input = Finite q" and "q < 10 ^ 21"
  shows "\<exists>m. parseMaterialLotNo no = Inr m \<and> mls_itemCode m = mli_itemCode input \<and>
    decimal_value (mls_qty m) = of_nat (millionths q) / 1000000 \<and>
    short_date (mli_businessDate input) = Some (mls_date m) \<and> mls_supplierCode m = mli_supplierCode input \<and>
    int (mls_serial m) = serial \<and> length no \<le> 64"
proof -
  from materialMesLotNo_segments [OF assms(1)] obtain qty date ser where
      q: "normalizeLotQty big (mli_qty input) = Inr qty" "materialLotDateSegment (mli_businessDate input) = Inr date"
      "materialLotSerialSegment serial = Inr ser"
      "assertMaterialLotSegment (mli_itemCode input) = Inr (mli_itemCode input)"
      "assertMaterialLotSegment (mli_supplierCode input) = Inr (mli_supplierCode input)"
      "no = js_join (CHR ''|'') [mli_itemCode input, qty, date, mli_supplierCode input, ser]" "length no \<le> 64"
    by metis
  note qty = normalized_qty [OF q(1) assms(2,3)] and date = date_segment [OF q(2)] and ser = serial_segment [OF q(3)]
  have "js_split (CHR ''|'') no = [mli_itemCode input, qty, date, mli_supplierCode input, ser]"
    unfolding q(6) using qty date ser assert_segment [OF q(4)] assert_segment [OF q(5)] by (intro js_split_join) auto
  moreover have "Suc 0 \<le> nat serial" using ser by linarith
  ultimately show ?thesis using q qty date ser by (simp add: parseMaterialLotNo_def MATERIAL_LOT_SEPARATOR_def)
qed

section \<open>Slots add up\<close>

lemma slots_bounds:
  assumes "0 < (l :: rat)" and "l < x"
  defines "k \<equiv> nat \<lceil>x / l\<rceil> - 1"
  shows "1 \<le> k" "0 < x - l * of_nat k" "x - l * of_nat k \<le> l"
proof -
  have "1 < x / l" using assms(1,2) by simp
  then have c: "2 \<le> \<lceil>x / l\<rceil>" by linarith
  then have k: "int k = \<lceil>x / l\<rceil> - 1" unfolding k_def by linarith
  from c k show "1 \<le> k" by linarith
  have r: "of_nat k = (of_int \<lceil>x / l\<rceil> - 1 :: rat)" using arg_cong [OF k, of "of_int :: int \<Rightarrow> rat"] by simp
  have "of_nat k < x / l" "x / l \<le> of_nat k + 1" unfolding r by linarith+
  then show "0 < x - l * of_nat k" "x - l * of_nat k \<le> l" using assms(1) by (auto simp: field_simps)
qed

text \<open>Splitting an order into LOT slots fails only for a LOT size that is not positive; otherwise the slots
  add up to the order exactly, every slot but the last holds the LOT size, and the last one is positive and at most
  the LOT size.\<close>
theorem slots_add_up:
  assumes "0 < orderQty"
  shows "(lotSize \<le> 0 \<and> slotQtys orderQty lotSize = Inl (one (field ''lotSize'' ''INVALID''))) \<or>
    (\<exists>k y. slotQtys orderQty lotSize = Inr (replicate k lotSize @ [y]) \<and> sum_list (replicate k lotSize @ [y]) = orderQty \<and>
           0 < y \<and> y \<le> lotSize)"
proof (cases "lotSize \<le> 0 \<or> orderQty \<le> lotSize")
  case True
  with assms show ?thesis by (auto simp: slotQtys_def intro!: exI [of _ 0])
next
  case False
  then have l: "0 < lotSize" "lotSize < orderQty" by auto
  define k where "k = nat \<lceil>orderQty / lotSize\<rceil> - 1"
  have "slotQtys orderQty lotSize = Inr (replicate k lotSize @ [orderQty - lotSize * of_nat k])"
    using False by (simp add: slotQtys_def Let_def k_def)
  moreover have "sum_list (replicate k lotSize @ [orderQty - lotSize * of_nat k]) = orderQty"
    by (simp add: sum_list_replicate)
  ultimately show ?thesis using slots_bounds(2,3) [OF l, folded k_def] by blast
qed

section \<open>Witnesses\<close>

definition sample_label :: material_lot_input where
  "sample_label = \<lparr>mli_itemCode = ''040101-00022S'', mli_qty = Finite (25 / 2), mli_businessDate = ''2026-07-31'',
     mli_supplierCode = ''100019''\<rparr>"

lemma sample_prefix_item:
  assumes item: "assertMaterialLotSegment c = Inr c" and "length c \<le> 14"
  shows "materialLotPrefix big (sample_label\<lparr>mli_itemCode := c\<rparr>) = Inr (c @ ''|12.5|260731|100019|'')"
proof -
  have "\<lfloor>(25000001 :: rat) / 2\<rfloor> = 12500000" by (simp add: floor_eq_iff)
  then have m: "millionths (25 / 2) = 12500000" by (simp add: millionths_def)
  have k: "show_nat 12500000 = ''12500000''" by (simp add: show_nat.simps digit_def)
  have fixed: "toFixed6 big (25 / 2) = ''12.500000''" by (simp add: toFixed6_def m k padStart_def)
  have qty: "normalizeLotQty big (Finite (25 / 2)) = Inr ''12.5''"
    by (simp add: normalizeLotQty_def fixed strip_zeros_def strip_dot_def)
  have sup: "assertMaterialLotSegment ''100019'' = Inr ''100019''" by code_simp
  have date: "materialLotDateSegment ''2026-07-31'' = Inr ''260731''" by code_simp
  show ?thesis
    using assms(2)
    by (simp add: materialLotPrefix_def sample_label_def qty item sup date MATERIAL_LOT_SEPARATOR_def MATERIAL_LOT_MAX_LENGTH_def)
qed

lemma sample_prefix: "materialLotPrefix big sample_label = Inr ''040101-00022S|12.5|260731|100019|''"
proof -
  have "assertMaterialLotSegment ''040101-00022S'' = Inr ''040101-00022S''" by code_simp
  from sample_prefix_item [OF this, of big] show ?thesis by (simp add: sample_label_def)
qed

lemma sample_serials: "materialLotSerialSegment 1 = Inr ''0001''" "materialLotSerialSegment 2 = Inr ''0002''"
  by (simp_all add: materialLotSerialSegment_def show_int_def show_nat.simps digit_def padStart_def numeral_eq_Suc)

lemma sample_label_printed: "materialMesLotNo big sample_label 1 = Inr ''040101-00022S|12.5|260731|100019|0001''"
  by (simp add: materialMesLotNo_def sample_prefix sample_serials)

theorem material_lot_no_reads_back_witness:
  "\<exists>m. parseMaterialLotNo ''040101-00022S|12.5|260731|100019|0001'' = Inr m \<and> mls_itemCode m = ''040101-00022S'' \<and>
     int (mls_serial m) = 1"
  using material_lot_no_reads_back [OF sample_label_printed, of "25 / 2"] by (auto simp: sample_label_def)

theorem slots_add_up_witness: "slotQtys (1 / 2) (1 / 5) = Inr [1 / 5, 1 / 5, 1 / 10]"
proof -
  have "slotQtys (1 / 2) (1 / 5) = Inr ([1 / 5, 1 / 5] @ [1 / 10])"
    by code_simp
  then show ?thesis using slots_add_up [of "1 / 2" "1 / 5"] by simp
qed

end
