(* ===== verification/Lot_Registry.thy ===== *)
theory Lot_Registry
  imports Lot_Status Lot_Number
begin

text \<open>
  \<open>src/core/lot/lot-registry.service.ts\<close>: registering a LOT with its incoming inspection, pre-issuing the slots of
  a work order, attaching a LOT to its receipt line, and the next material LOT number. The inspection plan is
  chosen by \<open>src/core/quality/inspection-plan-version.ts\<close>; \<open>src/audit/terminal-worker-audit.ts\<close> records a
  terminal worker. Times are milliseconds, dates day numbers; a date in another form is \<open>None\<close>.
\<close>

section \<open>Choosing the inspection plan\<close>

text \<open>The loop over a map of plans: a later version replaces an earlier one in its place.\<close>

definition latestPerPlan :: "inspection_plan_version list \<Rightarrow> inspection_plan_version list" where
  "latestPerPlan versions =
     map snd (fold (\<lambda>v m. case map_of m (pv_plan_id v) of
         None \<Rightarrow> m @ [(pv_plan_id v, v)]
       | Some kept \<Rightarrow> if pv_plan_version kept < pv_plan_version v then AList.update (pv_plan_id v) v m else m) versions [])"

definition effective_on :: "int \<Rightarrow> inspection_plan_version \<Rightarrow> bool" where
  "effective_on date v \<longleftrightarrow> pv_status_code v = ''CONFIRMED'' \<and> pv_effective_from v \<le> date \<and>
     (case pv_effective_to v of None \<Rightarrow> True | Some e \<Rightarrow> date \<le> e)"

definition find_plan :: "lot_db \<Rightarrow> id \<Rightarrow> inspection_plan option" where
  "find_plan db i = find (\<lambda>p. ip_id p = i) (inspection_plans db)"

definition plan_candidates :: "lot_db \<Rightarrow> code \<Rightarrow> id option \<Rightarrow> int \<Rightarrow> inspection_plan_version list" where
  "plan_candidates db typ item date =
     latestPerPlan (filter (\<lambda>v. effective_on date v \<and>
       (case find_plan db (pv_plan_id v) of
          None \<Rightarrow> False
        | Some p \<Rightarrow> ip_item_id p = item \<and> ip_type_code p = typ \<and> ip_is_active p)) (inspection_plan_versions db))"

text \<open>\<open>day\<close>: the form \<open>YYYY-MM-DD\<close>; the date it denotes, if any, comes with the text.\<close>

definition candidatePlanVersions :: "lot_db \<Rightarrow> code \<Rightarrow> id \<Rightarrow> int option \<Rightarrow> id list res" where
  "candidatePlanVersions db typ item effectiveDate =
     (case effectiveDate of
        None \<Rightarrow> Inl (one (field ''businessDate'' ''INVALID''))
      | Some date \<Rightarrow>
          let own = plan_candidates db typ (Some item) date in
          Inr (map pv_id (if own \<noteq> [] then own else plan_candidates db typ None date)))"

definition findInspectionPlanVersion :: "lot_db \<Rightarrow> code \<Rightarrow> id \<Rightarrow> int option \<Rightarrow> id option res" where
  "findInspectionPlanVersion db typ item effectiveDate =
     bind_res (candidatePlanVersions db typ item effectiveDate) (\<lambda>plans.
       Inr (case plans of [p] \<Rightarrow> Some p | _ \<Rightarrow> None))"

definition resolveInspectionPlanVersion :: "lot_db \<Rightarrow> code \<Rightarrow> id \<Rightarrow> int option \<Rightarrow> id res" where
  "resolveInspectionPlanVersion db typ item effectiveDate =
     bind_res (candidatePlanVersions db typ item effectiveDate) (\<lambda>plans.
       case plans of [p] \<Rightarrow> Inr p | _ \<Rightarrow> Inl (one (screen_item ''STATE_LOCKED'')))"

definition planDefaultSkip :: "lot_db \<Rightarrow> id \<Rightarrow> bool" where
  "planDefaultSkip db version =
     (case find (\<lambda>v. pv_id v = version) (inspection_plan_versions db) of
        None \<Rightarrow> False
      | Some v \<Rightarrow> (case find_plan db (pv_plan_id v) of None \<Rightarrow> False | Some p \<Rightarrow> ip_default_skip p))"

definition itemIqcDefaultSkipped :: "lot_db \<Rightarrow> id \<Rightarrow> int option \<Rightarrow> bool res" where
  "itemIqcDefaultSkipped db item effectiveDate =
     (case effectiveDate of
        None \<Rightarrow> Inl (one (field ''businessDate'' ''INVALID''))
      | Some date \<Rightarrow>
          Inr (case plan_candidates db ''IQC'' (Some item) date of
                 [v] \<Rightarrow> (case find_plan db (pv_plan_id v) of None \<Rightarrow> False | Some p \<Rightarrow> ip_default_skip p)
               | _ \<Rightarrow> False))"

section \<open>The audit of a terminal worker\<close>

record TerminalWorkerAuditActor =
  ta_workerId :: id
  ta_workerNo :: string
  ta_terminalId :: id
  ta_plantId :: id
  ta_correlationId :: string
  ta_operationKey :: string

definition bounded :: "string \<Rightarrow> nat \<Rightarrow> bool" where
  "bounded s maxLength \<longleftrightarrow> trim s \<noteq> [] \<and> length s \<le> maxLength"

definition recordTerminalWorkerAudit ::
  "TerminalWorkerAuditActor \<Rightarrow> code \<Rightarrow> id \<Rightarrow> code \<Rightarrow> lot_db \<Rightarrow> lot_db res" where
  "recordTerminalWorkerAudit actor target_type target event_type db =
     (if ta_workerId actor \<le> 0 \<or> ta_terminalId actor \<le> 0 \<or> ta_plantId actor \<le> 0 \<or> target \<le> 0 \<or>
         \<not> bounded (ta_workerNo actor) 50 \<or> \<not> bounded (ta_correlationId actor) 150 \<or>
         \<not> bounded (ta_operationKey actor) 150 \<or> \<not> bounded target_type 50 \<or> \<not> bounded event_type 50
      then Inl (HttpException 401)
      else if \<not> (\<exists>w \<in> set (active_workers db). aw_id w = ta_workerId actor \<and> aw_no w = ta_workerNo actor \<and> aw_plant_id w = ta_plantId actor) \<or>
              \<not> (\<exists>t \<in> set (active_terminals db). at_id t = ta_terminalId actor \<and> at_plant_id t = ta_plantId actor)
      then Inl (HttpException 401)
      else Inr (db\<lparr>lot_audits := lot_audits db @
        [\<lparr>au_target_type_code = target_type, au_target_id = target, au_event_type_code = event_type,
          au_terminal_id = ta_terminalId actor, au_worker_id = ta_workerId actor,
          au_correlation_id = ta_correlationId actor, au_operation_key = ta_operationKey actor\<rparr>]\<rparr>))"

section \<open>Registering a LOT\<close>

definition INSPECTION_HOLD_REASON :: code where
  "INSPECTION_HOLD_REASON = ''INCOMING_INSPECTION_WAIT''"

definition INITIAL_LOT_STATUS :: code where
  "INITIAL_LOT_STATUS = ''INSPECTION_PENDING''"

definition NO_INSPECTION_LOT_STATUS :: code where
  "NO_INSPECTION_LOT_STATUS = ''NORMAL''"

definition INBOUND_RECEIPT_LINE :: code where
  "INBOUND_RECEIPT_LINE = ''INBOUND_RECEIPT_LINE''"

definition PREISSUED_LIFECYCLE :: code where
  "PREISSUED_LIFECYCLE = ''WAITING''"

definition PRODUCTION_LOT_TYPE :: code where
  "PRODUCTION_LOT_TYPE = ''PRODUCTION''"

datatype LotRegisterActor = Account id | TerminalWorker id TerminalWorkerAuditActor

record IncomingIqc =
  iq_requestNo :: string
  iq_effectiveDate :: "int option"
  iq_requestedAt :: int

record ExternalIdentifierInput =
  xin_type :: code
  xin_identifier :: string
  xin_partnerId :: "id option"
  xin_systemCode :: "code option"

record LotRegisterInput =
  rg_lotNo :: string
  rg_itemId :: id
  rg_lotTypeCode :: code
  rg_plantId :: id
  rg_initialQty :: decimal
  rg_uomId :: id
  rg_manufacturedAt :: "int option"
  rg_expiryDate :: "int option"
  rg_sourceTypeCode :: code
  rg_sourceId :: id
  rg_remarks :: "string option"
  rg_externalIdentifiers :: "ExternalIdentifierInput list"
  rg_incomingIqc :: "IncomingIqc option"

definition account_of :: "LotRegisterActor \<Rightarrow> id option" where
  "account_of actor = (case actor of Account u \<Rightarrow> Some u | TerminalWorker w a \<Rightarrow> None)"

definition register_actor :: "LotRegisterActor \<Rightarrow> int \<Rightarrow> LotHoldActor" where
  "register_actor actor time =
     (case actor of
        Account u \<Rightarrow> \<lparr>ha_by = Some u, ha_workerId = None, ha_at = time\<rparr>
      | TerminalWorker w a \<Rightarrow> \<lparr>ha_by = None, ha_workerId = Some w, ha_at = time\<rparr>)"

definition audit_created :: "LotRegisterActor \<Rightarrow> code \<Rightarrow> id \<Rightarrow> lot_db \<Rightarrow> lot_db res" where
  "audit_created actor target_type target db =
     (case actor of Account u \<Rightarrow> Inr db | TerminalWorker w a \<Rightarrow> recordTerminalWorkerAudit a target_type target ''CREATED'' db)"

definition registered_lot :: "LotRegisterInput \<Rightarrow> LotRegisterActor \<Rightarrow> bool \<Rightarrow> lot_row" where
  "registered_lot input actor awaitsInspection =
     \<lparr>lot_id = 0, lot_no = rg_lotNo input, lot_item_id = rg_itemId input, lot_type_code = rg_lotTypeCode input,
      lot_plant_id = rg_plantId input, initial_qty = rg_initialQty input, lot_uom_id = rg_uomId input,
      manufactured_at = rg_manufacturedAt input, expiry_date = rg_expiryDate input,
      source_type_code = rg_sourceTypeCode input, source_id = rg_sourceId input,
      lot_status_code = (if awaitsInspection then INITIAL_LOT_STATUS else NO_INSPECTION_LOT_STATUS),
      lifecycle_status_code = None, parent_lot_id = None, lot_remarks = rg_remarks input, lot_created_by = account_of actor,
      lot_version_no = 1, lot_bom_id = None, lot_bom_version = None, work_order_lot_seq = None\<rparr>"

definition holdForInspection :: "lot_db \<Rightarrow> id \<Rightarrow> LotRegisterActor \<Rightarrow> int \<Rightarrow> lot_db res" where
  "holdForInspection db lid actor time =
     bind_res (holdWithin db (lockLotsWithin db [lid])
       [\<lparr>hi_lotId = lid, hi_reasonCode = INSPECTION_HOLD_REASON, hi_holdQty = None, hi_uomId = None,
         hi_releaseCondition = None, hi_targetLotStatusCode = Some INITIAL_LOT_STATUS, hi_remarks = None\<rparr>]
       (register_actor actor time)) (\<lambda>(rows, db'). Inr db')"

text \<open>The rows of \<open>trace.lot_external_identifier\<close>; the LOT is new, so \<open>uq_lot_external_identifier\<close> can only be
  violated by two identifiers of the same request.\<close>

definition identifier_key :: "ExternalIdentifierInput \<Rightarrow> code \<times> id \<times> code \<times> string" where
  "identifier_key x =
     (xin_type x, (case xin_partnerId x of None \<Rightarrow> 0 | Some p \<Rightarrow> p), (case xin_systemCode x of None \<Rightarrow> [] | Some c \<Rightarrow> c),
      xin_identifier x)"

definition add_identifiers :: "id \<Rightarrow> LotRegisterActor \<Rightarrow> ExternalIdentifierInput list \<Rightarrow> lot_db \<Rightarrow> lot_db res" where
  "add_identifiers lid actor inputs db =
     (if distinct (map identifier_key inputs)
      then Inr (db\<lparr>external_identifiers := external_identifiers db @
        map (\<lambda>x. \<lparr>xi_lot_id = lid, xi_type_code = xin_type x, xi_identifier = xin_identifier x,
           xi_partner_id = xin_partnerId x, xi_system_code = xin_systemCode x, xi_created_by = account_of actor\<rparr>) inputs\<rparr>)
      else Inl (DbError (P2002 [''lot_id'', ''identifier_type_code'', ''partner_id'', ''external_system_code'', ''external_identifier''])))"

text \<open>\<open>INSERT INTO quality.inspection_request\<close>: the number is unique, and a LOT has one incoming request.\<close>

definition create_request_row :: "inspection_request \<Rightarrow> lot_db \<Rightarrow> (id \<times> lot_db) res" where
  "create_request_row row db =
     (if \<exists>r \<in> set (inspection_requests db). ir_no r = ir_no row
      then Inl (DbError (P2002 [''inspection_request_no'']))
      else if ir_type_code row = ''IQC'' \<and> ir_lot_id row \<noteq> None \<and>
        (\<exists>r \<in> set (inspection_requests db). ir_type_code r = ''IQC'' \<and> ir_lot_id r = ir_lot_id row)
      then Inl (DbError (P2002 [''lot_id'']))
      else Inr (inspection_request_seq db, db\<lparr>inspection_requests := inspection_requests db @
        [row\<lparr>ir_id := inspection_request_seq db\<rparr>], inspection_request_seq := inspection_request_seq db + 1\<rparr>))"

definition iqc_request_row ::
  "LotRegisterInput \<Rightarrow> LotRegisterActor \<Rightarrow> IncomingIqc \<Rightarrow> id option \<Rightarrow> bool \<Rightarrow> id \<Rightarrow> inspection_request" where
  "iqc_request_row input actor iqc version skipped lid =
     \<lparr>ir_id = 0, ir_no = iq_requestNo iqc, ir_type_code = ''IQC'', ir_plan_version_id = version, ir_target_type_code = ''LOT'',
      ir_target_id = lid, ir_item_id = rg_itemId input, ir_lot_id = Some lid, ir_target_qty = rg_initialQty input,
      ir_uom_id = rg_uomId input, ir_status_code = (if skipped then ''SKIPPED'' else ''REQUESTED''),
      ir_skip_basis_code = (if skipped then Some ''DEFAULT'' else None), ir_requested_at = iq_requestedAt iqc,
      ir_created_by = account_of actor, ir_updated_by = None, ir_version_no = 1\<rparr>"

definition attach :: "id \<Rightarrow> id \<Rightarrow> lot_db \<Rightarrow> lot_db res" where
  "attach line lid db =
     (if \<exists>x \<in> set (inbound_lines db). il_id x = line \<and> il_lot_id x = None
      then Inr (db\<lparr>inbound_lines := map (\<lambda>x. if il_id x = line \<and> il_lot_id x = None then x\<lparr>il_lot_id := Some lid\<rparr> else x) (inbound_lines db)\<rparr>)
      else if find (\<lambda>x. il_id x = line) (inbound_lines db) = None then Inl (one (field ''sourceId'' ''INVALID''))
      else Inl (one (field ''sourceId'' ''STATE_LOCKED'')))"

definition incoming_plan :: "lot_db \<Rightarrow> LotRegisterInput \<Rightarrow> id option res" where
  "incoming_plan db input =
     (case rg_incomingIqc input of
        None \<Rightarrow> Inr None
      | Some iqc \<Rightarrow> findInspectionPlanVersion db ''IQC'' (rg_itemId input) (iq_effectiveDate iqc))"

definition default_skipped :: "lot_db \<Rightarrow> LotRegisterInput \<Rightarrow> id option \<Rightarrow> bool" where
  "default_skipped db input version \<longleftrightarrow>
     rg_incomingIqc input \<noteq> None \<and> (case version of None \<Rightarrow> False | Some v \<Rightarrow> planDefaultSkip db v)"

definition awaits_inspection :: "LotRegisterInput \<Rightarrow> bool \<Rightarrow> bool" where
  "awaits_inspection input skipped \<longleftrightarrow>
     (rg_incomingIqc input \<noteq> None \<and> \<not> skipped) \<or> rg_sourceTypeCode input \<noteq> INBOUND_RECEIPT_LINE"

definition request_inspection ::
  "LotRegisterInput \<Rightarrow> LotRegisterActor \<Rightarrow> id option \<Rightarrow> bool \<Rightarrow> id \<Rightarrow> lot_db \<Rightarrow> lot_db res" where
  "request_inspection input actor version skipped lid db =
     (case rg_incomingIqc input of
        None \<Rightarrow> Inr db
      | Some iqc \<Rightarrow>
          bind_res (create_request_row (iqc_request_row input actor iqc version skipped lid) db) (\<lambda>(request, db').
            audit_created actor ''INSPECTION_REQUEST'' request db'))"

definition createWithin :: "lot_db \<Rightarrow> LotRegisterInput \<Rightarrow> LotRegisterActor \<Rightarrow> int \<Rightarrow> ((lot_row \<times> lot_hold list) \<times> lot_db) res" where
  "createWithin db input actor time =
     bind_res (incoming_plan db input) (\<lambda>version.
       let skipped = default_skipped db input version; awaits = awaits_inspection input skipped in
       bind_res (create_lot (registered_lot input actor awaits) db) (\<lambda>(lid, db1).
       bind_res (if awaits then holdForInspection db1 lid actor time else Inr db1) (\<lambda>db2.
       bind_res (bind_res (add_identifiers lid actor (rg_externalIdentifiers input) db2)
                   (request_inspection input actor version skipped lid)) (\<lambda>db3.
       bind_res (if rg_sourceTypeCode input = INBOUND_RECEIPT_LINE then attach (rg_sourceId input) lid db3 else Inr db3) (\<lambda>db4.
       bind_res (audit_created actor ''LOT'' lid db4) (\<lambda>db5.
         case find_lot db5 lid of
           None \<Rightarrow> Inl (DbError P2025)
         | Some l \<Rightarrow> Inr ((l, filter (\<lambda>h. hold_lot_id h = lid) (lot_holds db5)), db5)))))))"

section \<open>Slots of a work order\<close>

record LotPreIssueInput =
  pi_workOrderId :: id
  pi_lotPlantId :: id
  pi_itemId :: id
  pi_uomId :: id
  pi_bomId :: "id option"
  pi_bomVersion :: "int option"
  pi_lotNos :: "string list"
  pi_qtys :: "decimal list"

definition slot_lot :: "LotPreIssueInput \<Rightarrow> id \<Rightarrow> nat \<Rightarrow> string \<Rightarrow> lot_row" where
  "slot_lot input appUserId index no =
     \<lparr>lot_id = 0, lot_no = no, lot_item_id = pi_itemId input, lot_type_code = PRODUCTION_LOT_TYPE,
      lot_plant_id = pi_lotPlantId input, initial_qty = pi_qtys input ! index, lot_uom_id = pi_uomId input,
      manufactured_at = None, expiry_date = None, source_type_code = WORK_ORDER_LOT_SOURCE,
      source_id = pi_workOrderId input, lot_status_code = INITIAL_LOT_STATUS,
      lifecycle_status_code = Some PREISSUED_LIFECYCLE, parent_lot_id = None, lot_remarks = None,
      lot_created_by = Some appUserId, lot_version_no = 1, lot_bom_id = pi_bomId input,
      lot_bom_version = pi_bomVersion input, work_order_lot_seq = Some (index + 1)\<rparr>"

definition preIssueWithin :: "lot_db \<Rightarrow> LotPreIssueInput \<Rightarrow> id \<Rightarrow> (lot_row list \<times> lot_db) res" where
  "preIssueWithin db input appUserId =
     (if (pi_bomId input = None) \<noteq> (pi_bomVersion input = None) then Inl InternalError
      else if length (pi_lotNos input) \<noteq> length (pi_qtys input) then Inl InternalError
      else bind_res (fold_res (\<lambda>(index, no) st.
             bind_res (create_lot (slot_lot input appUserId index no) (snd st)) (\<lambda>(lid, db'). Inr (fst st @ [lid], db')))
             (zip [0..<length (pi_lotNos input)] (pi_lotNos input)) ([], db)) (\<lambda>(ids, db').
           Inr (js_sort (by_number (\<lambda>a b. int (the (work_order_lot_seq a)) - int (the (work_order_lot_seq b)))) (lots_in db' ids), db')))"

section \<open>The next number\<close>

text \<open>The \<open>LIKE\<close> a \<open>startsWith\<close> filter becomes: the prefix is not escaped, so \<open>_\<close> and \<open>%\<close> match more than
  themselves, and a backslash takes the next character literally. A pattern that ends in a backslash is an
  error of the database.\<close>

fun sql_like :: "string \<Rightarrow> string \<Rightarrow> bool" where
  "sql_like [] s = (s = [])"
| "sql_like (p # ps) s =
     (if p = CHR ''%'' then (\<exists>k \<in> set [0..<Suc (length s)]. sql_like ps (drop k s))
      else if p = CHR 0x5C then (case ps of [] \<Rightarrow> False | q # qs \<Rightarrow> s \<noteq> [] \<and> hd s = q \<and> sql_like qs (tl s))
      else s \<noteq> [] \<and> (p = CHR ''_'' \<or> hd s = p) \<and> sql_like ps (tl s))"

definition starting_with :: "lot_db \<Rightarrow> id \<Rightarrow> string \<Rightarrow> lot_row list" where
  "starting_with db plant pre = filter (\<lambda>l. lot_plant_id l = plant \<and> sql_like (pre @ ''%'') (lot_no l)) (lots db)"

definition nextMesLotNos :: "lot_db \<Rightarrow> id \<Rightarrow> string \<Rightarrow> nat \<Rightarrow> (nat \<Rightarrow> nat list list) \<Rightarrow> string list option" where
  "nextMesLotNos db plant businessDate n rnd =
     (let pre = ''M'' @ last_six (padStart (show_int plant) 6 (CHR ''0'')) @ compact_date businessDate;
          used = length (starting_with db plant pre);
          nos = map (\<lambda>i. mesLotNo plant businessDate (used + 1 + i) (rnd i)) [0..<n]
      in if None \<in> set nos then None else Some (map the nos))"

record InboundNumberInput =
  ni_plantId :: id
  ni_itemId :: id
  ni_receivedQty :: js_number
  ni_supplierId :: id
  ni_businessDate :: string

definition material_serial :: "string \<Rightarrow> string \<Rightarrow> nat option" where
  "material_serial pre no =
     (if length no = length pre + 4 \<and> prefix pre no \<and> digits 4 (drop (length pre) no)
      then Some (read_nat (drop (length pre) no)) else None)"

definition last_serial :: "string \<Rightarrow> lot_row list \<Rightarrow> nat" where
  "last_serial pre rows =
     fold (\<lambda>l m. case material_serial pre (lot_no l) of None \<Rightarrow> m | Some k \<Rightarrow> max m k) rows 0"

definition format_error :: "lot_format_error \<Rightarrow> app_error" where
  "format_error e = one (field ''lines'' (case e of LENGTH \<Rightarrow> ''RANGE'' | SEGMENT \<Rightarrow> ''INVALID''))"

definition nextInboundMaterialLotNo :: "(rat \<Rightarrow> string) \<Rightarrow> lot_db \<Rightarrow> InboundNumberInput \<Rightarrow> string res" where
  "nextInboundMaterialLotNo big_text db input =
     (case (map_of (item_codes db) (ni_itemId input), map_of (partner_codes db) (ni_supplierId input)) of
        (Some item, Some supplier) \<Rightarrow>
          let segs = \<lparr>mli_itemCode = item, mli_qty = ni_receivedQty input, mli_businessDate = ni_businessDate input,
                      mli_supplierCode = supplier\<rparr> in
          (case materialLotPrefix big_text segs of
             Inl e \<Rightarrow> Inl (format_error e)
           | Inr pre \<Rightarrow>
               let serial = last_serial pre (starting_with db (ni_plantId input) pre) in
               if 9999 < serial + 1 then Inl (ConflictException CauseUser no_extra)
               else case materialMesLotNo big_text segs (int serial + 1) of
                      Inl e \<Rightarrow> Inl (one (field ''lines'' ''RANGE''))
                    | Inr no \<Rightarrow> Inr no)
      | _ \<Rightarrow> Inl InternalError)"

section \<open>A new number is new\<close>

lemma like_prefix:
  assumes "CHR 0x5C \<notin> set pre" and "prefix pre s"
  shows "sql_like (pre @ ''%'') s"
  using assms
proof (induction pre arbitrary: s)
  case Nil
  have "\<exists>k \<in> set [0..<Suc (length s)]. drop k s = []" by (rule bexI [of _ "length s"]) auto
  then show ?case by simp
next
  case (Cons p pre)
  then obtain t where s: "s = p # t" "prefix pre t" by (cases s) auto
  with Cons have "sql_like (pre @ ''%'') t" by simp
  moreover have "\<exists>k \<in> set [0..<Suc (length s)]. sql_like (pre @ ''%'') (drop k s)"
  proof (rule bexI [of _ 1])
    show "sql_like (pre @ ''%'') (drop 1 s)" using s \<open>sql_like (pre @ ''%'') t\<close> by simp
    show "1 \<in> set [0..<Suc (length s)]" unfolding set_upt using s by simp
  qed
  ultimately show ?case using Cons.prems(1) s by auto
qed

lemma last_serial_max:
  "l \<in> set rows \<Longrightarrow> material_serial pre (lot_no l) = Some k \<Longrightarrow> k \<le> last_serial pre rows"
proof -
  show "l \<in> set rows \<Longrightarrow> material_serial pre (lot_no l) = Some k \<Longrightarrow> k \<le> last_serial pre rows"
    unfolding last_serial_def
  proof (induction rows arbitrary: rule: rev_induct)
    case (snoc x rows)
    then show ?case by (auto split: option.splits)
  qed simp
qed

lemma material_number:
  assumes "materialMesLotNo big segs serial = Inr no" and "materialLotPrefix big segs = Inr pre"
  shows "material_serial pre no = Some (nat serial) \<and> 1 \<le> serial"
proof -
  from assms obtain ser where ser: "materialLotSerialSegment serial = Inr ser" "no = pre @ ser"
    by (auto simp: materialMesLotNo_def res_simps)
  with serial_segment [OF ser(1)] show ?thesis by (simp add: material_serial_def digits_def)
qed

lemma decimal_text_chars: "is_decimal_text t \<Longrightarrow> c \<in> set t \<Longrightarrow> is_digit c \<or> c = CHR ''.''"
proof -
  assume "is_decimal_text t" and "c \<in> set t"
  moreover have "t = takeWhile is_digit t @ dropWhile is_digit t" by simp
  ultimately show ?thesis
    unfolding is_decimal_text_def Let_def
    by (cases "dropWhile is_digit t") (auto simp: list_all_iff dest: set_takeWhileD, metis UnE set_append set_takeWhileD set_ConsD)
qed

lemma prefix_plain:
  assumes "materialLotPrefix big segs = Inr pre" and "mli_qty segs = Finite q" and "q < 10 ^ 21"
    and "CHR 0x5C \<notin> set (mli_itemCode segs)" and "CHR 0x5C \<notin> set (mli_supplierCode segs)"
  shows "CHR 0x5C \<notin> set pre"
proof -
  from assms(1) obtain item qty date sup where
      p: "assertMaterialLotSegment (mli_itemCode segs) = Inr item" "normalizeLotQty big (mli_qty segs) = Inr qty"
      "materialLotDateSegment (mli_businessDate segs) = Inr date" "assertMaterialLotSegment (mli_supplierCode segs) = Inr sup"
      "pre = js_join (CHR ''|'') [item, qty, date, sup] @ [CHR ''|'']"
    by (auto simp: materialLotPrefix_def MATERIAL_LOT_SEPARATOR_def Let_def res_simps split: if_splits)
  have no_digit: "\<not> is_digit (CHR 0x5C)" by (simp add: is_digit_def)
  have "CHR 0x5C \<notin> set qty"
    using normalized_qty [OF p(2) assms(2,3)] decimal_text_chars [of qty "CHR 0x5C"] no_digit by auto
  moreover have "CHR 0x5C \<notin> set date"
  proof -
    have "digits 6 date" using date_segment [OF p(3)] by (simp add: real_date_text_def)
    with no_digit show ?thesis by (auto simp: digits_def list_all_iff)
  qed
  ultimately show ?thesis using assert_segment [OF p(1)] assert_segment [OF p(4)] assms(4,5) p(5) by auto
qed

text \<open>C32. The number chosen for an incoming material LOT is carried by no LOT of the plant yet, provided the item
  and supplier codes hold no backslash.\<close>
theorem next_number_fresh:
  assumes num: "nextInboundMaterialLotNo big db input = Inr no"
    and qty: "ni_receivedQty input = Finite q" "q < 10 ^ 21"
    and plain: "\<And>c. map_of (item_codes db) (ni_itemId input) = Some c \<Longrightarrow> CHR 0x5C \<notin> set c"
      "\<And>c. map_of (partner_codes db) (ni_supplierId input) = Some c \<Longrightarrow> CHR 0x5C \<notin> set c"
  shows "\<forall>l \<in> set (lots db). lot_plant_id l = ni_plantId input \<longrightarrow> lot_no l \<noteq> no"
proof -
  from num obtain item supplier segs pre where
      codes: "map_of (item_codes db) (ni_itemId input) = Some item" "map_of (partner_codes db) (ni_supplierId input) = Some supplier"
      and segs: "segs = \<lparr>mli_itemCode = item, mli_qty = ni_receivedQty input, mli_businessDate = ni_businessDate input, mli_supplierCode = supplier\<rparr>"
      and pre: "materialLotPrefix big segs = Inr pre"
      and no: "materialMesLotNo big segs (int (last_serial pre (starting_with db (ni_plantId input) pre)) + 1) = Inr no"
    by (auto simp: nextInboundMaterialLotNo_def Let_def split: option.splits sum.splits if_splits)
  have bs: "CHR 0x5C \<notin> set pre" by (rule prefix_plain [OF pre]) (use qty plain codes in \<open>simp_all add: segs\<close>)
  from material_number [OF no pre] have k: "material_serial pre no = Some (nat (int (last_serial pre (starting_with db (ni_plantId input) pre)) + 1))"
    by simp
  have "lot_no l \<noteq> no" if l: "l \<in> set (lots db)" "lot_plant_id l = ni_plantId input" for l
  proof
    assume eq: "lot_no l = no"
    with k have "prefix pre (lot_no l)" by (auto simp: material_serial_def split: if_splits)
    then have "l \<in> set (starting_with db (ni_plantId input) pre)" using l like_prefix [OF bs] by (simp add: starting_with_def)
    from last_serial_max [OF this] eq k show False by fastforce
  qed
  then show ?thesis by blast
qed

section \<open>Examples of numbers\<close>

definition numbered_lot :: "string \<Rightarrow> lot_row" where
  "numbered_lot no = (traced_lot 1 ''INBOUND_RECEIPT_LINE'' 3)\<lparr>lot_no := no\<rparr>"

definition numbered_db :: "string \<Rightarrow> string \<Rightarrow> lot_db" where
  "numbered_db item no = empty_lot_db\<lparr>lots := [numbered_lot no], lot_seq := 2, item_codes := [(10, item)],
     partner_codes := [(4, ''100019'')]\<rparr>"

definition number_input :: InboundNumberInput where
  "number_input = \<lparr>ni_plantId = 1, ni_itemId = 10, ni_receivedQty = Finite (25 / 2), ni_supplierId = 4,
     ni_businessDate = ''2026-07-31''\<rparr>"

lemma next_number_example:
  "nextInboundMaterialLotNo big (numbered_db ''040101-00022S'' ''040101-00022S|12.5|260731|100019|0001'') number_input =
     Inr ''040101-00022S|12.5|260731|100019|0002''"
proof -
  let ?db = "numbered_db ''040101-00022S'' ''040101-00022S|12.5|260731|100019|0001''"
  have codes: "map_of (item_codes ?db) 10 = Some ''040101-00022S''" "map_of (partner_codes ?db) 4 = Some ''100019''"
    by (simp_all add: numbered_db_def)
  have last: "last_serial ''040101-00022S|12.5|260731|100019|'' (starting_with ?db 1 ''040101-00022S|12.5|260731|100019|'') = 1"
    by code_simp
  have no: "materialMesLotNo big sample_label 2 = Inr ''040101-00022S|12.5|260731|100019|0002''"
    by (simp add: materialMesLotNo_def sample_prefix sample_serials)
  show ?thesis
    using sample_prefix [of big] no
    by (simp add: nextInboundMaterialLotNo_def number_input_def codes last sample_label_def)
qed

theorem next_number_fresh_witness:
  "''040101-00022S|12.5|260731|100019|0002'' \<notin>
     set (map lot_no (filter (\<lambda>l. lot_plant_id l = 1) (lots (numbered_db ''040101-00022S'' ''040101-00022S|12.5|260731|100019|0001''))))"
  using next_number_fresh [OF next_number_example, of "25 / 2"] by (auto simp: number_input_def numbered_db_def)

text \<open>With a backslash in the item code the unescaped pattern misses the LOTs that are there, so the same number comes
  out again.\<close>

definition backslash_code :: string where
  "backslash_code = ''A'' @ [CHR 0x5C] @ ''B''"

lemma backslash_number_repeats:
  "nextInboundMaterialLotNo big (numbered_db backslash_code (backslash_code @ ''|12.5|260731|100019|0001'')) number_input =
     Inr (backslash_code @ ''|12.5|260731|100019|0001'')"
proof -
  let ?db = "numbered_db backslash_code (backslash_code @ ''|12.5|260731|100019|0001'')"
  have "assertMaterialLotSegment backslash_code = Inr backslash_code" "length backslash_code \<le> 14"
    by (simp_all add: backslash_code_def assertMaterialLotSegment_def MATERIAL_LOT_SEPARATOR_def is_printable_def)
  note pre = sample_prefix_item [OF this, of big]
  have codes: "map_of (item_codes ?db) 10 = Some backslash_code" "map_of (partner_codes ?db) 4 = Some ''100019''"
    by (simp_all add: numbered_db_def)
  have last: "last_serial (backslash_code @ ''|12.5|260731|100019|'') (starting_with ?db 1 (backslash_code @ ''|12.5|260731|100019|'')) = 0"
    by code_simp
  have no: "materialMesLotNo big (sample_label\<lparr>mli_itemCode := backslash_code\<rparr>) 1 = Inr (backslash_code @ ''|12.5|260731|100019|0001'')"
    by (simp add: materialMesLotNo_def pre sample_serials)
  show ?thesis
    using pre no by (simp add: nextInboundMaterialLotNo_def number_input_def codes last sample_label_def)
qed

end
