(* ===== verification/Lot_Hold_Service.thy ===== *)
theory Lot_Hold_Service
  imports Lot_Registry Approval Inventory_Balance
begin

text \<open>
  The operations that hold and free LOTs: \<open>quality/lot-hold/lot-hold-rules.ts\<close> and
  \<open>lot-hold-write.service.ts\<close> (register holds, release one), \<open>trace/lot/lot-iqc-skip-execute.service.ts\<close>
  (carry out an approved skip of the incoming inspection) and the code check of
  \<open>common/master/code-reference.ts\<close>. Each is one transaction over the LOT tables; the stock on hand is read
  from the balance rows of the posting core, the approval from the requests of the approval core. The response
  mapping (dates as text, empty fields dropped) is left out: an operation returns the rows it is made from.
\<close>

section \<open>Code values\<close>

record CodeCheck =
  cc_field :: string
  cc_value :: "code option"
  cc_groupCode :: code

text \<open>The active rows of \<open>code_value\<close>, as group and code.\<close>

type_synonym code_table = "(code \<times> code) list"

definition known_key :: "code \<Rightarrow> code \<Rightarrow> string" where
  "known_key grp c = grp @ '' '' @ c"

definition assertCodeValues :: "code_table \<Rightarrow> CodeCheck list \<Rightarrow> unit res" where
  "assertCodeValues codes checks =
     (let present = filter (\<lambda>c. cc_value c \<noteq> None) checks in
      if present = [] then Inr ()
      else
        let found = filter (\<lambda>(g, v). \<exists>c \<in> set present. cc_value c = Some v \<and> cc_groupCode c = g) codes;
            known = map (\<lambda>(g, v). known_key g v) found;
            errors = map (\<lambda>c. field (cc_field c) ''INVALID'')
              (filter (\<lambda>c. known_key (cc_groupCode c) (the (cc_value c)) \<notin> set known) present)
        in if errors = [] then Inr () else Inl (ContractException BAD_REQUEST errors []))"

section \<open>The shape of a request\<close>

record LotVersionRef =
  ref_lotId :: id
  ref_versionNo :: int

record LotHoldCreate =
  hc_lots :: "LotVersionRef list"
  hc_holdQty :: "decimal option"
  hc_uomId :: "id option"
  hc_reasonCode :: code
  hc_releaseCondition :: "string option"
  hc_targetLotStatusCode :: code
  hc_remarks :: "string option"

definition ACTION_BY_TARGET_STATUS :: "(code \<times> ActionName) list" where
  "ACTION_BY_TARGET_STATUS = [(''DEFECTIVE'', ''lot-hold-claim''), (''INSPECTION_PENDING'', ''lot-hold-suspect'')]"

definition ACTION_BY_RELEASE_TARGET :: "(code \<times> ActionName) list" where
  "ACTION_BY_RELEASE_TARGET =
     [(''NORMAL'', ''lot-hold-release-accepted''), (''DEFECTIVE'', ''lot-hold-release-rejected'')]"

definition assertDistinctLots :: "LotVersionRef list \<Rightarrow> unit res" where
  "assertDistinctLots refs = guard_res (distinct (map ref_lotId refs)) (one (field ''lots'' ''INVALID''))"

definition assertQtyScale :: "string \<Rightarrow> decimal option \<Rightarrow> unit res" where
  "assertQtyScale name qty =
     (case qty of None \<Rightarrow> Inr () | Some q \<Rightarrow> guard_res (scaled q) (one (field name ''RANGE'')))"

definition assertQtyPair :: "LotHoldCreate \<Rightarrow> unit res" where
  "assertQtyPair body =
     (if (hc_holdQty body \<noteq> None) \<noteq> (hc_uomId body \<noteq> None)
      then Inl (one (field (if hc_holdQty body \<noteq> None then ''uomId'' else ''holdQty'') ''PAIR''))
      else case hc_holdQty body of
          None \<Rightarrow> assertQtyScale ''holdQty'' None
        | Some q \<Rightarrow> if \<not> 0 < q then Inl (one (field ''holdQty'' ''RANGE'')) else assertQtyScale ''holdQty'' (Some q))"

definition assertReleaseCondition :: "LotHoldCreate \<Rightarrow> unit res" where
  "assertReleaseCondition body =
     (if hc_targetLotStatusCode body = ''INSPECTION_PENDING'' \<and> hc_releaseCondition body = None
      then Inl (one (field ''releaseCondition'' ''REQUIRED''))
      else if hc_targetLotStatusCode body \<noteq> ''INSPECTION_PENDING'' \<and> hc_releaseCondition body \<noteq> None
      then Inl (one (field ''releaseCondition'' ''INVALID''))
      else Inr ())"

definition assertHoldCreateShape :: "LotHoldCreate \<Rightarrow> ActionName res" where
  "assertHoldCreateShape body =
     bind_res (guard_res (hc_lots body \<noteq> []) (one (field ''lots'' ''RANGE''))) (\<lambda>_.
     bind_res (assertDistinctLots (hc_lots body)) (\<lambda>_.
     bind_res (assertQtyPair body) (\<lambda>_.
     bind_res (guard_res (\<not> (2 \<le> length (hc_lots body) \<and> hc_holdQty body \<noteq> None)) (one (field ''holdQty'' ''INVALID''))) (\<lambda>_.
     case map_of ACTION_BY_TARGET_STATUS (hc_targetLotStatusCode body) of
       None \<Rightarrow> Inl (one (field ''targetLotStatusCode'' ''INVALID''))
     | Some action \<Rightarrow> bind_res (assertReleaseCondition body) (\<lambda>_. Inr action)))))"

record LotHoldRelease =
  rel_targetLotStatusCode :: code
  rel_releaseQty :: "decimal option"
  rel_releaseReasonCode :: code
  rel_remarks :: "string option option"

definition assertHoldReleaseShape :: "LotHoldRelease \<Rightarrow> ActionName res" where
  "assertHoldReleaseShape body =
     (case map_of ACTION_BY_RELEASE_TARGET (rel_targetLotStatusCode body) of
        None \<Rightarrow> Inl (one (field ''targetLotStatusCode'' ''INVALID''))
      | Some action \<Rightarrow>
          bind_res (guard_res (case rel_releaseQty body of None \<Rightarrow> True | Some q \<Rightarrow> 0 < q) (one (field ''releaseQty'' ''RANGE''))) (\<lambda>_.
          bind_res (assertQtyScale ''releaseQty'' (rel_releaseQty body)) (\<lambda>_. Inr action)))"

section \<open>Registering holds\<close>

datatype hold_by = ByUser id | ByWorker id

definition hold_actor :: "hold_by \<Rightarrow> int \<Rightarrow> LotHoldActor" where
  "hold_actor who time =
     (case who of
        ByUser u \<Rightarrow> \<lparr>ha_by = Some u, ha_workerId = None, ha_at = time\<rparr>
      | ByWorker w \<Rightarrow> \<lparr>ha_by = None, ha_workerId = Some w, ha_at = time\<rparr>)"

definition version_conflict :: "lot_row \<Rightarrow> id option \<Rightarrow> app_error" where
  "version_conflict lot which =
     ConflictException CauseUser (no_extra\<lparr>extra_code := Some ''VERSION_CONFLICT'',
       currentVersion := Some (show_int (lot_version_no lot)), currentLotStatusCode := Some (lot_status_code lot),
       conflictingLotId := which\<rparr>)"

definition assertVersion :: "lot_row list \<Rightarrow> LotVersionRef \<Rightarrow> unit res" where
  "assertVersion locked ref =
     (case find (\<lambda>l. lot_id l = ref_lotId ref) locked of
        None \<Rightarrow> Inr ()
      | Some lot \<Rightarrow> guard_res (lot_version_no lot = ref_versionNo ref) (version_conflict lot (Some (ref_lotId ref))))"

definition assertVersions :: "LotVersionRef list \<Rightarrow> lot_row list \<Rightarrow> unit res" where
  "assertVersions refs locked = fold_res (\<lambda>ref _. assertVersion locked ref) refs ()"

definition assertNoOpenFullHold :: "lot_db \<Rightarrow> id list \<Rightarrow> unit res" where
  "assertNoOpenFullHold db lotIds =
     (case find (\<lambda>h. hold_lot_id h \<in> set lotIds \<and> hold_qty h = None \<and> released_at h = None) (lot_holds db) of
        None \<Rightarrow> Inr ()
      | Some h \<Rightarrow> Inl (ConflictException CauseUser
          (no_extra\<lparr>extra_code := Some ''DUPLICATE_HOLD'', conflictingLotId := Some (hold_lot_id h)\<rparr>)))"

definition lot_on_hand :: "balance_row list \<Rightarrow> id \<Rightarrow> decimal" where
  "lot_on_hand stock_rows i = sum_list (map on_hand_qty (filter (\<lambda>b. lotId (dim b) = Some i) stock_rows))"

definition assertHoldQtyWithinOnHand :: "balance_row list \<Rightarrow> lot_db \<Rightarrow> LotHoldCreate \<Rightarrow> unit res" where
  "assertHoldQtyWithinOnHand stock_rows db body =
     (case hc_holdQty body of
        None \<Rightarrow> Inr ()
      | Some q \<Rightarrow>
          (case hc_lots body of
             [ref] \<Rightarrow>
               guard_res (\<not> lot_on_hand stock_rows (ref_lotId ref) < held_qty db (ref_lotId ref) + q)
                 (ConflictException CauseUser
                   (no_extra\<lparr>extra_code := Some ''HOLD_QTY_EXCEEDED'', conflictingLotId := Some (ref_lotId ref)\<rparr>))
           | _ \<Rightarrow> Inl InternalError))"

definition holdInputsOf :: "LotHoldCreate \<Rightarrow> LotHoldInput list" where
  "holdInputsOf body =
     map (\<lambda>ref. \<lparr>hi_lotId = ref_lotId ref, hi_reasonCode = hc_reasonCode body, hi_holdQty = hc_holdQty body,
        hi_uomId = hc_uomId body, hi_releaseCondition = hc_releaseCondition body,
        hi_targetLotStatusCode = Some (hc_targetLotStatusCode body), hi_remarks = hc_remarks body\<rparr>) (hc_lots body)"

definition hold_move_context :: "hold_by \<Rightarrow> int \<Rightarrow> lot_hold list \<Rightarrow> code \<Rightarrow> LotQualityMoveContext" where
  "hold_move_context who time rows reason =
     \<lparr>qc_changedBy = ha_by (hold_actor who time), qc_changedWorkerId = ha_workerId (hold_actor who time),
      qc_changedAt = time, qc_sourceDocumentTypeCode = Some ''LOT_HOLD'', qc_sourceDocumentId = None,
      qc_sourceDocumentIdByLot = Some (rev (map (\<lambda>h. (hold_lot_id h, hold_id h)) rows)),
      qc_reasonCode = Some reason, qc_reason = None, qc_transitionCode = None\<rparr>"

definition reread :: "lot_db \<Rightarrow> id \<Rightarrow> (lot_hold \<times> lot_row) res" where
  "reread db i =
     (case find (\<lambda>h. hold_id h = i) (lot_holds db) of
        None \<Rightarrow> Inl (DbError P2025)
      | Some h \<Rightarrow> (case find_lot db (hold_lot_id h) of None \<Rightarrow> Inl InternalError | Some l \<Rightarrow> Inr (h, l)))"

definition register_holds ::
  "code_table \<Rightarrow> balance_row list \<Rightarrow> int \<Rightarrow> hold_by \<Rightarrow> LotHoldCreate \<Rightarrow> lot_db \<Rightarrow>
     ((lot_hold \<times> lot_row) list \<times> lot_db) res" where
  "register_holds codes stock_rows time who body db =
     bind_res (assertCodeValues codes
       [\<lparr>cc_field = ''reasonCode'', cc_value = Some (hc_reasonCode body), cc_groupCode = ''LOT_HOLD_REASON''\<rparr>,
        \<lparr>cc_field = ''targetLotStatusCode'', cc_value = Some (hc_targetLotStatusCode body), cc_groupCode = ''LOT_STATUS''\<rparr>]) (\<lambda>_.
     bind_res (assertHoldCreateShape body) (\<lambda>action.
       let lotIds = map ref_lotId (hc_lots body); actor = hold_actor who time; locked = lockLotsWithin db lotIds in
       bind_res (guard_res (length locked = length lotIds) (HttpException NOT_FOUND)) (\<lambda>_.
       bind_res (assertVersions (hc_lots body) locked) (\<lambda>_.
       bind_res (assertNoOpenFullHold db lotIds) (\<lambda>_.
       bind_res (assertHoldQtyWithinOnHand stock_rows db body) (\<lambda>_.
       bind_res (holdWithin db locked (holdInputsOf body) actor) (\<lambda>(rows, db1).
       bind_res (moveQuality db1 lotIds action (hold_move_context who time rows (hc_reasonCode body))) (\<lambda>(moves, db2).
       bind_res (guard_res (skippedLotIds moves = []) (badRequest ''STATE_LOCKED'')) (\<lambda>_.
       bind_res (map_res (reread db2) (map hold_id rows)) (\<lambda>views. Inr (views, db2)))))))))))"

section \<open>Releasing a hold\<close>

definition assertReleasableQty :: "decimal option \<Rightarrow> decimal option \<Rightarrow> decimal option res" where
  "assertReleasableQty releaseQty holdQty =
     (case releaseQty of
        None \<Rightarrow> Inr None
      | Some r \<Rightarrow>
          (case holdQty of
             None \<Rightarrow> Inl (one (field ''releaseQty'' ''INVALID''))
           | Some q \<Rightarrow> if q < r then Inl (one (field ''releaseQty'' ''RANGE'')) else Inr (Some r)))"

definition release_will_move :: "nat \<Rightarrow> decimal option \<Rightarrow> decimal option \<Rightarrow> bool" where
  "release_will_move others releaseQty holdQty \<longleftrightarrow>
     others = 0 \<and> (releaseQty = None \<or> holdQty = None \<or> \<not> the releaseQty < the holdQty)"

definition release_context :: "id \<Rightarrow> int \<Rightarrow> id \<Rightarrow> code \<Rightarrow> LotQualityMoveContext" where
  "release_context appUserId time holdId reason =
     \<lparr>qc_changedBy = Some appUserId, qc_changedWorkerId = None, qc_changedAt = time,
      qc_sourceDocumentTypeCode = Some ''LOT_HOLD'', qc_sourceDocumentId = Some holdId, qc_sourceDocumentIdByLot = None,
      qc_reasonCode = Some reason, qc_reason = None, qc_transitionCode = None\<rparr>"

text \<open>The last step of a release: the LOT moves when nothing is open any more, and must be able to.\<close>

definition move_released :: "lot_db \<Rightarrow> id \<Rightarrow> ActionName \<Rightarrow> LotQualityMoveContext \<Rightarrow> nat \<Rightarrow> lot_db res" where
  "move_released db lid action ctx openAfter =
     (if openAfter = 0
      then bind_res (moveQuality db [lid] action ctx) (\<lambda>(moves, db').
        bind_res (guard_res (movedLotIds moves \<noteq> []) (badRequest ''STATE_LOCKED'')) (\<lambda>_. Inr db'))
      else Inr db)"

definition release_input :: "LotHoldRelease \<Rightarrow> bool \<Rightarrow> decimal option \<Rightarrow> LotHoldReleaseInput" where
  "release_input body willMove releaseQty =
     \<lparr>hr_releaseReasonCode = rel_releaseReasonCode body,
      hr_releaseTargetLotStatusCode = (if willMove then Some (rel_targetLotStatusCode body) else None),
      hr_remarks = rel_remarks body, hr_releaseQty = releaseQty\<rparr>"

definition release_found ::
  "lot_db \<Rightarrow> lot_hold \<Rightarrow> lot_row list \<Rightarrow> LotHoldRelease \<Rightarrow> ActionName \<Rightarrow> id \<Rightarrow> int \<Rightarrow> lot_db res" where
  "release_found db hold locked body action appUserId time =
     bind_res (assertReleasableQty (rel_releaseQty body) (hold_qty hold)) (\<lambda>releaseQty.
       let others = length (filter (\<lambda>h. open_hold (hold_lot_id hold) h \<and> hold_id h \<noteq> hold_id hold) (lot_holds db));
           willMove = release_will_move others releaseQty (hold_qty hold) in
       bind_res (releaseWithin db locked
         \<lparr>ht_lotId = hold_lot_id hold, ht_lotHoldIds = Some [hold_id hold], ht_reasonCode = None\<rparr>
         (release_input body willMove releaseQty) \<lparr>ha_by = Some appUserId, ha_workerId = None, ha_at = time\<rparr>)
       (\<lambda>((_, openAfter), db').
         bind_res (guard_res (willMove = (openAfter = 0)) InternalError) (\<lambda>_.
           move_released db' (hold_lot_id hold) action
             (release_context appUserId time (hold_id hold) (rel_releaseReasonCode body)) openAfter)))"

definition release_locked ::
  "lot_db \<Rightarrow> lot_hold \<Rightarrow> lot_row list \<Rightarrow> int \<Rightarrow> LotHoldRelease \<Rightarrow> ActionName \<Rightarrow> id \<Rightarrow> int \<Rightarrow> ((lot_hold \<times> lot_row) \<times> lot_db) res" where
  "release_locked db hold locked version body action appUserId time =
     (case locked of
        [] \<Rightarrow> Inl InternalError
      | lot # _ \<Rightarrow>
          bind_res (guard_res (lot_version_no lot = version) (version_conflict lot None)) (\<lambda>_.
          bind_res (guard_res (released_at hold = None) (badRequest ''STATE_LOCKED'')) (\<lambda>_.
          bind_res (release_found db hold locked body action appUserId time) (\<lambda>db'.
          bind_res (reread db' (hold_id hold)) (\<lambda>view. Inr (view, db'))))))"

definition release_hold ::
  "code_table \<Rightarrow> int \<Rightarrow> id \<Rightarrow> int \<Rightarrow> LotHoldRelease \<Rightarrow> id \<Rightarrow> lot_db \<Rightarrow> ((lot_hold \<times> lot_row) \<times> lot_db) res" where
  "release_hold codes time holdId version body appUserId db =
     bind_res (assertCodeValues codes
       [\<lparr>cc_field = ''releaseReasonCode'', cc_value = Some (rel_releaseReasonCode body), cc_groupCode = ''LOT_HOLD_RELEASE_REASON''\<rparr>]) (\<lambda>_.
     bind_res (assertHoldReleaseShape body) (\<lambda>action.
       case find (\<lambda>h. hold_id h = holdId) (lot_holds db) of
         None \<Rightarrow> Inl (HttpException NOT_FOUND)
       | Some hold \<Rightarrow> release_locked db hold (lockLotsWithin db [hold_lot_id hold]) version body action appUserId time))"

section \<open>An approved skip of the incoming inspection\<close>

definition OPEN_REQUEST_STATUSES :: "code list" where
  "OPEN_REQUEST_STATUSES = [''REQUESTED'', ''IN_PROGRESS'']"

definition assertSkippable :: "lot_row \<Rightarrow> unit res" where
  "assertSkippable lot =
     (if source_type_code lot \<noteq> INBOUND_RECEIPT_LINE then Inl (one (field ''lotId'' ''INVALID''))
      else if lot_status_code lot \<noteq> INITIAL_LOT_STATUS then Inl (one (field ''lotId'' ''STATE_LOCKED''))
      else Inr ())"

definition open_iqc :: "id \<Rightarrow> inspection_request \<Rightarrow> bool" where
  "open_iqc lid r \<longleftrightarrow>
     ir_lot_id r = Some lid \<and> ir_type_code r = ''IQC'' \<and> ir_status_code r \<in> set OPEN_REQUEST_STATUSES"

definition skip_requests :: "id \<Rightarrow> id \<Rightarrow> lot_db \<Rightarrow> lot_db" where
  "skip_requests lid appUserId db =
     db\<lparr>inspection_requests := map (\<lambda>r. if open_iqc lid r
        then r\<lparr>ir_status_code := ''SKIPPED'', ir_skip_basis_code := Some ''APPROVAL'', ir_updated_by := Some appUserId,
               ir_version_no := ir_version_no r + 1\<rparr> else r) (inspection_requests db)\<rparr>"

definition approved_skip :: "approval_request list \<Rightarrow> id \<Rightarrow> bool" where
  "approved_skip approvals lid \<longleftrightarrow>
     (\<exists>a \<in> set approvals. ar_type_code a = ''IQC_SKIP'' \<and> ar_target_type_code a = ''INBOUND_LOT'' \<and>
        ar_target_id a = lid \<and> ar_status_code a = ''APPROVED'')"

definition execute_skip :: "approval_request list \<Rightarrow> int \<Rightarrow> id \<Rightarrow> id \<Rightarrow> lot_db \<Rightarrow> lot_db res" where
  "execute_skip approvals time lid appUserId db =
     (case find_lot db lid of
        None \<Rightarrow> Inl (HttpException NOT_FOUND)
      | Some lot \<Rightarrow>
          bind_res (assertSkippable lot) (\<lambda>_.
          bind_res (guard_res (filter (open_iqc lid) (inspection_requests db) \<noteq> []) (badRequest ''STATE_LOCKED'')) (\<lambda>_.
          bind_res (guard_res (approved_skip approvals lid) (badRequest ''STATE_LOCKED'')) (\<lambda>_.
            let db1 = skip_requests lid appUserId db; locked = lockLotsWithin db1 [lid] in
            bind_res (releaseWithin db1 locked
              \<lparr>ht_lotId = lid, ht_lotHoldIds = None, ht_reasonCode = Some INSPECTION_HOLD_REASON\<rparr>
              \<lparr>hr_releaseReasonCode = ''INCOMING_INSPECTION_SKIPPED'', hr_releaseTargetLotStatusCode = None, hr_remarks = None,
               hr_releaseQty = None\<rparr>
              \<lparr>ha_by = Some appUserId, ha_workerId = None, ha_at = time\<rparr>) (\<lambda>((_, openAfter), db2).
            bind_res (guard_res (openAfter = 0) (badRequest ''STATE_LOCKED'')) (\<lambda>_.
            bind_res (moveQuality db2 [lid] ''iqc-skipped''
              \<lparr>qc_changedBy = Some appUserId, qc_changedWorkerId = None, qc_changedAt = time,
               qc_sourceDocumentTypeCode = None, qc_sourceDocumentId = None, qc_sourceDocumentIdByLot = None,
               qc_reasonCode = None, qc_reason = None, qc_transitionCode = None\<rparr>) (\<lambda>(_, db3). Inr db3)))))))"

section \<open>What a release does\<close>

lemma hold_actions_target:
  assumes "(target, action) \<in> set (ACTION_BY_RELEASE_TARGET @ ACTION_BY_TARGET_STATUS)"
    and "find_transition TRANSITIONS QUALITY_COLUMN action = Some t"
  shows "tr_to t = target"
proof -
  have "list_all (\<lambda>(target, action). case find_transition TRANSITIONS QUALITY_COLUMN action of None \<Rightarrow> False | Some t \<Rightarrow> tr_to t = target)
      (ACTION_BY_RELEASE_TARGET @ ACTION_BY_TARGET_STATUS)" by code_simp
  with assms show ?thesis unfolding list_all_iff by fastforce
qed

lemma find_lot_update:
  assumes "\<And>l. lot_id (f l) = lot_id l"
  shows "find_lot (update_lots ids f db) i = map_option (\<lambda>l. if i \<in> ids then f l else l) (find_lot db i)"
proof -
  have "find (\<lambda>l. lot_id l = i) (map (\<lambda>l. if lot_id l \<in> ids then f l else l) ls) =
      map_option (\<lambda>l. if i \<in> ids then f l else l) (find (\<lambda>l. lot_id l = i) ls)" for ls
    using assms by (induction ls) auto
  then show ?thesis by (simp add: find_lot_def update_lots_def)
qed

lemma find_lot_frame: "find_lot (db\<lparr>lot_holds := hs, hold_seq := n\<rparr>) = find_lot db" "find_lot (db\<lparr>status_events := es\<rparr>) = find_lot db"
  by (simp_all add: find_lot_def fun_eq_iff)

text \<open>Moving one LOT: when it is moved, its row has the target status.\<close>

lemma move_one:
  assumes "moveQuality db [i] action ctx = Inr (r, db')" and "lot_ids_ok db" and "movedLotIds r \<noteq> []"
  obtains t l where "find_transition TRANSITIONS QUALITY_COLUMN action = Some t" and "find_lot db i = Some l"
    and "quality_accepts t l" and "find_lot db' i = Some (to_quality t l)" and "lot_holds db' = lot_holds db"
proof (rule moveQuality_effect [OF assms(1,2)])
  fix t code' assume t: "find_transition TRANSITIONS QUALITY_COLUMN action = Some t"
    and moved: "movedLotIds r = map lot_id (filter (quality_accepts t) (lots_in db [i]))"
    and db': "db' = (update_lots (set (movedLotIds r)) (to_quality t) db)
      \<lparr>status_events := status_events db @ map (quality_event t code' ctx) (filter (quality_accepts t) (lots_in db [i]))\<rparr>"
  from assms(3) moved obtain l where l: "l \<in> set (lots db)" "lot_id l = i" "quality_accepts t l"
    by (auto simp: filter_empty_conv lots_in_def)
  then have found: "find_lot db i = Some l"
    using find_by_key [of lot_id "lots db" l] assms(2) by (auto simp: find_lot_def lot_ids_ok_def dest: id_column_distinct)
  moreover have "i \<in> set (movedLotIds r)" using l by (auto simp: moved lots_in_def)
  then have "find_lot db' i = Some (to_quality t l)"
    using found by (simp add: db' find_lot_frame find_lot_update to_quality_def)
  moreover have "lot_holds db' = lot_holds db" by (simp add: db' update_lots_def)
  ultimately show ?thesis using that t l(3) by blast
qed

lemma release_hold_parts:
  assumes "release_hold codes time holdId version body appUserId db = Inr ((h, l), db')"
  obtains action hold locked releaseQty willMove released n db1 where
    "map_of ACTION_BY_RELEASE_TARGET (rel_targetLotStatusCode body) = Some action"
    and "hold \<in> set (lot_holds db)" and "hold_id hold = holdId" and "released_at hold = None"
    and "assertReleasableQty (rel_releaseQty body) (hold_qty hold) = Inr releaseQty"
    and "releaseWithin db locked \<lparr>ht_lotId = hold_lot_id hold, ht_lotHoldIds = Some [hold_id hold], ht_reasonCode = None\<rparr>
         (release_input body willMove releaseQty) \<lparr>ha_by = Some appUserId, ha_workerId = None, ha_at = time\<rparr> = Inr ((released, n), db1)"
    and "willMove = (n = 0)"
    and "move_released db1 (hold_lot_id hold) action (release_context appUserId time holdId (rel_releaseReasonCode body)) n = Inr db'"
    and "reread db' holdId = Inr (h, l)"
proof -
  from assms obtain action where act: "assertHoldReleaseShape body = Inr action"
    and rest: "(case find (\<lambda>h. hold_id h = holdId) (lot_holds db) of
         None \<Rightarrow> Inl (HttpException NOT_FOUND)
       | Some hold \<Rightarrow> release_locked db hold (lockLotsWithin db [hold_lot_id hold]) version body action appUserId time) = Inr ((h, l), db')"
    by (auto simp: release_hold_def res_simps)
  then obtain hold where hold: "find (\<lambda>h. hold_id h = holdId) (lot_holds db) = Some hold"
    and run: "release_locked db hold (lockLotsWithin db [hold_lot_id hold]) version body action appUserId time = Inr ((h, l), db')"
    by (cases "find (\<lambda>h. hold_id h = holdId) (lot_holds db)") auto
  have "hold_id hold = holdId" using find_key [OF hold] by blast
  with run have open_now: "released_at hold = None" and view: "reread db' holdId = Inr (h, l)"
    and rel: "release_found db hold (lockLotsWithin db [hold_lot_id hold]) body action appUserId time = Inr db'"
    by (auto simp: release_locked_def res_simps split: list.splits)
  have target: "map_of ACTION_BY_RELEASE_TARGET (rel_targetLotStatusCode body) = Some action"
    using act by (auto simp: assertHoldReleaseShape_def res_simps split: option.splits)
  define willMove where "willMove releaseQty = release_will_move
    (length (filter (\<lambda>h. open_hold (hold_lot_id hold) h \<and> hold_id h \<noteq> hold_id hold) (lot_holds db))) releaseQty (hold_qty hold)"
    for releaseQty
  let ?target = "\<lparr>ht_lotId = hold_lot_id hold, ht_lotHoldIds = Some [hold_id hold], ht_reasonCode = None\<rparr>"
  let ?actor = "\<lparr>ha_by = Some appUserId, ha_workerId = None, ha_at = time\<rparr>"
  let ?ctx = "release_context appUserId time (hold_id hold) (rel_releaseReasonCode body)"
  from rel obtain releaseQty where q: "assertReleasableQty (rel_releaseQty body) (hold_qty hold) = Inr releaseQty"
    by (cases "assertReleasableQty (rel_releaseQty body) (hold_qty hold)") (simp_all add: release_found_def)
  from rel obtain out where out: "releaseWithin db (lockLotsWithin db [hold_lot_id hold]) ?target (release_input body (willMove releaseQty) releaseQty) ?actor = Inr out"
    by (cases "releaseWithin db (lockLotsWithin db [hold_lot_id hold]) ?target (release_input body (willMove releaseQty) releaseQty) ?actor")
      (simp_all add: release_found_def Let_def q willMove_def)
  obtain released n db1 where o: "out = ((released, n), db1)" by (cases out) auto
  have w: "willMove releaseQty = (n = 0)" and mv: "move_released db1 (hold_lot_id hold) action ?ctx n = Inr db'"
    using rel out unfolding o
    by (simp_all add: release_found_def Let_def q willMove_def bind_res_eq_Inr guard_res_eq)
  show ?thesis
    by (rule that [OF target find_key [OF hold, THEN conjunct1] \<open>hold_id hold = holdId\<close> open_now q out [unfolded o] w mv [unfolded \<open>hold_id hold = holdId\<close>] view])
qed


lemma lots_kept_by_release:
  assumes "releaseWithin db locked target input actor = Inr ((released, n), db1)" and "hold_ids_ok db"
  shows "find_lot db1 = find_lot db" and "lot_ids_ok db1 = lot_ids_ok db" and "inspection_requests db1 = inspection_requests db"
    and "lots db1 = lots db"
proof -
  have "db1 = db\<lparr>lot_holds := lot_holds db1, hold_seq := hold_seq db1\<rparr>" using releaseWithin_effect [OF assms] by blast
  moreover have "lots (db\<lparr>lot_holds := a, hold_seq := b\<rparr>) = lots db" "lot_seq (db\<lparr>lot_holds := a, hold_seq := b\<rparr>) = lot_seq db"
    "inspection_requests (db\<lparr>lot_holds := a, hold_seq := b\<rparr>) = inspection_requests db" for a b by simp_all
  ultimately have *: "lots db1 = lots db" "lot_seq db1 = lot_seq db" "inspection_requests db1 = inspection_requests db" by metis+
  show "find_lot db1 = find_lot db" "lot_ids_ok db1 = lot_ids_ok db" "inspection_requests db1 = inspection_requests db" "lots db1 = lots db"
    using * by (simp_all add: find_lot_def lot_ids_ok_def fun_eq_iff)
qed

lemma moved_lot_target:
  assumes "move_released db1 i action ctx 0 = Inr db'" and "lot_ids_ok db1"
    and "(target, action) \<in> set (ACTION_BY_RELEASE_TARGET @ ACTION_BY_TARGET_STATUS)"
  shows "lot_holds db' = lot_holds db1 \<and> (\<exists>l. find_lot db' i = Some l \<and> lot_status_code l = target)"
proof -
  from assms(1) obtain r where mv: "moveQuality db1 [i] action ctx = Inr (r, db')" "movedLotIds r \<noteq> []"
    by (auto simp: move_released_def res_simps)
  obtain t l where "find_transition TRANSITIONS QUALITY_COLUMN action = Some t" "find_lot db' i = Some (to_quality t l)"
      "lot_holds db' = lot_holds db1"
    by (rule move_one [OF mv(1) assms(2) mv(2)])
  with hold_actions_target [OF assms(3)] show ?thesis by (simp add: to_quality_def)
qed



definition release_body :: LotHoldRelease where
  "release_body = \<lparr>rel_targetLotStatusCode = ''NORMAL'', rel_releaseQty = Some 1, rel_releaseReasonCode = ''OK'', rel_remarks = None\<rparr>"

definition partly_released :: "(lot_hold \<times> lot_row) \<times> lot_db" where
  "partly_released =
     (let c = closed_hold (release_input release_body False (Some 1)) \<lparr>ha_by = Some 9, ha_workerId = None, ha_at = 200\<rparr> (sample_hold 1 (Some 3)) in
      ((c, held_lot), held_db\<lparr>lot_holds := [c, sample_hold 2 None, (sample_hold 3 (Some 2))\<lparr>held_at := 200\<rparr>], hold_seq := 4\<rparr>))"

lemma release_example: "release_hold [(''LOT_HOLD_RELEASE_REASON'', ''OK'')] 200 1 1 release_body 9 held_db = Inr partly_released"
  by code_simp



section \<open>What registering holds does\<close>

lemma checked_all: "fold_res (\<lambda>x _. f x) xs () = Inr v \<Longrightarrow> x \<in> set xs \<Longrightarrow> f x = Inr ()"
  by (induction xs arbitrary: v) (auto simp: res_simps)

text \<open>Every lock that was asked for is there, and its version is the one the caller saw.\<close>

lemma locked_versions:
  assumes all: "length (lockLotsWithin db (map ref_lotId refs)) = length (map ref_lotId refs)" and "distinct (map ref_lotId refs)"
    and vers: "assertVersions refs (lockLotsWithin db (map ref_lotId refs)) = Inr u" and "lot_ids_ok db" and "ref \<in> set refs"
  obtains l where "find_lot db (ref_lotId ref) = Some l" and "lot_version_no l = ref_versionNo ref"
proof -
  let ?ids = "map ref_lotId refs" and ?locked = "lockLotsWithin db (map ref_lotId refs)"
  have d: "distinct (map lot_id ?locked)" using distinct_lots_in [OF assms(4), of "\<lambda>_. True"] by (simp add: lockLotsWithin_def)
  have sub: "set (map lot_id ?locked) \<subseteq> set ?ids" by (auto simp: lockLotsWithin_def lots_in_def)
  have "card (set (map lot_id ?locked)) = card (set ?ids)" using all d assms(2) by (metis distinct_card length_map)
  then have "set (map lot_id ?locked) = set ?ids" using sub by (intro card_subset_eq) auto
  then have "ref_lotId ref \<in> set (map lot_id ?locked)" using assms(5) by force
  then obtain l where l: "l \<in> set ?locked" "lot_id l = ref_lotId ref" by auto
  have found: "find (\<lambda>x. lot_id x = ref_lotId ref) ?locked = Some l" using find_by_key [of lot_id ?locked l] d l by simp
  have "l \<in> set (lots db)" using l(1) by (auto simp: lockLotsWithin_def lots_in_def)
  then have "find_lot db (ref_lotId ref) = Some l"
    using find_by_key [of lot_id "lots db" l] assms(4) l(2) by (auto simp: find_lot_def lot_ids_ok_def dest: id_column_distinct)
  moreover have "lot_version_no l = ref_versionNo ref"
    using checked_all [OF vers [unfolded assertVersions_def] assms(5)] found by (simp add: assertVersion_def guard_res_eq)
  ultimately show ?thesis by (rule that)
qed


lemma create_shape:
  assumes "assertHoldCreateShape body = Inr action"
  shows "(hc_targetLotStatusCode body, action) \<in> set (ACTION_BY_RELEASE_TARGET @ ACTION_BY_TARGET_STATUS)"
    and "distinct (map ref_lotId (hc_lots body))" and "hc_lots body \<noteq> []"
    and "hc_holdQty body = Some q \<Longrightarrow> scaled q \<and> 0 < q"
proof -
  from assms have q: "assertQtyPair body = Inr ()" and ids: "assertDistinctLots (hc_lots body) = Inr ()" and ne: "hc_lots body \<noteq> []"
    and t: "map_of ACTION_BY_TARGET_STATUS (hc_targetLotStatusCode body) = Some action"
    by (auto simp: assertHoldCreateShape_def res_simps split: option.splits)
  show "(hc_targetLotStatusCode body, action) \<in> set (ACTION_BY_RELEASE_TARGET @ ACTION_BY_TARGET_STATUS)"
    using map_of_SomeD [OF t] by simp
  show "distinct (map ref_lotId (hc_lots body))" "hc_lots body \<noteq> []"
    using ids ne by (simp_all add: assertDistinctLots_def guard_res_eq)
  show "hc_holdQty body = Some q \<Longrightarrow> scaled q \<and> 0 < q"
    using q by (auto simp: assertQtyPair_def assertQtyScale_def guard_res_eq split: if_splits)
qed

lemma register_holds_parts:
  assumes "register_holds codes stock_rows time who body db = Inr (views, db')"
  obtains action rows db1 moves where "assertHoldCreateShape body = Inr action"
    and "length (lockLotsWithin db (map ref_lotId (hc_lots body))) = length (map ref_lotId (hc_lots body))"
    and "assertVersions (hc_lots body) (lockLotsWithin db (map ref_lotId (hc_lots body))) = Inr ()"
    and "assertNoOpenFullHold db (map ref_lotId (hc_lots body)) = Inr ()"
    and "assertHoldQtyWithinOnHand stock_rows db body = Inr ()"
    and "holdWithin db (lockLotsWithin db (map ref_lotId (hc_lots body))) (holdInputsOf body) (hold_actor who time) = Inr (rows, db1)"
    and "moveQuality db1 (map ref_lotId (hc_lots body)) action (hold_move_context who time rows (hc_reasonCode body)) = Inr (moves, db')"
    and "skippedLotIds moves = []" and "map_res (reread db') (map hold_id rows) = Inr views"
  using assms unfolding register_holds_def Let_def
  by (auto simp: bind_res_eq_Inr guard_res_eq case_prod_eq_Inr)

text \<open>When no LOT of a move is skipped, every one of them ends in the target status.\<close>

lemma move_all:
  assumes "moveQuality db ids action ctx = Inr (r, db')" and "lot_ids_ok db" and "skippedLotIds r = []"
    and "(target, action) \<in> set (ACTION_BY_RELEASE_TARGET @ ACTION_BY_TARGET_STATUS)"
  shows "lot_holds db' = lot_holds db" and "find_lot db' i = Some l \<Longrightarrow> i \<in> set ids \<Longrightarrow> lot_status_code l = target"
    and "hold_ids_ok db' = hold_ids_ok db"
proof -
  obtain t code' where t: "find_transition TRANSITIONS QUALITY_COLUMN action = Some t"
    and moved: "movedLotIds r = map lot_id (filter (quality_accepts t) (lots_in db ids))"
    and skipped: "skippedLotIds r = not_found ids (lots_in db ids) @ map lot_id (filter (\<lambda>l. \<not> quality_accepts t l) (lots_in db ids))"
    and db': "db' = (update_lots (set (movedLotIds r)) (to_quality t) db)
      \<lparr>status_events := status_events db @ map (quality_event t code' ctx) (filter (quality_accepts t) (lots_in db ids))\<rparr>"
    by (rule moveQuality_effect [OF assms(1,2)])
  show "lot_holds db' = lot_holds db" by (simp add: db' update_lots_def)
  show "hold_ids_ok db' = hold_ids_ok db" by (simp add: db' update_lots_def hold_ids_ok_def)
  assume i: "find_lot db' i = Some l" "i \<in> set ids"
  have "find_lot db' i = map_option (\<lambda>l. if i \<in> set (movedLotIds r) then to_quality t l else l) (find_lot db i)"
    unfolding db' find_lot_frame by (rule find_lot_update) (simp add: to_quality_def)
  then obtain l0 where l0: "find_lot db i = Some l0" and l: "l = (if i \<in> set (movedLotIds r) then to_quality t l0 else l0)"
    using i(1) by (cases "find_lot db i") auto
  have "l0 \<in> set (lots db)" "lot_id l0 = i" using find_key [of lot_id i "lots db" l0] l0 by (auto simp: find_lot_def)
  then have "l0 \<in> set (lots_in db ids)" using i(2) by (simp add: lots_in_def)
  moreover then have "quality_accepts t l0" using assms(3) unfolding skipped by (auto simp: filter_empty_conv)
  ultimately have "i \<in> set (movedLotIds r)" using \<open>lot_id l0 = i\<close> unfolding moved by auto
  then show "lot_status_code l = target" using l hold_actions_target [OF assms(4) t] by (simp add: to_quality_def)
qed


lemma frame_of_holding:
  assumes "holdWithin db locked inputs actor = Inr (rows, db1)"
  shows "find_lot db1 = find_lot db" and "lot_ids_ok db1 = lot_ids_ok db" and "lot_holds db1 = lot_holds db @ rows"
    and "map hold_lot_id rows = map hi_lotId inputs" and "\<And>h. h \<in> set rows \<Longrightarrow> released_at h = None"
    and "hold_ids_ok db \<Longrightarrow> hold_ids_ok db1"
proof -
  have h: "holds_added inputs actor rows db db1" using holdWithin_effect [OF assms] by blast
  then have "db1 = db\<lparr>lot_holds := lot_holds db @ rows, hold_seq := hold_seq db + int (length inputs)\<rparr>" by (simp add: holds_added_def)
  then show "find_lot db1 = find_lot db" "lot_ids_ok db1 = lot_ids_ok db" "lot_holds db1 = lot_holds db @ rows"
    by (simp_all add: find_lot_def lot_ids_ok_def fun_eq_iff)
  show "map hold_lot_id rows = map hi_lotId inputs" by (rule holds_added_rows(1) [OF h])
  show "released_at x = None" if "x \<in> set rows" for x using holds_added_rows(2) [OF h that] by auto
  show "hold_ids_ok db \<Longrightarrow> hold_ids_ok db1" by (rule holds_added_ids [OF h])
qed

lemma reread_row:
  assumes "reread db i = Inr (h, l)"
  shows "h \<in> set (lot_holds db)" and "hold_id h = i" and "find_lot db (hold_lot_id h) = Some l"
  using assms find_key [of hold_id i "lot_holds db"] by (auto simp: reread_def split: option.splits)

lemma rereads:
  assumes "map_res (reread db) (map hold_id rows) = Inr views" and "hold_ids_ok db" and "set rows \<subseteq> set (lot_holds db)"
  shows "map fst views = rows \<and> (\<forall>(h, l) \<in> set views. find_lot db (hold_lot_id h) = Some l)"
  using assms(1,3)
proof (induction rows arbitrary: views)
  case (Cons r rows)
  then obtain h l vs where v: "views = (h, l) # vs" "reread db (hold_id r) = Inr (h, l)" "map_res (reread db) (map hold_id rows) = Inr vs"
    by (auto simp: res_simps)
  moreover have "h = r" using same_hold [OF assms(2)] reread_row [OF v(2)] Cons.prems(2) by auto
  ultimately show ?case using Cons.IH [of vs] Cons.prems(2) reread_row(3) [OF v(2)] by simp
qed simp

text \<open>C14. Registering holds puts one open hold on every LOT asked for and gives every one of them the requested status, or
  does nothing: each LOT was still at the version the caller saw, and none had a hold over its whole quantity.\<close>
theorem register_holds_all_lots:
  assumes run: "register_holds codes stock_rows time who body db = Inr (views, db')"
    and ok: "lot_ids_ok db" "hold_ids_ok db"
  shows "map (hold_lot_id \<circ> fst) views = map ref_lotId (hc_lots body) \<and>
    lot_holds db' = lot_holds db @ map fst views \<and>
    (\<forall>(h, l) \<in> set views. released_at h = None \<and> find_lot db' (hold_lot_id h) = Some l \<and>
       lot_status_code l = hc_targetLotStatusCode body) \<and>
    (\<forall>ref \<in> set (hc_lots body). \<exists>l. find_lot db (ref_lotId ref) = Some l \<and> lot_version_no l = ref_versionNo ref) \<and>
    (\<forall>h \<in> set (lot_holds db). hold_lot_id h \<in> ref_lotId ` set (hc_lots body) \<and> released_at h = None \<longrightarrow> hold_qty h \<noteq> None)"
proof (rule register_holds_parts [OF run])
  let ?ids = "map ref_lotId (hc_lots body)" and ?locked = "lockLotsWithin db (map ref_lotId (hc_lots body))"
  fix action rows db1 moves
  assume shape: "assertHoldCreateShape body = Inr action" and len: "length ?locked = length ?ids"
    and vers: "assertVersions (hc_lots body) ?locked = Inr ()" and full: "assertNoOpenFullHold db ?ids = Inr ()"
    and held: "holdWithin db ?locked (holdInputsOf body) (hold_actor who time) = Inr (rows, db1)"
    and move: "moveQuality db1 ?ids action (hold_move_context who time rows (hc_reasonCode body)) = Inr (moves, db')"
    and all: "skippedLotIds moves = []" and views: "map_res (reread db') (map hold_id rows) = Inr views"
  note shp = create_shape [OF shape] and fr = frame_of_holding [OF held]
  have ids1: "lot_ids_ok db1" using fr(2) ok(1) by simp
  note mv = move_all [OF move ids1 all shp(1)]
  have hs: "hold_ids_ok db'" using fr(6) [OF ok(2)] by (simp add: mv(3))
  have seen: "map fst views = rows \<and> (\<forall>(h, l) \<in> set views. find_lot db' (hold_lot_id h) = Some l)"
    using rereads [OF views hs] by (simp add: mv(1) fr(3))
  have lots_of: "map hold_lot_id rows = ?ids" unfolding fr(4) by (simp add: holdInputsOf_def comp_def)
  have "released_at h = None \<and> find_lot db' (hold_lot_id h) = Some l \<and> lot_status_code l = hc_targetLotStatusCode body"
    if v: "(h, l) \<in> set views" for h l
  proof -
    have "h \<in> set rows" using seen v by force
    then have "hold_lot_id h \<in> set ?ids" using lots_of by (metis image_eqI set_map)
    with \<open>h \<in> set rows\<close> seen v show ?thesis using fr(5) mv(2) by blast
  qed
  moreover have "\<exists>l. find_lot db (ref_lotId ref) = Some l \<and> lot_version_no l = ref_versionNo ref" if "ref \<in> set (hc_lots body)" for ref
    using locked_versions [OF len shp(2) vers ok(1) that] by blast
  moreover have "hold_qty h \<noteq> None" if "h \<in> set (lot_holds db)" "hold_lot_id h \<in> ref_lotId ` set (hc_lots body)" "released_at h = None" for h
    using full that by (auto simp: assertNoOpenFullHold_def find_None_iff split: option.splits)
  moreover have "map (hold_lot_id \<circ> fst) views = ?ids" using seen lots_of by (metis map_map)
  moreover have "lot_holds db' = lot_holds db @ map fst views" using seen mv(1) fr(3) by simp
  ultimately show ?thesis by (intro conjI ballI) (auto simp: split_def)
qed


text \<open>C15. A hold over part of a LOT never lets the quantity on open holds exceed what is on hand, and adds exactly the
  quantity asked for.\<close>
theorem held_qty_within_on_hand:
  assumes run: "register_holds codes stock_rows time who body db = Inr (views, db')"
    and ok: "lot_ids_ok db" "hold_ids_ok db" and q: "hc_holdQty body = Some q"
  shows "\<exists>ref. hc_lots body = [ref] \<and> 0 < q \<and> held_qty db' (ref_lotId ref) = held_qty db (ref_lotId ref) + q \<and>
    held_qty db' (ref_lotId ref) \<le> lot_on_hand stock_rows (ref_lotId ref)"
proof (rule register_holds_parts [OF run])
  let ?ids = "map ref_lotId (hc_lots body)" and ?locked = "lockLotsWithin db (map ref_lotId (hc_lots body))"
  fix action rows db1 moves
  assume shape: "assertHoldCreateShape body = Inr action" and onhand: "assertHoldQtyWithinOnHand stock_rows db body = Inr ()"
    and held: "holdWithin db ?locked (holdInputsOf body) (hold_actor who time) = Inr (rows, db1)"
    and move: "moveQuality db1 ?ids action (hold_move_context who time rows (hc_reasonCode body)) = Inr (moves, db')"
    and all: "skippedLotIds moves = []"
  note shp = create_shape [OF shape] and fr = frame_of_holding [OF held]
  have ids1: "lot_ids_ok db1" using fr(2) ok(1) by simp
  from onhand q obtain ref where ref: "hc_lots body = [ref]"
    and room: "held_qty db (ref_lotId ref) + q \<le> lot_on_hand stock_rows (ref_lotId ref)"
    by (auto simp: assertHoldQtyWithinOnHand_def guard_res_eq split: list.splits)
  have "holds_added (holdInputsOf body) (hold_actor who time) rows db db1" using holdWithin_effect [OF held] by blast
  then have "map hold_qty rows = [Some q]" "map hold_lot_id rows = [ref_lotId ref]" "map released_at rows = [None]"
    using shp(4) [OF q] by (simp_all add: holds_added_def holdInputsOf_def ref q)
  then have "held_qty db' (ref_lotId ref) = held_qty db (ref_lotId ref) + q"
    by (auto simp: held_qty_def move_all(1) [OF move ids1 all shp(1)] fr(3) qty_of_def open_hold_def)
  with room ref shp(4) [OF q] show ?thesis by auto
qed

definition hold_body :: LotHoldCreate where
  "hold_body = \<lparr>hc_lots = [\<lparr>ref_lotId = 1, ref_versionNo = 1\<rparr>], hc_holdQty = Some 2, hc_uomId = Some 1, hc_reasonCode = ''SUSPECT'',
     hc_releaseCondition = Some ''retest'', hc_targetLotStatusCode = ''INSPECTION_PENDING'', hc_remarks = None\<rparr>"

definition hold_codes :: code_table where
  "hold_codes = [(''LOT_HOLD_REASON'', ''SUSPECT''), (''LOT_STATUS'', ''INSPECTION_PENDING'')]"

definition free_db :: lot_db where
  "free_db = empty_lot_db\<lparr>lots := [traced_lot 1 ''INBOUND_RECEIPT_LINE'' 3], lot_seq := 2\<rparr>"

definition on_shelf :: "balance_row list" where
  "on_shelf = [\<lparr>balance_id = 1,
     dim = \<lparr>legalEntityId = 1, businessUnitId = 1, plantId = 1, warehouseId = 1, locationId = 1, itemId = 10, lotId = Some 1,
       qualityStatusCode = ''NORMAL'', inventoryStatusCode = ''AVAILABLE'', ownershipTypeCode = ''OWN'', ownerPartnerId = None\<rparr>,
     on_hand_qty = 5, reserved_qty = 0, picked_qty = 0, blocked_qty = 0, balance_uom_id = 1,
     last_transaction_at = None, balance_version_no = 1\<rparr>]"

lemma free_db_ok: "lot_ids_ok free_db" "hold_ids_ok free_db"
  by code_simp+


definition held_now :: "(lot_hold \<times> lot_row) list \<times> lot_db" where
  "held_now = (case register_holds hold_codes on_shelf 100 (ByUser 9) hold_body free_db of Inl e \<Rightarrow> ([], free_db) | Inr out \<Rightarrow> out)"

lemma register_example: "register_holds hold_codes on_shelf 100 (ByUser 9) hold_body free_db = Inr held_now"
proof -
  have "isl (register_holds hold_codes on_shelf 100 (ByUser 9) hold_body free_db) = False" by code_simp
  then show ?thesis
    by (cases "register_holds hold_codes on_shelf 100 (ByUser 9) hold_body free_db") (simp_all add: held_now_def)
qed

theorem register_holds_all_lots_witness:
  "map (hold_lot_id \<circ> fst) (fst held_now) = [1] \<and> lot_holds (snd held_now) = map fst (fst held_now)"
proof -
  obtain views db' where p: "held_now = (views, db')" by (metis surj_pair)
  have "lot_holds free_db = []" "map ref_lotId (hc_lots hold_body) = [1]" by (simp_all add: free_db_def hold_body_def empty_lot_db_def)
  with register_holds_all_lots [OF register_example [unfolded p] free_db_ok] show ?thesis
    unfolding p fst_conv snd_conv by (intro conjI) auto
qed

theorem held_qty_within_on_hand_witness: "held_qty (snd held_now) 1 = 2 \<and> held_qty (snd held_now) 1 \<le> lot_on_hand on_shelf 1"
proof -
  obtain views db' where p: "held_now = (views, db')" by (metis surj_pair)
  have "hc_holdQty hold_body = Some 2" by (simp add: hold_body_def)
  moreover have "held_qty free_db 1 = 0" by (simp add: held_qty_def free_db_def empty_lot_db_def)
  ultimately show ?thesis
    using held_qty_within_on_hand [OF register_example [unfolded p] free_db_ok, of 2] by (auto simp: p hold_body_def)
qed

end
