(* ===== verification/Lot_Life.thy ===== *)
theory Lot_Life
  imports Lot_Hold_Service
begin

text \<open>
  The life of the LOT store: one step is one successful transaction of a modelled LOT operation (register, pre-issue,
  split, register holds, release a hold, skip the incoming inspection, move along the lifecycle, move the LOTs nothing
  holds). The theorems are invariants of every store reached from one without LOTs: the rows keep their domains and
  references, and a LOT with an open hold is never in the status that lets it be used.
\<close>

section \<open>The invariant\<close>

definition LOT_STATUSES :: "code list" where
  "LOT_STATUSES = [''NORMAL'', ''INSPECTION_PENDING'', ''DEFECTIVE'', ''SCRAPPED'']"

definition LIFECYCLE_STATUSES :: "code list" where
  "LIFECYCLE_STATUSES = [''WAITING'', ''ACTIVE'', ''VOIDED'']"

definition lot_typed :: "lot_row \<Rightarrow> bool" where
  "lot_typed l \<longleftrightarrow> lot_status_code l \<in> set LOT_STATUSES \<and>
     (case lifecycle_status_code l of None \<Rightarrow> True | Some s \<Rightarrow> s \<in> set LIFECYCLE_STATUSES)"

definition store_typed :: "lot_db \<Rightarrow> bool" where
  "store_typed db \<longleftrightarrow> lot_ids_ok db \<and> hold_ids_ok db \<and> list_all lot_typed (lots db) \<and>
     hold_lot_id ` set (lot_holds db) \<subseteq> lot_id ` set (lots db)"

definition normal_unheld :: "lot_db \<Rightarrow> bool" where
  "normal_unheld db \<longleftrightarrow>
     (\<forall>l \<in> set (lots db). lot_status_code l = ''NORMAL'' \<longrightarrow> (\<forall>h \<in> set (lot_holds db). \<not> open_hold (lot_id l) h))"

text \<open>Both read only the LOTs and the holds.\<close>

definition lot_core :: "lot_db \<Rightarrow> lot_row list \<times> id \<times> lot_hold list \<times> id" where
  "lot_core db = (lots db, lot_seq db, lot_holds db, hold_seq db)"

lemma typed_core: "lot_core db = lot_core db' \<Longrightarrow> store_typed db = store_typed db' \<and> normal_unheld db = normal_unheld db'"
  by (simp add: lot_core_def store_typed_def normal_unheld_def lot_ids_ok_def hold_ids_ok_def)

section \<open>Inserting LOTs\<close>

lemma create_lot_typed:
  assumes "create_lot row db = Inr (i, db')" and "store_typed db" and "lot_typed row"
  shows "store_typed db' \<and> (normal_unheld db \<longrightarrow> normal_unheld db') \<and> i \<notin> hold_lot_id ` set (lot_holds db') \<and>
    lot_holds db' = lot_holds db"
proof -
  let ?new = "row\<lparr>lot_id := lot_seq db, initial_qty := to_scale (initial_qty row)\<rparr>"
  have i: "i = lot_seq db" and db': "db' = db\<lparr>lots := lots db @ [?new], lot_seq := lot_seq db + 1\<rparr>"
    using assms(1) by (auto simp: create_lot_def Let_def split: if_splits)
  have ids: "id_column (lot_seq db) (map lot_id (lots db))" using assms(2) by (simp add: store_typed_def lot_ids_ok_def)
  have fresh: "lot_seq db \<notin> lot_id ` set (lots db)" using id_column_fresh [OF ids] by auto
  then have unheld: "lot_seq db \<notin> hold_lot_id ` set (lot_holds db)" using assms(2) by (auto simp: store_typed_def)
  have "lot_ids_ok db'" using id_column_append [OF ids] by (simp add: db' lot_ids_ok_def)
  then have "store_typed db'" using assms(2,3) by (auto simp: store_typed_def db' hold_ids_ok_def lot_typed_def)
  moreover have "normal_unheld db \<longrightarrow> normal_unheld db'" using unheld by (auto simp: normal_unheld_def db' open_hold_def image_iff)
  ultimately show ?thesis using unheld by (simp add: i db')
qed

section \<open>Changing the status of LOTs\<close>

lemma update_lots_ids: "(\<And>l. lot_id (f l) = lot_id l) \<Longrightarrow> map lot_id (lots (update_lots ids f db)) = map lot_id (lots db)"
  by (auto simp: update_lots_def)

lemma update_lots_typed:
  assumes "store_typed db" and "\<And>l. lot_id (f l) = lot_id l" and "\<And>l. lot_typed l \<Longrightarrow> lot_id l \<in> ids \<Longrightarrow> lot_typed (f l)"
  shows "store_typed (update_lots ids f db)"
proof -
  let ?db = "update_lots ids f db"
  have col: "map lot_id (lots ?db) = map lot_id (lots db)" by (rule update_lots_ids) (rule assms(2))
  have "lot_id ` set (lots ?db) = lot_id ` set (lots db)" using arg_cong [OF col, of set] by simp
  moreover have "lot_holds ?db = lot_holds db" "hold_seq ?db = hold_seq db" "lot_seq ?db = lot_seq db" by (simp_all add: update_lots_def)
  moreover have "list_all lot_typed (lots ?db)"
    using assms(1,3) by (auto simp: store_typed_def list_all_iff update_lots_def)
  ultimately show ?thesis using assms(1) col by (simp add: store_typed_def lot_ids_ok_def hold_ids_ok_def)
qed

lemma quality_target_typed:
  assumes "find_transition TRANSITIONS QUALITY_COLUMN action = Some t"
  shows "tr_to t \<in> set LOT_STATUSES"
proof -
  have "map_of TRANSITIONS QUALITY_COLUMN = Some lot_status_actions" unfolding QUALITY_COLUMN_def by code_simp
  with assms have "(action, t) \<in> set lot_status_actions" by (auto simp: find_transition_def dest: map_of_SomeD)
  moreover have "list_all (\<lambda>(a, t). tr_to t \<in> set LOT_STATUSES) lot_status_actions" by code_simp
  ultimately show ?thesis unfolding list_all_iff by blast
qed

lemma lifecycle_target_typed:
  assumes "find_transition TRANSITIONS LIFECYCLE_COLUMN action = Some t"
  shows "tr_to t \<in> set LIFECYCLE_STATUSES"
proof -
  have "map_of TRANSITIONS LIFECYCLE_COLUMN = Some lot_lifecycle_actions" unfolding LIFECYCLE_COLUMN_def by code_simp
  with assms have "(action, t) \<in> set lot_lifecycle_actions" by (auto simp: find_transition_def dest: map_of_SomeD)
  moreover have "list_all (\<lambda>(a, t). tr_to t \<in> set LIFECYCLE_STATUSES) lot_lifecycle_actions" by code_simp
  ultimately show ?thesis unfolding list_all_iff by blast
qed

text \<open>A quality move keeps the invariant when no LOT it names is held, or when it moves to another status than \<open>NORMAL\<close>.\<close>

lemma moveQuality_typed:
  assumes "moveQuality db ids action ctx = Inr (r, db')" and "store_typed db"
  shows "store_typed db' \<and> lot_holds db' = lot_holds db \<and>
    (normal_unheld db \<and> (\<forall>i \<in> set ids. \<forall>h \<in> set (lot_holds db). \<not> open_hold i h) \<longrightarrow> normal_unheld db')"
proof -
  have lids: "lot_ids_ok db" using assms(2) by (simp add: store_typed_def)
  obtain t code' where t: "find_transition TRANSITIONS QUALITY_COLUMN action = Some t"
    and moved: "movedLotIds r = map lot_id (filter (quality_accepts t) (lots_in db ids))"
    and db': "db' = (update_lots (set (movedLotIds r)) (to_quality t) db)
      \<lparr>status_events := status_events db @ map (quality_event t code' ctx) (filter (quality_accepts t) (lots_in db ids))\<rparr>"
    by (rule moveQuality_effect [OF assms(1) lids])
  let ?u = "update_lots (set (movedLotIds r)) (to_quality t) db"
  have core: "lot_core db' = lot_core ?u" by (simp add: db' lot_core_def)
  have "lot_typed l \<Longrightarrow> lot_typed (to_quality t l)" for l
    using quality_target_typed [OF t] by (simp add: lot_typed_def to_quality_def)
  then have "store_typed ?u" using update_lots_typed [OF assms(2)] by (simp add: to_quality_def)
  moreover have "normal_unheld ?u" if n: "normal_unheld db" and free: "\<forall>i \<in> set ids. \<forall>h \<in> set (lot_holds db). \<not> open_hold i h"
  proof -
    have "set (movedLotIds r) \<subseteq> set ids" unfolding moved by (auto simp: lots_in_def)
    then show ?thesis using n free by (auto simp: normal_unheld_def update_lots_def to_quality_def)
  qed
  ultimately show ?thesis using typed_core [OF core] by (simp add: db' update_lots_def)
qed


text \<open>A move to a status other than \<open>NORMAL\<close> that skips no LOT.\<close>

lemma moveQuality_away:
  assumes "moveQuality db ids action ctx = Inr (r, db')" and "store_typed db" and "skippedLotIds r = []"
    and t: "(target, action) \<in> set ACTION_BY_TARGET_STATUS"
    and others: "\<forall>l \<in> set (lots db). lot_status_code l = ''NORMAL'' \<and> lot_id l \<notin> set ids \<longrightarrow>
      (\<forall>h \<in> set (lot_holds db). \<not> open_hold (lot_id l) h)"
  shows "normal_unheld db'"
proof -
  have lids: "lot_ids_ok db" "lot_ids_ok db'" using assms(2) moveQuality_typed [OF assms(1,2)] by (simp_all add: store_typed_def)
  have mem: "(target, action) \<in> set (ACTION_BY_RELEASE_TARGET @ ACTION_BY_TARGET_STATUS)" using t by simp
  note mv = move_all [OF assms(1) lids(1) assms(3) mem]
  have away: "target \<noteq> ''NORMAL''" using t by (auto simp: ACTION_BY_TARGET_STATUS_def)
  obtain tr code' where db': "db' = (update_lots (set (movedLotIds r)) (to_quality tr) db)
      \<lparr>status_events := status_events db @ map (quality_event tr code' ctx) (filter (quality_accepts tr) (lots_in db ids))\<rparr>"
    and moved: "movedLotIds r = map lot_id (filter (quality_accepts tr) (lots_in db ids))"
    by (rule moveQuality_effect [OF assms(1) lids(1)])
  have sub: "set (movedLotIds r) \<subseteq> set ids" unfolding moved by (auto simp: lots_in_def)
  have "\<not> open_hold (lot_id l) h"
    if l: "l \<in> set (lots db')" "lot_status_code l = ''NORMAL''" and h: "h \<in> set (lot_holds db')" for l h
  proof -
    have "find_lot db' (lot_id l) = Some l"
      using find_by_key [of lot_id "lots db'" l] lids(2) l(1) by (auto simp: find_lot_def lot_ids_ok_def dest: id_column_distinct)
    then have out: "lot_id l \<notin> set ids" using mv(2) [of "lot_id l" l] l(2) away by auto
    then have "l \<in> set (lots db)" using l(1) sub by (auto simp: db' update_lots_def to_quality_def split: if_splits)
    then show ?thesis using others l(2) out h mv(1) by simp
  qed
  then show ?thesis by (simp add: normal_unheld_def)
qed

section \<open>Adding and closing holds\<close>

lemma holdWithin_typed:
  assumes "holdWithin db (lockLotsWithin db ids) inputs actor = Inr (rows, db')" and "store_typed db"
  shows "store_typed db' \<and> lots db' = lots db \<and> (\<forall>h \<in> set rows. hold_lot_id h \<in> hi_lotId ` set inputs) \<and> lot_holds db' = lot_holds db @ rows"
proof -
  have h: "holds_added inputs actor rows db db'" and sub: "hi_lotId ` set inputs \<subseteq> lot_id ` set (lockLotsWithin db ids)"
    using holdWithin_effect [OF assms(1)] by auto
  have rows: "hold_lot_id ` set rows = hi_lotId ` set inputs" using arg_cong [OF holds_added_rows(1) [OF h], of set] by simp
  have "lots db' = lots db" "lot_seq db' = lot_seq db" "lot_holds db' = lot_holds db @ rows" using h by (simp_all add: holds_added_def)
  moreover have "hold_ids_ok db'" using holds_added_ids [OF h] assms(2) by (simp add: store_typed_def)
  moreover have "hi_lotId ` set inputs \<subseteq> lot_id ` set (lots db)" using sub by (auto simp: lockLotsWithin_def lots_in_def)
  ultimately show ?thesis using assms(2) rows by (auto simp: store_typed_def lot_ids_ok_def image_Un)
qed

lemma releaseWithin_typed:
  assumes "releaseWithin db locked target input actor = Inr ((released, n), db')" and "store_typed db"
  shows "store_typed db' \<and> (normal_unheld db \<longrightarrow> normal_unheld db') \<and> (n = 0 \<longrightarrow> (\<forall>h \<in> set (lot_holds db'). \<not> open_hold (ht_lotId target) h))"
proof -
  have hids: "hold_ids_ok db" using assms(2) by (simp add: store_typed_def)
  note eff = releaseWithin_effect [OF assms(1) hids] and left = open_after_release [OF assms(1) hids]
  note kept = lots_kept_by_release [OF assms(1) hids]
  have ids: "hold_ids_ok db'" by (rule releaseWithin_ids [OF assms(1) hids])
  have rest: "h \<in> set (rest_holds db target input actor) \<Longrightarrow> \<exists>x \<in> set (lot_holds db). open_hold (ht_lotId target) x" for h
    by (cases db target input actor rule: rest_holds_cases) (use target_holds_open [of _ db target] in force)+
  have "hold_lot_id h \<in> hold_lot_id ` set (lot_holds db)" if "h \<in> set (lot_holds db')" for h
  proof (cases "h \<in> set (rest_holds db target input actor)")
    case True
    with rest rest_holds_open show ?thesis unfolding open_hold_def by (metis image_eqI)
  next
    case False
    with that eff show ?thesis by (auto simp: close_ids_def split: if_splits)
  qed
  then have "store_typed db'" using assms(2) ids kept(2,4) by (auto simp: store_typed_def)
  moreover have "normal_unheld db \<longrightarrow> normal_unheld db'"
  proof (clarsimp simp: normal_unheld_def kept(4))
    fix l h
    assume free: "\<forall>l\<in>set (lots db). lot_status_code l = ''NORMAL'' \<longrightarrow> (\<forall>h\<in>set (lot_holds db). \<not> open_hold (lot_id l) h)"
      and l: "l \<in> set (lots db)" "lot_status_code l = ''NORMAL''" and h: "h \<in> set (lot_holds db')" "open_hold (lot_id l) h"
    then have "h \<in> set (filter (open_hold (lot_id l)) (lot_holds db'))" by simp
    then show False unfolding left using free l rest [of h] by (auto split: if_splits)
  qed
  moreover have "n = 0 \<longrightarrow> (\<forall>h \<in> set (lot_holds db'). \<not> open_hold (ht_lotId target) h)"
    using eff by (auto simp: open_count_def filter_empty_conv)
  ultimately show ?thesis by blast
qed


section \<open>The operations\<close>

lemma audit_created_core: "audit_created actor target_type target event_db = Inr db' \<Longrightarrow> lot_core db' = lot_core event_db"
  by (auto simp: audit_created_def recordTerminalWorkerAudit_def lot_core_def split: LotRegisterActor.splits if_splits)

lemma request_inspection_core:
  assumes "request_inspection input actor version skipped lid db = Inr db'"
  shows "lot_core db' = lot_core db"
proof (cases "rg_incomingIqc input")
  case (Some iqc)
  then obtain req u where u: "create_request_row (iqc_request_row input actor iqc version skipped lid) db = Inr (req, u)"
    and "audit_created actor ''INSPECTION_REQUEST'' req u = Inr db'" using assms by (auto simp: request_inspection_def res_simps)
  moreover have "lot_core u = lot_core db" using u by (auto simp: create_request_row_def lot_core_def split: if_splits)
  ultimately show ?thesis using audit_created_core by metis
qed (use assms in \<open>auto simp: request_inspection_def\<close>)

lemma attach_core: "attach line lid db = Inr db' \<Longrightarrow> lot_core db' = lot_core db"
  by (auto simp: attach_def lot_core_def split: if_splits)

lemma holdForInspection_typed:
  assumes "holdForInspection db lid actor time = Inr db'" and "store_typed db" and "normal_unheld db"
    and "\<forall>l \<in> set (lots db). lot_id l = lid \<longrightarrow> lot_status_code l \<noteq> ''NORMAL''"
  shows "store_typed db' \<and> normal_unheld db'"
proof -
  from assms(1) obtain rows where h: "holdWithin db (lockLotsWithin db [lid])
       [\<lparr>hi_lotId = lid, hi_reasonCode = INSPECTION_HOLD_REASON, hi_holdQty = None, hi_uomId = None,
         hi_releaseCondition = None, hi_targetLotStatusCode = Some INITIAL_LOT_STATUS, hi_remarks = None\<rparr>]
       (register_actor actor time) = Inr (rows, db')"
    by (auto simp: holdForInspection_def res_simps)
  note ty = holdWithin_typed [OF h assms(2)]
  then have "normal_unheld db'" using assms(3,4) by (fastforce simp: normal_unheld_def open_hold_def)
  with ty show ?thesis by blast
qed

lemma createWithin_typed:
  assumes "createWithin db input actor time = Inr (v, db')" and "store_typed db" and "normal_unheld db"
  shows "store_typed db' \<and> normal_unheld db'"
proof -
  from assms(1) obtain ver awaits lid db1 db2 dbx db3 db4 db5 where
      new: "create_lot (registered_lot input actor awaits) db = Inr (lid, db1)"
    and hold: "(if awaits then holdForInspection db1 lid actor time else Inr db1) = Inr db2"
    and idents: "add_identifiers lid actor (rg_externalIdentifiers input) db2 = Inr dbx"
    and req: "request_inspection input actor ver (default_skipped db input ver) lid dbx = Inr db3"
    and att: "(if rg_sourceTypeCode input = INBOUND_RECEIPT_LINE then attach (rg_sourceId input) lid db3 else Inr db3) = Inr db4"
    and aud: "audit_created actor ''LOT'' lid db4 = Inr db5" and fin: "db' = db5"
    unfolding createWithin_def Let_def bind_res_eq_Inr case_prod_eq_Inr by (auto split: option.splits)
  have typed: "lot_typed (registered_lot input actor awaits)"
    by (simp add: lot_typed_def registered_lot_def LOT_STATUSES_def INITIAL_LOT_STATUS_def NO_INSPECTION_LOT_STATUS_def)
  note one = create_lot_typed [OF new assms(2) typed]
  have "lot_status_code l \<noteq> ''NORMAL''" if "awaits" "l \<in> set (lots db1)" "lot_id l = lid" for l
  proof -
    have ids: "id_column (lot_seq db) (map lot_id (lots db))" using assms(2) by (simp add: store_typed_def lot_ids_ok_def)
    have "lid = lot_seq db" "lots db1 = lots db @ [(registered_lot input actor awaits)\<lparr>lot_id := lid, initial_qty := to_scale (initial_qty (registered_lot input actor awaits))\<rparr>]"
      using new by (auto simp: create_lot_def Let_def split: if_splits)
    with that id_column_fresh [OF ids] show ?thesis by (force simp: registered_lot_def INITIAL_LOT_STATUS_def)
  qed
  then have two: "store_typed db2 \<and> normal_unheld db2"
    using hold one assms(3) holdForInspection_typed [of db1 lid actor time db2] by (cases awaits) auto
  have "lot_core db3 = lot_core dbx" by (rule request_inspection_core [OF req])
  moreover have "lot_core dbx = lot_core db2" using idents by (auto simp: add_identifiers_def lot_core_def split: if_splits)
  moreover have "lot_core db4 = lot_core db3" using att attach_core by (auto split: if_splits)
  moreover have "lot_core db5 = lot_core db4" by (rule audit_created_core [OF aud])
  ultimately have "lot_core db' = lot_core db2" by (simp add: fin)
  with two typed_core show ?thesis by blast
qed


lemma preIssueWithin_typed:
  assumes "preIssueWithin db input appUserId = Inr (v, db')" and "store_typed db" and "normal_unheld db"
  shows "store_typed db' \<and> normal_unheld db'"
proof -
  let ?f = "\<lambda>(index, no) st. bind_res (create_lot (slot_lot input appUserId index no) (snd st)) (\<lambda>(lid, db'). Inr (fst st @ [lid], db'))"
  from assms(1) obtain ids where run: "fold_res ?f (zip [0..<length (pi_lotNos input)] (pi_lotNos input)) ([], db) = Inr (ids, db')"
    by (auto simp: preIssueWithin_def res_simps split: if_splits)
  have typed: "lot_typed (slot_lot input appUserId index no)" for index no
    by (simp add: lot_typed_def slot_lot_def LOT_STATUSES_def INITIAL_LOT_STATUS_def LIFECYCLE_STATUSES_def PREISSUED_LIFECYCLE_def)
  have "fold_res ?f xs (is0, u) = Inr (ids, db') \<Longrightarrow> store_typed u \<Longrightarrow> normal_unheld u \<Longrightarrow> store_typed db' \<and> normal_unheld db'"
    for xs is0 u
  proof (induction xs arbitrary: is0 u)
    case (Cons x xs)
    obtain index no where x: "x = (index, no)" by (cases x)
    from Cons.prems(1) obtain lid w where w: "create_lot (slot_lot input appUserId index no) u = Inr (lid, w)"
      and "fold_res ?f xs (is0 @ [lid], w) = Inr (ids, db')" by (auto simp: x res_simps)
    with Cons.IH create_lot_typed [OF w Cons.prems(2) typed] Cons.prems(3) show ?case by blast
  qed simp
  with run assms(2,3) show ?thesis by blast
qed

lemma splitLotWithin_typed:
  assumes "splitLotWithin db input = Inr (v, db')" and "store_typed db" and "normal_unheld db"
  shows "store_typed db' \<and> normal_unheld db'"
proof -
  from assms(1) obtain parent where parent: "find_lot db (sp_parentLotId input) = Some parent"
    by (auto simp: splitLotWithin_def split: option.splits)
  from assms(1) obtain child no db1 rels where new: "create_lot (split_child parent input no) db = Inr (child, db1)"
    and fin: "db' = db1\<lparr>lot_relations := rels\<rparr>"
    unfolding splitLotWithin_def parent option.case Let_def bind_res_eq_Inr case_prod_eq_Inr by blast
  have "parent \<in> set (lots db)" using find_key [of lot_id "sp_parentLotId input" "lots db" parent] parent by (simp add: find_lot_def)
  then have "lot_typed parent" using assms(2) by (simp add: store_typed_def list_all_iff)
  then have "lot_typed (split_child parent input no)" by (simp add: lot_typed_def split_child_def)
  moreover have "lot_core db' = lot_core db1" by (simp add: fin lot_core_def)
  ultimately show ?thesis using create_lot_typed [OF new assms(2)] assms(3) typed_core by blast
qed

lemma moveLifecycle_typed:
  assumes "moveLifecycle db input = Inr (v, db')" and "store_typed db" and "normal_unheld db"
  shows "store_typed db' \<and> normal_unheld db'"
proof -
  from assms(1) obtain t where t: "find_transition TRANSITIONS LIFECYCLE_COLUMN (lm_action input) = Some t"
    by (auto simp: moveLifecycle_def split: option.splits)
  have lids: "lot_ids_ok db" using assms(2) by (simp add: store_typed_def)
  let ?ok = "lot_id ` set (filter (lifecycle_accepts t) (lots_in db (lm_lotIds input)))"
  have "lot_core db' = lot_core (update_lots ?ok (to_lifecycle t) db)"
    by (rule moveLifecycle_effect [OF t lids]) (use assms(1) in \<open>simp add: Let_def lot_core_def\<close>)
  moreover have "store_typed (update_lots ?ok (to_lifecycle t) db)"
    by (rule update_lots_typed [OF assms(2)]) (use lifecycle_target_typed [OF t] in \<open>simp_all add: to_lifecycle_def lot_typed_def\<close>)
  moreover have "normal_unheld (update_lots ?ok (to_lifecycle t) db)"
    using assms(3) by (auto simp: normal_unheld_def update_lots_def to_lifecycle_def)
  ultimately show ?thesis using typed_core by blast
qed

lemma free_of_open_holds: "i \<in> set (lotsFreeOfOpenHolds db ids) \<Longrightarrow> h \<in> set (lot_holds db) \<Longrightarrow> \<not> open_hold i h"
  by (auto simp: lotsFreeOfOpenHolds_def open_hold_def)

lemma register_holds_typed:
  assumes "register_holds codes stock_rows time who body db = Inr (views, db')" and "store_typed db" and "normal_unheld db"
  shows "store_typed db' \<and> normal_unheld db'"
proof (rule register_holds_parts [OF assms(1)])
  let ?ids = "map ref_lotId (hc_lots body)"
  fix action rows db1 moves
  assume shape: "assertHoldCreateShape body = Inr action"
    and held: "holdWithin db (lockLotsWithin db ?ids) (holdInputsOf body) (hold_actor who time) = Inr (rows, db1)"
    and move: "moveQuality db1 ?ids action (hold_move_context who time rows (hc_reasonCode body)) = Inr (moves, db')"
    and all: "skippedLotIds moves = []"
  note ty = holdWithin_typed [OF held assms(2)]
  have in_ids: "h \<in> set rows \<Longrightarrow> hold_lot_id h \<in> set ?ids" for h using ty by (auto simp: holdInputsOf_def)
  have target: "(hc_targetLotStatusCode body, action) \<in> set ACTION_BY_TARGET_STATUS"
    using shape by (auto simp: assertHoldCreateShape_def res_simps map_of_SomeD split: option.splits)
  have split_holds: "lots db1 = lots db" "lot_holds db1 = lot_holds db @ rows" "store_typed db1" using ty by blast+
  have others: "\<not> open_hold (lot_id l) h"
    if "l \<in> set (lots db1)" "lot_status_code l = ''NORMAL''" "lot_id l \<notin> set ?ids" "h \<in> set (lot_holds db1)" for l h
  proof (cases "h \<in> set rows")
    case True
    with in_ids that(3) show ?thesis by (metis open_hold_def)
  next
    case False
    with that assms(3) split_holds show ?thesis by (simp add: normal_unheld_def)
  qed
  have "normal_unheld db'" by (rule moveQuality_away [OF move split_holds(3) all target]) (use others in blast)
  with moveQuality_typed [OF move split_holds(3)] show ?thesis by blast
qed


lemma release_hold_typed:
  assumes "release_hold codes time holdId version body appUserId db = Inr (v, db')" and "store_typed db" and "normal_unheld db"
  shows "store_typed db' \<and> normal_unheld db'"
proof -
  obtain h l where v: "v = (h, l)" by (cases v)
  show ?thesis
  proof (rule release_hold_parts [OF assms(1) [unfolded v]])
    fix action hold locked releaseQty willMove released n db1
    assume rel: "releaseWithin db locked \<lparr>ht_lotId = hold_lot_id hold, ht_lotHoldIds = Some [hold_id hold], ht_reasonCode = None\<rparr>
         (release_input body willMove releaseQty) \<lparr>ha_by = Some appUserId, ha_workerId = None, ha_at = time\<rparr> = Inr ((released, n), db1)"
      and mv: "move_released db1 (hold_lot_id hold) action (release_context appUserId time holdId (rel_releaseReasonCode body)) n = Inr db'"
    note one = releaseWithin_typed [OF rel assms(2)]
    show ?thesis
    proof (cases "n = 0")
      case True
      with mv obtain r where "moveQuality db1 [hold_lot_id hold] action
          (release_context appUserId time holdId (rel_releaseReasonCode body)) = Inr (r, db')"
        by (auto simp: move_released_def res_simps)
      from moveQuality_typed [OF this] one assms(3) True show ?thesis by simp
    next
      case False
      with mv one assms(3) show ?thesis by (simp add: move_released_def)
    qed
  qed
qed

lemma execute_skip_typed:
  assumes "execute_skip approvals time lid appUserId db = Inr db'" and "store_typed db" and "normal_unheld db"
  shows "store_typed db' \<and> normal_unheld db'"
proof -
  from assms(1) obtain lot where lot: "find_lot db lid = Some lot" by (auto simp: execute_skip_def split: option.splits)
  from assms(1) obtain locked input actor released db2 r action ctx where
      rel: "releaseWithin (skip_requests lid appUserId db) locked
        \<lparr>ht_lotId = lid, ht_lotHoldIds = None, ht_reasonCode = Some INSPECTION_HOLD_REASON\<rparr> input actor = Inr ((released, 0), db2)"
    and mv: "moveQuality db2 [lid] action ctx = Inr (r, db')"
    unfolding execute_skip_def lot option.case Let_def bind_res_eq_Inr case_prod_eq_Inr guard_res_eq
    by (auto simp: bind_res_eq_Inr case_prod_eq_Inr guard_res_eq)
  have "lot_core (skip_requests lid appUserId db) = lot_core db" by (simp add: skip_requests_def lot_core_def)
  then have "store_typed (skip_requests lid appUserId db)" "normal_unheld (skip_requests lid appUserId db)"
    using typed_core assms(2,3) by blast+
  with releaseWithin_typed [OF rel] moveQuality_typed [OF mv] show ?thesis by simp
qed

section \<open>The contract of a LOT operation\<close>

text \<open>What the callers of a LOT operation rely on: a run that succeeds leaves a store in which the rows keep their domains
  and no held LOT is \<open>NORMAL\<close>. A batch of calls in one transaction then keeps it, too.\<close>

locale lot_operation =
  fixes op :: "'i \<Rightarrow> lot_db \<Rightarrow> ('a \<times> lot_db) res"
  assumes keeps: "op i db = Inr (v, db') \<Longrightarrow> store_typed db \<Longrightarrow> normal_unheld db \<Longrightarrow> store_typed db' \<and> normal_unheld db'"
begin

definition batch :: "'i list \<Rightarrow> lot_db \<Rightarrow> lot_db res" where
  "batch inputs db = fold_res (\<lambda>i db. bind_res (op i db) (\<lambda>(v, db'). Inr db')) inputs db"

lemma batch_keeps: "batch inputs db = Inr db' \<Longrightarrow> store_typed db \<and> normal_unheld db \<Longrightarrow> store_typed db' \<and> normal_unheld db'"
  unfolding batch_def by (rule fold_res_invariant [where P = "\<lambda>db. store_typed db \<and> normal_unheld db"]) (auto simp: res_simps dest: keeps)

end

interpretation registering: lot_operation "\<lambda>(input, actor, time) db. createWithin db input actor time"
  by unfold_locales (auto dest: createWithin_typed)

interpretation pre_issuing: lot_operation "\<lambda>(slots, user) db. preIssueWithin db slots user"
  by unfold_locales (auto dest: preIssueWithin_typed)

interpretation splitting: lot_operation "\<lambda>part db. splitLotWithin db part"
  by unfold_locales (auto dest: splitLotWithin_typed)

interpretation holding: lot_operation "\<lambda>(codes, stock_rows, time, who, body) db. register_holds codes stock_rows time who body db"
  by unfold_locales (auto dest: register_holds_typed)

interpretation freeing: lot_operation "\<lambda>(codes, time, holdId, version, rel, user) db. release_hold codes time holdId version rel user db"
  by unfold_locales (auto dest: release_hold_typed)

interpretation aging: lot_operation "\<lambda>request db. moveLifecycle db request"
  by unfold_locales (auto dest: moveLifecycle_typed)

section \<open>Runs\<close>

inductive lot_step :: "lot_db \<Rightarrow> lot_db \<Rightarrow> bool" where
  register: "createWithin db input actor time = Inr (v, db') \<Longrightarrow> lot_step db db'"
| pre_issue: "preIssueWithin db slots user = Inr (v, db') \<Longrightarrow> lot_step db db'"
| split: "splitLotWithin db part = Inr (v, db') \<Longrightarrow> lot_step db db'"
| hold: "register_holds codes stock_rows time who body db = Inr (v, db') \<Longrightarrow> lot_step db db'"
| free_hold: "release_hold codes time holdId version rel user db = Inr (v, db') \<Longrightarrow> lot_step db db'"
| skip: "execute_skip approvals time lid user db = Inr db' \<Longrightarrow> lot_step db db'"
| lifecycle: "moveLifecycle db request = Inr (v, db') \<Longrightarrow> lot_step db db'"
| free_lots: "moveQuality db (lotsFreeOfOpenHolds db ids) action ctx = Inr (v, db') \<Longrightarrow> lot_step db db'"

inductive_cases lot_step_cases: "lot_step db db'"

lemma lot_step_typed: "lot_step db db' \<Longrightarrow> store_typed db \<and> normal_unheld db \<Longrightarrow> store_typed db' \<and> normal_unheld db'"
proof (induction rule: lot_step.induct)
  case (register db input actor time v db')
  then show ?case using registering.keeps [of "(input, actor, time)" db v db'] by simp
next
  case (pre_issue db slots user v db')
  then show ?case using pre_issuing.keeps [of "(slots, user)" db v db'] by simp
next
  case (split db part v db')
  then show ?case using splitting.keeps [of db part v db'] by simp
next
  case (hold codes stock_rows time who body db v db')
  then show ?case using holding.keeps [of "(codes, stock_rows, time, who, body)" db v db'] by simp
next
  case (free_hold codes time holdId version rel user db v db')
  then show ?case using freeing.keeps [of "(codes, time, holdId, version, rel, user)" db v db'] by simp
next
  case skip
  then show ?case using execute_skip_typed [OF skip(1)] by simp
next
  case (lifecycle db request v db')
  then show ?case using aging.keeps [of db request v db'] by simp
next
  case (free_lots db ids action ctx v db')
  have "\<forall>i \<in> set (lotsFreeOfOpenHolds db ids). \<forall>h \<in> set (lot_holds db). \<not> open_hold i h" using free_of_open_holds by blast
  with free_lots moveQuality_typed [OF free_lots(1)] show ?case by simp
qed

definition no_lots :: "lot_db \<Rightarrow> bool" where
  "no_lots db \<longleftrightarrow> lots db = [] \<and> lot_holds db = []"

lemma no_lots_typed: "no_lots db \<Longrightarrow> store_typed db \<and> normal_unheld db"
  by (simp add: no_lots_def store_typed_def normal_unheld_def lot_ids_ok_def hold_ids_ok_def id_column_def)

lemma reached_typed: "lot_step\<^sup>*\<^sup>* db db' \<Longrightarrow> no_lots db \<Longrightarrow> store_typed db' \<and> normal_unheld db'"
  by (induction rule: rtranclp_induct) (use no_lots_typed lot_step_typed in blast)+

text \<open>C12. Whatever LOT operations run, in any order, every LOT row keeps a quality and a lifecycle status of its domain,
  ids stay unique and below their sequence, and every hold is the hold of a LOT that exists.\<close>
theorem lot_store_typed:
  assumes "lot_step\<^sup>*\<^sup>* db db'" and "no_lots db"
  shows "lot_ids_ok db' \<and> hold_ids_ok db' \<and> (\<forall>h \<in> set (lot_holds db'). hold_lot_id h \<in> lot_id ` set (lots db')) \<and>
    (\<forall>l \<in> set (lots db'). lot_status_code l \<in> set LOT_STATUSES \<and>
      (case lifecycle_status_code l of None \<Rightarrow> True | Some s \<Rightarrow> s \<in> set LIFECYCLE_STATUSES))"
proof -
  have typed: "store_typed db'" using reached_typed [OF assms] by blast
  then have "lot_typed l" if "l \<in> set (lots db')" for l using that by (simp add: store_typed_def list_all_iff)
  then show ?thesis using typed unfolding store_typed_def lot_typed_def by blast
qed



definition bought_lot :: LotRegisterInput where
  "bought_lot = \<lparr>rg_lotNo = ''L1'', rg_itemId = 10, rg_lotTypeCode = ''RAW'', rg_plantId = 1, rg_initialQty = 5, rg_uomId = 1,
     rg_manufacturedAt = None, rg_expiryDate = None, rg_sourceTypeCode = ''STOCK_TAKE'', rg_sourceId = 3, rg_remarks = None,
     rg_externalIdentifiers = [], rg_incomingIqc = None\<rparr>"

definition born :: "(lot_row \<times> lot_hold list) \<times> lot_db" where
  "born = (case createWithin empty_lot_db bought_lot (Account 9) 100 of Inl e \<Rightarrow> ((held_lot, []), empty_lot_db) | Inr out \<Rightarrow> out)"

lemma born_step: "lot_step\<^sup>*\<^sup>* empty_lot_db (snd born)" and no_lots_empty: "no_lots empty_lot_db"
proof -
  have "isl (createWithin empty_lot_db bought_lot (Account 9) 100) = False" by code_simp
  then have "createWithin empty_lot_db bought_lot (Account 9) 100 = Inr (fst born, snd born)"
    by (cases "createWithin empty_lot_db bought_lot (Account 9) 100") (simp_all add: born_def)
  then show "lot_step\<^sup>*\<^sup>* empty_lot_db (snd born)" by (intro r_into_rtranclp lot_step.register)
  show "no_lots empty_lot_db" by (simp add: no_lots_def empty_lot_db_def)
qed

theorem lot_store_typed_witness: "lots (snd born) \<noteq> [] \<and> lot_ids_ok (snd born)"
proof -
  have "length (lots (snd born)) = 1" by code_simp
  with lot_store_typed [OF born_step no_lots_empty] show ?thesis by auto
qed


end
