(* ===== verification/Nonconformance.thy ===== *)
theory Nonconformance
  imports Lot_Life Inventory_Operations Approval
begin

text \<open>
  Nonconformances, from \<open>src/quality/nonconformance\<close> (\<open>nonconformance-write.service.ts\<close> and the rules of
  \<open>nonconformance-rules.ts\<close>): the tables of the quality store, registering a nonconformance over a list of LOTs and
  requesting its disposition. The store of this component holds the LOT store, the stock ledger and the approvals,
  because a disposition works on all of them. Free texts composed for the screen (the description of a nonconformance,
  the reason column of a decision) and the response views are left out.
\<close>

section \<open>Tables\<close>

record nonconformance =
  nc_id :: id
  nc_no :: string
  nc_item_id :: id
  nc_work_order_id :: "id option"
  nc_result_id :: "id option"
  nc_severity_code :: code
  nc_department_id :: "id option"
  nc_status_code :: code
  nc_opened_at :: int
  nc_closed_at :: "int option"
  nc_created_by :: "id option"
  nc_updated_by :: "id option"
  nc_version_no :: int

record nonconformance_lot =
  nl_nc_id :: id
  nl_lot_id :: id
  nl_affected_qty :: decimal
  nl_uom_id :: id
  nl_before_code :: code
  nl_after_code :: code
  nl_created_by :: "id option"

record disposition_decision =
  dd_id :: id
  dd_nc_id :: id
  dd_type_code :: code
  dd_qty :: decimal
  dd_uom_id :: id
  dd_decided_by :: id
  dd_decided_at :: int
  dd_approval_request_id :: "id option"

record concession =
  cn_id :: id
  cn_no :: string
  cn_nc_id :: id
  cn_lot_id :: id
  cn_approved_qty :: decimal
  cn_uom_id :: id
  cn_valid_from :: string
  cn_valid_to :: "string option"
  cn_work_order_id :: "id option"
  cn_process_id :: "id option"
  cn_customer_id :: "id option"
  cn_approval_request_id :: id
  cn_status_code :: code
  cn_remarks :: "string option"
  cn_created_by :: "id option"
  cn_updated_by :: "id option"
  cn_version_no :: int

record quality_db =
  q_stock :: inv_db
  q_lots :: lot_db
  q_approvals :: approval_db
  nonconformances :: "nonconformance list"
  nc_seq :: id
  nc_lots :: "nonconformance_lot list"
  decisions :: "disposition_decision list"
  decision_seq :: id
  concessions :: "concession list"
  concession_seq :: id
  result_requests :: "(id \<times> id) list"
  item_units :: "(id \<times> id) list"
  uom_scales :: "(id \<times> nat) list"
  work_order_ids :: "id list"
  department_ids :: "id list"
  defect_warehouses :: "id list"

section \<open>Statements\<close>

definition find_nc :: "quality_db \<Rightarrow> id \<Rightarrow> nonconformance option" where
  "find_nc db i = find (\<lambda>n. nc_id n = i) (nonconformances db)"

text \<open>\<open>INSERT INTO quality.disposition_decision\<close>, the number a \<open>numeric(20,6)\<close> that must be positive.\<close>

definition create_decision :: "disposition_decision \<Rightarrow> quality_db \<Rightarrow> (id \<times> quality_db) res" where
  "create_decision row db =
     (let new = row\<lparr>dd_id := decision_seq db, dd_qty := to_scale (dd_qty row)\<rparr> in
      if dd_qty new \<le> 0 then Inl (DbError OtherDriverError)
      else Inr (decision_seq db, db\<lparr>decisions := decisions db @ [new], decision_seq := decision_seq db + 1\<rparr>))"

definition create_nc :: "nonconformance \<Rightarrow> quality_db \<Rightarrow> (id \<times> quality_db) res" where
  "create_nc row db =
     (if nc_no row \<in> set (map nc_no (nonconformances db)) then Inl (DbError (P2002 [''nonconformance_no'']))
      else Inr (nc_seq db, db\<lparr>nonconformances := nonconformances db @ [row\<lparr>nc_id := nc_seq db\<rparr>], nc_seq := nc_seq db + 1\<rparr>))"

definition create_nc_lot :: "nonconformance_lot \<Rightarrow> quality_db \<Rightarrow> quality_db res" where
  "create_nc_lot row db =
     (let new = row\<lparr>nl_affected_qty := to_scale (nl_affected_qty row)\<rparr> in
      if nl_affected_qty new \<le> 0 then Inl (DbError OtherDriverError)
      else if list_ex (\<lambda>r. nl_nc_id r = nl_nc_id new \<and> nl_lot_id r = nl_lot_id new) (nc_lots db)
      then Inl (DbError (P2002 [''nonconformance_id'', ''lot_id'']))
      else Inr (db\<lparr>nc_lots := nc_lots db @ [new]\<rparr>))"

definition conflict_code :: "code \<Rightarrow> app_error" where
  "conflict_code c = ConflictException CauseUser (no_extra\<lparr>extra_code := Some c\<rparr>)"

definition nc_version_conflict :: "nonconformance \<Rightarrow> ConflictExtra" where
  "nc_version_conflict nc =
     no_extra\<lparr>extra_code := Some ''VERSION_CONFLICT'', currentVersion := Some (show_int (nc_version_no nc))\<rparr>"

definition lots_of_nc :: "quality_db \<Rightarrow> id \<Rightarrow> nonconformance_lot list" where
  "lots_of_nc db i = filter (\<lambda>r. nl_nc_id r = i) (nc_lots db)"

text \<open>\<open>UPDATE quality.nonconformance\<close> of the rows \<open>hit\<close> selects, with the check that none is closed before it was opened;
  it returns its count.\<close>

definition update_nc ::
  "quality_db \<Rightarrow> (nonconformance \<Rightarrow> bool) \<Rightarrow> (nonconformance \<Rightarrow> nonconformance) \<Rightarrow> (nat \<times> quality_db) res" where
  "update_nc db hit change =
     (let rows = filter hit (nonconformances db) in
      if list_ex (\<lambda>n. case nc_closed_at (change n) of None \<Rightarrow> False | Some c \<Rightarrow> c < nc_opened_at (change n)) rows
      then Inl (DbError OtherDriverError)
      else Inr (length rows, db\<lparr>nonconformances := map (\<lambda>n. if hit n then change n else n) (nonconformances db)\<rparr>))"

definition at_version :: "id \<Rightarrow> int \<Rightarrow> nonconformance \<Rightarrow> bool" where
  "at_version i version n \<longleftrightarrow> nc_id n = i \<and> nc_version_no n = version"

definition bump_nc :: "id \<Rightarrow> nonconformance \<Rightarrow> nonconformance" where
  "bump_nc by_user n = n\<lparr>nc_version_no := nc_version_no n + 1, nc_updated_by := Some by_user\<rparr>"

text \<open>The unit of a nonconformance: that of its first LOT, without LOTs the base unit of its item.\<close>

definition nc_unit :: "quality_db \<Rightarrow> nonconformance \<Rightarrow> id res" where
  "nc_unit db nc =
     (case lots_of_nc db (nc_id nc) of
        r # _ \<Rightarrow> Inr (nl_uom_id r)
      | [] \<Rightarrow> (case map_of (item_units db) (nc_item_id nc) of None \<Rightarrow> Inl (DbError P2025) | Some u \<Rightarrow> Inr u))"

section \<open>Shapes\<close>

record NonconformanceLotCreate =
  np_lotId :: id
  np_affectedQty :: decimal
  np_uomId :: id

record NonconformanceCreate =
  np_itemId :: id
  np_workOrderId :: "id option"
  np_inspectionResultId :: "id option"
  np_severityCode :: code
  np_description :: string
  np_departmentId :: "id option"
  np_lots :: "NonconformanceLotCreate list"

definition decimal_places_within :: "nat \<Rightarrow> decimal \<Rightarrow> bool" where
  "decimal_places_within n q \<longleftrightarrow> of_int \<lfloor>q * 10 ^ n\<rfloor> = q * 10 ^ n"

definition assertQtyPrecision :: "string \<Rightarrow> decimal \<Rightarrow> nat \<Rightarrow> unit res" where
  "assertQtyPrecision name qty places =
     (if \<not> decimal_places_within places qty then Inl (one (field name ''RANGE''))
      else if 100000000000000 \<le> qty then Inl (one (field name ''RANGE''))
      else Inr ())"

definition lot_field :: "nat \<Rightarrow> string \<Rightarrow> string" where
  "lot_field index name = ''lots['' @ show_nat index @ ''].'' @ name"

definition indexed :: "NonconformanceLotCreate list \<Rightarrow> (nat \<times> NonconformanceLotCreate) list" where
  "indexed xs = zip [0..<length xs] xs"

definition assertNcDistinctLots :: "NonconformanceLotCreate list \<Rightarrow> unit res" where
  "assertNcDistinctLots xs =
     bind_res (fold_res (\<lambda>(index, lot) seen.
         if np_lotId lot \<in> set seen then Inl (one (field (lot_field index ''lotId'') ''INVALID'')) else Inr (np_lotId lot # seen))
       (indexed xs) []) (\<lambda>seen. Inr ())"

definition assertAffectedQty :: "nat \<times> NonconformanceLotCreate \<Rightarrow> unit res" where
  "assertAffectedQty entry' =
     (let name = lot_field (fst entry') ''affectedQty''; qty = np_affectedQty (snd entry') in
      if \<not> 0 < qty then Inl (one (field name ''RANGE'')) else assertQtyPrecision name qty 6)"

definition assertNonconformanceShape :: "NonconformanceCreate \<Rightarrow> id res" where
  "assertNonconformanceShape body =
     bind_res (assertNcDistinctLots (np_lots body)) (\<lambda>_.
     bind_res (guard_res (length (remdups (map np_uomId (np_lots body))) \<le> 1) (one (field ''lots'' ''INVALID''))) (\<lambda>_.
     bind_res (map_res assertAffectedQty (indexed (np_lots body))) (\<lambda>_.
     bind_res (guard_res (trim (np_description body) \<noteq> []) (one (field ''description'' ''REQUIRED''))) (\<lambda>_.
       case np_lots body of [] \<Rightarrow> Inl InternalError | lot # _ \<Rightarrow> Inr (np_uomId lot)))))"

section \<open>Registering\<close>

definition invalidReference :: "string \<Rightarrow> app_error" where
  "invalidReference name = one (field name ''INVALID'')"

definition known_ref :: "id option \<Rightarrow> id list \<Rightarrow> bool" where
  "known_ref x ids \<longleftrightarrow> (case x of None \<Rightarrow> True | Some i \<Rightarrow> i \<in> set ids)"

text \<open>The map from LOT to its status; the unknown LOT with the least index is reported.\<close>

definition assertReferences :: "quality_db \<Rightarrow> NonconformanceCreate \<Rightarrow> id \<Rightarrow> (id \<times> code) list res" where
  "assertReferences db body uomId =
     (let rows = lots_in (q_lots db) (map np_lotId (np_lots body));
          statusById = map (\<lambda>l. (lot_id l, lot_status_code l)) rows in
      bind_res (guard_res (map_of (item_units db) (np_itemId body) \<noteq> None) (invalidReference ''itemId'')) (\<lambda>_.
      bind_res (guard_res (map_of (uom_scales db) uomId \<noteq> None) (invalidReference (lot_field 0 ''uomId''))) (\<lambda>_.
      bind_res (case find (\<lambda>(index, lot). np_lotId lot \<notin> fst ` set statusById) (indexed (np_lots body)) of
          None \<Rightarrow> Inr () | Some (index, lot) \<Rightarrow> Inl (invalidReference (lot_field index ''lotId''))) (\<lambda>_.
      bind_res (guard_res (known_ref (np_workOrderId body) (work_order_ids db)) (invalidReference ''workOrderId'')) (\<lambda>_.
      bind_res (guard_res (known_ref (np_inspectionResultId body) (map fst (result_requests db))) (invalidReference ''inspectionResultId'')) (\<lambda>_.
      bind_res (guard_res (known_ref (np_departmentId body) (department_ids db)) (invalidReference ''responsibleDepartmentId'')) (\<lambda>_.
        Inr statusById)))))))"

definition is_open_nc :: "quality_db \<Rightarrow> id \<Rightarrow> bool" where
  "is_open_nc db i \<longleftrightarrow> list_ex (\<lambda>n. nc_id n = i \<and> nc_closed_at n = None) (nonconformances db)"

definition assertNoOpenNonconformance :: "quality_db \<Rightarrow> id list \<Rightarrow> unit res" where
  "assertNoOpenNonconformance db lotIds =
     guard_res (\<not> list_ex (\<lambda>r. nl_lot_id r \<in> set lotIds \<and> is_open_nc db (nl_nc_id r)) (nc_lots db)) (conflict_code ''DUPLICATE_KEY'')"

definition registered_nc :: "NonconformanceCreate \<Rightarrow> string \<Rightarrow> int \<Rightarrow> id \<Rightarrow> nonconformance" where
  "registered_nc body no time by_user =
     \<lparr>nc_id = 0, nc_no = no, nc_item_id = np_itemId body, nc_work_order_id = np_workOrderId body,
      nc_result_id = np_inspectionResultId body, nc_severity_code = np_severityCode body, nc_department_id = np_departmentId body,
      nc_status_code = ''NOT_REQUESTED'', nc_opened_at = time, nc_closed_at = None, nc_created_by = Some by_user,
      nc_updated_by = Some by_user, nc_version_no = 1\<rparr>"

definition registered_lot_of :: "(id \<times> code) list \<Rightarrow> id \<Rightarrow> id \<Rightarrow> NonconformanceLotCreate \<Rightarrow> nonconformance_lot" where
  "registered_lot_of statusById ncId by_user lot =
     (let now_status = the (map_of statusById (np_lotId lot)) in
      \<lparr>nl_nc_id = ncId, nl_lot_id = np_lotId lot, nl_affected_qty = np_affectedQty lot, nl_uom_id = np_uomId lot,
       nl_before_code = now_status, nl_after_code = now_status, nl_created_by = Some by_user\<rparr>)"

text \<open>\<open>create\<close>; the number is taken before the transaction, the LOT locks protect from another registration.\<close>

definition register_nonconformance ::
  "code_table \<Rightarrow> string res \<Rightarrow> int \<Rightarrow> NonconformanceCreate \<Rightarrow> id \<Rightarrow> quality_db \<Rightarrow> (id \<times> quality_db) res" where
  "register_nonconformance codes number time body by_user db =
     bind_res (assertCodeValues codes
       [\<lparr>cc_field = ''severityCode'', cc_value = Some (np_severityCode body), cc_groupCode = ''NONCONFORMANCE_SEVERITY''\<rparr>]) (\<lambda>_.
     bind_res (assertNonconformanceShape body) (\<lambda>uomId.
     bind_res (assertReferences db body uomId) (\<lambda>statusById.
     bind_res number (\<lambda>no.
     bind_res (assertNoOpenNonconformance db (map np_lotId (np_lots body))) (\<lambda>_.
     bind_res (create_nc (registered_nc body no time by_user) db) (\<lambda>(created, db1).
     bind_res (fold_res (\<lambda>lot. create_nc_lot (registered_lot_of statusById created by_user lot)) (np_lots body) db1) (\<lambda>db2.
       Inr (created, db2))))))))"

section \<open>Requesting the disposition\<close>

record DispositionRequest =
  dq_requestedQty :: decimal
  dq_uomId :: id

definition assertDispositionRequestShape :: "DispositionRequest \<Rightarrow> id \<Rightarrow> unit res" where
  "assertDispositionRequestShape body uomId =
     bind_res (guard_res (1 \<le> dq_requestedQty body) (one (field ''requestedQty'' ''RANGE''))) (\<lambda>_.
       guard_res (dq_uomId body = uomId) (one (field ''uomId'' ''INVALID'')))"

definition NC_STATUS_COLUMN :: StateColumn where
  "NC_STATUS_COLUMN = ''quality.nonconformance.status_code''"

text \<open>A refused transition gets the code of this family of endpoints.\<close>

definition with_state_code :: "Transition res \<Rightarrow> Transition res" where
  "with_state_code r =
     (case r of Inl e \<Rightarrow> Inl (if is_ConflictException e then conflict_code ''INVALID_STATE'' else e) | Inr t \<Rightarrow> Inr t)"

definition assertRequestable :: "code \<Rightarrow> Transition res" where
  "assertRequestable currentStatus =
     with_state_code (assertTransition TRANSITIONS NC_STATUS_COLUMN ''nonconformance-request-disposition'' currentStatus CONFLICT)"

definition request_disposition ::
  "id \<Rightarrow> int \<Rightarrow> DispositionRequest \<Rightarrow> id \<Rightarrow> quality_db \<Rightarrow> (nonconformance \<times> quality_db) res" where
  "request_disposition ncId version body by_user db =
     (case find_nc db ncId of
        None \<Rightarrow> Inl (HttpException NOT_FOUND)
      | Some found \<Rightarrow>
          bind_res (nc_unit db found) (\<lambda>uomId.
          bind_res (assertDispositionRequestShape body uomId) (\<lambda>_.
          bind_res (assertRequestable (nc_status_code found)) (\<lambda>transition.
          bind_res (update_nc db (at_version ncId version) (\<lambda>n. (bump_nc by_user n)\<lparr>nc_status_code := tr_to transition\<rparr>)) (\<lambda>(count', db1).
          bind_res (assertUpdated count' CauseUser (nc_version_conflict found)) (\<lambda>_.
            case find_nc db1 ncId of None \<Rightarrow> Inl (DbError P2025) | Some row \<Rightarrow> Inr (row, db1)))))))"

end
