(* ===== verification/Disposition.thy ===== *)
theory Disposition
  imports Nonconformance
begin

text \<open>
  Deciding what happens to a nonconformance: \<open>quality/disposition/disposition-write.service.ts\<close> (one decision over a
  quantity), \<open>disposition-sort.ts\<close> (sorting good from bad: the LOT is split, its stock moved on the ledger, a new
  nonconformance opened), \<open>disposition-hold-release.ts\<close>, the remaining quantity of \<open>disposition-rollup.ts\<close> and the
  reopening of the inspection in \<open>inspection/inspection-request-reopen.ts\<close>. A number for a new nonconformance is taken
  before the transaction and is an argument.
\<close>

section \<open>The rollup\<close>

datatype DispositionProgressCode = NOT_STARTED | PARTIAL | COMPLETED

definition remaining_qty :: "decimal \<Rightarrow> decimal \<Rightarrow> decimal" where
  "remaining_qty affectedQtyTotal decidedQtyTotal = affectedQtyTotal - decidedQtyTotal"

definition dispositionProgressCode :: "nat \<Rightarrow> decimal \<Rightarrow> decimal \<Rightarrow> DispositionProgressCode" where
  "dispositionProgressCode decisionCount affectedQtyTotal decidedQtyTotal =
     (if decisionCount = 0 then NOT_STARTED
      else if 0 < remaining_qty affectedQtyTotal decidedQtyTotal then PARTIAL else COMPLETED)"

text \<open>The same code as the detail screen computes it, from the decided quantity alone.\<close>

definition dispositionProgressCodeOf :: "decimal \<Rightarrow> decimal \<Rightarrow> DispositionProgressCode" where
  "dispositionProgressCodeOf decidedQtyTotal affectedQtyTotal =
     (if decidedQtyTotal \<le> 0 then NOT_STARTED
      else if affectedQtyTotal \<le> decidedQtyTotal then COMPLETED else PARTIAL)"

record FollowUpIssueLine =
  fu_statusCode :: code
  fu_issueQty :: decimal

record DispositionFollowUp =
  followUpStatusCode :: DispositionProgressCode
  followUpQty :: decimal
  followUpPending :: bool
  reinstatable :: bool

definition postedQty :: "FollowUpIssueLine list \<Rightarrow> decimal" where
  "postedQty lines = fold (\<lambda>line sum. if fu_statusCode line = ''POSTED'' then sum + fu_issueQty line else sum) lines 0"

definition followUpProgress :: "decimal \<Rightarrow> decimal \<Rightarrow> DispositionProgressCode" where
  "followUpProgress doneQty targetQty =
     (if doneQty = 0 then NOT_STARTED else if targetQty \<le> doneQty then COMPLETED else PARTIAL)"

definition dispositionFollowUp :: "code \<Rightarrow> decimal \<Rightarrow> FollowUpIssueLine list \<Rightarrow> bool \<Rightarrow> DispositionFollowUp" where
  "dispositionFollowUp typeCode decisionQty issueLines concessionDefectStock =
     (let qty = (if typeCode = ''SCRAP'' then postedQty issueLines else 0); status = followUpProgress qty decisionQty in
      \<lparr>followUpStatusCode = status, followUpQty = qty, followUpPending = (typeCode = ''SCRAP'' \<and> status \<noteq> COMPLETED),
       reinstatable = (typeCode = ''NORMAL'' \<or> typeCode = ''CONCESSION'' \<and> concessionDefectStock)\<rparr>)"

section \<open>The shape of a decision\<close>

record DispositionDecisionCreate =
  dc_typeCode :: code
  dc_qty :: decimal
  dc_uomId :: id
  dc_reason :: string
  dc_acceptedQty :: "decimal option"
  dc_rejectedQty :: "decimal option"
  dc_businessDate :: "string option"

definition SORT :: code where
  "SORT = ''SORT''"

definition SOURCE_TYPE :: code where
  "SOURCE_TYPE = ''DISPOSITION_DECISION''"

definition MOVE_ACTION :: "(code \<times> ActionName) list" where
  "MOVE_ACTION = [(''REWORK'', ''disposition-rework''), (''SCRAP'', ''disposition-scrap''), (''NORMAL'', ''disposition-normal'')]"

definition is_business_date :: "string \<Rightarrow> bool" where
  "is_business_date s \<longleftrightarrow>
     length s = 10 \<and> digits 4 (take 4 s) \<and> s ! 4 = CHR ''-'' \<and> digits 2 (take 2 (drop 5 s)) \<and> s ! 7 = CHR ''-'' \<and> digits 2 (drop 8 s)"

definition at_least_zero :: "decimal option \<Rightarrow> bool" where
  "at_least_zero q = (case q of None \<Rightarrow> False | Some x \<Rightarrow> 0 \<le> x)"

definition qty_or_zero :: "decimal option \<Rightarrow> decimal" where
  "qty_or_zero q = (case q of None \<Rightarrow> 0 | Some x \<Rightarrow> x)"

definition assertSortShape :: "DispositionDecisionCreate \<Rightarrow> unit res" where
  "assertSortShape body =
     (let errors =
        (if at_least_zero (dc_acceptedQty body) then [] else [field ''acceptedQty'' ''REQUIRED'']) @
        (if at_least_zero (dc_rejectedQty body) then [] else [field ''rejectedQty'' ''REQUIRED'']) @
        (if (case dc_businessDate body of None \<Rightarrow> False | Some d \<Rightarrow> is_business_date d) then []
         else [field ''businessDate'' ''REQUIRED''])
      in if errors \<noteq> [] then Inl (ContractException BAD_REQUEST errors [])
         else guard_res (qty_or_zero (dc_acceptedQty body) + qty_or_zero (dc_rejectedQty body) = dc_qty body)
           (ContractException BAD_REQUEST [field ''rejectedQty'' ''INVALID''] []))"

definition assertSortFitsTarget :: "DispositionDecisionCreate \<Rightarrow> nat \<Rightarrow> nat \<Rightarrow> unit res" where
  "assertSortFitsTarget body lotCount places =
     bind_res (assertQtyPrecision ''acceptedQty'' (qty_or_zero (dc_acceptedQty body)) places) (\<lambda>_.
     bind_res (assertQtyPrecision ''rejectedQty'' (qty_or_zero (dc_rejectedQty body)) places) (\<lambda>_.
       guard_res (lotCount = 1) (badRequest ''STATE_LOCKED'')))"

section \<open>The target of a decision\<close>

record Target =
  tg_lotIds :: "id list"
  tg_affectedQtyTotal :: decimal
  tg_decidedQtyTotal :: decimal
  tg_decisionCount :: nat
  tg_uomId :: id
  tg_uomScale :: nat

definition decisions_of :: "quality_db \<Rightarrow> id \<Rightarrow> disposition_decision list" where
  "decisions_of db i = filter (\<lambda>r. dd_nc_id r = i) (decisions db)"

definition affected_total :: "quality_db \<Rightarrow> id \<Rightarrow> decimal" where
  "affected_total db i = sum_list (map nl_affected_qty (lots_of_nc db i))"

definition decided_total :: "quality_db \<Rightarrow> id \<Rightarrow> decimal" where
  "decided_total db i = sum_list (map dd_qty (decisions_of db i))"

definition readTarget :: "quality_db \<Rightarrow> nonconformance \<Rightarrow> Target res" where
  "readTarget db nc =
     bind_res (nc_unit db nc) (\<lambda>uomId.
       case map_of (uom_scales db) uomId of
           None \<Rightarrow> Inl (DbError P2025)
         | Some s \<Rightarrow> Inr \<lparr>tg_lotIds = map nl_lot_id (lots_of_nc db (nc_id nc)), tg_affectedQtyTotal = affected_total db (nc_id nc),
             tg_decidedQtyTotal = decided_total db (nc_id nc), tg_decisionCount = length (decisions_of db (nc_id nc)),
             tg_uomId = uomId, tg_uomScale = s\<rparr>)"

definition assertDecisionShape :: "DispositionDecisionCreate \<Rightarrow> Target \<Rightarrow> unit res" where
  "assertDecisionShape body target =
     bind_res (guard_res (dc_uomId body = tg_uomId target) (one (field ''uomId'' ''INVALID''))) (\<lambda>_.
     bind_res (assertQtyPrecision ''decisionQty'' (dc_qty body) (tg_uomScale target)) (\<lambda>_.
       guard_res (trim (dc_reason body) \<noteq> []) (one (field ''reason'' ''REQUIRED''))))"

definition assertWithinRemaining :: "DispositionDecisionCreate \<Rightarrow> Target \<Rightarrow> unit res" where
  "assertWithinRemaining body target =
     (let rest = remaining_qty (tg_affectedQtyTotal target) (tg_decidedQtyTotal target) in
      guard_res (dc_qty body \<le> rest)
        (ConflictException CauseUser (no_extra\<lparr>extra_code := Some ''DISPOSITION_QTY_EXCEEDED'',
           remainingQty := Some rest, remainingQtyUomId := Some (tg_uomId target)\<rparr>)))"

definition assertSortWholeRemaining :: "DispositionDecisionCreate \<Rightarrow> Target \<Rightarrow> unit res" where
  "assertSortWholeRemaining body target =
     guard_res (dc_qty body = remaining_qty (tg_affectedQtyTotal target) (tg_decidedQtyTotal target))
       (ContractException BAD_REQUEST [field ''decisionQty'' ''INVALID''] [])"

section \<open>Holds and inspection requests\<close>

definition DISPOSITION_RELEASE_REASON :: code where
  "DISPOSITION_RELEASE_REASON = ''DISPOSITION_NORMAL''"

definition in_defect_stock :: "quality_db \<Rightarrow> id list \<Rightarrow> id list" where
  "in_defect_stock db lotIds =
     filter (\<lambda>i. list_ex (\<lambda>b. lotId (dim b) = Some i \<and> 0 < on_hand_qty b \<and> warehouseId (dim b) \<in> set (defect_warehouses db))
       (balances (q_stock db))) lotIds"

definition releaseInspectionHoldsWithin ::
  "quality_db \<Rightarrow> id list \<Rightarrow> id \<Rightarrow> int \<Rightarrow> code \<Rightarrow> quality_db res" where
  "releaseInspectionHoldsWithin db lotIds by_user time reason =
     (let inDefectStock = (if reason \<noteq> DISPOSITION_RELEASE_REASON then [] else in_defect_stock db lotIds);
          targets = filter (\<lambda>i. i \<notin> set inDefectStock) lotIds;
          locked = lockLotsWithin (q_lots db) targets
      in bind_res
           (fold_res (\<lambda>i ldb. bind_res (releaseWithin ldb locked
                \<lparr>ht_lotId = i, ht_lotHoldIds = None, ht_reasonCode = Some INSPECTION_HOLD_REASON\<rparr>
                \<lparr>hr_releaseReasonCode = reason, hr_releaseTargetLotStatusCode = None, hr_remarks = None, hr_releaseQty = None\<rparr>
                \<lparr>ha_by = Some by_user, ha_workerId = None, ha_at = time\<rparr>) (\<lambda>(released, ldb'). Inr ldb'))
             targets (q_lots db))
           (\<lambda>ldb. Inr (db\<lparr>q_lots := ldb\<rparr>)))"

definition reopenInspectionRequestWithin :: "quality_db \<Rightarrow> id \<Rightarrow> id option \<Rightarrow> quality_db" where
  "reopenInspectionRequestWithin db i by_user =
     db\<lparr>q_lots := (q_lots db)\<lparr>inspection_requests := map (\<lambda>r.
       if ir_id r = i \<and> ir_status_code r = ''COMPLETED''
       then r\<lparr>ir_status_code := ''IN_PROGRESS'', ir_updated_by := by_user, ir_version_no := ir_version_no r + 1\<rparr>
       else r) (inspection_requests (q_lots db))\<rparr>\<rparr>"

definition request_of_nc :: "quality_db \<Rightarrow> id \<Rightarrow> inspection_request option" where
  "request_of_nc db ncId =
     (case find_nc db ncId of None \<Rightarrow> None | Some nc \<Rightarrow>
       (case nc_result_id nc of None \<Rightarrow> None | Some result \<Rightarrow>
         (case map_of (result_requests db) result of None \<Rightarrow> None | Some i \<Rightarrow>
           find (\<lambda>r. ir_id r = i) (inspection_requests (q_lots db)))))"

definition reopenIqcRequestForReworkWithin :: "quality_db \<Rightarrow> id \<Rightarrow> id list \<Rightarrow> id \<Rightarrow> quality_db" where
  "reopenIqcRequestForReworkWithin db ncId movedIds by_user =
     (case request_of_nc db ncId of
        None \<Rightarrow> db
      | Some request \<Rightarrow>
          if ir_type_code request \<noteq> ''IQC'' then db
          else case ir_lot_id request of
                 None \<Rightarrow> db
               | Some lot \<Rightarrow> if lot \<in> set movedIds then reopenInspectionRequestWithin db (ir_id request) (Some by_user) else db)"

section \<open>Splitting the rejected part off\<close>

record SortResult =
  st_splitLotId :: id
  st_splitLotNo :: string
  st_splitNonconformanceId :: id
  st_splitNonconformanceNo :: string

record SplitOffInput =
  so_nonconformanceId :: id
  so_decisionId :: id
  so_parentLotId :: id
  so_qty :: decimal
  so_uomId :: id
  so_businessDate :: "string option"
  so_reason :: string
  so_appUserId :: id
  so_decidedAt :: int
  so_splitNonconformanceNo :: string

definition sort_move_context :: "id \<Rightarrow> int \<Rightarrow> id \<Rightarrow> string \<Rightarrow> LotQualityMoveContext" where
  "sort_move_context by_user time decisionId reason =
     \<lparr>qc_changedBy = Some by_user, qc_changedWorkerId = None, qc_changedAt = time, qc_sourceDocumentTypeCode = Some SOURCE_TYPE,
      qc_sourceDocumentId = Some decisionId, qc_sourceDocumentIdByLot = None, qc_reasonCode = None, qc_reason = Some reason,
      qc_transitionCode = None\<rparr>"

definition stock_of_lot :: "quality_db \<Rightarrow> id \<Rightarrow> balance_row list" where
  "stock_of_lot db lot = filter (\<lambda>b. lotId (dim b) = Some lot \<and> 0 < on_hand_qty b) (balances (q_stock db))"

definition sort_endpoint :: "balance_row \<Rightarrow> PostingEndpoint" where
  "sort_endpoint b =
     \<lparr>ep_warehouseId = warehouseId (dim b), ep_locationId = locationId (dim b),
      ep_qualityStatusCode = qualityStatusCode (dim b), ep_inventoryStatusCode = inventoryStatusCode (dim b)\<rparr>"

definition sort_line :: "balance_row \<Rightarrow> SplitOffInput \<Rightarrow> id \<Rightarrow> PostingEndpoint option \<Rightarrow> PostingEndpoint option \<Rightarrow> PostingLine" where
  "sort_line b input lot source target =
     \<lparr>pl_itemId = itemId (dim b), pl_lotId = Some lot, pl_qty = so_qty input, pl_uomId = so_uomId input, pl_from = source,
      pl_to = target, pl_ownershipTypeCode = ownershipTypeCode (dim b), pl_ownerPartnerId = ownerPartnerId (dim b),
      pl_handlingUnitId = None\<rparr>"

definition sort_transaction_no :: "id \<Rightarrow> string" where
  "sort_transaction_no decisionId = SORT @ ''-'' @ show_int decisionId"

definition sort_idempotency_key :: "id \<Rightarrow> string" where
  "sort_idempotency_key decisionId = SOURCE_TYPE @ '':'' @ sort_transaction_no decisionId"

definition sort_posting :: "balance_row \<Rightarrow> SplitOffInput \<Rightarrow> id \<Rightarrow> string \<Rightarrow> PostingInput" where
  "sort_posting b input child businessDate =
     \<lparr>pi_businessDate = businessDate, pi_occurredAt = so_decidedAt input, pi_transactionTypeCode = SOURCE_TYPE,
      pi_transactionNo = sort_transaction_no (so_decisionId input), pi_statusCode = ''POSTED'', pi_plantId = plantId (dim b),
      pi_sourceDocumentTypeCode = SOURCE_TYPE, pi_sourceDocumentId = so_decisionId input,
      pi_idempotencyKey = sort_idempotency_key (so_decisionId input), pi_createdBy = Some (so_appUserId input),
      pi_lines = [sort_line b input (so_parentLotId input) (Some (sort_endpoint b)) None,
                  sort_line b input child None (Some (sort_endpoint b))]\<rparr>"

definition moveStock :: "quality_db \<Rightarrow> id \<Rightarrow> SplitOffInput \<Rightarrow> quality_db res" where
  "moveStock db child input =
     (case stock_of_lot db (so_parentLotId input) of
        [] \<Rightarrow> Inr db
      | b # others \<Rightarrow>
          (case so_businessDate input of
             None \<Rightarrow> Inl (ContractException BAD_REQUEST [field ''businessDate'' ''REQUIRED''] [])
           | Some businessDate \<Rightarrow>
               if others \<noteq> [] then Inl (badRequest ''STATE_LOCKED'')
               else if on_hand_qty b < so_qty input
               then Inl (ContractException BAD_REQUEST [field ''rejectedQty'' ''INVALID''] [])
               else bind_res (post (q_stock db) (sort_posting b input child businessDate)) (\<lambda>(posted, stock).
                 Inr (db\<lparr>q_stock := stock\<rparr>))))"

definition openSplitNonconformance :: "quality_db \<Rightarrow> id \<Rightarrow> SplitOffInput \<Rightarrow> (id \<times> quality_db) res" where
  "openSplitNonconformance db child input =
     (case find_nc db (so_nonconformanceId input) of
        None \<Rightarrow> Inl (DbError P2025)
      | Some source \<Rightarrow>
          bind_res (create_nc \<lparr>nc_id = 0, nc_no = so_splitNonconformanceNo input, nc_item_id = nc_item_id source,
              nc_work_order_id = nc_work_order_id source, nc_result_id = nc_result_id source,
              nc_severity_code = nc_severity_code source, nc_department_id = nc_department_id source,
              nc_status_code = ''PENDING_DECISION'', nc_opened_at = so_decidedAt input, nc_closed_at = None,
              nc_created_by = Some (so_appUserId input), nc_updated_by = Some (so_appUserId input), nc_version_no = 1\<rparr> db) (\<lambda>(created, db1).
          bind_res (create_nc_lot \<lparr>nl_nc_id = created, nl_lot_id = child, nl_affected_qty = so_qty input,
              nl_uom_id = so_uomId input, nl_before_code = ''DEFECTIVE'', nl_after_code = ''DEFECTIVE'',
              nl_created_by = Some (so_appUserId input)\<rparr> db1) (\<lambda>db2.
            Inr (created, db2))))"

text \<open>\<open>moveWithin\<close> that must move something.\<close>

definition move_or_locked ::
  "quality_db \<Rightarrow> id list \<Rightarrow> ActionName \<Rightarrow> LotQualityMoveContext \<Rightarrow> (id list \<times> quality_db) res" where
  "move_or_locked db lotIds action ctx =
     bind_res (moveQuality (q_lots db) lotIds action ctx) (\<lambda>(moved, ldb).
       if movedLotIds moved = [] then Inl (badRequest ''STATE_LOCKED'') else Inr (movedLotIds moved, db\<lparr>q_lots := ldb\<rparr>))"

definition splitOffWithin :: "quality_db \<Rightarrow> SplitOffInput \<Rightarrow> (SortResult \<times> quality_db) res" where
  "splitOffWithin db input =
     bind_res (splitLotWithin (q_lots db)
       \<lparr>sp_parentLotId = so_parentLotId input, sp_qty = so_qty input, sp_sourceEventTypeCode = SOURCE_TYPE,
        sp_sourceEventId = so_decisionId input, sp_occurredAt = so_decidedAt input, sp_createdBy = Some (so_appUserId input)\<rparr>) (\<lambda>((child, childNo), ldb).
     bind_res (moveStock (db\<lparr>q_lots := ldb\<rparr>) child input) (\<lambda>db1.
     bind_res (move_or_locked db1 [child] ''disposition-sort-defect''
       (sort_move_context (so_appUserId input) (so_decidedAt input) (so_decisionId input) (so_reason input))) (\<lambda>(_, db2).
     bind_res (openSplitNonconformance db2 child input) (\<lambda>(opened, db3).
       Inr (\<lparr>st_splitLotId = child, st_splitLotNo = childNo, st_splitNonconformanceId = opened,
             st_splitNonconformanceNo = so_splitNonconformanceNo input\<rparr>, db3)))))"

section \<open>Applying a decision\<close>

definition apply_sort ::
  "quality_db \<Rightarrow> DispositionDecisionCreate \<Rightarrow> id \<Rightarrow> id \<Rightarrow> Target \<Rightarrow> id \<Rightarrow> int \<Rightarrow> string \<Rightarrow> (SortResult option \<times> quality_db) res" where
  "apply_sort db body ncId decisionId target by_user time splitNo =
     (case tg_lotIds target of
        [] \<Rightarrow> Inl InternalError
      | parent # _ \<Rightarrow>
          bind_res
            (if 0 < qty_or_zero (dc_rejectedQty body)
             then bind_res (splitOffWithin db \<lparr>so_nonconformanceId = ncId, so_decisionId = decisionId, so_parentLotId = parent,
                    so_qty = qty_or_zero (dc_rejectedQty body), so_uomId = tg_uomId target,
                    so_businessDate = dc_businessDate body, so_reason = dc_reason body, so_appUserId = by_user,
                    so_decidedAt = time, so_splitNonconformanceNo = splitNo\<rparr>) (\<lambda>(result, db'). Inr (Some result, db'))
             else Inr (None, db)) (\<lambda>(result, db1).
          bind_res (move_or_locked db1 [parent] ''disposition-sort'' (sort_move_context by_user time decisionId (dc_reason body))) (\<lambda>(moved, db2).
          bind_res (releaseInspectionHoldsWithin db2 moved by_user time DISPOSITION_RELEASE_REASON) (\<lambda>db3.
            Inr (result, db3)))))"

definition moveLots ::
  "quality_db \<Rightarrow> DispositionDecisionCreate \<Rightarrow> id \<Rightarrow> id \<Rightarrow> Target \<Rightarrow> id \<Rightarrow> int \<Rightarrow> (SortResult option \<times> quality_db) res" where
  "moveLots db body ncId decisionId target by_user time =
     (case map_of MOVE_ACTION (dc_typeCode body) of
        None \<Rightarrow> Inl InternalError
      | Some action \<Rightarrow>
          bind_res (move_or_locked db (tg_lotIds target) action (sort_move_context by_user time decisionId (dc_reason body))) (\<lambda>(moved, db1).
          bind_res (if dc_typeCode body = ''NORMAL''
                    then releaseInspectionHoldsWithin db1 moved by_user time DISPOSITION_RELEASE_REASON else Inr db1) (\<lambda>db2.
            Inr (None, if dc_typeCode body = ''REWORK'' then reopenIqcRequestForReworkWithin db2 ncId moved by_user else db2))))"

definition assertDecidable :: "code \<Rightarrow> Transition res" where
  "assertDecidable currentStatus =
     with_state_code (assertTransition TRANSITIONS NC_STATUS_COLUMN ''nonconformance-decide'' currentStatus CONFLICT)"

text \<open>What the conditional update writes: a decision that closes also sets the status and the closing time.\<close>

definition decided_nc :: "id \<Rightarrow> int \<Rightarrow> Transition option \<Rightarrow> nonconformance \<Rightarrow> nonconformance" where
  "decided_nc by_user time closes n =
     (case closes of None \<Rightarrow> bump_nc by_user n
      | Some t \<Rightarrow> (bump_nc by_user n)\<lparr>nc_status_code := tr_to t, nc_closed_at := Some time\<rparr>)"

record DispositionResult =
  dz_decisionId :: id
  dz_sortResult :: "SortResult option"
  dz_versionNo :: int

definition decide_disposition ::
  "string \<Rightarrow> int \<Rightarrow> id \<Rightarrow> int \<Rightarrow> DispositionDecisionCreate \<Rightarrow> id \<Rightarrow> quality_db \<Rightarrow> (DispositionResult \<times> quality_db) res" where
  "decide_disposition splitNo time ncId version body by_user db =
     (case find_nc db ncId of
        None \<Rightarrow> Inl (HttpException NOT_FOUND)
      | Some locked \<Rightarrow>
          bind_res (readTarget db locked) (\<lambda>target.
          bind_res (assertDecisionShape body target) (\<lambda>_.
          bind_res (if dc_typeCode body = SORT then assertSortFitsTarget body (length (tg_lotIds target)) (tg_uomScale target)
                    else Inr ()) (\<lambda>_.
          bind_res (guard_res (nc_status_code locked \<noteq> ''DECIDED'') (conflict_code ''INVALID_STATE'')) (\<lambda>_.
          bind_res (assertWithinRemaining body target) (\<lambda>_.
          bind_res (if dc_typeCode body = SORT then assertSortWholeRemaining body target else Inr ()) (\<lambda>_.
          bind_res (create_decision \<lparr>dd_id = 0, dd_nc_id = ncId, dd_type_code = dc_typeCode body, dd_qty = dc_qty body,
              dd_uom_id = dc_uomId body, dd_decided_by = by_user, dd_decided_at = time, dd_approval_request_id = None\<rparr> db) (\<lambda>(decisionId, db1).
          bind_res (if dc_typeCode body = SORT then apply_sort db1 body ncId decisionId target by_user time splitNo
                    else moveLots db1 body ncId decisionId target by_user time) (\<lambda>(result, db2).
          bind_res (if dispositionProgressCode (tg_decisionCount target + 1) (tg_affectedQtyTotal target)
                         (tg_decidedQtyTotal target + dc_qty body) = COMPLETED
                    then map_sum id Some (assertDecidable (nc_status_code locked)) else Inr None) (\<lambda>closes.
          bind_res (update_nc db2 (at_version ncId version) (decided_nc by_user time closes)) (\<lambda>(count', db3).
          bind_res (assertUpdated count' CauseUser (nc_version_conflict locked)) (\<lambda>_.
            Inr (\<lparr>dz_decisionId = decisionId, dz_sortResult = result, dz_versionNo = nc_version_no locked + 1\<rparr>, db3)))))))))))))"

text \<open>The whole request: the shape of a sorting is checked, and the number of the new nonconformance taken, before the
  transaction.\<close>

definition create_disposition ::
  "string res \<Rightarrow> int \<Rightarrow> id \<Rightarrow> int \<Rightarrow> DispositionDecisionCreate \<Rightarrow> id \<Rightarrow> quality_db \<Rightarrow> (DispositionResult \<times> quality_db) res" where
  "create_disposition splitNo time ncId version body by_user db =
     bind_res (if dc_typeCode body = SORT then assertSortShape body else Inr ()) (\<lambda>_.
     bind_res (if dc_typeCode body = SORT \<and> 0 < qty_or_zero (dc_rejectedQty body) then splitNo else Inr []) (\<lambda>no.
       decide_disposition no time ncId version body by_user db))"

end
