(* ===== verification/Concession.thy ===== *)
theory Concession
  imports Disposition Lot_Number
begin

text \<open>
  Concessions, \<open>quality/concession/concession-write.service.ts\<close>: asking to use a rejected LOT under conditions, and
  applying the concession once the approval has decided. Applying leaves a decision on the nonconformance; a concession
  over a part splits the rest off, as sorting does. The Korean word that stands for a missing reason is the parameter
  \<open>label\<close>; an unknown name of an approval type is the parameter \<open>names\<close> of \<open>Approval\<close>.
\<close>

section \<open>Asking\<close>

record ConcessionCreate =
  cc_nonconformanceId :: id
  cc_lotId :: id
  cc_approvedQty :: decimal
  cc_uomId :: id
  cc_validFrom :: string
  cc_validTo :: "string option"
  cc_allowedWorkOrderId :: "id option"
  cc_allowedProcessId :: "id option"
  cc_allowedCustomerId :: "id option"
  cc_reason :: string

text \<open>\<open><\<close> of two strings, by code units.\<close>

fun string_less :: "string \<Rightarrow> string \<Rightarrow> bool" where
  "string_less [] t = (t \<noteq> [])"
| "string_less (c # s) [] = False"
| "string_less (c # s) (d # t) = (if c = d then string_less s t else (of_char c :: nat) < of_char d)"

definition assertConcessionShape :: "ConcessionCreate \<Rightarrow> unit res" where
  "assertConcessionShape body =
     (let errors =
        (if 0 < cc_approvedQty body then [] else [field ''approvedQty'' ''RANGE'']) @
        (if is_business_date (cc_validFrom body) then [] else [field ''validFrom'' ''INVALID'']) @
        (case cc_validTo body of None \<Rightarrow> []
         | Some d \<Rightarrow> if \<not> is_business_date d \<or> string_less d (cc_validFrom body) then [field ''validTo'' ''INVALID''] else []) @
        (if trim (cc_reason body) = [] then [field ''reason'' ''REQUIRED''] else [])
      in if errors \<noteq> [] then Inl (ContractException BAD_REQUEST errors []) else Inr ())"

text \<open>The day \<open>new Date(d + 'T00:00:00Z')\<close> stands for; the driver refuses an invalid date, and the table a range that ends
  before it starts.\<close>

definition day_of_text :: "string \<Rightarrow> int option" where
  "day_of_text s =
     (let m = int (read_nat (take 2 (drop 5 s))); d = int (read_nat (drop 8 s)) in
      if m < 1 \<or> 12 < m \<or> d < 1 \<or> 31 < d then None else Some (make_day (int (read_nat (take 4 s))) (m - 1) d))"

definition create_concession :: "concession \<Rightarrow> quality_db \<Rightarrow> (id \<times> quality_db) res" where
  "create_concession row db =
     (let new = row\<lparr>cn_id := concession_seq db, cn_approved_qty := to_scale (cn_approved_qty row)\<rparr> in
      case day_of_text (cn_valid_from new) of
        None \<Rightarrow> Inl (DbError OtherDriverError)
      | Some first_day \<Rightarrow>
          if cn_approved_qty new \<le> 0 \<or>
             (case cn_valid_to new of None \<Rightarrow> False
              | Some t \<Rightarrow> (case day_of_text t of None \<Rightarrow> True | Some last_day \<Rightarrow> last_day < first_day))
          then Inl (DbError OtherDriverError)
          else if cn_no new \<in> set (map cn_no (concessions db)) then Inl (DbError (P2002 [''concession_no'']))
          else Inr (concession_seq db, db\<lparr>concessions := concessions db @ [new], concession_seq := concession_seq db + 1\<rparr>))"

definition remainingOf :: "quality_db \<Rightarrow> id \<Rightarrow> decimal" where
  "remainingOf db ncId = affected_total db ncId - decided_total db ncId"

definition requested_concession :: "string \<Rightarrow> ConcessionCreate \<Rightarrow> id \<Rightarrow> id \<Rightarrow> concession" where
  "requested_concession no body approval by_user =
     \<lparr>cn_id = 0, cn_no = no, cn_nc_id = cc_nonconformanceId body, cn_lot_id = cc_lotId body,
      cn_approved_qty = cc_approvedQty body, cn_uom_id = cc_uomId body, cn_valid_from = cc_validFrom body,
      cn_valid_to = cc_validTo body, cn_work_order_id = cc_allowedWorkOrderId body, cn_process_id = cc_allowedProcessId body,
      cn_customer_id = cc_allowedCustomerId body, cn_approval_request_id = approval, cn_status_code = ''PENDING'',
      cn_remarks = Some (trim (cc_reason body)), cn_created_by = Some by_user, cn_updated_by = Some by_user,
      cn_version_no = 1\<rparr>"

definition approval_input :: "string \<Rightarrow> ConcessionCreate \<Rightarrow> id \<Rightarrow> ApprovalRequestInput" where
  "approval_input no body by_user =
     \<lparr>ri_approvalRequestNo = no, ri_approvalTypeCode = ''CONCESSION'', ri_targetTypeCode = ''NONCONFORMANCE'',
      ri_targetId = cc_nonconformanceId body, ri_businessUnitId = None, ri_requestedBy = Some by_user,
      ri_requestedWorkerId = None, ri_reason = trim (cc_reason body)\<rparr>"

text \<open>What is checked before the transaction.\<close>

definition assertConcessionFits :: "ConcessionCreate \<Rightarrow> quality_db \<Rightarrow> unit res" where
  "assertConcessionFits body db =
     (if find_nc db (cc_nonconformanceId body) = None then Inl (HttpException NOT_FOUND)
      else case find (\<lambda>r. nl_lot_id r = cc_lotId body) (lots_of_nc db (cc_nonconformanceId body)) of
             None \<Rightarrow> Inl (one (field ''lotId'' ''INVALID''))
           | Some lot \<Rightarrow>
               bind_res (guard_res (nl_uom_id lot = cc_uomId body) (one (field ''uomId'' ''INVALID''))) (\<lambda>_.
                 case map_of (uom_scales db) (nl_uom_id lot) of
                   None \<Rightarrow> Inl (DbError P2025)
                 | Some places \<Rightarrow> assertQtyPrecision ''approvedQty'' (cc_approvedQty body) places))"

definition request_concession ::
  "(code \<Rightarrow> string) \<Rightarrow> string res \<Rightarrow> string res \<Rightarrow> int \<Rightarrow> ConcessionCreate \<Rightarrow> id \<Rightarrow> quality_db \<Rightarrow> (id \<times> quality_db) res" where
  "request_concession names concessionNo approvalNo time body by_user db =
     bind_res (assertConcessionShape body) (\<lambda>_.
     bind_res (assertConcessionFits body db) (\<lambda>_.
     bind_res concessionNo (\<lambda>no.
     bind_res approvalNo (\<lambda>requestNo.
       case find_nc db (cc_nonconformanceId body) of
         None \<Rightarrow> Inl (HttpException NOT_FOUND)
       | Some locked \<Rightarrow>
           bind_res (guard_res (nc_status_code locked \<noteq> ''DECIDED'') (badRequest ''STATE_LOCKED'')) (\<lambda>_.
           bind_res (guard_res (cc_approvedQty body \<le> remainingOf db (cc_nonconformanceId body))
             (one (field ''approvedQty'' ''INVALID''))) (\<lambda>_.
           bind_res (request_approval names (q_approvals db) (approval_input requestNo body by_user) time) (\<lambda>(approval, adb).
             create_concession (requested_concession no body approval by_user) (db\<lparr>q_approvals := adb\<rparr>))))))))"

section \<open>Applying\<close>

definition find_concession :: "quality_db \<Rightarrow> id \<Rightarrow> concession option" where
  "find_concession db i = find (\<lambda>c. cn_id c = i) (concessions db)"

definition close_concession :: "quality_db \<Rightarrow> id \<Rightarrow> code \<Rightarrow> id \<Rightarrow> quality_db" where
  "close_concession db i status by_user =
     db\<lparr>concessions := map (\<lambda>c. if cn_id c = i
         then c\<lparr>cn_status_code := status, cn_updated_by := Some by_user, cn_version_no := cn_version_no c + 1\<rparr> else c) (concessions db)\<rparr>"

definition mayHaveRemainder :: "quality_db \<Rightarrow> id \<Rightarrow> bool" where
  "mayHaveRemainder db concessionId =
     (case find_concession db concessionId of
        None \<Rightarrow> False
      | Some c \<Rightarrow> cn_status_code c = ''PENDING'' \<and> cn_approved_qty c < remainingOf db (cn_nc_id c))"

text \<open>The part after the approval: \<open>splitNo\<close> is \<open>None\<close> when no number was taken before the transaction.\<close>

definition apply_approved ::
  "string \<Rightarrow> string option \<Rightarrow> int \<Rightarrow> string option \<Rightarrow> id \<Rightarrow> concession \<Rightarrow> quality_db \<Rightarrow> (SortResult option \<times> quality_db) res" where
  "apply_approved label splitNo time businessDate by_user c db =
     (case find_nc db (cn_nc_id c) of
        None \<Rightarrow> Inl (HttpException NOT_FOUND)
      | Some nc \<Rightarrow>
          bind_res (guard_res (nc_status_code nc \<noteq> ''DECIDED'') (badRequest ''STATE_LOCKED'')) (\<lambda>_.
          let remaining = remainingOf db (cn_nc_id c); splitQty = remaining - cn_approved_qty c; splitting = 0 < splitQty;
              decisionQty = (if splitting then remaining else cn_approved_qty c);
              reason = (case cn_remarks c of None \<Rightarrow> label | Some r \<Rightarrow> r)
          in bind_res (guard_res (cn_approved_qty c \<le> remaining) (one (field ''approvedQty'' ''INVALID''))) (\<lambda>_.
          bind_res (guard_res (splitting \<longrightarrow> length (lots_of_nc db (cn_nc_id c)) = 1) (badRequest ''STATE_LOCKED'')) (\<lambda>_.
          bind_res (create_decision \<lparr>dd_id = 0, dd_nc_id = cn_nc_id c, dd_type_code = ''CONCESSION'', dd_qty = decisionQty,
              dd_uom_id = cn_uom_id c, dd_decided_by = by_user, dd_decided_at = time,
              dd_approval_request_id = Some (cn_approval_request_id c)\<rparr> db) (\<lambda>(decisionId, db1).
          bind_res
            (if splitting
             then case splitNo of
                    None \<Rightarrow> Inl InternalError
                  | Some no \<Rightarrow>
                      bind_res (splitOffWithin db1 \<lparr>so_nonconformanceId = cn_nc_id c, so_decisionId = decisionId,
                          so_parentLotId = cn_lot_id c, so_qty = splitQty, so_uomId = cn_uom_id c, so_businessDate = businessDate,
                          so_reason = reason, so_appUserId = by_user, so_decidedAt = time, so_splitNonconformanceNo = no\<rparr>)
                        (\<lambda>(result, db'). Inr (Some result, db'))
             else Inr (None, db1)) (\<lambda>(result, db2).
          bind_res (move_or_locked db2 [cn_lot_id c] ''concession-apply''
              \<lparr>qc_changedBy = Some by_user, qc_changedWorkerId = None, qc_changedAt = time,
               qc_sourceDocumentTypeCode = Some ''CONCESSION'', qc_sourceDocumentId = Some (cn_id c),
               qc_sourceDocumentIdByLot = None, qc_reasonCode = None, qc_reason = cn_remarks c, qc_transitionCode = None\<rparr>) (\<lambda>(_, db3).
          bind_res (releaseInspectionHoldsWithin db3 [cn_lot_id c] by_user time ''CONCESSION_APPROVED'') (\<lambda>db4.
          bind_res (if dispositionProgressCode (length (decisions_of db (cn_nc_id c)) + 1) (affected_total db (cn_nc_id c))
                         (decided_total db (cn_nc_id c) + to_scale decisionQty) = COMPLETED
                    then map_sum id Some (assertTransition TRANSITIONS NC_STATUS_COLUMN ''nonconformance-decide'' (nc_status_code nc) CONFLICT)
                    else Inr None) (\<lambda>closes.
          bind_res (update_nc db4 (\<lambda>n. nc_id n = cn_nc_id c) (decided_nc by_user time closes)) (\<lambda>(_, db5).
            Inr (result, close_concession db5 (cn_id c) ''APPROVED'' by_user)))))))))))"

definition apply_concession ::
  "string \<Rightarrow> string res \<Rightarrow> int \<Rightarrow> id \<Rightarrow> id \<Rightarrow> string option \<Rightarrow> quality_db \<Rightarrow> (SortResult option \<times> quality_db) res" where
  "apply_concession label number time concessionId by_user businessDate db =
     bind_res (guard_res (case businessDate of None \<Rightarrow> True | Some d \<Rightarrow> is_business_date d)
       (one (field ''businessDate'' ''INVALID''))) (\<lambda>_.
     bind_res (if mayHaveRemainder db concessionId then map_sum id Some number else Inr None) (\<lambda>splitNo.
       case find_concession db concessionId of
         None \<Rightarrow> Inl (HttpException NOT_FOUND)
       | Some c \<Rightarrow>
           bind_res (guard_res (cn_status_code c = ''PENDING'') (badRequest ''STATE_LOCKED'')) (\<lambda>_.
             case find_request (q_approvals db) (cn_approval_request_id c) of
               None \<Rightarrow> Inl (DbError P2025)
             | Some approval \<Rightarrow>
                 if ar_status_code approval = ''PENDING'' then Inl (badRequest ''APPROVAL_IN_PROGRESS'')
                 else if ar_status_code approval \<noteq> ''APPROVED''
                 then Inr (None, close_concession db (cn_id c) ''REJECTED'' by_user)
                 else apply_approved label splitNo time businessDate by_user c db)))"

end
