(* ===== verification/Quality_Life.thy ===== *)
theory Quality_Life
  imports Concession
begin

text \<open>
  The life of the nonconformances: one step is one successful transaction of \<open>Nonconformance\<close>, \<open>Disposition\<close> or
  \<open>Concession\<close>, or a change that other parts of the server make to LOTs, stock and approvals. The theorems are
  invariants of every reached store (never more decided than affected, decided exactly when nothing is left, one open
  nonconformance per LOT).
\<close>

section \<open>The invariant\<close>

definition NC_STATUSES :: "code list" where
  "NC_STATUSES = [''NOT_REQUESTED'', ''PENDING_DECISION'', ''DECIDED'']"

definition nc_decided :: "nonconformance \<Rightarrow> bool" where
  "nc_decided n \<longleftrightarrow> nc_status_code n = ''DECIDED''"

definition progress_of :: "quality_db \<Rightarrow> id \<Rightarrow> DispositionProgressCode" where
  "progress_of db i = dispositionProgressCode (length (decisions_of db i)) (affected_total db i) (decided_total db i)"

definition nc_ok :: "quality_db \<Rightarrow> nonconformance \<Rightarrow> bool" where
  "nc_ok db n \<longleftrightarrow> nc_status_code n \<in> set NC_STATUSES \<and> (nc_closed_at n = None) \<noteq> nc_decided n \<and>
     decided_total db (nc_id n) \<le> affected_total db (nc_id n) \<and> nc_decided n = (progress_of db (nc_id n) = COMPLETED)"

definition nc_ids :: "quality_db \<Rightarrow> id set" where
  "nc_ids db = nc_id ` set (nonconformances db)"

definition lots_known :: "lot_db \<Rightarrow> id set" where
  "lots_known ldb = lot_id ` set (lots ldb)"

definition one_open :: "quality_db \<Rightarrow> bool" where
  "one_open db \<longleftrightarrow> (\<forall>r \<in> set (nc_lots db). \<forall>r' \<in> set (nc_lots db).
     nl_lot_id r = nl_lot_id r' \<and> is_open_nc db (nl_nc_id r) \<and> is_open_nc db (nl_nc_id r') \<longrightarrow> nl_nc_id r = nl_nc_id r')"

definition positive :: "decimal \<Rightarrow> bool" where
  "positive q \<longleftrightarrow> scaled q \<and> 0 < q"

definition tables_ok :: "quality_db \<Rightarrow> bool" where
  "tables_ok db \<longleftrightarrow> id_column (nc_seq db) (map nc_id (nonconformances db)) \<and> lot_ids_ok (q_lots db) \<and>
     (\<forall>r \<in> set (nc_lots db). nl_nc_id r \<in> nc_ids db \<and> nl_lot_id r \<in> lots_known (q_lots db) \<and> positive (nl_affected_qty r)) \<and>
     (\<forall>d \<in> set (decisions db). dd_nc_id d \<in> nc_ids db \<and> positive (dd_qty d)) \<and>
     (\<forall>c \<in> set (concessions db). scaled (cn_approved_qty c)) \<and> (\<forall>(u, s) \<in> set (uom_scales db). s \<le> 6)"

definition quality_ok :: "quality_db \<Rightarrow> bool" where
  "quality_ok db \<longleftrightarrow> tables_ok db \<and> (\<forall>n \<in> set (nonconformances db). nc_ok db n) \<and> one_open db"

section \<open>What leaves the nonconformances alone\<close>

definition lots_grow :: "lot_db \<Rightarrow> lot_db \<Rightarrow> bool" where
  "lots_grow ldb ldb' \<longleftrightarrow> lots_known ldb \<subseteq> lots_known ldb' \<and> (lot_ids_ok ldb \<longrightarrow> lot_ids_ok ldb')"

lemma lots_grow_refl [simp]: "lots_grow ldb ldb"
  by (simp add: lots_grow_def)

lemma lots_grow_trans: "lots_grow a b \<Longrightarrow> lots_grow b c \<Longrightarrow> lots_grow a c"
  by (auto simp: lots_grow_def)

definition nc_part :: "quality_db \<Rightarrow> nonconformance list \<times> id \<times> nonconformance_lot list \<times> disposition_decision list \<times>
    (id \<times> nat) list" where
  "nc_part db = (nonconformances db, nc_seq db, nc_lots db, decisions db, uom_scales db)"

definition same_quality :: "quality_db \<Rightarrow> quality_db \<Rightarrow> bool" where
  "same_quality db db' \<longleftrightarrow> nc_part db' = nc_part db \<and> lots_grow (q_lots db) (q_lots db') \<and>
     cn_approved_qty ` set (concessions db') \<subseteq> cn_approved_qty ` set (concessions db) \<union> Collect scaled"

lemma same_quality_refl [simp]: "same_quality db db"
  by (simp add: same_quality_def)

lemma same_quality_trans [trans]: "same_quality a b \<Longrightarrow> same_quality b c \<Longrightarrow> same_quality a c"
  unfolding same_quality_def by (elim conjE, intro conjI) (simp, blast intro: lots_grow_trans, blast)

lemma totals_part:
  assumes "nc_lots db' = nc_lots db" and "decisions db' = decisions db"
  shows "lots_of_nc db' i = lots_of_nc db i" "decisions_of db' i = decisions_of db i" "affected_total db' i = affected_total db i"
    "decided_total db' i = decided_total db i" "progress_of db' i = progress_of db i"
  using assms by (simp_all add: lots_of_nc_def decisions_of_def affected_total_def decided_total_def progress_of_def)

lemma same_quality_fields:
  assumes "same_quality db db'"
  shows "nonconformances db' = nonconformances db" "nc_seq db' = nc_seq db" "nc_lots db' = nc_lots db"
    "decisions db' = decisions db" "uom_scales db' = uom_scales db" "lots_grow (q_lots db) (q_lots db')"
  using assms by (simp_all add: same_quality_def nc_part_def)

lemma same_quality_keeps: "same_quality db db' \<Longrightarrow> quality_ok db \<Longrightarrow> quality_ok db'"
proof -
  assume same: "same_quality db db'" and ok: "quality_ok db"
  note f = same_quality_fields [OF same]
  have "\<forall>c \<in> set (concessions db'). scaled (cn_approved_qty c)"
    using same ok by (auto simp: same_quality_def quality_ok_def tables_ok_def)
  then have "tables_ok db'" using ok f by (auto simp: quality_ok_def tables_ok_def nc_ids_def lots_grow_def)
  moreover have "nc_ok db' = nc_ok db" using f by (intro ext) (simp add: nc_ok_def totals_part [OF f(3,4)])
  moreover have "one_open db' = one_open db" using f by (simp add: one_open_def is_open_nc_def)
  ultimately show ?thesis using ok f by (simp add: quality_ok_def)
qed

lemma lots_changed: "lots_grow (q_lots db) ldb \<Longrightarrow> same_quality db (db\<lparr>q_lots := ldb\<rparr>)"
  by (simp add: same_quality_def nc_part_def)

lemma stock_changed: "same_quality db (db\<lparr>q_stock := s\<rparr>)"
  by (simp add: same_quality_def nc_part_def)

lemma update_lots_grow: "(\<And>l. lot_id (f l) = lot_id l) \<Longrightarrow> lots_grow ldb (update_lots ids f ldb)"
proof -
  assume f: "\<And>l. lot_id (f l) = lot_id l"
  have ids: "map lot_id (lots (update_lots ids f ldb)) = map lot_id (lots ldb)" by (rule update_lots_ids) (rule f)
  have "lots_known (update_lots ids f ldb) = lots_known ldb" using arg_cong [OF ids, of set] by (simp add: lots_known_def)
  then show ?thesis using ids unfolding lots_grow_def lot_ids_ok_def by (simp only: ids) (simp add: update_lots_def)
qed

lemma moveQuality_grow:
  assumes "moveQuality ldb ids action ctx = Inr (r, ldb')" and "lot_ids_ok ldb"
  shows "lots_grow ldb ldb'"
proof (rule moveQuality_effect [OF assms])
  fix t code'
  assume "ldb' = (update_lots (set (movedLotIds r)) (to_quality t) ldb)
      \<lparr>status_events := status_events ldb @ map (quality_event t code' ctx) (filter (quality_accepts t) (lots_in ldb ids))\<rparr>"
  moreover have "lots_grow ldb (update_lots (set (movedLotIds r)) (to_quality t) ldb)"
    by (rule update_lots_grow) (simp add: to_quality_def)
  ultimately show ?thesis by (simp add: lots_grow_def lots_known_def lot_ids_ok_def)
qed

lemma move_or_locked_same:
  assumes "move_or_locked db ids action ctx = Inr (m, db')" and "lot_ids_ok (q_lots db)"
  shows "same_quality db db'"
  using assms moveQuality_grow [of "q_lots db" ids action ctx] lots_changed
  by (auto simp: move_or_locked_def res_simps split: if_splits)

lemma releaseWithin_lots:
  assumes "releaseWithin ldb locked target input actor = Inr (v, ldb')"
  shows "lots ldb' = lots ldb \<and> lot_seq ldb' = lot_seq ldb"
proof -
  from assms obtain rs where run: "fold_res (release_step input actor) (target_holds ldb target) ([], ldb) = Inr (rs, ldb')"
    by (auto simp: releaseWithin_def Let_def res_simps)
  have "lots (snd (rs, ldb')) = lots ldb \<and> lot_seq (snd (rs, ldb')) = lot_seq ldb"
    by (rule fold_res_invariant [OF run, where P = "\<lambda>st. lots (snd st) = lots ldb \<and> lot_seq (snd st) = lot_seq ldb"])
      (auto simp: release_step_def close_hold_def create_hold_def Let_def res_simps split: if_splits option.splits)
  then show ?thesis by simp
qed

lemma release_holds_lots:
  assumes "releaseInspectionHoldsWithin db ids by_user time reason = Inr db'"
  shows "db' = db\<lparr>q_lots := q_lots db'\<rparr> \<and> lots (q_lots db') = lots (q_lots db) \<and> lot_seq (q_lots db') = lot_seq (q_lots db)"
proof -
  from assms obtain targets locked input actor ldb where
      run: "fold_res (\<lambda>i ldb. bind_res (releaseWithin ldb locked \<lparr>ht_lotId = i, ht_lotHoldIds = None, ht_reasonCode = Some INSPECTION_HOLD_REASON\<rparr>
        input actor) (\<lambda>(released, ldb'). Inr ldb')) targets (q_lots db) = Inr ldb" and db': "db' = db\<lparr>q_lots := ldb\<rparr>"
    by (auto simp: releaseInspectionHoldsWithin_def Let_def bind_res_eq_Inr)
  have "lots ldb = lots (q_lots db) \<and> lot_seq ldb = lot_seq (q_lots db)"
    by (rule fold_res_invariant [OF run, where P = "\<lambda>l. lots l = lots (q_lots db) \<and> lot_seq l = lot_seq (q_lots db)"])
      (auto simp: bind_res_eq_Inr dest!: releaseWithin_lots)
  then show ?thesis by (simp add: db')
qed

lemma release_holds_same:
  assumes "releaseInspectionHoldsWithin db ids by_user time reason = Inr db'"
  shows "same_quality db db'"
proof -
  note r = release_holds_lots [OF assms]
  have "same_quality db (db\<lparr>q_lots := q_lots db'\<rparr>)"
    by (rule lots_changed) (use r in \<open>simp add: lots_grow_def lots_known_def lot_ids_ok_def\<close>)
  then show ?thesis using r by simp
qed

lemma reopen_same: "same_quality db (reopenIqcRequestForReworkWithin db ncId ids by_user)"
proof -
  have "same_quality db (reopenInspectionRequestWithin db i u)" for i u
    unfolding reopenInspectionRequestWithin_def by (rule lots_changed) (simp add: lots_grow_def lots_known_def lot_ids_ok_def)
  then show ?thesis by (auto simp: reopenIqcRequestForReworkWithin_def split: option.splits)
qed

lemma moveStock_same: "moveStock db child input = Inr db' \<Longrightarrow> same_quality db db'"
  by (auto simp: moveStock_def res_simps stock_changed split: list.splits option.splits if_splits)

lemma moveLots_same:
  assumes "moveLots db body ncId decisionId target by_user time = Inr (r, db')" and "lot_ids_ok (q_lots db)"
  shows "same_quality db db' \<and> r = None"
proof -
  from assms(1) obtain action m db1 db2 where
      one: "move_or_locked db (tg_lotIds target) action (sort_move_context by_user time decisionId (dc_reason body)) = Inr (m, db1)"
    and two: "(if dc_typeCode body = ''NORMAL'' then releaseInspectionHoldsWithin db1 m by_user time DISPOSITION_RELEASE_REASON else Inr db1) = Inr db2"
    and fin: "db' = (if dc_typeCode body = ''REWORK'' then reopenIqcRequestForReworkWithin db2 ncId m by_user else db2)" and r: "r = None"
    by (auto simp: moveLots_def bind_res_eq_Inr split: option.splits)
  have "same_quality db db1" by (rule move_or_locked_same [OF one assms(2)])
  also have "same_quality db1 db2" using two release_holds_same by (auto split: if_splits)
  also have "same_quality db2 db'" using reopen_same by (simp add: fin)
  finally show ?thesis by (simp add: r)
qed

section \<open>Opening a nonconformance\<close>

definition open_nc :: "nonconformance \<Rightarrow> nonconformance_lot list \<Rightarrow> quality_db \<Rightarrow> quality_db" where
  "open_nc n rows db = db\<lparr>nonconformances := nonconformances db @ [n\<lparr>nc_id := nc_seq db\<rparr>], nc_seq := nc_seq db + 1,
     nc_lots := nc_lots db @ rows\<rparr>"

lemma nc_id_fresh: "tables_ok db \<Longrightarrow> nc_seq db \<notin> nc_ids db"
  using id_column_fresh [of "nc_seq db" "map nc_id (nonconformances db)"] by (simp add: tables_ok_def nc_ids_def)

lemma find_nc_iff: "tables_ok db \<Longrightarrow> find_nc db i = Some n \<longleftrightarrow> n \<in> set (nonconformances db) \<and> nc_id n = i"
proof -
  assume "tables_ok db"
  then have "distinct (map nc_id (nonconformances db))" using id_column_distinct by (simp add: tables_ok_def) blast
  then show ?thesis using find_by_key [of nc_id "nonconformances db" n] find_key [of nc_id i "nonconformances db" n]
    by (auto simp: find_nc_def)
qed

lemma find_nc_only: "tables_ok db \<Longrightarrow> find_nc db i = Some n \<Longrightarrow> \<forall>x \<in> set (nonconformances db). nc_id x = i \<longrightarrow> x = n"
proof
  fix x assume rok: "tables_ok db" and n: "find_nc db i = Some n" and x: "x \<in> set (nonconformances db)"
  show "nc_id x = i \<longrightarrow> x = n" using n x find_nc_iff [OF rok, of i x] by auto
qed

lemma open_nc_totals:
  assumes "tables_ok db" and "\<forall>r \<in> set rows. nl_nc_id r = nc_seq db"
  shows "i \<noteq> nc_seq db \<Longrightarrow> lots_of_nc (open_nc n rows db) i = lots_of_nc db i"
    and "lots_of_nc (open_nc n rows db) (nc_seq db) = rows"
    and "decisions_of (open_nc n rows db) i = decisions_of db i" and "decisions_of db (nc_seq db) = []"
proof -
  have none: "\<not> (\<exists>r \<in> set (nc_lots db). nl_nc_id r = nc_seq db)" "\<not> (\<exists>d \<in> set (decisions db). dd_nc_id d = nc_seq db)"
    using assms(1) nc_id_fresh [OF assms(1)] by (auto simp: tables_ok_def)
  show "i \<noteq> nc_seq db \<Longrightarrow> lots_of_nc (open_nc n rows db) i = lots_of_nc db i"
    using assms(2) by (simp add: lots_of_nc_def open_nc_def filter_empty_conv)
  show "lots_of_nc (open_nc n rows db) (nc_seq db) = rows"
    using assms(2) none by (auto simp: lots_of_nc_def open_nc_def filter_empty_conv filter_id_conv)
  show "decisions_of (open_nc n rows db) i = decisions_of db i" by (simp add: decisions_of_def open_nc_def)
  show "decisions_of db (nc_seq db) = []" using none by (auto simp: decisions_of_def filter_empty_conv)
qed

lemma is_open_open_nc:
  assumes "tables_ok db" and "nc_closed_at n = None"
  shows "is_open_nc (open_nc n rows db) i \<longleftrightarrow> is_open_nc db i \<or> i = nc_seq db"
  using assms by (auto simp: is_open_nc_def open_nc_def)

lemma sum_positive: "(\<And>r. r \<in> set rows \<Longrightarrow> positive (nl_affected_qty r)) \<Longrightarrow> 0 \<le> sum_list (map nl_affected_qty rows)"
  by (rule sum_list_nonneg) (force simp: positive_def)

lemma open_nc_keeps:
  assumes ok: "quality_ok db" and rows: "\<And>r. r \<in> set rows \<Longrightarrow> nl_nc_id r = nc_seq db \<and> nl_lot_id r \<in> lots_known (q_lots db) \<and>
      positive (nl_affected_qty r) \<and> (\<forall>r' \<in> set (nc_lots db). nl_lot_id r' = nl_lot_id r \<longrightarrow> \<not> is_open_nc db (nl_nc_id r'))"
    and n: "nc_status_code n \<in> {''NOT_REQUESTED'', ''PENDING_DECISION''}" "nc_closed_at n = None"
  shows "quality_ok (open_nc n rows db)"
proof -
  let ?db = "open_nc n rows db"
  have rok: "tables_ok db" using ok by (simp add: quality_ok_def)
  have fresh: "nc_seq db \<notin> nc_ids db" by (rule nc_id_fresh [OF rok])
  have mine: "\<forall>r \<in> set rows. nl_nc_id r = nc_seq db" using rows by blast
  note tot = open_nc_totals [OF rok mine]
  have ids: "nc_ids ?db = insert (nc_seq db) (nc_ids db)" by (auto simp: nc_ids_def open_nc_def)
  have col: "id_column (nc_seq ?db) (map nc_id (nonconformances ?db))"
    using rok id_column_append [of "nc_seq db" "map nc_id (nonconformances db)"] by (simp add: tables_ok_def open_nc_def)
  have fields: "q_lots ?db = q_lots db" "decisions ?db = decisions db" "concessions ?db = concessions db"
    "uom_scales ?db = uom_scales db" "nc_lots ?db = nc_lots db @ rows" by (simp_all add: open_nc_def)
  have "tables_ok ?db"
    unfolding tables_ok_def ids fields using col rok rows by (auto simp: tables_ok_def)
  moreover have "nc_ok ?db m" if m: "m \<in> set (nonconformances ?db)" for m
  proof (cases "nc_id m = nc_seq db")
    case True
    with fresh have "m \<notin> set (nonconformances db)" by (force simp: nc_ids_def)
    with m have eq: "m = n\<lparr>nc_id := nc_seq db\<rparr>" by (simp add: open_nc_def)
    have "0 \<le> sum_list (map nl_affected_qty rows)" by (rule sum_positive) (use rows in blast)
    then show ?thesis using n tot(2) tot(3) [of n "nc_seq db"] tot(4)
      by (auto simp: nc_ok_def eq progress_of_def affected_total_def decided_total_def dispositionProgressCode_def nc_decided_def NC_STATUSES_def)
  next
    case False
    with m have "m \<in> set (nonconformances db)" by (auto simp: open_nc_def)
    then have "nc_ok db m" using ok by (simp add: quality_ok_def)
    then show ?thesis using tot(1) [OF False] tot(3) [of n "nc_id m"]
      by (simp add: nc_ok_def progress_of_def affected_total_def decided_total_def)
  qed
  moreover have "one_open ?db"
  proof -
    have old: "nl_nc_id r \<noteq> nc_seq db" if "r \<in> set (nc_lots db)" for r using that rok fresh by (auto simp: tables_ok_def)
    show ?thesis unfolding one_open_def is_open_open_nc [OF rok n(2)] fields(5)
      using ok rows old by (fastforce simp: quality_ok_def one_open_def)
  qed
  ultimately show ?thesis by (simp add: quality_ok_def)
qed

section \<open>Deciding\<close>

text \<open>A decision over \<open>d\<close> that also rewrites its nonconformance.\<close>

definition decide_nc :: "disposition_decision \<Rightarrow> (nonconformance \<Rightarrow> nonconformance) \<Rightarrow> quality_db \<Rightarrow> quality_db" where
  "decide_nc d f db = db\<lparr>decisions := decisions db @ [d],
     nonconformances := map (\<lambda>n. if nc_id n = dd_nc_id d then f n else n) (nonconformances db)\<rparr>"

text \<open>The remaining quantity decides whether \<open>f\<close> closes.\<close>

definition closing :: "quality_db \<Rightarrow> id \<Rightarrow> decimal \<Rightarrow> Transition option \<Rightarrow> bool" where
  "closing db i qty closes \<longleftrightarrow>
     (if dispositionProgressCode (length (decisions_of db i) + 1) (affected_total db i) (decided_total db i + qty) = COMPLETED
      then (\<exists>t. closes = Some t \<and> tr_to t = ''DECIDED'') else closes = None)"

lemma decided_nc_fields [simp]:
  "nc_id (decided_nc u t c n) = nc_id n"
  "nc_status_code (decided_nc u t c n) = (case c of None \<Rightarrow> nc_status_code n | Some x \<Rightarrow> tr_to x)"
  "nc_closed_at (decided_nc u t c n) = (case c of None \<Rightarrow> nc_closed_at n | Some x \<Rightarrow> Some t)"
  by (simp_all add: decided_nc_def bump_nc_def split: option.splits)

lemma map_ids_if: "(\<And>n. nc_id (f n) = nc_id n) \<Longrightarrow> map nc_id (map (\<lambda>n. if P n then f n else n) xs) = map nc_id xs"
  by simp

lemma decide_totals:
  "affected_total (decide_nc d f db) j = affected_total db j"
  "decided_total (decide_nc d f db) j = decided_total db j + (if j = dd_nc_id d then dd_qty d else 0)"
  "length (decisions_of (decide_nc d f db) j) = length (decisions_of db j) + (if j = dd_nc_id d then 1 else 0)"
  by (simp_all add: decide_nc_def affected_total_def decided_total_def decisions_of_def lots_of_nc_def)

lemma decide_nc_keeps:
  assumes ok: "quality_ok db" and nc: "find_nc db (dd_nc_id d) = Some nc" and open_nc': "\<not> nc_decided nc"
    and qty: "positive (dd_qty d)" "decided_total db (dd_nc_id d) + dd_qty d \<le> affected_total db (dd_nc_id d)"
    and closes: "closing db (dd_nc_id d) (dd_qty d) c"
  shows "quality_ok (decide_nc d (decided_nc u t c) db)"
proof -
  let ?db = "decide_nc d (decided_nc u t c) db" and ?f = "decided_nc u t c"
  have rok: "tables_ok db" using ok by (simp add: quality_ok_def)
  have found: "nc \<in> set (nonconformances db)" "nc_id nc = dd_nc_id d" using nc find_nc_iff [OF rok] by auto
  have ids: "map nc_id (nonconformances ?db) = map nc_id (nonconformances db)" by (simp add: decide_nc_def)
  have idset: "nc_ids ?db = nc_ids db" using arg_cong [OF ids, of set] by (simp add: nc_ids_def)
  have fields: "q_lots ?db = q_lots db" "decisions ?db = decisions db @ [d]" "concessions ?db = concessions db"
    "uom_scales ?db = uom_scales db" "nc_lots ?db = nc_lots db" "nc_seq ?db = nc_seq db" by (simp_all add: decide_nc_def)
  have "dd_nc_id d \<in> nc_ids db" using found by (force simp: nc_ids_def)
  then have "tables_ok ?db" unfolding tables_ok_def ids idset fields using rok qty(1) by (auto simp: tables_ok_def)
  moreover have "nc_ok ?db m" if m: "m \<in> set (nonconformances ?db)" for m
  proof -
    from m obtain n where n: "n \<in> set (nonconformances db)" "m = (if nc_id n = dd_nc_id d then ?f n else n)"
      by (auto simp: decide_nc_def)
    have nok: "nc_ok db n" using ok n(1) by (simp add: quality_ok_def)
    show ?thesis
    proof (cases "nc_id n = dd_nc_id d")
      case False
      with n(2) have "m = n" by simp
      with False nok show ?thesis by (simp add: nc_ok_def progress_of_def decide_totals)
    next
      case True
      with found n(1) find_nc_iff [OF rok, of "dd_nc_id d" n] nc have "n = nc" by simp
      with True nok open_nc' qty(2) closes n(2) show ?thesis
        by (cases c) (auto simp: nc_ok_def progress_of_def decide_totals closing_def nc_decided_def NC_STATUSES_def split: if_splits)
    qed
  qed
  moreover have "one_open ?db"
  proof -
    have "is_open_nc ?db i \<Longrightarrow> is_open_nc db i" for i
      by (auto simp: is_open_nc_def list_ex_iff decide_nc_def split: if_splits option.splits)
    then show ?thesis using ok unfolding one_open_def fields quality_ok_def by blast
  qed
  ultimately show ?thesis by (simp add: quality_ok_def)
qed

section \<open>The quantities\<close>

lemma places_scaled: "decimal_places_within n q \<Longrightarrow> n \<le> 6 \<Longrightarrow> scaled q"
proof -
  assume d: "decimal_places_within n q" and n: "n \<le> 6"
  let ?m = "\<lfloor>q * 10 ^ n\<rfloor> * 10 ^ (6 - n)"
  have "(of_int ?m :: rat) = q * 10 ^ n * 10 ^ (6 - n)" using d by (simp add: decimal_places_within_def)
  also have "\<dots> = q * 10 ^ 6" using n by (simp add: power_add [symmetric] mult.assoc)
  finally have "q = of_int ?m / 1000000" by simp
  then show ?thesis unfolding scaled_iff by blast
qed

lemma assertQtyPrecision_scaled: "assertQtyPrecision name q n = Inr () \<Longrightarrow> n \<le> 6 \<Longrightarrow> scaled q"
  by (rule places_scaled [of n]) (auto simp: assertQtyPrecision_def split: if_splits)

lemma scaled_to_scale_idem: "scaled (to_scale q)"
  unfolding scaled_iff to_scale_def by blast

lemma scaled_plus: "scaled a \<Longrightarrow> scaled b \<Longrightarrow> scaled (a + b)"
  unfolding scaled_iff by (metis add_divide_distrib of_int_add)

lemma scaled_sum: "(\<And>x. x \<in> set xs \<Longrightarrow> scaled (f x)) \<Longrightarrow> scaled (sum_list (map f xs))"
proof (induction xs)
  case Nil
  have "scaled 0" unfolding scaled_iff by (rule exI [of _ 0]) simp
  then show ?case by simp
next
  case (Cons x xs)
  then show ?case by (simp add: scaled_plus)
qed

lemma totals_scaled:
  assumes "tables_ok db"
  shows "scaled (affected_total db i)" "scaled (decided_total db i)"
  using assms by (auto simp: affected_total_def decided_total_def lots_of_nc_def decisions_of_def tables_ok_def positive_def intro!: scaled_sum)

section \<open>The effect of applying a decision\<close>

lemma splitLotWithin_grow:
  assumes "splitLotWithin ldb input = Inr ((child, no), ldb')" and "lot_ids_ok ldb"
  obtains parent where "find_lot ldb (sp_parentLotId input) = Some parent" and "child = lot_seq ldb"
    and "child \<notin> lots_known ldb" and "child \<in> lots_known ldb'" and "lots_grow ldb ldb'"
    and "lots ldb' = lots ldb @ [(split_child parent input no)\<lparr>lot_id := child, initial_qty := to_scale (sp_qty input)\<rparr>]"
    and "lot_holds ldb' = lot_holds ldb"
proof -
  from assms(1) obtain parent where parent: "find_lot ldb (sp_parentLotId input) = Some parent"
    by (auto simp: splitLotWithin_def split: option.splits)
  from assms(1) obtain ldb1 rels where new: "create_lot (split_child parent input no) ldb = Inr (child, ldb1)"
    and fin: "ldb' = ldb1\<lparr>lot_relations := rels\<rparr>"
    unfolding splitLotWithin_def parent option.case Let_def bind_res_eq_Inr case_prod_eq_Inr by blast
  let ?new = "(split_child parent input no)\<lparr>lot_id := lot_seq ldb, initial_qty := to_scale (sp_qty input)\<rparr>"
  have c: "child = lot_seq ldb" and ldb1: "ldb1 = ldb\<lparr>lots := lots ldb @ [?new], lot_seq := lot_seq ldb + 1\<rparr>"
    using new by (auto simp: create_lot_def Let_def split_child_def split: if_splits)
  have ids: "id_column (lot_seq ldb) (map lot_id (lots ldb))" using assms(2) by (simp add: lot_ids_ok_def)
  have "lot_ids_ok ldb'" using id_column_append [OF ids] by (simp add: fin ldb1 lot_ids_ok_def)
  moreover have "child \<notin> lots_known ldb" using id_column_fresh [OF ids] by (simp add: c lots_known_def)
  ultimately show ?thesis using that [OF parent c] by (auto simp: fin ldb1 c lots_known_def lots_grow_def)
qed

text \<open>What opening the nonconformance of a split-off part adds.\<close>

definition split_row :: "quality_db \<Rightarrow> quality_db \<Rightarrow> nonconformance \<Rightarrow> nonconformance_lot \<Rightarrow> bool" where
  "split_row db dbx n row \<longleftrightarrow> nl_nc_id row = nc_seq dbx \<and> nl_lot_id row \<in> lots_known (q_lots dbx) \<and>
     nl_lot_id row \<notin> lots_known (q_lots db) \<and> positive (nl_affected_qty row) \<and>
     nc_status_code n = ''PENDING_DECISION'' \<and> nc_closed_at n = None"

definition split_effect :: "quality_db \<Rightarrow> quality_db \<Rightarrow> bool" where
  "split_effect db db' \<longleftrightarrow> same_quality db db' \<or>
     (\<exists>dbx n row. same_quality db dbx \<and> split_row db dbx n row \<and> same_quality (open_nc n [row] dbx) db')"

lemma split_effect_then: "split_effect a b \<Longrightarrow> same_quality b c \<Longrightarrow> split_effect a c"
  unfolding split_effect_def using same_quality_trans by blast

lemma split_effect_grow: "split_effect a b \<Longrightarrow> lots_grow (q_lots a) (q_lots b)"
proof (unfold split_effect_def, elim disjE exE conjE)
  fix x n row assume x: "same_quality a x" and b: "same_quality (open_nc n [row] x) b"
  have "lots_grow (q_lots x) (q_lots b)" using same_quality_fields(6) [OF b] by (simp add: open_nc_def)
  with same_quality_fields(6) [OF x] show ?thesis by (rule lots_grow_trans)
qed (rule same_quality_fields)

lemma openSplit_effect:
  assumes "openSplitNonconformance db child input = Inr (i, db')"
  obtains n row where "db' = open_nc n [row] db" and "nl_nc_id row = nc_seq db" and "nl_lot_id row = child"
    and "positive (nl_affected_qty row)" and "nc_status_code n = ''PENDING_DECISION''" and "nc_closed_at n = None"
    and "nl_affected_qty row = to_scale (so_qty input)" and "i = nc_seq db"
proof -
  from assms obtain source n db1 where n: "create_nc n db = Inr (i, db1)" "nc_status_code n = ''PENDING_DECISION''" "nc_closed_at n = None"
    and row: "create_nc_lot \<lparr>nl_nc_id = i, nl_lot_id = child, nl_affected_qty = so_qty input,
              nl_uom_id = so_uomId input, nl_before_code = ''DEFECTIVE'', nl_after_code = ''DEFECTIVE'',
              nl_created_by = Some (so_appUserId input)\<rparr> db1 = Inr db'"
    by (auto simp: openSplitNonconformance_def bind_res_eq_Inr split: option.splits)
  let ?row = "\<lparr>nl_nc_id = i, nl_lot_id = child, nl_affected_qty = to_scale (so_qty input),
              nl_uom_id = so_uomId input, nl_before_code = ''DEFECTIVE'', nl_after_code = ''DEFECTIVE'',
              nl_created_by = Some (so_appUserId input)\<rparr>"
  have i: "i = nc_seq db" and db1: "db1 = db\<lparr>nonconformances := nonconformances db @ [n\<lparr>nc_id := nc_seq db\<rparr>], nc_seq := nc_seq db + 1\<rparr>"
    using n(1) by (auto simp: create_nc_def split: if_splits)
  have "db' = db1\<lparr>nc_lots := nc_lots db1 @ [?row]\<rparr>" "0 < to_scale (so_qty input)"
    using row by (auto simp: create_nc_lot_def Let_def split: if_splits)
  then show ?thesis using n(2,3)
    by (intro that [of n ?row]) (simp_all add: open_nc_def db1 i positive_def scaled_to_scale_idem)
qed

lemma splitOff_parts:
  assumes "splitOffWithin db input = Inr (r, db')"
  obtains ldb db1 m db2 where
      "splitLotWithin (q_lots db) \<lparr>sp_parentLotId = so_parentLotId input, sp_qty = so_qty input, sp_sourceEventTypeCode = SOURCE_TYPE,
        sp_sourceEventId = so_decisionId input, sp_occurredAt = so_decidedAt input, sp_createdBy = Some (so_appUserId input)\<rparr>
        = Inr ((st_splitLotId r, st_splitLotNo r), ldb)"
    and "moveStock (db\<lparr>q_lots := ldb\<rparr>) (st_splitLotId r) input = Inr db1"
    and "move_or_locked db1 [st_splitLotId r] ''disposition-sort-defect''
       (sort_move_context (so_appUserId input) (so_decidedAt input) (so_decisionId input) (so_reason input)) = Inr (m, db2)"
    and "openSplitNonconformance db2 (st_splitLotId r) input = Inr (st_splitNonconformanceId r, db')"
proof -
  let ?split = "splitLotWithin (q_lots db) \<lparr>sp_parentLotId = so_parentLotId input, sp_qty = so_qty input, sp_sourceEventTypeCode = SOURCE_TYPE,
        sp_sourceEventId = so_decisionId input, sp_occurredAt = so_decidedAt input, sp_createdBy = Some (so_appUserId input)\<rparr>"
  obtain child no ldb where sp: "?split = Inr ((child, no), ldb)"
    using assms by (cases ?split) (auto simp: splitOffWithin_def)
  from assms obtain db1 m db2 where "moveStock (db\<lparr>q_lots := ldb\<rparr>) child input = Inr db1"
    and "move_or_locked db1 [child] ''disposition-sort-defect''
       (sort_move_context (so_appUserId input) (so_decidedAt input) (so_decisionId input) (so_reason input)) = Inr (m, db2)"
    and "openSplitNonconformance db2 child input = Inr (st_splitNonconformanceId r, db')" and "st_splitLotId r = child" "st_splitLotNo r = no"
    unfolding splitOffWithin_def sp bind_res_Inr prod.case by (auto simp: bind_res_eq_Inr)
  with sp show ?thesis using that by simp
qed

lemma splitOff_effect:
  assumes "splitOffWithin db input = Inr (r, db')" and "lot_ids_ok (q_lots db)"
  shows "split_effect db db'"
proof (rule splitOff_parts [OF assms(1)])
  fix ldb db1 m db2
  assume sp: "splitLotWithin (q_lots db) \<lparr>sp_parentLotId = so_parentLotId input, sp_qty = so_qty input, sp_sourceEventTypeCode = SOURCE_TYPE,
        sp_sourceEventId = so_decisionId input, sp_occurredAt = so_decidedAt input, sp_createdBy = Some (so_appUserId input)\<rparr>
        = Inr ((st_splitLotId r, st_splitLotNo r), ldb)"
    and ms: "moveStock (db\<lparr>q_lots := ldb\<rparr>) (st_splitLotId r) input = Inr db1"
    and mv: "move_or_locked db1 [st_splitLotId r] ''disposition-sort-defect''
       (sort_move_context (so_appUserId input) (so_decidedAt input) (so_decisionId input) (so_reason input)) = Inr (m, db2)"
    and op: "openSplitNonconformance db2 (st_splitLotId r) input = Inr (st_splitNonconformanceId r, db')"
  show ?thesis
  proof (rule splitLotWithin_grow [OF sp assms(2)])
    assume grow: "lots_grow (q_lots db) ldb" and fresh: "st_splitLotId r \<notin> lots_known (q_lots db)"
      and known: "st_splitLotId r \<in> lots_known ldb"
    have one: "same_quality db (db\<lparr>q_lots := ldb\<rparr>)" by (rule lots_changed [OF grow])
    have two: "same_quality (db\<lparr>q_lots := ldb\<rparr>) db1" by (rule moveStock_same [OF ms])
    have ok1: "lot_ids_ok (q_lots db1)" using same_quality_fields(6) [OF same_quality_trans [OF one two]] assms(2) by (simp add: lots_grow_def)
    have three: "same_quality db1 db2" by (rule move_or_locked_same [OF mv ok1])
    have dbx: "same_quality db db2" using one two three same_quality_trans by blast
    have "lots_grow ldb (q_lots db2)" using same_quality_fields(6) [OF same_quality_trans [OF two three]] by simp
    then have k: "st_splitLotId r \<in> lots_known (q_lots db2)" using known by (auto simp: lots_grow_def)
    show ?thesis
    proof (rule openSplit_effect [OF op])
      fix n row assume "db' = open_nc n [row] db2" and "nl_nc_id row = nc_seq db2" "nl_lot_id row = st_splitLotId r"
        "positive (nl_affected_qty row)" "nc_status_code n = ''PENDING_DECISION''" "nc_closed_at n = None"
      then have "split_row db db2 n row \<and> same_quality (open_nc n [row] db2) db'" using k fresh by (simp add: split_row_def)
      then show ?thesis unfolding split_effect_def using dbx by blast
    qed
  qed
qed

lemma apply_sort_effect:
  assumes "apply_sort db body ncId decisionId target by_user time splitNo = Inr (r, db')" and "lot_ids_ok (q_lots db)"
  shows "split_effect db db'"
proof -
  from assms(1) obtain parent rest where "tg_lotIds target = parent # rest" by (auto simp: apply_sort_def split: list.splits)
  with assms(1) obtain input db1 m db2 where
      first_part: "(if 0 < qty_or_zero (dc_rejectedQty body) then bind_res (splitOffWithin db input) (\<lambda>(result, db'). Inr (Some result, db'))
        else Inr (None, db)) = Inr (r, db1)"
    and mv: "move_or_locked db1 [parent] ''disposition-sort'' (sort_move_context by_user time decisionId (dc_reason body)) = Inr (m, db2)"
    and rel: "releaseInspectionHoldsWithin db2 m by_user time DISPOSITION_RELEASE_REASON = Inr db'"
    by (auto simp: apply_sort_def bind_res_eq_Inr)
  have one: "split_effect db db1"
    using first_part splitOff_effect [OF _ assms(2)] by (auto simp: bind_res_eq_Inr split_effect_def split: if_splits)
  then have "lots_grow (q_lots db) (q_lots db1)" by (rule split_effect_grow)
  then have "lot_ids_ok (q_lots db1)" using assms(2) by (simp add: lots_grow_def)
  from split_effect_then [OF one move_or_locked_same [OF mv this]] release_holds_same [OF rel] show ?thesis
    by (rule split_effect_then)
qed

section \<open>The operations keep the invariant\<close>

definition rewrite_nc :: "id \<Rightarrow> (nonconformance \<Rightarrow> nonconformance) \<Rightarrow> quality_db \<Rightarrow> quality_db" where
  "rewrite_nc i f db = db\<lparr>nonconformances := map (\<lambda>n. if nc_id n = i then f n else n) (nonconformances db)\<rparr>"

lemma rewrite_same: "same_quality db db' \<Longrightarrow> same_quality (rewrite_nc i f db) (rewrite_nc i f db')"
  by (simp add: same_quality_def rewrite_nc_def nc_part_def)

lemma rewrite_open: "i \<noteq> nc_seq db \<Longrightarrow> rewrite_nc i f (open_nc n rows db) = open_nc n rows (rewrite_nc i f db)"
  by (simp add: rewrite_nc_def open_nc_def)

lemma create_decision_Inr:
  assumes "create_decision row db = Inr (i, db')"
  obtains d where "dd_nc_id d = dd_nc_id row" "dd_qty d = to_scale (dd_qty row)" "positive (dd_qty d)"
    and "same_quality (decide_nc d f db) (rewrite_nc (dd_nc_id d) f db')" and "q_lots db' = q_lots db"
    and "i = decision_seq db" and "q_stock db' = q_stock db"
    and "nc_lots db' = nc_lots db" "nc_seq db' = nc_seq db" "nonconformances db' = nonconformances db"
proof -
  let ?d = "row\<lparr>dd_id := decision_seq db, dd_qty := to_scale (dd_qty row)\<rparr>"
  from assms have "i = decision_seq db" "db' = db\<lparr>decisions := decisions db @ [?d], decision_seq := decision_seq db + 1\<rparr>"
    "0 < to_scale (dd_qty row)" by (auto simp: create_decision_def Let_def split: if_splits)
  then show ?thesis
    by (intro that [of ?d]) (simp_all add: positive_def scaled_to_scale_idem decide_nc_def rewrite_nc_def same_quality_def nc_part_def)
qed

lemma decision_applied:
  assumes ok: "quality_ok db" and nc: "find_nc db (dd_nc_id d) = Some nc" and open_nc': "\<not> nc_decided nc"
    and qty: "positive (dd_qty d)" "decided_total db (dd_nc_id d) + dd_qty d \<le> affected_total db (dd_nc_id d)"
    and closes: "closing db (dd_nc_id d) (dd_qty d) c"
    and ins: "same_quality (decide_nc d (decided_nc u t c) db) (rewrite_nc (dd_nc_id d) (decided_nc u t c) db1)"
    and db1: "q_lots db1 = q_lots db" "nc_lots db1 = nc_lots db" "nc_seq db1 = nc_seq db"
    and eff: "split_effect db1 db2"
  shows "quality_ok (rewrite_nc (dd_nc_id d) (decided_nc u t c) db2)"
proof -
  let ?F = "rewrite_nc (dd_nc_id d) (decided_nc u t c)"
  have rok: "tables_ok db" using ok by (simp add: quality_ok_def)
  have dec: "quality_ok (decide_nc d (decided_nc u t c) db)"
    by (rule decide_nc_keeps [OF ok nc open_nc' qty closes])
  from eff show ?thesis
  proof (unfold split_effect_def, elim disjE exE conjE)
    assume "same_quality db1 db2"
    then show ?thesis using same_quality_keeps [OF same_quality_trans [OF ins rewrite_same] dec] by blast
  next
    fix dbx n row
    assume x: "same_quality db1 dbx" and row: "split_row db1 dbx n row" and fin: "same_quality (open_nc n [row] dbx) db2"
    have okx: "quality_ok (?F dbx)" by (rule same_quality_keeps [OF same_quality_trans [OF ins rewrite_same [OF x]] dec])
    have "dd_nc_id d \<in> nc_ids db" using nc find_nc_iff [OF rok] by (force simp: nc_ids_def)
    moreover have seq: "nc_seq dbx = nc_seq db" using same_quality_fields(2) [OF x] db1(3) by simp
    ultimately have ne: "dd_nc_id d \<noteq> nc_seq dbx" using nc_id_fresh [OF rok] by auto
    have lotrows: "nc_lots (?F dbx) = nc_lots db" using same_quality_fields(3) [OF x] db1(2) by (simp add: rewrite_nc_def)
    have "quality_ok (open_nc n [row] (?F dbx))"
    proof (rule open_nc_keeps [OF okx])
      fix r assume "r \<in> set [row]"
      then have r: "r = row" by simp
      have "nl_lot_id r' \<noteq> nl_lot_id row" if "r' \<in> set (nc_lots db)" for r'
        using that rok row db1(1) by (auto simp: tables_ok_def split_row_def)
      then show "nl_nc_id r = nc_seq (?F dbx) \<and> nl_lot_id r \<in> lots_known (q_lots (?F dbx)) \<and> positive (nl_affected_qty r) \<and>
          (\<forall>r' \<in> set (nc_lots (?F dbx)). nl_lot_id r' = nl_lot_id r \<longrightarrow> \<not> is_open_nc (?F dbx) (nl_nc_id r'))"
        using row r lotrows by (auto simp: split_row_def rewrite_nc_def)
    qed (use row in \<open>simp_all add: split_row_def\<close>)
    then have "quality_ok (?F (open_nc n [row] dbx))" using rewrite_open [OF ne] by simp
    then show ?thesis by (rule same_quality_keeps [OF rewrite_same [OF fin]])
  qed
qed

lemma update_nc_Inr:
  assumes "update_nc db hit f = Inr (k, db')"
  shows "k = length (filter hit (nonconformances db))"
    and "db' = db\<lparr>nonconformances := map (\<lambda>n. if hit n then f n else n) (nonconformances db)\<rparr>"
  using assms by (auto simp: update_nc_def Let_def split: if_splits)

lemma update_at_version:
  assumes "update_nc db (at_version i version) f = Inr (k, db')" and "k \<noteq> 0"
    and only: "\<forall>x \<in> set (nonconformances db). nc_id x = i \<longrightarrow> x = n"
  shows "db' = rewrite_nc i f db \<and> nc_version_no n = version"
proof -
  note u = update_nc_Inr [OF assms(1)]
  obtain m where m: "m \<in> set (nonconformances db)" "nc_id m = i" "nc_version_no m = version"
    using u(1) assms(2) by (auto simp: at_version_def filter_empty_conv)
  with only have v: "nc_version_no n = version" by auto
  have "at_version i version x \<longleftrightarrow> nc_id x = i" if "x \<in> set (nonconformances db)" for x
    using that v only by (auto simp: at_version_def)
  then have "map (\<lambda>n. if at_version i version n then f n else n) (nonconformances db) =
      map (\<lambda>n. if nc_id n = i then f n else n) (nonconformances db)" by (intro map_cong refl) simp
  then show ?thesis using v by (simp only: u(2) rewrite_nc_def)
qed

lemma only_one_nc:
  assumes "tables_ok db" and "find_nc db i = Some n" and "split_effect db1 db2"
    and "nonconformances db1 = nonconformances db" and "nc_seq db1 = nc_seq db"
  shows "\<forall>x \<in> set (nonconformances db2). nc_id x = i \<longrightarrow> x = n"
proof -
  have old: "x = n" if "x \<in> set (nonconformances db)" "nc_id x = i" for x
    using that assms(2) find_nc_iff [OF assms(1), of i x] by auto
  have "i \<in> nc_ids db" using assms(2) find_nc_iff [OF assms(1)] by (force simp: nc_ids_def)
  then have i: "i \<noteq> nc_seq db" using nc_id_fresh [OF assms(1)] by auto
  have "set (nonconformances db2) \<subseteq> set (nonconformances db) \<union> {m. nc_id m = nc_seq db}"
    using assms(3-5) same_quality_fields(1,2) by (auto simp: split_effect_def open_nc_def)
  then show ?thesis using old i by auto
qed

lemma decide_transition:
  "find_transition TRANSITIONS NC_STATUS_COLUMN ''nonconformance-decide'' = Some t \<Longrightarrow> tr_to t = ''DECIDED''"
proof -
  have "case find_transition TRANSITIONS NC_STATUS_COLUMN ''nonconformance-decide'' of None \<Rightarrow> False | Some t \<Rightarrow> tr_to t = ''DECIDED''"
    by code_simp
  then show "find_transition TRANSITIONS NC_STATUS_COLUMN ''nonconformance-decide'' = Some t \<Longrightarrow> tr_to t = ''DECIDED''" by simp
qed

lemma with_state_code_Inr [res_simps]: "with_state_code r = Inr t \<longleftrightarrow> r = Inr t"
  by (cases r) (simp_all add: with_state_code_def)

lemma map_sum_Some_Inr [res_simps]: "map_sum id Some r = Inr c \<longleftrightarrow> (\<exists>t. r = Inr t \<and> c = Some t)"
  by (cases r) auto

lemma decide_parts:
  assumes "decide_disposition splitNo time ncId version body by_user db = Inr (out, db')"
  obtains nc target db1 r db2 closes k where "find_nc db ncId = Some nc" and "readTarget db nc = Inr target"
    and "assertQtyPrecision ''decisionQty'' (dc_qty body) (tg_uomScale target) = Inr ()" and "nc_status_code nc \<noteq> ''DECIDED''"
    and "assertWithinRemaining body target = Inr ()"
    and "dc_typeCode body = SORT \<Longrightarrow> assertSortFitsTarget body (length (tg_lotIds target)) (tg_uomScale target) = Inr () \<and>
           assertSortWholeRemaining body target = Inr ()"
    and "create_decision \<lparr>dd_id = 0, dd_nc_id = ncId, dd_type_code = dc_typeCode body, dd_qty = dc_qty body,
           dd_uom_id = dc_uomId body, dd_decided_by = by_user, dd_decided_at = time, dd_approval_request_id = None\<rparr> db = Inr (dz_decisionId out, db1)"
    and "(if dc_typeCode body = SORT then apply_sort db1 body ncId (dz_decisionId out) target by_user time splitNo
          else moveLots db1 body ncId (dz_decisionId out) target by_user time) = Inr (r, db2)"
    and "(if dispositionProgressCode (tg_decisionCount target + 1) (tg_affectedQtyTotal target)
             (tg_decidedQtyTotal target + dc_qty body) = COMPLETED
          then map_sum id Some (assertDecidable (nc_status_code nc)) else Inr None) = Inr closes"
    and "update_nc db2 (at_version ncId version) (decided_nc by_user time closes) = Inr (k, db')" and "k \<noteq> 0"
    and "out = \<lparr>dz_decisionId = dz_decisionId out, dz_sortResult = r, dz_versionNo = nc_version_no nc + 1\<rparr>"
proof -
  from assms obtain nc where nc: "find_nc db ncId = Some nc" by (auto simp: decide_disposition_def split: option.splits)
  from assms obtain target u1 u2 u3 u4 where t: "readTarget db nc = Inr target" "assertDecisionShape body target = Inr u1"
      "(if dc_typeCode body = SORT then assertSortFitsTarget body (length (tg_lotIds target)) (tg_uomScale target) else Inr ()) = Inr u2"
      "nc_status_code nc \<noteq> ''DECIDED''" "assertWithinRemaining body target = Inr u3"
      "(if dc_typeCode body = SORT then assertSortWholeRemaining body target else Inr ()) = Inr u4"
    unfolding decide_disposition_def nc option.case bind_res_eq_Inr guard_res_eq by blast
  from assms obtain i db1 r db2 closes k where rest: "create_decision \<lparr>dd_id = 0, dd_nc_id = ncId, dd_type_code = dc_typeCode body, dd_qty = dc_qty body,
           dd_uom_id = dc_uomId body, dd_decided_by = by_user, dd_decided_at = time, dd_approval_request_id = None\<rparr> db = Inr (i, db1)"
      "(if dc_typeCode body = SORT then apply_sort db1 body ncId i target by_user time splitNo
          else moveLots db1 body ncId i target by_user time) = Inr (r, db2)"
      "(if dispositionProgressCode (tg_decisionCount target + 1) (tg_affectedQtyTotal target)
             (tg_decidedQtyTotal target + dc_qty body) = COMPLETED
          then map_sum id Some (assertDecidable (nc_status_code nc)) else Inr None) = Inr closes"
      "update_nc db2 (at_version ncId version) (decided_nc by_user time closes) = Inr (k, db')"
      "assertUpdated k CauseUser (nc_version_conflict nc) = Inr ()"
      "out = \<lparr>dz_decisionId = i, dz_sortResult = r, dz_versionNo = nc_version_no nc + 1\<rparr>"
    unfolding decide_disposition_def nc option.case t(1) bind_res_Inr
    unfolding bind_res_eq_Inr case_prod_eq_Inr Inr_inject prod.inject unit_all_eq1 by auto
  have p: "assertQtyPrecision ''decisionQty'' (dc_qty body) (tg_uomScale target) = Inr ()"
    using t(2) by (auto simp: assertDecisionShape_def bind_res_eq_Inr)
  have k: "k \<noteq> 0" using rest(5) by (auto simp: assertUpdated_def split: if_splits)
  have i: "i = dz_decisionId out" by (simp add: rest(6))
  show ?thesis
    by (rule that [OF nc t(1) p t(4) _ _ rest(1) [unfolded i] rest(2) [unfolded i] rest(3,4) k])
      (use t rest(6) i in \<open>auto split: if_splits\<close>)
qed

lemma readTarget_Inr:
  assumes "readTarget db nc = Inr target"
  shows "tg_lotIds target = map nl_lot_id (lots_of_nc db (nc_id nc))" "tg_affectedQtyTotal target = affected_total db (nc_id nc)"
    "tg_decidedQtyTotal target = decided_total db (nc_id nc)" "tg_decisionCount target = length (decisions_of db (nc_id nc))"
    "(tg_uomId target, tg_uomScale target) \<in> set (uom_scales db)"
proof -
  from assms obtain u s where "nc_unit db nc = Inr u" and m: "map_of (uom_scales db) u = Some s"
    and "target = \<lparr>tg_lotIds = map nl_lot_id (lots_of_nc db (nc_id nc)), tg_affectedQtyTotal = affected_total db (nc_id nc),
      tg_decidedQtyTotal = decided_total db (nc_id nc), tg_decisionCount = length (decisions_of db (nc_id nc)),
      tg_uomId = u, tg_uomScale = s\<rparr>"
    by (auto simp: readTarget_def bind_res_eq_Inr split: option.splits)
  with map_of_SomeD [OF m] show "tg_lotIds target = map nl_lot_id (lots_of_nc db (nc_id nc))"
    "tg_affectedQtyTotal target = affected_total db (nc_id nc)" "tg_decidedQtyTotal target = decided_total db (nc_id nc)"
    "tg_decisionCount target = length (decisions_of db (nc_id nc))" "(tg_uomId target, tg_uomScale target) \<in> set (uom_scales db)"
    by simp_all
qed

lemma closing_decided:
  assumes "(if dispositionProgressCode (length (decisions_of db i) + 1) (affected_total db i) (decided_total db i + qty) = COMPLETED
      then map_sum id Some m else Inr None) = Inr c"
    and "\<And>t. m = Inr t \<Longrightarrow> find_transition TRANSITIONS NC_STATUS_COLUMN ''nonconformance-decide'' = Some t"
  shows "closing db i qty c"
  using assms decide_transition by (auto simp: closing_def map_sum_Some_Inr split: if_splits)

lemma decide_keeps:
  assumes run: "decide_disposition splitNo time ncId version body by_user db = Inr (out, db')" and ok: "quality_ok db"
  obtains nc d c db1 db2 where "find_nc db ncId = Some nc" and "nc_version_no nc = version" and "\<not> nc_decided nc"
    and "dd_nc_id d = ncId" and "dd_qty d = dc_qty body" and "positive (dc_qty body)"
    and "decided_total db ncId + dc_qty body \<le> affected_total db ncId" and "closing db ncId (dc_qty body) c"
    and "same_quality (decide_nc d (decided_nc by_user time c) db) (rewrite_nc ncId (decided_nc by_user time c) db1)"
    and "split_effect db1 db2" and "db' = rewrite_nc ncId (decided_nc by_user time c) db2" and "nc_seq db1 = nc_seq db"
    and "quality_ok db'"
proof (rule decide_parts [OF run])
  fix nc target db1 r db2 closes k
  assume nc: "find_nc db ncId = Some nc" and target: "readTarget db nc = Inr target"
    and prec: "assertQtyPrecision ''decisionQty'' (dc_qty body) (tg_uomScale target) = Inr ()" and st: "nc_status_code nc \<noteq> ''DECIDED''"
    and within: "assertWithinRemaining body target = Inr ()"
    and ins: "create_decision \<lparr>dd_id = 0, dd_nc_id = ncId, dd_type_code = dc_typeCode body, dd_qty = dc_qty body,
           dd_uom_id = dc_uomId body, dd_decided_by = by_user, dd_decided_at = time, dd_approval_request_id = None\<rparr> db = Inr (dz_decisionId out, db1)"
    and app: "(if dc_typeCode body = SORT then apply_sort db1 body ncId (dz_decisionId out) target by_user time splitNo
          else moveLots db1 body ncId (dz_decisionId out) target by_user time) = Inr (r, db2)"
    and cl: "(if dispositionProgressCode (tg_decisionCount target + 1) (tg_affectedQtyTotal target)
             (tg_decidedQtyTotal target + dc_qty body) = COMPLETED
          then map_sum id Some (assertDecidable (nc_status_code nc)) else Inr None) = Inr closes"
    and upd: "update_nc db2 (at_version ncId version) (decided_nc by_user time closes) = Inr (k, db')" and k: "k \<noteq> 0"
  have rok: "tables_ok db" using ok by (simp add: quality_ok_def)
  have id: "nc_id nc = ncId" using nc find_nc_iff [OF rok] by simp
  note t = readTarget_Inr [OF target, unfolded id]
  have "tg_uomScale target \<le> 6" using t(5) rok by (auto simp: tables_ok_def)
  with prec have sc: "scaled (dc_qty body)" by (rule assertQtyPrecision_scaled)
  have le: "decided_total db ncId + dc_qty body \<le> affected_total db ncId"
    using within by (simp add: assertWithinRemaining_def remaining_qty_def Let_def guard_res_eq t)
  have closes: "closing db ncId (dc_qty body) closes"
    by (rule closing_decided [OF cl [unfolded t]]) (simp add: assertDecidable_def with_state_code_Inr assertTransition_Inr)
  show ?thesis
  proof (rule create_decision_Inr [OF ins, of "decided_nc by_user time closes"])
    fix d
    assume d: "dd_nc_id d = dd_nc_id \<lparr>dd_id = 0, dd_nc_id = ncId, dd_type_code = dc_typeCode body, dd_qty = dc_qty body,
           dd_uom_id = dc_uomId body, dd_decided_by = by_user, dd_decided_at = time, dd_approval_request_id = None\<rparr>"
        "dd_qty d = to_scale (dd_qty \<lparr>dd_id = 0, dd_nc_id = ncId, dd_type_code = dc_typeCode body, dd_qty = dc_qty body,
           dd_uom_id = dc_uomId body, dd_decided_by = by_user, dd_decided_at = time, dd_approval_request_id = None\<rparr>)"
      and pos: "positive (dd_qty d)"
      and same: "same_quality (decide_nc d (decided_nc by_user time closes) db) (rewrite_nc (dd_nc_id d) (decided_nc by_user time closes) db1)"
      and f: "q_lots db1 = q_lots db" "nc_lots db1 = nc_lots db" "nc_seq db1 = nc_seq db" "nonconformances db1 = nonconformances db"
    have d': "dd_nc_id d = ncId" "dd_qty d = dc_qty body" using d sc by simp_all
    have lok: "lot_ids_ok (q_lots db1)" using rok f(1) by (simp add: tables_ok_def)
    have eff: "split_effect db1 db2"
      using app apply_sort_effect [OF _ lok] moveLots_same [OF _ lok] by (auto simp: split_effect_def split: if_splits)
    have u: "db' = rewrite_nc ncId (decided_nc by_user time closes) db2" "nc_version_no nc = version"
      using update_at_version [OF upd k only_one_nc [OF rok nc eff f(4,3)]] by auto
    have same': "same_quality (decide_nc d (decided_nc by_user time closes) db) (rewrite_nc ncId (decided_nc by_user time closes) db1)"
      using same d'(1) by simp
    have fin: "quality_ok db'" unfolding u(1)
      by (rule decision_applied [of db d nc closes by_user time db1 db2, unfolded d', OF ok nc _ _ le closes same' f(1,2,3) eff])
        (use st pos d' in \<open>simp_all add: nc_decided_def\<close>)
    show ?thesis
      by (rule that [OF nc u(2) _ d' _ le closes same' eff u(1) f(3) fin]) (use st pos d' in \<open>simp_all add: nc_decided_def\<close>)
  qed
qed

lemma create_disposition_keeps:
  assumes "create_disposition splitNo time ncId version body by_user db = Inr (out, db')" and "quality_ok db"
  shows "quality_ok db'"
proof -
  from assms(1) obtain no where "decide_disposition no time ncId version body by_user db = Inr (out, db')"
    by (auto simp: create_disposition_def bind_res_eq_Inr)
  from decide_keeps [OF this assms(2)] show ?thesis by blast
qed

lemma request_disposition_keeps:
  assumes run: "request_disposition ncId version body by_user db = Inr (v, db')" and ok: "quality_ok db"
  shows "quality_ok db'"
proof -
  from run obtain nc where nc: "find_nc db ncId = Some nc" by (auto simp: request_disposition_def split: option.splits)
  from run obtain t k db1 where t: "assertRequestable (nc_status_code nc) = Inr t"
    and upd: "update_nc db (at_version ncId version) (\<lambda>n. (bump_nc by_user n)\<lparr>nc_status_code := tr_to t\<rparr>) = Inr (k, db1)"
    and k: "assertUpdated k CauseUser (nc_version_conflict nc) = Inr ()" and fin: "db' = db1"
    by (auto simp: request_disposition_def nc bind_res_eq_Inr split: option.splits)
  have rok: "tables_ok db" using ok by (simp add: quality_ok_def)
  have "\<forall>x \<in> set (nonconformances db). nc_id x = ncId \<longrightarrow> x = nc" by (rule find_nc_only [OF rok nc])
  then have eq: "db' = rewrite_nc ncId (\<lambda>n. (bump_nc by_user n)\<lparr>nc_status_code := tr_to t\<rparr>) db" (is "_ = rewrite_nc _ ?f _")
    using update_at_version [OF upd] k fin by (auto simp: assertUpdated_def split: if_splits)
  have "find_transition TRANSITIONS NC_STATUS_COLUMN ''nonconformance-request-disposition'' = Some t"
    and "nc_status_code nc \<in> set (tr_from t)" using t by (simp_all add: assertRequestable_def with_state_code_Inr assertTransition_Inr)
  moreover have "find_transition TRANSITIONS NC_STATUS_COLUMN ''nonconformance-request-disposition'' =
      map_of nonconformance_actions ''nonconformance-request-disposition''" by code_simp
  ultimately have st: "nc_status_code nc = ''NOT_REQUESTED''" "tr_to t = ''PENDING_DECISION''"
    by (auto simp: nonconformance_actions_def)
  have ids: "map nc_id (nonconformances db') = map nc_id (nonconformances db)" by (simp add: eq rewrite_nc_def bump_nc_def)
  have idset: "nc_ids db' = nc_ids db" using arg_cong [OF ids, of set] by (simp add: nc_ids_def)
  have fields: "q_lots db' = q_lots db" "decisions db' = decisions db" "concessions db' = concessions db"
    "uom_scales db' = uom_scales db" "nc_lots db' = nc_lots db" "nc_seq db' = nc_seq db" by (simp_all add: eq rewrite_nc_def)
  have "tables_ok db'" unfolding tables_ok_def ids idset fields using rok by (simp add: tables_ok_def)
  moreover have "nc_ok db' m" if m: "m \<in> set (nonconformances db')" for m
  proof -
    from m obtain n where n: "n \<in> set (nonconformances db)" "m = (if nc_id n = ncId then ?f n else n)"
      by (auto simp: eq rewrite_nc_def)
    have "nc_id n = ncId \<Longrightarrow> n = nc" using n(1) nc find_nc_iff [OF rok, of ncId n] by simp
    moreover have "nc_ok db n" using ok n(1) by (simp add: quality_ok_def)
    ultimately show ?thesis using n(2) st
      by (auto simp: nc_ok_def totals_part [OF fields(5,2)] bump_nc_def nc_decided_def NC_STATUSES_def split: if_splits)
  qed
  moreover have "one_open db'"
  proof -
    have "is_open_nc db' i \<Longrightarrow> is_open_nc db i" for i
      by (auto simp: is_open_nc_def list_ex_iff eq rewrite_nc_def bump_nc_def split: if_splits)
    then show ?thesis using ok unfolding one_open_def fields quality_ok_def by blast
  qed
  ultimately show ?thesis by (simp add: quality_ok_def)
qed

lemma create_nc_lots:
  assumes "fold_res (\<lambda>x. create_nc_lot (g x)) xs db = Inr db'"
  shows "db' = db\<lparr>nc_lots := nc_lots db @ map (\<lambda>x. (g x)\<lparr>nl_affected_qty := to_scale (nl_affected_qty (g x))\<rparr>) xs\<rparr> \<and>
    (\<forall>x \<in> set xs. 0 < to_scale (nl_affected_qty (g x)))"
  using assms
proof (induction xs arbitrary: db)
  case (Cons x xs)
  from Cons.prems obtain db1 where one: "create_nc_lot (g x) db = Inr db1" and rest: "fold_res (\<lambda>x. create_nc_lot (g x)) xs db1 = Inr db'"
    by (auto simp: bind_res_eq_Inr)
  from one have "db1 = db\<lparr>nc_lots := nc_lots db @ [(g x)\<lparr>nl_affected_qty := to_scale (nl_affected_qty (g x))\<rparr>]\<rparr>"
    "0 < to_scale (nl_affected_qty (g x))" by (auto simp: create_nc_lot_def Let_def split: if_splits)
  with Cons.IH [OF rest] show ?case by simp
qed simp

lemma references_known:
  assumes "assertReferences db body uomId = Inr m"
  shows "\<forall>lot \<in> set (np_lots body). np_lotId lot \<in> lots_known (q_lots db)"
proof
  fix lot assume lot: "lot \<in> set (np_lots body)"
  let ?rows = "lots_in (q_lots db) (map np_lotId (np_lots body))"
  let ?status = "map (\<lambda>l. (lot_id l, lot_status_code l)) ?rows"
  obtain u where "(case find (\<lambda>(index, lot). np_lotId lot \<notin> fst ` set ?status) (indexed (np_lots body)) of
          None \<Rightarrow> Inr () | Some (index, lot) \<Rightarrow> Inl (invalidReference (lot_field index ''lotId''))) = Inr u"
    using assms unfolding assertReferences_def Let_def bind_res_eq_Inr by blast
  then have none: "find (\<lambda>(index, lot). np_lotId lot \<notin> fst ` set ?status) (indexed (np_lots body)) = None"
    by (auto split: option.splits)
  have "lot \<in> snd ` set (indexed (np_lots body))" 
    using lot arg_cong [OF map_snd_zip [of "[0..<length (np_lots body)]" "np_lots body"], of set]
    by (simp only: indexed_def set_map) simp
  with none have "np_lotId lot \<in> fst ` set ?status" by (force simp: find_None_iff)
  then show "np_lotId lot \<in> lots_known (q_lots db)" by (auto simp: lots_in_def lots_known_def) (metis image_eqI)
qed

lemma register_keeps:
  assumes run: "register_nonconformance codes number time body by_user db = Inr (i, db')" and ok: "quality_ok db"
  shows "quality_ok db'"
proof -
  from run obtain uomId m no u db1 where ref: "assertReferences db body uomId = Inr m"
    and free: "assertNoOpenNonconformance db (map np_lotId (np_lots body)) = Inr u"
    and nc: "create_nc (registered_nc body no time by_user) db = Inr (i, db1)"
    and rows: "fold_res (\<lambda>lot. create_nc_lot (registered_lot_of m i by_user lot)) (np_lots body) db1 = Inr db'"
    by (auto simp: register_nonconformance_def bind_res_eq_Inr)
  let ?row = "\<lambda>lot. (registered_lot_of m i by_user lot)\<lparr>nl_affected_qty := to_scale (np_affectedQty lot)\<rparr>"
  have i: "i = nc_seq db" and db1: "db1 = db\<lparr>nonconformances := nonconformances db @ [(registered_nc body no time by_user)\<lparr>nc_id := nc_seq db\<rparr>], nc_seq := nc_seq db + 1\<rparr>"
    using nc by (auto simp: create_nc_def split: if_splits)
  have qty: "nl_affected_qty (registered_lot_of m i by_user lot) = np_affectedQty lot" for lot by (simp add: registered_lot_of_def Let_def)
  have eq: "db' = open_nc (registered_nc body no time by_user) (map ?row (np_lots body)) db"
    and pos: "\<forall>lot \<in> set (np_lots body). 0 < to_scale (np_affectedQty lot)"
    using create_nc_lots [OF rows] by (simp_all add: db1 open_nc_def qty)
  have no_open: "\<not> is_open_nc db (nl_nc_id r)" if "r \<in> set (nc_lots db)" "nl_lot_id r \<in> np_lotId ` set (np_lots body)" for r
    using free that by (auto simp: assertNoOpenNonconformance_def guard_res_eq list_ex_iff)
  show ?thesis unfolding eq
  proof (rule open_nc_keeps [OF ok])
    fix r assume "r \<in> set (map ?row (np_lots body))"
    then obtain lot where lot: "lot \<in> set (np_lots body)" "r = ?row lot" by auto
    have "nl_lot_id r = np_lotId lot" "nl_nc_id r = nc_seq db" "nl_affected_qty r = to_scale (np_affectedQty lot)"
      by (simp_all add: lot(2) registered_lot_of_def Let_def i)
    with lot(1) pos references_known [OF ref] no_open show "nl_nc_id r = nc_seq db \<and> nl_lot_id r \<in> lots_known (q_lots db) \<and>
      positive (nl_affected_qty r) \<and> (\<forall>r' \<in> set (nc_lots db). nl_lot_id r' = nl_lot_id r \<longrightarrow> \<not> is_open_nc db (nl_nc_id r'))"
      by (auto simp: positive_def scaled_to_scale_idem)
  qed (simp_all add: registered_nc_def)
qed

lemma approvals_changed: "same_quality db (db\<lparr>q_approvals := a\<rparr>)"
  by (simp add: same_quality_def nc_part_def)

lemma create_concession_same: "create_concession row db = Inr (i, db') \<Longrightarrow> same_quality db db'"
  by (auto simp: create_concession_def Let_def same_quality_def nc_part_def scaled_to_scale_idem split: if_splits option.splits)

lemma request_concession_same:
  assumes "request_concession names no1 no2 time body by_user db = Inr (i, db')"
  shows "same_quality db db'"
proof -
  from assms obtain row a where "create_concession row (db\<lparr>q_approvals := a\<rparr>) = Inr (i, db')"
    by (auto simp: request_concession_def bind_res_eq_Inr split: option.splits)
  from same_quality_trans [OF approvals_changed create_concession_same [OF this]] show ?thesis .
qed

lemma close_concession_same: "same_quality db (close_concession db i st u)"
  by (auto simp: close_concession_def same_quality_def nc_part_def)

lemma apply_parts:
  assumes "apply_approved label splitNo time businessDate by_user c db = Inr (r, db')"
  obtains nc qty decisionId db1 db2 m ctx db3 db4 closes k db5 where "find_nc db (cn_nc_id c) = Some nc" and "nc_status_code nc \<noteq> ''DECIDED''"
    and "qty = (if 0 < remainingOf db (cn_nc_id c) - cn_approved_qty c then remainingOf db (cn_nc_id c) else cn_approved_qty c)"
    and "cn_approved_qty c \<le> remainingOf db (cn_nc_id c)"
    and "create_decision \<lparr>dd_id = 0, dd_nc_id = cn_nc_id c, dd_type_code = ''CONCESSION'', dd_qty = qty,
              dd_uom_id = cn_uom_id c, dd_decided_by = by_user, dd_decided_at = time,
              dd_approval_request_id = Some (cn_approval_request_id c)\<rparr> db = Inr (decisionId, db1)"
    and "db2 = db1 \<or> (\<exists>input v. splitOffWithin db1 input = Inr (v, db2))"
    and "move_or_locked db2 [cn_lot_id c] ''concession-apply'' ctx = Inr (m, db3)"
    and "releaseInspectionHoldsWithin db3 [cn_lot_id c] by_user time ''CONCESSION_APPROVED'' = Inr db4"
    and "(if dispositionProgressCode (length (decisions_of db (cn_nc_id c)) + 1) (affected_total db (cn_nc_id c))
                         (decided_total db (cn_nc_id c) + to_scale qty) = COMPLETED
          then map_sum id Some (assertTransition TRANSITIONS NC_STATUS_COLUMN ''nonconformance-decide'' (nc_status_code nc) CONFLICT)
          else Inr None) = Inr closes"
    and "update_nc db4 (\<lambda>n. nc_id n = cn_nc_id c) (decided_nc by_user time closes) = Inr (k, db5)"
    and "db' = close_concession db5 (cn_id c) ''APPROVED'' by_user"
proof -
  from assms obtain nc where nc: "find_nc db (cn_nc_id c) = Some nc" by (auto simp: apply_approved_def split: option.splits)
  define splitQty where "splitQty = remainingOf db (cn_nc_id c) - cn_approved_qty c"
  define qty where "qty = (if 0 < splitQty then remainingOf db (cn_nc_id c) else cn_approved_qty c)"
  from assms obtain decisionId db1 result db2 m db3 db4 closes k db5 where
      st: "nc_status_code nc \<noteq> ''DECIDED''" and le: "cn_approved_qty c \<le> remainingOf db (cn_nc_id c)"
    and ins: "create_decision \<lparr>dd_id = 0, dd_nc_id = cn_nc_id c, dd_type_code = ''CONCESSION'', dd_qty = qty,
              dd_uom_id = cn_uom_id c, dd_decided_by = by_user, dd_decided_at = time,
              dd_approval_request_id = Some (cn_approval_request_id c)\<rparr> db = Inr (decisionId, db1)"
    and part: "(if 0 < splitQty
             then case splitNo of
                    None \<Rightarrow> Inl InternalError
                  | Some no \<Rightarrow>
                      bind_res (splitOffWithin db1 \<lparr>so_nonconformanceId = cn_nc_id c, so_decisionId = decisionId,
                          so_parentLotId = cn_lot_id c, so_qty = splitQty, so_uomId = cn_uom_id c, so_businessDate = businessDate,
                          so_reason = (case cn_remarks c of None \<Rightarrow> label | Some r \<Rightarrow> r), so_appUserId = by_user, so_decidedAt = time, so_splitNonconformanceNo = no\<rparr>)
                        (\<lambda>(result, db'). Inr (Some result, db'))
             else Inr (None, db1)) = Inr (result, db2)"
    and mv: "move_or_locked db2 [cn_lot_id c] ''concession-apply''
              \<lparr>qc_changedBy = Some by_user, qc_changedWorkerId = None, qc_changedAt = time,
               qc_sourceDocumentTypeCode = Some ''CONCESSION'', qc_sourceDocumentId = Some (cn_id c),
               qc_sourceDocumentIdByLot = None, qc_reasonCode = None, qc_reason = cn_remarks c, qc_transitionCode = None\<rparr> = Inr (m, db3)"
    and rel: "releaseInspectionHoldsWithin db3 [cn_lot_id c] by_user time ''CONCESSION_APPROVED'' = Inr db4"
    and cl: "(if dispositionProgressCode (length (decisions_of db (cn_nc_id c)) + 1) (affected_total db (cn_nc_id c))
                         (decided_total db (cn_nc_id c) + to_scale qty) = COMPLETED
          then map_sum id Some (assertTransition TRANSITIONS NC_STATUS_COLUMN ''nonconformance-decide'' (nc_status_code nc) CONFLICT)
          else Inr None) = Inr closes"
    and upd: "update_nc db4 (\<lambda>n. nc_id n = cn_nc_id c) (decided_nc by_user time closes) = Inr (k, db5)"
    and fin: "db' = close_concession db5 (cn_id c) ''APPROVED'' by_user"
    unfolding apply_approved_def nc option.case Let_def splitQty_def [symmetric] qty_def [symmetric]
      bind_res_eq_Inr case_prod_eq_Inr guard_res_eq Inr_inject prod.inject by blast
  have "db2 = db1 \<or> (\<exists>input v. splitOffWithin db1 input = Inr (v, db2))"
    using part by (auto simp: bind_res_eq_Inr split: if_splits option.splits)
  from that [OF nc st qty_def [unfolded splitQty_def] le ins this mv rel cl upd fin] show ?thesis .
qed

lemma apply_keeps:
  assumes run: "apply_approved label splitNo time businessDate by_user c db = Inr (r, db')" and ok: "quality_ok db"
    and c: "c \<in> set (concessions db)"
  shows "quality_ok db'"
proof (rule apply_parts [OF run])
  fix nc qty decisionId db1 db2 m ctx db3 db4 closes k db5
  assume nc: "find_nc db (cn_nc_id c) = Some nc" and st: "nc_status_code nc \<noteq> ''DECIDED''"
    and qty: "qty = (if 0 < remainingOf db (cn_nc_id c) - cn_approved_qty c then remainingOf db (cn_nc_id c) else cn_approved_qty c)"
    and le: "cn_approved_qty c \<le> remainingOf db (cn_nc_id c)"
    and ins: "create_decision \<lparr>dd_id = 0, dd_nc_id = cn_nc_id c, dd_type_code = ''CONCESSION'', dd_qty = qty,
              dd_uom_id = cn_uom_id c, dd_decided_by = by_user, dd_decided_at = time,
              dd_approval_request_id = Some (cn_approval_request_id c)\<rparr> db = Inr (decisionId, db1)"
    and part: "db2 = db1 \<or> (\<exists>input v. splitOffWithin db1 input = Inr (v, db2))"
    and mv: "move_or_locked db2 [cn_lot_id c] ''concession-apply'' ctx = Inr (m, db3)"
    and rel: "releaseInspectionHoldsWithin db3 [cn_lot_id c] by_user time ''CONCESSION_APPROVED'' = Inr db4"
    and cl: "(if dispositionProgressCode (length (decisions_of db (cn_nc_id c)) + 1) (affected_total db (cn_nc_id c))
                         (decided_total db (cn_nc_id c) + to_scale qty) = COMPLETED
          then map_sum id Some (assertTransition TRANSITIONS NC_STATUS_COLUMN ''nonconformance-decide'' (nc_status_code nc) CONFLICT)
          else Inr None) = Inr closes"
    and upd: "update_nc db4 (\<lambda>n. nc_id n = cn_nc_id c) (decided_nc by_user time closes) = Inr (k, db5)"
    and fin: "db' = close_concession db5 (cn_id c) ''APPROVED'' by_user"
  have rok: "tables_ok db" using ok by (simp add: quality_ok_def)
  have "scaled (remainingOf db (cn_nc_id c))" unfolding remainingOf_def by (intro scaled_minus totals_scaled rok)
  moreover have "scaled (cn_approved_qty c)" using rok c by (simp add: tables_ok_def)
  ultimately have sc: "to_scale qty = qty" by (simp add: qty)
  have "qty \<le> remainingOf db (cn_nc_id c)" using le by (simp add: qty)
  then have le': "decided_total db (cn_nc_id c) + qty \<le> affected_total db (cn_nc_id c)" by (simp add: remainingOf_def)
  have closes: "closing db (cn_nc_id c) qty closes"
    by (rule closing_decided [OF cl [unfolded sc]]) (simp add: assertTransition_Inr)
  show ?thesis
  proof (rule create_decision_Inr [OF ins, of "decided_nc by_user time closes"])
    fix d
    assume d: "dd_nc_id d = dd_nc_id \<lparr>dd_id = 0, dd_nc_id = cn_nc_id c, dd_type_code = ''CONCESSION'', dd_qty = qty,
              dd_uom_id = cn_uom_id c, dd_decided_by = by_user, dd_decided_at = time,
              dd_approval_request_id = Some (cn_approval_request_id c)\<rparr>"
        "dd_qty d = to_scale (dd_qty \<lparr>dd_id = 0, dd_nc_id = cn_nc_id c, dd_type_code = ''CONCESSION'', dd_qty = qty,
              dd_uom_id = cn_uom_id c, dd_decided_by = by_user, dd_decided_at = time,
              dd_approval_request_id = Some (cn_approval_request_id c)\<rparr>)"
      and pos: "positive (dd_qty d)"
      and same: "same_quality (decide_nc d (decided_nc by_user time closes) db) (rewrite_nc (dd_nc_id d) (decided_nc by_user time closes) db1)"
      and f: "q_lots db1 = q_lots db" "nc_lots db1 = nc_lots db" "nc_seq db1 = nc_seq db" "nonconformances db1 = nonconformances db"
    have d': "dd_nc_id d = cn_nc_id c" "dd_qty d = qty" using d sc by simp_all
    have lok: "lot_ids_ok (q_lots db1)" using rok f(1) by (simp add: tables_ok_def)
    have "split_effect db1 db2" using part splitOff_effect [OF _ lok] by (auto simp: split_effect_def)
    moreover from this have "lots_grow (q_lots db1) (q_lots db2)" by (rule split_effect_grow)
    then have "lot_ids_ok (q_lots db2)" using lok by (simp add: lots_grow_def)
    from move_or_locked_same [OF mv this] release_holds_same [OF rel] have "same_quality db2 db4" by (rule same_quality_trans)
    ultimately have eff: "split_effect db1 db4" by (rule split_effect_then)
    have db5: "db5 = rewrite_nc (dd_nc_id d) (decided_nc by_user time closes) db4"
      using update_nc_Inr(2) [OF upd] by (simp add: rewrite_nc_def d')
    have "quality_ok db5" unfolding db5
      by (rule decision_applied [of db d nc closes by_user time db1 db4, unfolded d', OF ok nc _ _ le' closes same [unfolded d'] f(1,2,3) eff, folded d'])
        (use st pos d' in \<open>simp_all add: nc_decided_def\<close>)
    then show ?thesis unfolding fin by (rule same_quality_keeps [OF close_concession_same])
  qed
qed

lemma apply_concession_keeps:
  assumes "apply_concession label number time i by_user businessDate db = Inr (r, db')" and ok: "quality_ok db"
  shows "quality_ok db'"
proof -
  from assms(1) obtain c where c: "find_concession db i = Some c" by (auto simp: apply_concession_def bind_res_eq_Inr split: option.splits)
  have mem: "c \<in> set (concessions db)" using c find_key [of cn_id i "concessions db" c] by (simp add: find_concession_def)
  from assms(1) c consider (rejected) st where "db' = close_concession db (cn_id c) st by_user"
    | (approved) splitNo where "apply_approved label splitNo time businessDate by_user c db = Inr (r, db')"
    by (auto simp: apply_concession_def bind_res_eq_Inr split: option.splits if_splits)
  then show ?thesis
  proof cases
    case rejected
    show ?thesis unfolding rejected by (rule same_quality_keeps [OF close_concession_same ok])
  next
    case approved
    then show ?thesis by (rule apply_keeps [OF _ ok mem])
  qed
qed

section \<open>Runs\<close>

text \<open>One successful transaction; \<open>elsewhere\<close> is any change of stock, LOTs and approvals that deletes no LOT.\<close>

inductive quality_step :: "quality_db \<Rightarrow> quality_db \<Rightarrow> bool" where
  register: "register_nonconformance codes number time body by_user db = Inr (i, db') \<Longrightarrow> quality_step db db'"
| ask: "request_disposition ncId version request by_user db = Inr (v, db') \<Longrightarrow> quality_step db db'"
| decide: "create_disposition splitNo time ncId version decision by_user db = Inr (out, db') \<Longrightarrow> quality_step db db'"
| ask_concession: "request_concession names no1 no2 time wish by_user db = Inr (i, db') \<Longrightarrow> quality_step db db'"
| use_concession: "apply_concession label number time i by_user businessDate db = Inr (r, db') \<Longrightarrow> quality_step db db'"
| elsewhere: "lots_grow (q_lots db) ldb \<Longrightarrow> quality_step db (db\<lparr>q_stock := s, q_lots := ldb, q_approvals := a\<rparr>)"

lemma quality_step_keeps: "quality_step db db' \<Longrightarrow> quality_ok db \<Longrightarrow> quality_ok db'"
proof (induction rule: quality_step.induct)
  case register
  show ?case by (rule register_keeps [OF register])
next
  case ask
  show ?case by (rule request_disposition_keeps [OF ask])
next
  case decide
  show ?case by (rule create_disposition_keeps [OF decide])
next
  case ask_concession
  show ?case by (rule same_quality_keeps [OF request_concession_same [OF ask_concession(1)] ask_concession(2)])
next
  case use_concession
  show ?case by (rule apply_concession_keeps [OF use_concession])
next
  case (elsewhere db ldb a s)
  have "same_quality db (db\<lparr>q_stock := s, q_lots := ldb, q_approvals := a\<rparr>)"
    using elsewhere(1) by (simp add: same_quality_def nc_part_def)
  then show ?case by (rule same_quality_keeps) (rule elsewhere(2))
qed

definition no_quality :: "quality_db \<Rightarrow> bool" where
  "no_quality db \<longleftrightarrow> nonconformances db = [] \<and> nc_lots db = [] \<and> decisions db = [] \<and> concessions db = [] \<and>
     lot_ids_ok (q_lots db) \<and> (\<forall>(u, s) \<in> set (uom_scales db). s \<le> 6)"

lemma no_quality_ok: "no_quality db \<Longrightarrow> quality_ok db"
  by (simp add: no_quality_def quality_ok_def tables_ok_def one_open_def id_column_def)

lemma reached_quality: "quality_step\<^sup>*\<^sup>* db db' \<Longrightarrow> no_quality db \<Longrightarrow> quality_ok db'"
  by (induction rule: rtranclp_induct) (use no_quality_ok quality_step_keeps in blast)+

lemma progress_codes_agree:
  assumes "tables_ok db"
  shows "progress_of db i = dispositionProgressCodeOf (decided_total db i) (affected_total db i)"
proof (cases "decisions_of db i")
  case Nil
  then show ?thesis by (simp add: progress_of_def dispositionProgressCode_def dispositionProgressCodeOf_def decided_total_def)
next
  case (Cons d ds)
  have pos: "0 < dd_qty x" if "x \<in> set (decisions_of db i)" for x
    using that assms by (auto simp: decisions_of_def tables_ok_def positive_def)
  have "0 \<le> sum_list (map dd_qty ds)" by (rule sum_list_nonneg) (use pos Cons in force)
  moreover have "0 < dd_qty d" using pos Cons by simp
  ultimately have "0 < decided_total db i" by (simp add: decided_total_def Cons)
  then show ?thesis by (simp add: progress_of_def dispositionProgressCode_def dispositionProgressCodeOf_def Cons remaining_qty_def)
qed


text \<open>C18. A LOT is never in two open nonconformances at once: the check under the LOT locks of a registration is enough,
  also with sorting and concessions, which open nonconformances of their own.\<close>
theorem one_open_nonconformance_per_lot:
  assumes "quality_step\<^sup>*\<^sup>* db db'" and "no_quality db"
    and "r \<in> set (nc_lots db')" and "r' \<in> set (nc_lots db')" and "nl_lot_id r = nl_lot_id r'"
    and "is_open_nc db' (nl_nc_id r)" and "is_open_nc db' (nl_nc_id r')"
  shows "nl_nc_id r = nl_nc_id r'"
  using reached_quality [OF assms(1,2)] assms(3-7) unfolding quality_ok_def one_open_def by blast

text \<open>Registering and requesting leave the stock alone.\<close>

lemma register_stock: "register_nonconformance codes number time body by_user db = Inr (i, db') \<Longrightarrow> q_stock db' = q_stock db"
  by (auto simp: register_nonconformance_def bind_res_eq_Inr create_nc_def dest!: create_nc_lots split: if_splits)

lemma request_disposition_stock: "request_disposition ncId version body by_user db = Inr (v, db') \<Longrightarrow> q_stock db' = q_stock db"
  by (auto simp: request_disposition_def bind_res_eq_Inr dest!: update_nc_Inr(2) split: option.splits)

section \<open>An example\<close>

text \<open>A \<open>DEFECTIVE\<close> LOT with ten pieces in stock: five are reported, and sorting finds three of them bad.\<close>

definition demo_quality :: quality_db where
  "demo_quality = \<lparr>q_stock = example_received,
     q_lots = empty_lot_db\<lparr>lots := [held_lot\<lparr>lot_id := 9, lot_status_code := ''DEFECTIVE''\<rparr>], lot_seq := 10\<rparr>,
     q_approvals = demo_approvals [] [], nonconformances = [], nc_seq = 1, nc_lots = [], decisions = [], decision_seq = 1,
     concessions = [], concession_seq = 1, result_requests = [], item_units = [(3, 1)], uom_scales = [(1, 2)],
     work_order_ids = [], department_ids = [], defect_warehouses = []\<rparr>"

definition demo_report :: NonconformanceCreate where
  "demo_report = \<lparr>np_itemId = 3, np_workOrderId = None, np_inspectionResultId = None, np_severityCode = ''MINOR'',
     np_description = ''scratched'', np_departmentId = None, np_lots = [\<lparr>np_lotId = 9, np_affectedQty = 5, np_uomId = 1\<rparr>]\<rparr>"

definition demo_sorting :: DispositionDecisionCreate where
  "demo_sorting = \<lparr>dc_typeCode = SORT, dc_qty = 5, dc_uomId = 1, dc_reason = ''sorted'', dc_acceptedQty = Some 2,
     dc_rejectedQty = Some 3, dc_businessDate = Some ''2026-01-02''\<rparr>"

definition store_after :: "('a \<times> quality_db) res \<Rightarrow> quality_db" where
  "store_after r = (case r of Inl e \<Rightarrow> demo_quality | Inr (v, db) \<Rightarrow> db)"

definition demo_registered :: quality_db where
  "demo_registered = store_after (register_nonconformance [(''NONCONFORMANCE_SEVERITY'', ''MINOR'')] (Inr ''NC-1'') 100 demo_report 7 demo_quality)"

definition demo_requested :: quality_db where
  "demo_requested = store_after (request_disposition 1 1 \<lparr>dq_requestedQty = 5, dq_uomId = 1\<rparr> 7 demo_registered)"

definition demo_sort_run :: "(DispositionResult \<times> quality_db) res" where
  "demo_sort_run = create_disposition (Inr ''NC-2'') 200 1 2 demo_sorting 7 demo_requested"

definition demo_sorted :: quality_db where
  "demo_sorted = store_after demo_sort_run"

lemma store_afterI: "\<not> isl r \<Longrightarrow> \<exists>v. r = Inr (v, store_after r)"
  by (cases r) (auto simp: store_after_def)

lemma demo_start: "no_quality demo_quality"
  by (simp add: no_quality_def demo_quality_def lot_ids_ok_def empty_lot_db_def id_column_def held_lot_def)

lemma demo_steps: "quality_step demo_quality demo_registered" "quality_step demo_registered demo_requested"
  and demo_stock: "q_stock demo_requested = example_received"
proof -
  have "\<not> isl (register_nonconformance [(''NONCONFORMANCE_SEVERITY'', ''MINOR'')] (Inr ''NC-1'') 100 demo_report 7 demo_quality)"
    by code_simp
  from store_afterI [OF this] obtain i where r: "register_nonconformance [(''NONCONFORMANCE_SEVERITY'', ''MINOR'')] (Inr ''NC-1'') 100
      demo_report 7 demo_quality = Inr (i, demo_registered)" unfolding demo_registered_def by blast
  have "\<not> isl (request_disposition 1 1 \<lparr>dq_requestedQty = 5, dq_uomId = 1\<rparr> 7 demo_registered)" by code_simp
  from store_afterI [OF this] obtain v where q: "request_disposition 1 1 \<lparr>dq_requestedQty = 5, dq_uomId = 1\<rparr> 7 demo_registered = Inr (v, demo_requested)"
    unfolding demo_requested_def by blast
  show "quality_step demo_quality demo_registered" by (rule quality_step.register [OF r])
  show "quality_step demo_registered demo_requested" by (rule quality_step.ask [OF q])
  show "q_stock demo_requested = example_received"
    using register_stock [OF r] request_disposition_stock [OF q] by (simp add: demo_quality_def)
qed

lemma demo_sort_done: "\<not> isl demo_sort_run"
  by code_simp

lemma demo_reached: "quality_step\<^sup>*\<^sup>* demo_quality demo_requested" "quality_step\<^sup>*\<^sup>* demo_quality demo_sorted"
proof -
  show one: "quality_step\<^sup>*\<^sup>* demo_quality demo_requested" using demo_steps by (meson converse_rtranclp_into_rtranclp rtranclp.rtrancl_refl)
  have "quality_step demo_requested demo_sorted"
    using store_afterI [OF demo_sort_done] unfolding demo_sorted_def demo_sort_run_def by (elim exE) (rule quality_step.decide)
  with one show "quality_step\<^sup>*\<^sup>* demo_quality demo_sorted" by (rule rtranclp.rtrancl_into_rtrancl)
qed


theorem one_open_nonconformance_per_lot_witness:
  "\<exists>r. r \<in> set (nc_lots demo_sorted) \<and> nl_lot_id r = 10 \<and> is_open_nc demo_sorted (nl_nc_id r) \<and> nl_nc_id r = nl_nc_id (nc_lots demo_sorted ! 1)"
proof -
  let ?r = "nc_lots demo_sorted ! 1"
  have facts: "length (nc_lots demo_sorted) = 2 \<and> nl_lot_id ?r = 10 \<and> is_open_nc demo_sorted (nl_nc_id ?r)" by code_simp
  then have "?r \<in> set (nc_lots demo_sorted)" by simp
  with one_open_nonconformance_per_lot [OF demo_reached(2) demo_start this this] facts show ?thesis by blast
qed

end
