(* ===== verification/Disposition_Sort.thy ===== *)
theory Disposition_Sort
  imports Quality_Life
begin

text \<open>
  What sorting (\<open>disposition-sort.ts\<close>) does across the components it touches: the LOT is split, the stock of the
  rejected part moves on the ledger from the one LOT to the other, the two LOTs end in different statuses, and the
  rejected part gets a nonconformance of its own.
\<close>

section \<open>What sorting does to a LOT and its stock\<close>

lemma find_update_lots:
  "(\<And>l. lot_id (f l) = lot_id l) \<Longrightarrow>
   find_lot (update_lots ids f ldb) i = map_option (\<lambda>l. if lot_id l \<in> ids then f l else l) (find_lot ldb i)"
  unfolding find_lot_def update_lots_def by (simp add: find_map_key [of lot_id "\<lambda>l. if lot_id l \<in> ids then f l else l"])

lemma move_one_lot:
  assumes "move_or_locked db [i] action ctx = Inr (m, db')" and "lot_ids_ok (q_lots db)"
    and "find_transition TRANSITIONS QUALITY_COLUMN action = Some t"
  shows "db' = db\<lparr>q_lots := q_lots db'\<rparr> \<and>
    find_lot (q_lots db') j = map_option (\<lambda>l. if lot_id l = i then to_quality t l else l) (find_lot (q_lots db) j) \<and> lot_ids_ok (q_lots db')"
proof -
  from assms(1) obtain r ldb where mv: "moveQuality (q_lots db) [i] action ctx = Inr (r, ldb)" and some: "movedLotIds r \<noteq> []"
    and db': "db' = db\<lparr>q_lots := ldb\<rparr>" by (auto simp: move_or_locked_def bind_res_eq_Inr split: if_splits)
  show ?thesis
  proof (rule moveQuality_effect [OF mv assms(2)])
    fix t' code'
    assume t': "find_transition TRANSITIONS QUALITY_COLUMN action = Some t'"
      and moved: "movedLotIds r = map lot_id (filter (quality_accepts t') (lots_in (q_lots db) [i]))"
      and ldb: "ldb = (update_lots (set (movedLotIds r)) (to_quality t') (q_lots db))
        \<lparr>status_events := status_events (q_lots db) @ map (quality_event t' code' ctx) (filter (quality_accepts t') (lots_in (q_lots db) [i]))\<rparr>"
    have "set (movedLotIds r) \<subseteq> {i}" by (auto simp: moved lots_in_def)
    with some have "set (movedLotIds r) = {i}" by (cases "movedLotIds r") auto
    with ldb have "find_lot ldb j = find_lot (update_lots {i} (to_quality t') (q_lots db)) j" by (simp add: find_lot_def)
    moreover have "lots_grow (q_lots db) ldb" by (rule moveQuality_grow [OF mv assms(2)])
    moreover have "t' = t" using t' assms(3) by simp
    ultimately show ?thesis using assms(2) by (simp add: db' find_update_lots to_quality_def lots_grow_def)
  qed
qed

text \<open>A balance with stock was posted to, so its columns are those of its warehouse.\<close>

lemma stocked_at_home:
  assumes "inv_ok stock" and "b \<in> set (balances stock)" and "0 < on_hand_qty b"
  obtains org where "warehouses stock (warehouseId (dim b)) = Some org" and "legalEntityId (dim b) = org_legalEntityId org"
    and "businessUnitId (dim b) = org_businessUnitId org" and "plantId (dim b) = org_plantId org"
proof -
  let ?ws = "warehouses stock"
  have ok: "ledger_ok stock" and wf: "wf_balances stock" using assms(1) by (auto simp: inv_ok_def ledger_ok_def)
  have "find_balance stock (dim b) = Some b"
    using wf assms(2) find_by_key [of row_key "balances stock" b] by (simp add: wf_balances_def find_balance_def)
  then have "on_hand_at stock (dim b) = on_hand_qty b" by (simp add: on_hand_at_find [OF wf])
  then have "net ?ws (ledger stock) (dim b) \<noteq> 0" using ok assms(3) by (simp add: ledger_ok_def)
  then obtain line where "line_delta ?ws line (dim b) \<noteq> 0"
    unfolding net_def by (metis (mono_tags, lifting) sum_list_0 map_eq_conv)
  then obtain e where "touches ?ws line e (dim b)" by (auto simp: line_delta_def split: if_splits)
  then obtain ep org where org: "?ws (ep_warehouseId ep) = Some org" and key: "dim_key (endpoint_dimension org line ep) = row_key b"
    by (auto simp: touches_def split: option.splits)
  from key have "warehouseId (dim b) = ep_warehouseId ep" "legalEntityId (dim b) = org_legalEntityId org"
    "businessUnitId (dim b) = org_businessUnitId org" "plantId (dim b) = org_plantId org"
    by (cases "dim b"; simp add: dim_key_def endpoint_dimension_def)+
  with org show ?thesis using that by simp
qed

definition child_key :: "balance_row \<Rightarrow> id \<Rightarrow> BalanceDimension" where
  "child_key b child = dim_key ((dim b)\<lparr>lotId := Some child\<rparr>)"

lemma sort_touches:
  assumes "warehouses stock (warehouseId (dim b)) = Some org" and "legalEntityId (dim b) = org_legalEntityId org"
    and "businessUnitId (dim b) = org_businessUnitId org" and "plantId (dim b) = org_plantId org"
  shows "touches (warehouses stock) (sort_line b input lot source target) (Some (sort_endpoint b)) k \<longleftrightarrow> dim_key k = child_key b lot"
  using assms by (cases "dim b") (auto simp: touches_def sort_endpoint_def sort_line_def endpoint_dimension_def child_key_def)

lemma sort_line_fields [simp]:
  "pl_from (sort_line b input lot source target) = source" "pl_to (sort_line b input lot source target) = target"
  "pl_qty (sort_line b input lot source target) = so_qty input"
  by (simp_all add: sort_line_def)

lemma moveStock_effect:
  assumes run: "moveStock db child input = Inr db'" and b: "stock_of_lot db (so_parentLotId input) = [b]" and ok: "inv_ok (q_stock db)"
    and free: "\<forall>t \<in> set (transactions (q_stock db)). idempotency_key t \<noteq> sort_idempotency_key (so_decisionId input)"
  shows "inv_ok (q_stock db') \<and> so_qty input \<le> on_hand_qty b \<and> db' = db\<lparr>q_stock := q_stock db'\<rparr> \<and>
    on_hand_at (q_stock db') k = on_hand_at (q_stock db) k - (if dim_key k = row_key b then so_qty input else 0) +
      (if dim_key k = child_key b child then so_qty input else 0)"
proof -
  from run b obtain date p stock where post: "post (q_stock db) (sort_posting b input child date) = Inr (p, stock)"
    and le: "so_qty input \<le> on_hand_qty b" and db': "db' = db\<lparr>q_stock := stock\<rparr>"
    by (auto simp: moveStock_def bind_res_eq_Inr split: option.splits if_splits)
  have "find_posted (q_stock db) (pi_idempotencyKey (sort_posting b input child date)) date = None"
    using free by (auto simp: find_posted_def find_None_iff sort_posting_def)
  with post have new: "\<not> pr_alreadyPosted p"
    by (cases rule: post_cases) (auto simp: sort_posting_def)
  have mem: "b \<in> set (balances (q_stock db))" "0 < on_hand_qty b" "lotId (dim b) = Some (so_parentLotId input)"
    using arg_cong [OF b, of set] by (auto simp: stock_of_lot_def)
  have parent: "child_key b (so_parentLotId input) = row_key b" using mem(3) by (cases "dim b") (simp add: child_key_def)
  show ?thesis
  proof (rule stocked_at_home [OF ok mem(1,2)])
    fix org assume org: "warehouses (q_stock db) (warehouseId (dim b)) = Some org" "legalEntityId (dim b) = org_legalEntityId org"
      "businessUnitId (dim b) = org_businessUnitId org" "plantId (dim b) = org_plantId org"
    have "net (warehouses (q_stock db)) (pi_lines (sort_posting b input child date)) k =
        (if dim_key k = child_key b child then so_qty input else 0) - (if dim_key k = row_key b then so_qty input else 0)"
      using sort_touches [OF org] parent by (simp add: sort_posting_def net_def line_delta_def)
    then show ?thesis using post_on_hand [OF post new ok, of k] post_fresh_result(1) [OF post new ok] le by (simp add: db')
  qed
qed

definition status_of :: "quality_db \<Rightarrow> id \<Rightarrow> code option" where
  "status_of db i = map_option lot_status_code (find_lot (q_lots db) i)"

definition split_stock :: "quality_db \<Rightarrow> quality_db \<Rightarrow> balance_row \<Rightarrow> id \<Rightarrow> decimal \<Rightarrow> bool" where
  "split_stock db db' b child q \<longleftrightarrow> inv_ok (q_stock db') \<and> q \<le> on_hand_qty b \<and>
     (\<forall>k. on_hand_at (q_stock db') k = on_hand_at (q_stock db) k - (if dim_key k = row_key b then q else 0) +
        (if dim_key k = child_key b child then q else 0))"

lemma sort_transitions:
  obtains t t' where "find_transition TRANSITIONS QUALITY_COLUMN ''disposition-sort'' = Some t" and "tr_to t = ''NORMAL''"
    and "find_transition TRANSITIONS QUALITY_COLUMN ''disposition-sort-defect'' = Some t'" and "tr_to t' = ''DEFECTIVE''"
proof -
  have "case (find_transition TRANSITIONS QUALITY_COLUMN ''disposition-sort'', find_transition TRANSITIONS QUALITY_COLUMN ''disposition-sort-defect'') of
      (Some t, Some t') \<Rightarrow> tr_to t = ''NORMAL'' \<and> tr_to t' = ''DEFECTIVE'' | _ \<Rightarrow> False" by code_simp
  then show ?thesis using that by (auto split: option.splits)
qed

lemma splitOff_stock:
  assumes run: "splitOffWithin db input = Inr (r, db')" and lok: "lot_ids_ok (q_lots db)"
    and b: "stock_of_lot db (so_parentLotId input) = [b]" and ok: "inv_ok (q_stock db)"
    and free: "\<forall>t \<in> set (transactions (q_stock db)). idempotency_key t \<noteq> sort_idempotency_key (so_decisionId input)"
  shows "split_stock db db' b (st_splitLotId r) (so_qty input) \<and> lot_ids_ok (q_lots db') \<and> st_splitLotId r \<noteq> so_parentLotId input \<and>
    find_lot (q_lots db') (so_parentLotId input) \<noteq> None \<and>
    (\<exists>c. find_lot (q_lots db') (st_splitLotId r) = Some c \<and> lot_status_code c = ''DEFECTIVE'' \<and>
       initial_qty c = to_scale (so_qty input) \<and> parent_lot_id c = Some (so_parentLotId input)) \<and>
    (\<exists>row \<in> set (nc_lots db'). nl_nc_id row = st_splitNonconformanceId r \<and> nl_lot_id row = st_splitLotId r \<and>
       nl_affected_qty row = to_scale (so_qty input))"
proof (rule splitOff_parts [OF run])
  fix ldb db1 m db2
  let ?child = "st_splitLotId r"
  assume sp: "splitLotWithin (q_lots db) \<lparr>sp_parentLotId = so_parentLotId input, sp_qty = so_qty input, sp_sourceEventTypeCode = SOURCE_TYPE,
        sp_sourceEventId = so_decisionId input, sp_occurredAt = so_decidedAt input, sp_createdBy = Some (so_appUserId input)\<rparr>
        = Inr ((?child, st_splitLotNo r), ldb)"
    and ms: "moveStock (db\<lparr>q_lots := ldb\<rparr>) ?child input = Inr db1"
    and mv: "move_or_locked db1 [?child] ''disposition-sort-defect''
       (sort_move_context (so_appUserId input) (so_decidedAt input) (so_decisionId input) (so_reason input)) = Inr (m, db2)"
    and op: "openSplitNonconformance db2 ?child input = Inr (st_splitNonconformanceId r, db')"
  obtain t where t: "find_transition TRANSITIONS QUALITY_COLUMN ''disposition-sort-defect'' = Some t" "tr_to t = ''DEFECTIVE''"
    by (rule sort_transitions)
  let ?in = "\<lparr>sp_parentLotId = so_parentLotId input, sp_qty = so_qty input, sp_sourceEventTypeCode = SOURCE_TYPE,
        sp_sourceEventId = so_decisionId input, sp_occurredAt = so_decidedAt input, sp_createdBy = Some (so_appUserId input)\<rparr>"
  obtain parent where g: "find_lot (q_lots db) (sp_parentLotId ?in) = Some parent" and fresh: "?child \<notin> lots_known (q_lots db)"
    and grow: "lots_grow (q_lots db) ldb"
    and ldb: "lots ldb = lots (q_lots db) @ [(split_child parent ?in (st_splitLotNo r))\<lparr>lot_id := ?child, initial_qty := to_scale (sp_qty ?in)\<rparr>]"
    by (rule splitLotWithin_grow [OF sp lok])
  from g have parent: "find_lot (q_lots db) (so_parentLotId input) = Some parent" by simp
  have pk: "so_parentLotId input \<in> lots_known (q_lots db)"
    using parent find_key [of lot_id "so_parentLotId input" "lots (q_lots db)" parent] by (force simp: find_lot_def lots_known_def)
  have ne: "?child \<noteq> so_parentLotId input" using fresh pk by auto
  have "find (\<lambda>l. lot_id l = ?child) (lots (q_lots db)) = None"
    using fresh unfolding find_None_iff lots_known_def by (metis image_eqI)
  then have c: "\<exists>c. find_lot ldb ?child = Some c \<and> lot_id c = ?child \<and> initial_qty c = to_scale (so_qty input) \<and>
      parent_lot_id c = Some (so_parentLotId input)" by (simp add: find_lot_def ldb find_append split_child_def)
  have p: "find_lot ldb (so_parentLotId input) = Some parent" using parent by (simp add: find_lot_def ldb find_append)
  have b': "stock_of_lot (db\<lparr>q_lots := ldb\<rparr>) (so_parentLotId input) = [b]" using b by (simp add: stock_of_lot_def)
  note stock = moveStock_effect [OF ms b', simplified, OF ok free]
  have q1: "q_lots db1 = ldb" using stock [of undefined] by (cases db1; cases db) auto
  have l1: "lot_ids_ok (q_lots db1)" using grow lok by (simp add: q1 lots_grow_def)
  note mo = move_one_lot [OF mv l1 t(1), unfolded q1]
  show ?thesis
  proof (rule openSplit_effect [OF op])
    fix n row assume fin: "db' = open_nc n [row] db2" and row: "nl_nc_id row = nc_seq db2" "nl_lot_id row = ?child"
      "nl_affected_qty row = to_scale (so_qty input)" "st_splitNonconformanceId r = nc_seq db2"
    have ql: "q_lots db' = q_lots db2" by (simp add: fin open_nc_def)
    have "db2 = db1\<lparr>q_lots := q_lots db2\<rparr>" using mo [of undefined] by blast
    from arg_cong [OF this, of q_stock] have qs: "q_stock db' = q_stock db1" by (simp add: fin open_nc_def)
    have "split_stock db db' b ?child (so_qty input)" unfolding split_stock_def qs using stock by blast
    moreover have "row \<in> set (nc_lots db')" by (simp add: fin open_nc_def)
    moreover have "find_lot (q_lots db') (so_parentLotId input) \<noteq> None" using mo p by (simp add: ql)
    moreover have "\<exists>c. find_lot (q_lots db') ?child = Some c \<and> lot_status_code c = ''DEFECTIVE'' \<and>
        initial_qty c = to_scale (so_qty input) \<and> parent_lot_id c = Some (so_parentLotId input)"
      using c mo t(2) by (auto simp: ql to_quality_def)
    ultimately show ?thesis using ne row mo by (auto simp: ql)
  qed
qed

definition lot_divided :: "quality_db \<Rightarrow> id \<Rightarrow> SortResult \<Rightarrow> decimal \<Rightarrow> bool" where
  "lot_divided db parent r q \<longleftrightarrow> status_of db parent = Some ''NORMAL'' \<and>
     (\<exists>c. find_lot (q_lots db) (st_splitLotId r) = Some c \<and> lot_status_code c = ''DEFECTIVE'' \<and> initial_qty c = q \<and>
        parent_lot_id c = Some parent) \<and>
     (\<exists>row \<in> set (nc_lots db). nl_nc_id row = st_splitNonconformanceId r \<and> nl_lot_id row = st_splitLotId r \<and> nl_affected_qty row = q)"

lemma lot_divided_same: "q_lots db' = q_lots db \<Longrightarrow> nc_lots db' = nc_lots db \<Longrightarrow> lot_divided db' parent r q = lot_divided db parent r q"
  by (simp add: lot_divided_def status_of_def)

lemma split_stock_same: "q_stock db1 = q_stock db2 \<Longrightarrow> q_stock db1' = q_stock db2' \<Longrightarrow> split_stock db1 db1' b c q = split_stock db2 db2' b c q"
  by (simp add: split_stock_def)

lemma apply_sort_stock:
  assumes run: "apply_sort db body ncId decisionId target by_user time splitNo = Inr (r, db')" and lok: "lot_ids_ok (q_lots db)"
    and parent: "tg_lotIds target = [parent]" and q: "dc_rejectedQty body = Some q" "0 < q" "scaled q"
    and b: "stock_of_lot db parent = [b]" and ok: "inv_ok (q_stock db)"
    and free: "\<forall>t \<in> set (transactions (q_stock db)). idempotency_key t \<noteq> sort_idempotency_key decisionId"
  shows "\<exists>res. r = Some res \<and> split_stock db db' b (st_splitLotId res) q \<and> lot_divided db' parent res q"
proof -
  let ?input = "\<lparr>so_nonconformanceId = ncId, so_decisionId = decisionId, so_parentLotId = parent,
      so_qty = q, so_uomId = tg_uomId target, so_businessDate = dc_businessDate body, so_reason = dc_reason body, so_appUserId = by_user,
      so_decidedAt = time, so_splitNonconformanceNo = splitNo\<rparr>"
  from run q(1,2) obtain res db1 m db2 where sp: "splitOffWithin db ?input = Inr (res, db1)" and r: "r = Some res"
    and mv: "move_or_locked db1 [parent] ''disposition-sort'' (sort_move_context by_user time decisionId (dc_reason body)) = Inr (m, db2)"
    and rel: "releaseInspectionHoldsWithin db2 m by_user time DISPOSITION_RELEASE_REASON = Inr db'"
    by (auto simp: apply_sort_def parent bind_res_eq_Inr qty_or_zero_def)
  note s = splitOff_stock [OF sp lok, simplified, OF b ok free]
  obtain t where t: "find_transition TRANSITIONS QUALITY_COLUMN ''disposition-sort'' = Some t" "tr_to t = ''NORMAL''"
    by (rule sort_transitions)
  have lok1: "lot_ids_ok (q_lots db1)" using s by blast
  note mo = move_one_lot [OF mv lok1 t(1)]
  note rl = release_holds_lots [OF rel]
  have same: "q_stock db' = q_stock db1" "nc_lots db' = nc_lots db1"
    using mo [of undefined] rl by (cases db1; cases db2; cases db'; simp)+
  have lots': "find_lot (q_lots db') j = map_option (\<lambda>l. if lot_id l = parent then to_quality t l else l) (find_lot (q_lots db1) j)" for j
    using mo [of j] rl by (simp add: find_lot_def)
  have ids: "find_lot (q_lots db1) j = Some l \<Longrightarrow> lot_id l = j" for j l
    using find_key [of lot_id j "lots (q_lots db1)" l] by (simp add: find_lot_def)
  obtain y where y: "find_lot (q_lots db1) parent = Some y" using s by blast
  have "status_of db' parent = Some ''NORMAL''" using ids [OF y] t(2) by (simp add: status_of_def lots' y to_quality_def)
  moreover obtain c where c: "find_lot (q_lots db1) (st_splitLotId res) = Some c" "lot_status_code c = ''DEFECTIVE''"
      "initial_qty c = q" "parent_lot_id c = Some parent" using s q(3) by auto
  have "find_lot (q_lots db') (st_splitLotId res) = Some c" using ids [OF c(1)] s by (simp add: lots' c(1))
  ultimately have "lot_divided db' parent res q" using s q(3) c by (simp add: lot_divided_def same)
  moreover have "split_stock db db' b (st_splitLotId res) q" using s split_stock_same [OF refl same(1)] by simp
  ultimately show ?thesis using r by blast
qed

text \<open>C19. Sorting a LOT that lies in one place: the rejected quantity leaves the balance of the LOT and arrives, at the same
  place and in the same condition, at the balance of the LOT split off for it; no other balance changes and the ledger
  stays the sum of its lines. The sorted LOT is \<open>NORMAL\<close>, the new one \<open>DEFECTIVE\<close> with the rejected quantity and its own
  row in a nonconformance.\<close>
theorem sort_divides_lot_and_stock:
  assumes "create_disposition (Inr no) time ncId version body by_user db = Inr (out, db')"
    and "dc_typeCode body = SORT" and "dc_rejectedQty body = Some q" and "0 < q"
    and "quality_ok db" and "inv_ok (q_stock db)" and "map nl_lot_id (lots_of_nc db ncId) = [parent]"
    and "stock_of_lot db parent = [b]"
    and "\<forall>t \<in> set (transactions (q_stock db)). idempotency_key t \<noteq> sort_idempotency_key (decision_seq db)"
  shows "\<exists>r. dz_sortResult out = Some r \<and> inv_ok (q_stock db') \<and> q \<le> on_hand_qty b \<and>
    (\<forall>k. on_hand_at (q_stock db') k = on_hand_at (q_stock db) k - (if dim_key k = row_key b then q else 0) +
       (if dim_key k = dim_key ((dim b)\<lparr>lotId := Some (st_splitLotId r)\<rparr>) then q else 0)) \<and>
    status_of db' parent = Some ''NORMAL'' \<and>
    (\<exists>c. find_lot (q_lots db') (st_splitLotId r) = Some c \<and> lot_status_code c = ''DEFECTIVE'' \<and> initial_qty c = q \<and>
       parent_lot_id c = Some parent) \<and>
    (\<exists>row \<in> set (nc_lots db'). nl_nc_id row = st_splitNonconformanceId r \<and> nl_lot_id row = st_splitLotId r \<and> nl_affected_qty row = q)"
proof -
  have rok: "tables_ok db" using assms(5) by (simp add: quality_ok_def)
  from assms(1-4) have run: "decide_disposition no time ncId version body by_user db = Inr (out, db')"
    by (auto simp: create_disposition_def bind_res_eq_Inr qty_or_zero_def split: if_splits)
  show ?thesis
  proof (rule decide_parts [OF run])
    fix nc target db1 r db2 closes k
    assume nc: "find_nc db ncId = Some nc" and target: "readTarget db nc = Inr target"
      and sort: "dc_typeCode body = SORT \<Longrightarrow> assertSortFitsTarget body (length (tg_lotIds target)) (tg_uomScale target) = Inr () \<and>
           assertSortWholeRemaining body target = Inr ()"
      and ins: "create_decision \<lparr>dd_id = 0, dd_nc_id = ncId, dd_type_code = dc_typeCode body, dd_qty = dc_qty body,
           dd_uom_id = dc_uomId body, dd_decided_by = by_user, dd_decided_at = time, dd_approval_request_id = None\<rparr> db = Inr (dz_decisionId out, db1)"
      and app: "(if dc_typeCode body = SORT then apply_sort db1 body ncId (dz_decisionId out) target by_user time no
          else moveLots db1 body ncId (dz_decisionId out) target by_user time) = Inr (r, db2)"
      and upd: "update_nc db2 (at_version ncId version) (decided_nc by_user time closes) = Inr (k, db')"
      and out: "out = \<lparr>dz_decisionId = dz_decisionId out, dz_sortResult = r, dz_versionNo = nc_version_no nc + 1\<rparr>"
    have "nc_id nc = ncId" using nc find_nc_iff [OF rok] by simp
    note t = readTarget_Inr [OF target, unfolded this]
    have "assertQtyPrecision ''rejectedQty'' q (tg_uomScale target) = Inr ()"
      using sort [OF assms(2)] assms(3) by (auto simp: assertSortFitsTarget_def bind_res_eq_Inr qty_or_zero_def)
    then have sc: "scaled q" using t(5) rok by (intro assertQtyPrecision_scaled) (auto simp: tables_ok_def)
    show ?thesis
    proof (rule create_decision_Inr [OF ins, of "\<lambda>n. n"])
      assume f: "q_lots db1 = q_lots db" "dz_decisionId out = decision_seq db" "q_stock db1 = q_stock db"
      from app assms(2) f(2) have "apply_sort db1 body ncId (decision_seq db) target by_user time no = Inr (r, db2)" by simp
      from apply_sort_stock [OF this _ _ assms(3,4) sc _ _ _, of parent b] rok assms(6-9) t(1) f(1,3)
      obtain res where res: "r = Some res" "split_stock db1 db2 b (st_splitLotId res) q" "lot_divided db2 parent res q"
        by (auto simp: stock_of_lot_def tables_ok_def)
      have same: "q_stock db' = q_stock db2" "q_lots db' = q_lots db2" "nc_lots db' = nc_lots db2"
        using update_nc_Inr(2) [OF upd] by simp_all
      have "split_stock db db' b (st_splitLotId res) q" using res(2) split_stock_same [OF f(3) same(1) [symmetric]] by simp
      moreover have "lot_divided db' parent res q" using res(3) lot_divided_same [OF same(2,3)] by simp
      moreover have "dz_sortResult out = Some res" using out res(1) by (metis DispositionResult.select_convs(2))
      ultimately show ?thesis unfolding split_stock_def lot_divided_def child_key_def by blast
    qed
  qed
qed

definition demo_balance :: balance_row where
  "demo_balance = hd (stock_of_lot demo_requested 9)"

theorem sort_divides_lot_and_stock_witness:
  "status_of demo_sorted 9 = Some ''NORMAL'' \<and> status_of demo_sorted 10 = Some ''DEFECTIVE'' \<and>
   on_hand_at (q_stock demo_sorted) (dim demo_balance) = 7 \<and>
   on_hand_at (q_stock demo_sorted) ((dim demo_balance)\<lparr>lotId := Some 10\<rparr>) = 3"
proof -
  obtain out where run: "demo_sort_run = Inr (out, demo_sorted)"
    using store_afterI [OF demo_sort_done] by (auto simp: demo_sorted_def)
  have "case demo_sort_run of Inl e \<Rightarrow> False | Inr (v, db) \<Rightarrow> map_option st_splitLotId (dz_sortResult v) = Some 10" by code_simp
  then have child: "map_option st_splitLotId (dz_sortResult out) = Some 10" by (simp add: run)
  have "length (stock_of_lot demo_requested 9) = 1 \<and> lotId (dim demo_balance) = Some 9 \<and>
      on_hand_at (q_stock demo_requested) (dim demo_balance) = 10 \<and>
      on_hand_at (q_stock demo_requested) ((dim demo_balance)\<lparr>lotId := Some 10\<rparr>) = 0" by code_simp
  then have one: "stock_of_lot demo_requested 9 = [demo_balance]" and b: "lotId (dim demo_balance) = Some 9"
    and old: "on_hand_at (q_stock demo_requested) (dim demo_balance) = 10"
      "on_hand_at (q_stock demo_requested) ((dim demo_balance)\<lparr>lotId := Some 10\<rparr>) = 0"
    by (auto simp: demo_balance_def length_Suc_conv)
  have keys: "list_all (\<lambda>t. idempotency_key t \<noteq> sort_idempotency_key (decision_seq demo_requested)) (transactions (q_stock demo_requested))"
    by code_simp
  have lots': "map nl_lot_id (lots_of_nc demo_requested 1) = [9]" by code_simp
  have ne: "dim_key ((dim demo_balance)\<lparr>lotId := Some 10\<rparr>) \<noteq> row_key demo_balance"
    using b by (cases "dim demo_balance") (simp add: dim_key_def coalesce0_def)
  have "dc_typeCode demo_sorting = SORT" "dc_rejectedQty demo_sorting = Some 3" "(0::rat) < 3" by (simp_all add: demo_sorting_def)
  from sort_divides_lot_and_stock [OF run [unfolded demo_sort_run_def] this reached_quality [OF demo_reached(1) demo_start]
      _ lots' one] keys example_ok(2) demo_stock child ne old
  show ?thesis by (auto simp: list_all_iff status_of_def)
qed

end
