(* ===== verification/Spec2Isabelle.thy ===== *)
theory Spec2Isabelle
  imports Document_State Inventory_Operations Replenishment Source_Warehouse Numbering Notifications Idempotency Approval Lot_Life Disposition_Sort
begin

text \<open>
  \<^bold>\<open>Verification development of the MES server\<close> (a NestJS backend, TypeScript under \<open>src/src\<close>).

  \<^bold>\<open>The program.\<close> The endpoints of \<open>logistics\<close>, \<open>production\<close>, \<open>quality\<close>, \<open>trace\<close>, \<open>planning\<close>, \<open>mdm\<close> and \<open>app\<close> are
  mostly row editing around a few cores under \<open>src/core\<close> and \<open>src/common\<close>, and these cores decide everything that must
  stay right: what is in stock, what is reserved and picked, which status a document may enter, which number it gets,
  who has approved it, which LOT may be used and what it was made from. The development models these cores. Every
  write request passes the guards of \<open>src/common\<close> and then runs one database transaction; a core never opens a
  transaction but works on the one it is given. So an operation of the model is a function from its input and the
  store to either an error (the transaction is rolled back) or a result and the new store.

  \<^bold>\<open>Conventions.\<close> A table is a list of rows in the order of its ids with its id sequence; \<open>id_column\<close> says that ids are
  increasing and below the sequence. Errors are the values of \<open>app_error\<close> (\<open>src/common/errors\<close>), with the Korean
  message texts left out. \<open>throw new Error\<close> is \<open>InternalError\<close>, an error of the driver is \<open>DbError\<close>. Ids and times are
  integers (times in milliseconds), \<open>Decimal\<close> is a rational number, and a \<open>numeric(20,6)\<close> column rounds to millionths
  where the code relies on it (\<open>to_scale\<close>). Row locks return the rows they read: they protect from other transactions,
  and where an operation does allow for one (reversal, idempotency), the model has a second store for what it had
  read before. Strings are lists of characters with code points below 256. Parameters of the model, for what is not
  under \<open>src\<close>: the hash of the idempotency fingerprint, the collation order of the database, random bytes, and the
  number text of JavaScript for numbers of more than 21 digits.

  \<^bold>\<open>Theories.\<close>

  \<^item> \<open>Prelude\<close>, \<open>Js_Containers\<close>, \<open>Js_Strings\<close>: results and loops over results (\<open>bind_res\<close>, \<open>guard_res\<close>, \<open>fold_res\<close>,
    \<open>map_res\<close> with the rules \<open>res_simps\<close>), stable sorting with a comparator (locale \<open>comparison\<close>), insertion-ordered
    maps, decimal text and padding, id columns.
  \<^item> \<open>Api_Errors\<close>: exceptions, driver errors, the two response envelopes (\<open>src/common/errors\<close>).
  \<^item> \<open>Contract_Registry\<close>, \<open>Request_Guards\<close>, \<open>Idempotency\<close>: which headers the contract files declare, the idempotency
    and \<open>If-Match\<close> guards with the \<open>ETag\<close>, replaying a request (\<open>src/common/contract\<close>, \<open>idempotency\<close>, \<open>optimistic-lock\<close>).
  \<^item> \<open>Transition_Tables\<close>, \<open>Document_State\<close>: the complete transition registry and \<open>DocumentStateService\<close>
    (\<open>src/core/document-state\<close>). The locales \<open>status_axis\<close> and \<open>ranked_axis\<close> carry what holds of every status column.
  \<^item> \<open>Inventory_Balance\<close>, \<open>Balance_Facts\<close>, \<open>Reservation_Qty\<close>, \<open>Inventory_Posting\<close>, \<open>Inventory_Reversal\<close>,
    \<open>Inventory_Operations\<close>: the stock ledger and its balances (\<open>src/core/inventory-posting\<close>). The locale
    \<open>guarded_update\<close> is the contract of the three quantity movements, \<open>inventory_operation\<close> that of the six operations.
  \<^item> \<open>Picking_Allocation\<close>, \<open>Picking_Generation\<close>: dividing stock among the demands of a request (\<open>src/core/picking\<close>).
  \<^item> \<open>Request_Lifecycle\<close>, \<open>Planned_Stock\<close>, \<open>Source_Warehouse\<close>, \<open>Release_Request\<close>, \<open>Replenishment\<close>: material issue
    requests from planning to settlement (\<open>src/core/material-issue\<close>).
  \<^item> \<open>Numbering\<close>: document numbers (\<open>src/core/numbering\<close>).
  \<^item> \<open>Message_Format\<close>, \<open>Notifications\<close>: notices and the queue of the messenger (\<open>src/core/notification\<close>); the locale
    \<open>notice_operation\<close> is what both ways of telling share.
  \<^item> \<open>Approval\<close>: approval requests, their steps and decisions (\<open>src/core/approval\<close>).
  \<^item> \<open>Lot_Tables\<close>, \<open>Lot_Number\<close>, \<open>Lot_Genealogy\<close>, \<open>Lot_Status\<close>, \<open>Lot_Registry\<close>: LOT numbers, genealogy from times of
    input, the two status axes, holds, splitting and registration (\<open>src/core/lot\<close>), with the choice of the inspection
    plan (\<open>src/core/quality/inspection-plan-version.ts\<close>) and the list of LOTs a recall must find
    (\<open>src/trace/lot/lot-impact.service.ts\<close>).
  \<^item> \<open>Lot_Hold_Service\<close>: registering and releasing holds (\<open>src/quality/lot-hold\<close>) and the approved skip of the incoming
    inspection (\<open>src/trace/lot/lot-iqc-skip-execute.service.ts\<close>). \<open>Lot_Life\<close>: all LOT operations as the steps of one
    machine, with the locale \<open>lot_operation\<close> as their contract.
  \<^item> \<open>Nonconformance\<close>, \<open>Disposition\<close>, \<open>Concession\<close>: reporting bad material and deciding what happens to it
    (\<open>src/quality/nonconformance\<close>, \<open>disposition\<close>, \<open>concession\<close>). Their store \<open>quality_db\<close> holds the LOT store, the
    stock ledger and the approvals, because sorting splits a LOT and posts its stock in one transaction.
    \<open>Quality_Life\<close>: all of them as the steps of one machine, next to any change from elsewhere; \<open>Disposition_Sort\<close>:
    what sorting does across LOTs, ledger and nonconformances.

  \<^bold>\<open>What is proved.\<close> The texts before the theorems numbered C1 to C40 state them; in groups:

  \<^item> Stock: from an empty store, after any posts, reversals, reservations, picks, consumptions and releases, a balance
    is the sum of its ledger lines and passes the database's checks; posting is idempotent, a posting and its reversal
    cancel, a transaction is reversed once, transfers conserve stock, and refusals have exactly the documented reasons.
  \<^item> Requests: allocation stays within stock and accounts for every demand; releases and replenishment always succeed on
    well-formed stores and never plan more of a warehouse than there is; shortages are shared as by a closed formula.
  \<^item> Documents: the decisions of an approval implement an abstract approval (an abstraction function and one commuting
    step per decision), one open request per document, numbers never repeat, scrapped LOTs are final.
  \<^item> Requests over the network: a repeated key never writes twice, declared headers are enforced, versions round-trip.
  \<^item> Notices: every delivery belongs to a notification, one per recipient.
  \<^item> LOTs: in every store that the LOT operations reach, the rows keep their domains, and a LOT with an open hold is
    never in the status that lets it be used; releasing and registering holds do what they say, to all LOTs or to
    none; the input windows agree with the plain reading of the inputs; the genealogy is acyclic; a recall misses no
    production LOT; printed numbers read back, and the next number is fresh.
  \<^item> Nonconformances: in every store reached by registering, deciding and conceding, nothing is decided twice, a
    nonconformance is closed exactly when its decisions have used it up, a LOT is in one open nonconformance at most;
    sorting moves exactly the rejected quantity to the LOT split off and leaves every other balance alone.

  \<^bold>\<open>Bounds and termination.\<close> Every definition is a total function: loops over rows are recursions over lists. Two loops
  have no bound in the code. \<open>randomChars\<close> draws random bytes until it has enough: the model takes the bytes as a list
  of chunks and returns \<open>None\<close> when they run out (one chunk is enough for the alphabet of 32 letters). The counter of
  \<open>numbering\<close> is one statement. Picking retries and the other waits for another transaction are the \<open>reverse_between\<close> and
  \<open>replayExisting\<close> branches.

  \<^bold>\<open>Not modelled, and why.\<close>

  \<^item> Screens and lists (\<open>src/common/pagination\<close>, all list and detail queries): they read and format rows.
  \<^item> The master data, planning, production, maintenance and logistics endpoints: field-by-field row editing whose
    status changes, stock effects, numbers and notices are the modelled cores.
  \<^item> \<open>src/integration\<close>, \<open>src/auth\<close>, \<open>src/common/attachment-storage\<close>: they are made of calls to outside services, token
    and hash libraries and the disk, whose behaviour the repository does not show.
  \<^item> In the modelled parts: response views, message texts, logging, advisory locks (no effect inside one transaction),
    the JSON schema validator of the contract layer (a library), \<open>iqc-handover.ts\<close> and \<open>picking-handover.ts\<close> (callers of
    the notification emitter), and the two user-interface lookups of \<open>message-format.ts\<close> that only choose display text.
  \<^item> Quality: inspection plans, requests and results beyond the choice of a plan version; their status columns are in the
    transition registry, their moves of LOTs go through \<open>moveQuality\<close> and \<open>lotsFreeOfOpenHolds\<close>. In the modelled part:
    texts composed for the screen (the description of a nonconformance, the reason column of a decision), the issue of a
    rework work order, the queries. A quantity that passes through a JavaScript number is exact up to 15 digits, and the
    model takes it as exact.
  \<^item> Dispositions and concessions move a LOT to \<open>NORMAL\<close> and close only its incoming-inspection holds, so they may leave
    another hold open (the picking endpoints look at open holds themselves); they are not steps of \<open>Lot_Life\<close>.

  \<^bold>\<open>What the modelling showed.\<close> Eight places where a comment and the code disagree are listed in the manifest; among them:
  a \<open>DEFECTIVE\<close> LOT has more ways out than the table's comment says (\<open>defective_lot_actions\<close>), two statuses of a work
  order can be left but never entered (\<open>work_order_reachable_statuses\<close>), and a backslash in an item or supplier code makes
  the search for the last LOT number miss the LOTs that are there (\<open>backslash_number_repeats\<close>).
\<close>

end
